(* ===== verification/Rust_Std.thy ===== *)
theory Rust_Std
  imports Complex_Main "HOL-Library.Word"
begin

text \<open>
  Prelude: the parts of Rust's standard library the server's code relies on, and the
  generic facts the component theories share.

  A Rust \<open>str\<close> is its list of UTF-8 bytes, an Isabelle \<^typ>\<open>string\<close> (a list of
  8-bit characters), so \<open>len()\<close> is \<^const>\<open>length\<close> and slicing is by byte.
  \<open>trim\<close>, \<open>lines\<close>, \<open>split\<close> and the integer parsers follow the documented
  behaviour of the standard library; results that a program can fail to produce are
  \<open>option\<close> or sum values.  The integer casts \<open>as i32\<close>, \<open>as u32\<close>, \<open>as i64\<close> are written
  out on \<^typ>\<open>int\<close> with their wrap-around.  \<open>Instant\<close> and \<open>Duration\<close> are numbers of
  nanoseconds, so Rust's \<open>saturating_duration_since\<close> is subtraction on \<^typ>\<open>nat\<close>.
\<close>

named_theorems rust_std \<open>definitions of the modelled standard library functions\<close>
named_theorems res_iff \<open>when a fallible computation succeeds, step by step\<close>

section \<open>Fallible computations\<close>

text \<open>The \<open>?\<close> operator: propagate an error, go on with a value.\<close>

definition bind_res :: "'e + 'a \<Rightarrow> ('a \<Rightarrow> 'e + 'b) \<Rightarrow> 'e + 'b" where
  "bind_res m f = (case m of Inl e \<Rightarrow> Inl e | Inr x \<Rightarrow> f x)"

lemma bind_res_simps [simp]:
  "bind_res (Inl e) f = Inl e"
  "bind_res (Inr x) f = f x"
  by (simp_all add: bind_res_def)

lemma bind_res_Inr [res_iff]: "bind_res m f = Inr y \<longleftrightarrow> (\<exists>x. m = Inr x \<and> f x = Inr y)"
  by (cases m) auto

lemma bind_res_Inl: "bind_res m f = Inl e \<longleftrightarrow> m = Inl e \<or> (\<exists>x. m = Inr x \<and> f x = Inl e)"
  by (cases m) auto

definition ok_or :: "'e \<Rightarrow> 'a option \<Rightarrow> 'e + 'a" where
  "ok_or e x = (case x of None \<Rightarrow> Inl e | Some a \<Rightarrow> Inr a)"

lemma ok_or_simps [simp]: "ok_or e None = Inl e" "ok_or e (Some a) = Inr a"
  by (simp_all add: ok_or_def)

lemma ok_or_Inr [res_iff]: "ok_or e x = Inr a \<longleftrightarrow> x = Some a"
  by (cases x) auto

section \<open>Integer casts\<close>

definition as_i32 :: "int \<Rightarrow> int" where
  [rust_std]: "as_i32 x = (x + 2 ^ 31) mod 2 ^ 32 - 2 ^ 31"

definition as_u32 :: "int \<Rightarrow> int" where
  [rust_std]: "as_u32 x = x mod 2 ^ 32"

definition as_i64 :: "int \<Rightarrow> int" where
  [rust_std]: "as_i64 x = (x + 2 ^ 63) mod 2 ^ 64 - 2 ^ 63"

definition i64_min :: int where "i64_min = - (2 ^ 63)"
definition i64_max :: int where "i64_max = 2 ^ 63 - 1"
definition i32_max :: int where "i32_max = 2 ^ 31 - 1"

lemma as_i32_id: "- (2 ^ 31) \<le> x \<Longrightarrow> x < 2 ^ 31 \<Longrightarrow> as_i32 x = x"
  by (simp add: as_i32_def)

lemma as_i64_id: "- (2 ^ 63) \<le> x \<Longrightarrow> x < 2 ^ 63 \<Longrightarrow> as_i64 x = x"
  by (simp add: as_i64_def)

lemma as_u32_id: "0 \<le> x \<Longrightarrow> x < 2 ^ 32 \<Longrightarrow> as_u32 x = x"
  by (simp add: as_u32_def)

lemma as_u32_as_i32: "as_u32 (as_i32 x) = as_u32 x"
  by (simp add: as_u32_def as_i32_def mod_diff_left_eq)

lemma as_i32_range: "- (2 ^ 31) \<le> as_i32 x \<and> as_i32 x < 2 ^ 31"
proof -
  have "0 \<le> (x + 2 ^ 31) mod 2 ^ 32" "(x + 2 ^ 31) mod 2 ^ 32 < 2 ^ 32"
    by simp_all
  then show ?thesis by (simp add: as_i32_def)
qed

text \<open>A finite \<open>f64\<close> cast to \<open>i64\<close>: truncate towards zero, saturate at the bounds.\<close>

definition trunc_rat :: "rat \<Rightarrow> int" where
  [rust_std]: "trunc_rat q = (if 0 \<le> q then \<lfloor>q\<rfloor> else - \<lfloor>- q\<rfloor>)"

definition f64_as_i64 :: "rat \<Rightarrow> int" where
  [rust_std]: "f64_as_i64 q = max i64_min (min i64_max (trunc_rat q))"

text \<open>
  An \<open>f32\<close> that a client can send: a finite value, an infinity (an out-of-range number
  narrows to one; the flag says whether it is negative) or a NaN.  An \<open>f64\<close> that an \<open>f32\<close> was
  widened to is the same value.
\<close>

datatype f32 = Fin rat | Inf bool | NaN

type_synonym f64 = f32

fun f32_is_finite :: "f32 \<Rightarrow> bool" where
  "f32_is_finite (Fin q) = True"
| "f32_is_finite _ = False"

fun f32_value :: "f32 \<Rightarrow> rat" where
  "f32_value (Fin q) = q"
| "f32_value (Inf b) = 0"
| "f32_value NaN = 0"

section \<open>Strings\<close>

definition starts_with :: "string \<Rightarrow> string \<Rightarrow> bool" where
  [rust_std]: "starts_with s p \<longleftrightarrow> take (length p) s = p"

definition ends_with :: "string \<Rightarrow> string \<Rightarrow> bool" where
  [rust_std]: "ends_with s p \<longleftrightarrow> starts_with (rev s) (rev p)"

definition strip_prefix :: "string \<Rightarrow> string \<Rightarrow> string option" where
  [rust_std]: "strip_prefix p s = (if starts_with s p then Some (drop (length p) s) else None)"

lemma starts_with_append [simp]: "starts_with (p @ s) p"
  by (simp add: starts_with_def)

lemma starts_with_decomp: "starts_with s p \<longleftrightarrow> (\<exists>r. s = p @ r)"
  by (metis append_eq_conv_conj append_take_drop_id starts_with_def)

lemma strip_prefix_append [simp]: "strip_prefix p (p @ s) = Some s"
  by (simp add: strip_prefix_def)

lemma strip_prefix_Some: "strip_prefix p s = Some r \<longleftrightarrow> s = p @ r"
  by (auto simp: strip_prefix_def starts_with_decomp)

text \<open>
  Slicing panics when the index is past the end or inside a character; \<open>Panic\<close> is the
  outcome of code that unwinds instead of returning.
\<close>

datatype 'a outcome = Panic | Ret 'a

definition is_char_boundary :: "string \<Rightarrow> nat \<Rightarrow> bool" where
  [rust_std]: "is_char_boundary s i \<longleftrightarrow>
     i = 0 \<or> i = length s \<or>
     (i < length s \<and> \<not> (128 \<le> (of_char (s ! i) :: nat) \<and> (of_char (s ! i) :: nat) < 192))"

definition slice_to :: "string \<Rightarrow> nat \<Rightarrow> string outcome" where
  [rust_std]: "slice_to s i = (if is_char_boundary s i then Ret (take i s) else Panic)"

definition slice_from :: "string \<Rightarrow> nat \<Rightarrow> string outcome" where
  [rust_std]: "slice_from s i = (if is_char_boundary s i then Ret (drop i s) else Panic)"

text \<open>\<open>str::split\<close> on a character, and joining with a separator.\<close>

fun split_on :: "char \<Rightarrow> string \<Rightarrow> string list" where
  "split_on c [] = [[]]"
| "split_on c (x # xs) =
     (if x = c then [] # split_on c xs
      else (case split_on c xs of [] \<Rightarrow> [[x]] | y # ys \<Rightarrow> (x # y) # ys))"

fun join_with :: "string \<Rightarrow> string list \<Rightarrow> string" where
  "join_with sep [] = []"
| "join_with sep [x] = x"
| "join_with sep (x # xs) = x @ sep @ join_with sep xs"

lemma split_on_nonempty [simp]: "split_on c s \<noteq> []"
  by (cases s) (auto split: list.splits)

lemma join_split_on: "join_with [c] (split_on c s) = s"
proof (induction s)
  case Nil
  then show ?case by simp
next
  case (Cons x xs)
  obtain y ys where yys: "split_on c xs = y # ys"
    by (cases "split_on c xs") auto
  with Cons.IH show ?case
    by (cases ys) auto
qed

lemma split_on_plain: "c \<notin> set s \<Longrightarrow> split_on c s = [s]"
  by (induction s) auto

lemma split_on_append: "c \<notin> set s \<Longrightarrow> split_on c (s @ c # t) = s # split_on c t"
  by (induction s) auto

lemma split_join_with:
  "xs \<noteq> [] \<Longrightarrow> \<forall>x\<in>set xs. c \<notin> set x \<Longrightarrow> split_on c (join_with [c] xs) = xs"
  by (induction "[c]" xs rule: join_with.induct) (auto simp: split_on_plain split_on_append)

text \<open>\<open>str::find\<close> of a substring: the first byte offset at which it occurs.\<close>

fun find_sub :: "'a list \<Rightarrow> 'a list \<Rightarrow> nat option" where
  "find_sub [] p = (if p = [] then Some 0 else None)"
| "find_sub (x # xs) p =
     (if take (length p) (x # xs) = p then Some 0 else map_option Suc (find_sub xs p))"

lemma find_sub_Some:
  "find_sub s p = Some i \<Longrightarrow> i \<le> length s \<and> take (length p) (drop i s) = p"
  by (induction s arbitrary: i) (auto split: if_splits)

lemma find_sub_least:
  "find_sub s p = Some i \<Longrightarrow> j < i \<Longrightarrow> take (length p) (drop j s) \<noteq> p"
proof (induction s arbitrary: i j)
  case Nil
  then show ?case by (auto split: if_splits)
next
  case (Cons x xs)
  then show ?case
    by (cases j) (auto split: if_splits)
qed

text \<open>\<open>str::lines\<close>: a line ends at LF or CR LF; a last empty line is not reported.\<close>

definition strip_cr :: "string \<Rightarrow> string" where
  [rust_std]: "strip_cr l = (if l \<noteq> [] \<and> last l = CHR 0x0D then butlast l else l)"

definition str_lines :: "string \<Rightarrow> string list" where
  [rust_std]: "str_lines s =
     (let ps = split_on (CHR 0x0A) s
      in map strip_cr (butlast ps) @ (if last ps = [] then [] else [last ps]))"

text \<open>
  Unicode \<open>White_Space\<close> in UTF-8: the number of bytes of the white space character a
  byte list starts with, 0 when it starts with none.
\<close>

definition codes :: "string \<Rightarrow> nat list" where
  "codes s = map of_char s"

fun ws_len :: "nat list \<Rightarrow> nat" where
  "ws_len [] = 0"
| "ws_len (a # bs) =
     (if (9 \<le> a \<and> a \<le> 13) \<or> a = 32 then 1
      else if a = 194 \<and> (take 1 bs = [133] \<or> take 1 bs = [160]) then 2
      else if a = 225 \<and> take 2 bs = [154, 128] then 3
      else if a = 227 \<and> take 2 bs = [128, 128] then 3
      else if a = 226 then
        (case bs of
           b # c # _ \<Rightarrow>
             if b = 128 \<and> ((128 \<le> c \<and> c \<le> 138) \<or> c = 168 \<or> c = 169 \<or> c = 175) then 3
             else if b = 129 \<and> c = 159 then 3 else 0
         | _ \<Rightarrow> 0)
      else 0)"

lemma ws_len_pos: "0 < ws_len (codes s) \<Longrightarrow> s \<noteq> []"
  by (auto simp: codes_def)

lemma length_drop_codes: "0 < ws_len (map of_char s) \<Longrightarrow> length s - ws_len (map of_char s) < length s"
  by (cases s) simp_all

function trim_start :: "string \<Rightarrow> string" where
  "trim_start s =
     (if ws_len (codes s) = 0 then s else trim_start (drop (ws_len (codes s)) s))"
  by pat_completeness auto
termination
  by (relation "measure length") (auto simp: codes_def dest: length_drop_codes)

declare trim_start.simps [simp del]

text \<open>The white space character a byte list ends with, on the reversed list.\<close>

definition ws_len_end :: "nat list \<Rightarrow> nat" where
  "ws_len_end r =
     (if ws_len (rev (take 1 r)) = 1 then 1
      else if ws_len (rev (take 2 r)) = 2 then 2
      else if ws_len (rev (take 3 r)) = 3 then 3 else 0)"

function trim_end_rev :: "string \<Rightarrow> string" where
  "trim_end_rev r =
     (if ws_len_end (codes r) = 0 then r else trim_end_rev (drop (ws_len_end (codes r)) r))"
  by pat_completeness auto
termination
proof (relation "measure length")
  show "wf (measure length)" by simp
next
  fix r :: string
  assume n: "ws_len_end (codes r) \<noteq> 0"
  then have "r \<noteq> []" by (auto simp: ws_len_end_def codes_def)
  with n show "(drop (ws_len_end (codes r)) r, r) \<in> measure length"
    by (cases r) simp_all
qed

declare trim_end_rev.simps [simp del]

definition trim_end :: "string \<Rightarrow> string" where
  "trim_end s = rev (trim_end_rev (rev s))"

definition trim :: "string \<Rightarrow> string" where
  "trim s = trim_end (trim_start s)"

lemma trim_start_fix: "ws_len (codes s) = 0 \<Longrightarrow> trim_start s = s"
  by (subst trim_start.simps) simp

lemma trim_start_idem [simp]: "trim_start (trim_start s) = trim_start s"
proof (induction s rule: trim_start.induct)
  case (1 s)
  show ?case
  proof (cases "ws_len (codes s) = 0")
    case True
    then show ?thesis by (simp add: trim_start_fix)
  next
    case False
    with "1.IH" show ?thesis
      by (simp add: trim_start.simps [of s])
  qed
qed

lemma length_trim_start: "length (trim_start s) \<le> length s"
proof (induction s rule: trim_start.induct)
  case (1 s)
  then show ?case
    by (cases "ws_len (codes s) = 0") (auto simp: trim_start.simps [of s])
qed

section \<open>Parsing and printing integers\<close>

definition digit_val :: "nat \<Rightarrow> char \<Rightarrow> nat option" where
  "digit_val r c =
     (let n = of_char c :: nat
      in if 48 \<le> n \<and> n \<le> 57 \<and> n - 48 < r then Some (n - 48)
         else if 97 \<le> n \<and> n \<le> 122 \<and> n - 87 < r then Some (n - 87)
         else if 65 \<le> n \<and> n \<le> 90 \<and> n - 55 < r then Some (n - 55)
         else None)"

fun digits_val :: "nat \<Rightarrow> nat \<Rightarrow> nat \<Rightarrow> string \<Rightarrow> nat option" where
  "digits_val r b acc [] = Some acc"
| "digits_val r b acc (c # cs) =
     (case digit_val r c of
        None \<Rightarrow> None
      | Some d \<Rightarrow> if acc * r + d < b then digits_val r b (acc * r + d) cs else None)"

text \<open>
  \<open>from_str_radix\<close> of an unsigned type with values below \<open>b\<close>: an empty text and a lone
  sign are errors, a leading \<open>+\<close> is accepted, a value that does not fit is an error.
\<close>

definition from_str_radix :: "nat \<Rightarrow> nat \<Rightarrow> string \<Rightarrow> nat option" where
  "from_str_radix r b s =
     (if s = [] \<or> s = ''+'' \<or> s = ''-'' then None
      else digits_val r b 0 (case s of c # cs \<Rightarrow> if c = CHR ''+'' then cs else s | [] \<Rightarrow> s))"

definition parse_u32 :: "string \<Rightarrow> nat option" where
  "parse_u32 s = from_str_radix 10 (2 ^ 32) s"

definition parse_u64 :: "string \<Rightarrow> nat option" where
  "parse_u64 s = from_str_radix 10 (2 ^ 64) s"

definition digit_char :: "nat \<Rightarrow> char" where
  "digit_char d = char_of (48 + d)"

fun show_nat :: "nat \<Rightarrow> string" where
  "show_nat n = (if n < 10 then [digit_char n] else show_nat (n div 10) @ [digit_char (n mod 10)])"

declare show_nat.simps [simp del]

lemma digit_val_digit_char: "d < 10 \<Longrightarrow> digit_val 10 (digit_char d) = Some d"
  by (simp add: digit_val_def digit_char_def Let_def)

lemma digits_val_append:
  "digits_val r b acc (xs @ ys) =
     (case digits_val r b acc xs of None \<Rightarrow> None | Some a \<Rightarrow> digits_val r b a ys)"
  by (induction xs arbitrary: acc) (auto split: option.splits)

lemma digits_val_bound: "digits_val r b acc s = Some n \<Longrightarrow> acc < b \<Longrightarrow> n < b"
  by (induction s arbitrary: acc) (auto split: option.splits if_splits)

lemma from_str_radix_bound: "0 < b \<Longrightarrow> from_str_radix r b s = Some n \<Longrightarrow> n < b"
  by (auto simp: from_str_radix_def simp del: digits_val.simps
      dest: digits_val_bound split: if_splits list.splits)

lemma digits_val_show_nat: "n < b \<Longrightarrow> digits_val 10 b 0 (show_nat n) = Some n"
proof (induction n rule: show_nat.induct)
  case (1 n)
  show ?case
  proof (cases "n < 10")
    case True
    with "1.prems" show ?thesis
      by (subst show_nat.simps) (simp add: digit_val_digit_char)
  next
    case False
    have "n div 10 < b" using "1.prems" by linarith
    with False "1.IH" have "digits_val 10 b 0 (show_nat (n div 10)) = Some (n div 10)"
      by simp
    moreover have "n div 10 * 10 + n mod 10 = n"
      by simp
    ultimately show ?thesis
      using False "1.prems"
      by (subst show_nat.simps) (simp add: digits_val_append digit_val_digit_char)
  qed
qed

lemma show_nat_digits: "c \<in> set (show_nat n) \<Longrightarrow> (\<exists>d<10. c = digit_char d)"
proof (induction n rule: show_nat.induct)
  case (1 n)
  show ?case
  proof (cases "n < 10")
    case True
    with "1.prems" show ?thesis by (auto simp: show_nat.simps [of n])
  next
    case False
    with "1.prems" have "c \<in> set (show_nat (n div 10)) \<or> c = digit_char (n mod 10)"
      by (auto simp: show_nat.simps [of n])
    moreover have "n mod 10 < 10" by simp
    ultimately show ?thesis using "1.IH" [OF False] by blast
  qed
qed

lemma show_nat_nonempty [simp]: "show_nat n \<noteq> []"
  by (subst show_nat.simps) simp

lemma digit_char_range: "d < 10 \<Longrightarrow> of_char (digit_char d) = (48 + d :: nat)"
  by (simp add: digit_char_def)

lemma from_str_radix_show_nat: "n < b \<Longrightarrow> from_str_radix 10 b (show_nat n) = Some n"
proof -
  assume n: "n < b"
  obtain c cs where s: "show_nat n = c # cs"
    by (cases "show_nat n") auto
  have "c \<in> set (show_nat n)" by (simp add: s)
  then obtain d where d: "d < 10" "c = digit_char d"
    using show_nat_digits by blast
  have "of_char c = (48 + d :: nat)" using d by (simp add: digit_char_range)
  then have "c \<noteq> CHR ''+''" "c \<noteq> CHR ''-''" by auto
  then show ?thesis
    using n s digits_val_show_nat [of n b] by (auto simp: from_str_radix_def)
qed

lemma show_nat_inj: "show_nat m = show_nat n \<Longrightarrow> m = n"
  by (metis digits_val_show_nat less_Suc_eq max.strict_coboundedI1 max_less_iff_conj nat_less_le
      not_less_eq option.inject linorder_neqE_nat)

section \<open>Lists of rows\<close>

text \<open>
  A database table is the list of its rows.  \<open>upd_where\<close> is an \<open>UPDATE\<close>, \<open>filter\<close> with
  a negated condition a \<open>DELETE\<close>, \<^const>\<open>List.find\<close> a \<open>fetch_optional\<close> on a unique key.
\<close>

definition upd_where :: "('a \<Rightarrow> bool) \<Rightarrow> ('a \<Rightarrow> 'a) \<Rightarrow> 'a list \<Rightarrow> 'a list" where
  "upd_where P f xs = map (\<lambda>x. if P x then f x else x) xs"

lemma upd_where_simps [simp]:
  "upd_where P f [] = []"
  "upd_where P f (x # xs) = (if P x then f x else x) # upd_where P f xs"
  by (simp_all add: upd_where_def)

lemma set_upd_where: "set (upd_where P f xs) = (\<lambda>x. if P x then f x else x) ` set xs"
  by (simp add: upd_where_def)

lemma length_upd_where [simp]: "length (upd_where P f xs) = length xs"
  by (simp add: upd_where_def)

lemma upd_where_none: "\<forall>x\<in>set xs. \<not> P x \<Longrightarrow> upd_where P f xs = xs"
  by (induction xs) auto

lemma upd_where_append [simp]: "upd_where P f (xs @ ys) = upd_where P f xs @ upd_where P f ys"
  by (simp add: upd_where_def)

lemma map_upd_where: "(\<And>x. P x \<Longrightarrow> k (f x) = k x) \<Longrightarrow> map k (upd_where P f xs) = map k xs"
  by (auto simp: upd_where_def)

lemma filter_upd_where_other:
  "(\<And>x. P x \<Longrightarrow> \<not> Q x) \<Longrightarrow> (\<And>x. P x \<Longrightarrow> \<not> Q (f x)) \<Longrightarrow>
   filter Q (upd_where P f xs) = filter Q xs"
  by (induction xs) auto

lemma find_Some_in: "List.find P xs = Some x \<Longrightarrow> x \<in> set xs \<and> P x"
  by (auto simp: find_Some_iff)

lemma find_None_all: "List.find P xs = None \<longleftrightarrow> (\<forall>x\<in>set xs. \<not> P x)"
  by (auto simp: find_None_iff)

lemma find_append:
  "List.find P (xs @ ys) = (case List.find P xs of None \<Rightarrow> List.find P ys | Some x \<Rightarrow> Some x)"
  by (induction xs) auto

lemma find_upd_where:
  "(\<And>x. P x \<Longrightarrow> Q (f x) = Q x) \<Longrightarrow>
   List.find Q (upd_where P f xs) =
     map_option (\<lambda>x. if P x then f x else x) (List.find Q xs)"
  by (induction xs) auto

lemma find_filter:
  "List.find P (filter Q xs) = List.find (\<lambda>x. Q x \<and> P x) xs"
  by (induction xs) auto

lemma find_cong_pred: "(\<And>x. x \<in> set xs \<Longrightarrow> P x = Q x) \<Longrightarrow> List.find P xs = List.find Q xs"
  by (induction xs) auto

lemma find_unique:
  "distinct (map k xs) \<Longrightarrow> x \<in> set xs \<Longrightarrow> List.find (\<lambda>y. k y = k x) xs = Some x"
  by (induction xs) (auto simp: rev_image_eqI)

lemma distinct_map_upd_where:
  "(\<And>x. P x \<Longrightarrow> k (f x) = k x) \<Longrightarrow> distinct (map k xs) \<Longrightarrow> distinct (map k (upd_where P f xs))"
  by (simp add: map_upd_where)

lemma distinct_map_filter_rows: "distinct (map k xs) \<Longrightarrow> distinct (map k (filter P xs))"
  by (induction xs) auto

end
