(* ===== verification/Json_Value.thy ===== *)
theory Json_Value
  imports Rust_Std
begin

text \<open>
  The data model of \<open>serde_json::Value\<close> that the catalog parsers, the spec handlers and the
  protocol pattern-match on.  A number is one of the three representations the crate
  documents: a non-negative integer below \<open>2 ^ 64\<close>, a negative \<open>i64\<close>, or a finite \<open>f64\<close>.
  An object is an association list; the accessors read the first entry of a key.
\<close>

datatype json =
    JNull
  | JBool bool
  | JPos nat
  | JNeg int
  | JFloat rat
  | JStr string
  | JArr "json list"
  | JObj "(string \<times> json) list"

fun is_object :: "json \<Rightarrow> bool" where
  "is_object (JObj kvs) = True"
| "is_object _ = False"

fun json_get :: "json \<Rightarrow> string \<Rightarrow> json option" where
  "json_get (JObj kvs) k = map_of kvs k"
| "json_get _ k = None"

fun as_str :: "json \<Rightarrow> string option" where
  "as_str (JStr s) = Some s"
| "as_str _ = None"

fun as_bool :: "json \<Rightarrow> bool option" where
  "as_bool (JBool b) = Some b"
| "as_bool _ = None"

fun as_array :: "json \<Rightarrow> json list option" where
  "as_array (JArr xs) = Some xs"
| "as_array _ = None"

fun json_i64 :: "json \<Rightarrow> int option" where
  "json_i64 (JPos n) = (if int n \<le> i64_max then Some (int n) else None)"
| "json_i64 (JNeg i) = Some i"
| "json_i64 _ = None"

fun json_u64 :: "json \<Rightarrow> nat option" where
  "json_u64 (JPos n) = Some n"
| "json_u64 _ = None"

fun json_f64 :: "json \<Rightarrow> rat option" where
  "json_f64 (JPos n) = Some (of_nat n)"
| "json_f64 (JNeg i) = Some (of_int i)"
| "json_f64 (JFloat q) = Some q"
| "json_f64 _ = None"

text \<open>\<open>or_else\<close> on options.\<close>

definition or_else :: "'a option \<Rightarrow> 'a option \<Rightarrow> 'a option" where
  "or_else x y = (case x of None \<Rightarrow> y | Some a \<Rightarrow> Some a)"

lemma or_else_simps [simp]: "or_else None y = y" "or_else (Some a) y = Some a"
  by (simp_all add: or_else_def)

text \<open>
  The integer reading the parsers share: \<open>as_i64\<close>, else \<open>as_u64\<close> cast with wrap-around, else
  \<open>as_f64\<close> cast with saturation.
\<close>

definition json_int_like :: "json \<Rightarrow> int option" where
  "json_int_like v =
     or_else (json_i64 v)
       (or_else (map_option (\<lambda>u. as_i64 (int u)) (json_u64 v))
          (map_option f64_as_i64 (json_f64 v)))"

text \<open>Object updates: \<open>remove\<close> and \<open>insert\<close> of the underlying map.\<close>

fun json_remove :: "string \<Rightarrow> json \<Rightarrow> json" where
  "json_remove k (JObj kvs) = JObj (filter (\<lambda>p. fst p \<noteq> k) kvs)"
| "json_remove k v = v"

fun json_insert :: "string \<Rightarrow> json \<Rightarrow> json \<Rightarrow> json" where
  "json_insert k x (JObj kvs) = JObj ((k, x) # filter (\<lambda>p. fst p \<noteq> k) kvs)"
| "json_insert k x v = v"

lemma map_of_filter_key:
  "map_of (filter (\<lambda>p. fst p \<noteq> k) kvs) j = (if j = k then None else map_of kvs j)"
  by (induction kvs) auto

lemma json_get_remove: "json_get (json_remove k v) j = (if j = k then None else json_get v j)"
  by (cases v) (simp_all add: map_of_filter_key)

lemma json_get_insert:
  "is_object v \<Longrightarrow> json_get (json_insert k x v) j = (if j = k then Some x else json_get v j)"
  by (cases v) (simp_all add: map_of_filter_key)

lemma is_object_remove [simp]: "is_object (json_remove k v) = is_object v"
  by (cases v) simp_all

lemma is_object_insert [simp]: "is_object (json_insert k x v) = is_object v"
  by (cases v) simp_all

lemma json_remove_insert: "json_remove k (json_insert k x v) = json_remove k v"
  by (cases v) simp_all

lemma json_remove_commute: "json_remove j (json_remove k v) = json_remove k (json_remove j v)"
  by (cases v) (auto intro: filter_cong simp: conj_commute)

lemma json_remove_idem [simp]: "json_remove k (json_remove k v) = json_remove k v"
  by (cases v) simp_all

end
