(* ===== verification/Context_Flags.thy ===== *)
theory Context_Flags
  imports Rust_Std
begin

text \<open>
  The context flags of \<open>src/player.rs\<close>: fifteen booleans the plugin packs into one
  \<open>u64\<close> as a product of coefficients, and the decision that is taken from them, \<open>PlayerCtx\<close>
  of \<open>src/router.rs\<close>.  A \<open>u64\<close> is a number below \<open>2 ^ 64\<close>; a multiplication that leaves
  that range yields \<open>None\<close> (a panic in a debug build, a wrap-around in a release build), and
  the round trip shows that it never happens.
\<close>

section \<open>The tables\<close>

definition context_coefficients :: "nat list" where
  "context_coefficients = [69, 59, 136, 1, 26, 77, 41, 1, 95, 53, 1, 1, 86, 62, 89]"

definition context_map_cypher_to_plain_table :: "int list" where
  "context_map_cypher_to_plain_table = [6, 1, 14, -1, 12, 0, 8, -1, 13, 5, -1, -1, 2, 4, 9]"

definition context_map_plain_to_cypher_table :: "int list" where
  "context_map_plain_to_cypher_table = [5, 1, 12, -1, 13, 9, 0, -1, 6, 14, -1, -1, 4, 8, 2]"

text \<open>An index outside the table would panic; the loops only use indices below 15.\<close>

definition context_map_cypher_to_plain :: "nat \<Rightarrow> nat" where
  "context_map_cypher_to_plain cypher =
     (let r = context_map_cypher_to_plain_table ! cypher
      in if r = -1 then cypher else nat r)"

definition context_map_plain_to_cypher :: "nat \<Rightarrow> nat" where
  "context_map_plain_to_cypher plain =
     (let r = context_map_plain_to_cypher_table ! plain
      in if r = -1 then plain else nat r)"

section \<open>Encoding and decoding\<close>

text \<open>\<open>while ret & 1 == 0 { ret = ret >> 1 }\<close>: does not return on 0.\<close>

partial_function (option) trim_even :: "nat \<Rightarrow> nat option" where
  "trim_even n = (if even n then trim_even (n div 2) else Some n)"

text \<open>\<open>while c & 1 == 0 && c > 0 { c = c >> 1 }\<close>\<close>

fun odd_part :: "nat \<Rightarrow> nat" where
  "odd_part c = (if even c \<and> 0 < c then odd_part (c div 2) else c)"

declare odd_part.simps [simp del]

definition u64_mul :: "nat \<Rightarrow> nat \<Rightarrow> nat option" where
  "u64_mul a b = (if a * b < 2 ^ 64 then Some (a * b) else None)"

fun encode_from :: "bool list \<Rightarrow> nat list \<Rightarrow> nat \<Rightarrow> nat option" where
  "encode_from arr [] ret = Some ret"
| "encode_from arr (i # is) ret =
     Option.bind
       (if arr ! i
        then u64_mul ret (context_coefficients ! context_map_plain_to_cypher i)
        else Some ret)
       (\<lambda>r. Option.bind (trim_even r) (encode_from arr is))"

definition encode_context_flags :: "bool list \<Rightarrow> nat option" where
  "encode_context_flags arr = encode_from arr [0..<15] 1"

fun decode_step :: "nat \<Rightarrow> bool list \<times> nat \<Rightarrow> bool list \<times> nat" where
  "decode_step i (plain, flags) =
     (if context_coefficients ! i < 2 then (plain, flags)
      else let c = odd_part (context_coefficients ! i)
           in if flags mod c = 0
              then (plain[context_map_cypher_to_plain i := True], flags div c)
              else (plain, flags))"

definition decode_context_flags :: "nat \<Rightarrow> bool list" where
  "decode_context_flags flags =
     (if flags = 0 then replicate 15 False
      else fst (fold decode_step [0..<15] (replicate 15 False, flags)))"

definition check_flags_sf_mi :: "nat \<Rightarrow> nat \<Rightarrow> bool" where
  "check_flags_sf_mi sf mi =
     (let sfs = decode_context_flags sf
      in if sfs ! 5 \<or> sfs ! 7 \<or> sfs ! 9 \<or> sfs ! 11 then False
         else sfs ! 2 \<or> sfs ! 3 \<or> sfs ! 4)"

definition parse_u64_str :: "string \<Rightarrow> nat option outcome" where
  "parse_u64_str s =
     (case slice_to s 2 of
        Panic \<Rightarrow> Panic
      | Ret p \<Rightarrow>
          if p = ''0x''
          then (case slice_from s 2 of Panic \<Rightarrow> Panic | Ret r \<Rightarrow> Ret (from_str_radix 16 (2 ^ 64) r))
          else Ret (from_str_radix 16 (2 ^ 64) s))"

section \<open>The player context\<close>

definition DD2_MAP_UID :: string where
  "DD2_MAP_UID = ''DeepDip2__The_Storm_Is_Here''"

record map_info =
  m_uid :: string
  m_name :: string
  m_hash :: string

definition is_dd2 :: "map_info \<Rightarrow> bool" where
  "is_dd2 m = starts_with (m_uid m) DD2_MAP_UID"

record player_ctx =
  pc_sf :: nat
  pc_mi :: nat
  pc_map :: "map_info option"
  pc_i :: bool
  pc_e :: "bool option"
  pc_official :: "bool option"  \<comment> \<open>the memo cell\<close>

definition new_player_ctx ::
    "nat \<Rightarrow> nat \<Rightarrow> map_info option \<Rightarrow> bool \<Rightarrow> bool option \<Rightarrow> player_ctx" where
  "new_player_ctx sf mi m i e =
     \<lparr>pc_sf = sf, pc_mi = mi, pc_map = m, pc_i = i, pc_e = e, pc_official = None\<rparr>"

definition is_official :: "player_ctx \<Rightarrow> bool \<times> player_ctx" where
  "is_official ctx =
     (case pc_official ctx of
        Some v \<Rightarrow> (v, ctx)
      | None \<Rightarrow>
          let ans = \<not> (case pc_e ctx of None \<Rightarrow> False | Some b \<Rightarrow> b)
                    \<and> check_flags_sf_mi (pc_sf ctx) (pc_mi ctx)
                    \<and> (case pc_map ctx of None \<Rightarrow> False | Some m \<Rightarrow> is_dd2 m)
          in (ans, ctx\<lparr>pc_official := Some ans\<rparr>))"

section \<open>Odd parts\<close>

lemma odd_part_odd: "odd c \<Longrightarrow> odd_part c = c"
  by (simp add: odd_part.simps)

lemma odd_part_double: "0 < c \<Longrightarrow> odd_part (2 * c) = odd_part c"
  by (subst odd_part.simps) simp

lemma odd_odd_part: "0 < c \<Longrightarrow> odd (odd_part c)"
proof (induction c rule: odd_part.induct)
  case (1 c)
  show ?case
  proof (cases "even c")
    case True
    with "1.prems" have "0 < c div 2" by (auto elim!: evenE)
    with True "1.IH" "1.prems" show ?thesis by (subst odd_part.simps) simp
  next
    case False
    then show ?thesis by (simp add: odd_part_odd)
  qed
qed

lemma odd_part_mult: "odd m \<Longrightarrow> 0 < c \<Longrightarrow> odd_part (m * c) = m * odd_part c"
proof (induction c rule: odd_part.induct)
  case (1 c)
  show ?case
  proof (cases "even c")
    case True
    then obtain d where d: "c = 2 * d" by (auto elim: evenE)
    with "1.prems" have "0 < d" by simp
    with True d "1.IH" "1.prems" have "odd_part (m * d) = m * odd_part d" by simp
    moreover have "odd_part (m * c) = odd_part (2 * (m * d))"
      by (simp add: d mult.left_commute)
    moreover have "0 < m * d" using \<open>0 < d\<close> \<open>odd m\<close> by (simp add: odd_pos)
    ultimately show ?thesis using \<open>0 < d\<close> by (simp add: odd_part_double d)
  next
    case False
    with "1.prems" show ?thesis by (simp add: odd_part_odd)
  qed
qed

lemma trim_even_odd_part: "0 < n \<Longrightarrow> trim_even n = Some (odd_part n)"
proof (induction n rule: odd_part.induct)
  case (1 n)
  show ?case
  proof (cases "even n")
    case True
    with "1.prems" have "0 < n div 2" by (auto elim!: evenE)
    with True "1.IH" "1.prems" show ?thesis
      by (subst trim_even.simps, subst odd_part.simps) simp
  next
    case False
    then show ?thesis by (subst trim_even.simps) (simp add: odd_part_odd)
  qed
qed

text \<open>The factor the \<open>i\<close>-th plain flag contributes, and the one the \<open>j\<close>-th cypher slot tests.\<close>

definition slot_factor :: "nat \<Rightarrow> nat" where
  "slot_factor j = odd_part (context_coefficients ! j)"

lemmas table_defs =
  context_coefficients_def context_map_cypher_to_plain_def context_map_plain_to_cypher_def
  context_map_cypher_to_plain_table_def context_map_plain_to_cypher_table_def

lemma less_15_cases:
  "(i::nat) < 15 \<longleftrightarrow> i = 14 \<or> i = 13 \<or> i = 12 \<or> i = 11 \<or> i = 10 \<or> i = 9 \<or> i = 8 \<or> i = 7 \<or>
     i = 6 \<or> i = 5 \<or> i = 4 \<or> i = 3 \<or> i = 2 \<or> i = 1 \<or> i = 0"
  by arith

lemma odd_part_coefficients:
  "odd_part 136 = 17" "odd_part 26 = 13" "odd_part 86 = 43" "odd_part 62 = 31"
  using odd_part_double [of 68] odd_part_double [of 34] odd_part_double [of 17]
    odd_part_double [of 13] odd_part_double [of 43] odd_part_double [of 31]
  by (simp_all add: odd_part_odd)

lemma slot_factor_values:
  "map slot_factor [0..<15] = [69, 59, 17, 1, 13, 77, 41, 1, 95, 53, 1, 1, 43, 31, 89]"
  by (simp add: upt_rec slot_factor_def context_coefficients_def odd_part_coefficients odd_part_odd)

lemma slot_factor_nth:
  "j < 15 \<Longrightarrow> slot_factor j = [69, 59, 17, 1, 13, 77, 41, 1, 95, 53, 1, 1, 43, 31, 89] ! j"
  by (subst slot_factor_values [symmetric]) simp

lemma slot_factor_coprime:
  assumes "j < 15" "k < 15" "j \<noteq> k"
  shows "coprime (slot_factor j) (slot_factor k)"
proof -
  let ?F = "[69, 59, 17, 1, 13, 77, 41, 1, 95, 53, 1, 1, 43, 31, 89 :: nat]"
  have "list_all (\<lambda>j. list_all (\<lambda>k. j = k \<or> gcd (?F ! j) (?F ! k) = 1) [0..<15]) [0..<15]"
    by code_simp
  then have all: "\<forall>j\<in>set [0..<15]. \<forall>k\<in>set [0..<15]. j = k \<or> gcd (?F ! j) (?F ! k) = 1"
    unfolding list_all_iff .
  have "gcd (?F ! j) (?F ! k) = 1"
    using bspec [OF bspec [OF all, of j], of k] assms by simp
  then show ?thesis
    using assms by (simp add: slot_factor_nth coprime_iff_gcd_eq_1)
qed

lemma plain_to_cypher_bound: "i < 15 \<Longrightarrow> context_map_plain_to_cypher i < 15"
  by (auto simp: less_15_cases table_defs)

lemma coefficient_bounds:
  assumes "j < 15"
  shows "0 < context_coefficients ! j" "context_coefficients ! j \<le> 8 * slot_factor j"
    "odd (slot_factor j)" "1 \<le> slot_factor j" "(context_coefficients ! j < 2) = (slot_factor j < 2)"
  using assms by (auto simp: less_15_cases slot_factor_nth context_coefficients_def)

lemma prod_list_ge_1: "(\<And>x. x \<in> set xs \<Longrightarrow> 1 \<le> f x) \<Longrightarrow> (1::nat) \<le> (\<Prod>x\<leftarrow>xs. f x)"
  by (induction xs) (auto simp: Suc_le_eq)

lemma coprime_prod_list:
  "(\<And>x. x \<in> set xs \<Longrightarrow> coprime (a::nat) (f x)) \<Longrightarrow> coprime a (\<Prod>x\<leftarrow>xs. f x)"
  by (induction xs) auto

section \<open>The round trip\<close>

abbreviation plain_factor :: "nat \<Rightarrow> nat" where
  "plain_factor i \<equiv> slot_factor (context_map_plain_to_cypher i)"

lemma encode_from_product:
  "\<forall>i\<in>set is. i < 15 \<Longrightarrow> odd ret \<Longrightarrow> ret * (\<Prod>i\<leftarrow>is. plain_factor i) * 8 < 2 ^ 64 \<Longrightarrow>
   encode_from arr is ret = Some (ret * (\<Prod>i\<leftarrow>is. if arr ! i then plain_factor i else 1))"
proof (induction "is" arbitrary: ret)
  case Nil
  then show ?case by simp
next
  case (Cons i js)
  let ?c = "context_coefficients ! context_map_plain_to_cypher i"
  let ?rest = "\<Prod>i\<leftarrow>js. plain_factor i"
  have i: "context_map_plain_to_cypher i < 15"
    using Cons.prems(1) by (simp add: plain_to_cypher_bound)
  note c = coefficient_bounds [OF i]
  have ret: "0 < ret" using Cons.prems(2) by (simp add: odd_pos)
  have rest: "1 \<le> ?rest"
    using Cons.prems(1) plain_to_cypher_bound coefficient_bounds(4) by (intro prod_list_ge_1) auto
  have fit: "ret * plain_factor i * ?rest * 8 < 2 ^ 64"
    using Cons.prems(3) by (simp add: mult.assoc)
  show ?case
  proof (cases "arr ! i")
    case True
    have "ret * ?c \<le> ret * (8 * plain_factor i)" using c(2) by simp
    also have "\<dots> \<le> ret * (8 * plain_factor i) * ?rest" using rest by simp
    also have "\<dots> = ret * plain_factor i * ?rest * 8" by (simp add: ac_simps)
    finally have "ret * ?c < 2 ^ 64" using fit by (rule le_less_trans)
    then have mul: "u64_mul ret ?c = Some (ret * ?c)" by (simp add: u64_mul_def)
    have "trim_even (ret * ?c) = Some (odd_part (ret * ?c))"
      using ret c(1) by (simp add: trim_even_odd_part)
    also have "odd_part (ret * ?c) = ret * plain_factor i"
      using Cons.prems(2) c(1) by (simp add: odd_part_mult slot_factor_def)
    finally have trim: "trim_even (ret * ?c) = Some (ret * plain_factor i)" .
    have "encode_from arr js (ret * plain_factor i) =
        Some (ret * plain_factor i * (\<Prod>i\<leftarrow>js. if arr ! i then plain_factor i else 1))"
      using Cons.prems c(3) fit by (intro Cons.IH) auto
    with True mul trim show ?thesis by (simp add: mult.assoc)
  next
    case False
    have same: "trim_even ret = Some ret"
      using ret Cons.prems(2) by (simp add: trim_even_odd_part odd_part_odd)
    have "ret * ?rest * 8 \<le> ret * plain_factor i * ?rest * 8"
      using c(4) by simp
    then have "ret * ?rest * 8 < 2 ^ 64"
      using fit by (rule le_less_trans)
    with Cons.prems have "encode_from arr js ret =
        Some (ret * (\<Prod>i\<leftarrow>js. if arr ! i then plain_factor i else 1))"
      by (intro Cons.IH) auto
    with same False show ?thesis by simp
  qed
qed

definition decoded_slots :: "(nat \<Rightarrow> bool) \<Rightarrow> nat list \<Rightarrow> bool list \<Rightarrow> bool list" where
  "decoded_slots sel js plain =
     fold (\<lambda>j p. if 2 \<le> context_coefficients ! j \<and> sel j
                 then p[context_map_cypher_to_plain j := True] else p) js plain"

lemma decode_fold:
  "distinct js \<Longrightarrow> \<forall>j\<in>set js. j < 15 \<Longrightarrow>
   fst (fold decode_step js (plain, \<Prod>j\<leftarrow>js. if sel j then slot_factor j else 1)) =
   decoded_slots sel js plain"
proof (induction js arbitrary: plain)
  case Nil
  then show ?case by (simp add: decoded_slots_def)
next
  case (Cons j js)
  let ?rest = "\<Prod>j\<leftarrow>js. if sel j then slot_factor j else 1"
  have j: "j < 15" using Cons.prems by simp
  note c = coefficient_bounds [OF j]
  have "coprime (slot_factor j) ?rest"
    using Cons.prems by (intro coprime_prod_list) (auto intro: slot_factor_coprime)
  then have ndvd: "2 \<le> slot_factor j \<Longrightarrow> \<not> slot_factor j dvd ?rest"
    by (metis One_nat_def Suc_1 coprime_absorb_left nat_dvd_1_iff_1 not_less_eq_eq order_refl)
  have IH: "\<And>p. fst (fold decode_step js (p, ?rest)) = decoded_slots sel js p"
    using Cons.IH Cons.prems by simp
  have pos: "0 < slot_factor j" using c(4) by simp
  have one: "context_coefficients ! j < 2 \<Longrightarrow> slot_factor j = 1" using c(4,5) by auto
  show ?case
    using ndvd c(5) one pos
    by (cases "context_coefficients ! j < 2")
       (auto simp: IH decoded_slots_def slot_factor_def [symmetric] dvd_eq_mod_eq_0 Let_def)
qed

lemma decoded_slots_nth:
  "k < length plain \<Longrightarrow>
   decoded_slots sel js plain ! k \<longleftrightarrow>
     plain ! k \<or> (\<exists>j\<in>set js. 2 \<le> context_coefficients ! j \<and> sel j \<and> context_map_cypher_to_plain j = k)"
proof (induction js arbitrary: plain)
  case Nil
  then show ?case by (simp add: decoded_slots_def)
next
  case (Cons j js)
  let ?p = "if 2 \<le> context_coefficients ! j \<and> sel j
            then plain[context_map_cypher_to_plain j := True] else plain"
  have "decoded_slots sel (j # js) plain = decoded_slots sel js ?p"
    by (simp add: decoded_slots_def)
  moreover have "k < length ?p" using Cons.prems by simp
  moreover have "?p ! k \<longleftrightarrow> plain ! k \<or>
      (2 \<le> context_coefficients ! j \<and> sel j \<and> context_map_cypher_to_plain j = k)"
    using Cons.prems by (cases "context_map_cypher_to_plain j = k") auto
  ultimately show ?case using Cons.IH [of ?p] by auto
qed

lemma length_decoded_slots [simp]: "length (decoded_slots sel js plain) = length plain"
proof (induction js arbitrary: plain)
  case (Cons j js)
  then show ?case by (simp add: decoded_slots_def)
qed (simp add: decoded_slots_def)

text \<open>The flags that survive: all but the four whose coefficient is 1.\<close>

definition carried :: "bool list \<Rightarrow> bool list" where
  "carried arr = map (\<lambda>i. arr ! i \<and> i \<notin> {3, 7, 10, 11}) [0..<15]"

lemma carried_slot:
  assumes "k < 15" "k \<notin> {3, 7, 10, 11}"
  shows "\<exists>j<15. 2 \<le> context_coefficients ! j \<and> context_map_cypher_to_plain j = k"
proof (intro exI conjI)
  show "context_map_plain_to_cypher k < 15" using assms(1) by (rule plain_to_cypher_bound)
  show "2 \<le> context_coefficients ! context_map_plain_to_cypher k"
    "context_map_cypher_to_plain (context_map_plain_to_cypher k) = k"
    using assms by (auto simp: less_15_cases table_defs)
qed

lemma dead_slot:
  "j < 15 \<Longrightarrow> 2 \<le> context_coefficients ! j \<Longrightarrow> context_map_cypher_to_plain j \<notin> {3, 7, 10, 11}"
  by (auto simp: less_15_cases table_defs)

lemma decoded_slots_all:
  "decoded_slots (\<lambda>j. arr ! context_map_cypher_to_plain j) [0..<15] (replicate 15 False) = carried arr"
proof (rule nth_equalityI)
  show "length (decoded_slots (\<lambda>j. arr ! context_map_cypher_to_plain j) [0..<15] (replicate 15 False)) =
    length (carried arr)" by (simp add: carried_def)
next
  fix k
  assume "k < length (decoded_slots (\<lambda>j. arr ! context_map_cypher_to_plain j) [0..<15] (replicate 15 False))"
  then have k: "k < 15" by simp
  have "(\<exists>j\<in>set [0..<15]. 2 \<le> context_coefficients ! j \<and>
           arr ! context_map_cypher_to_plain j \<and> context_map_cypher_to_plain j = k) \<longleftrightarrow>
        arr ! k \<and> (\<exists>j<15. 2 \<le> context_coefficients ! j \<and> context_map_cypher_to_plain j = k)"
    by auto
  also have "(\<exists>j<15. 2 \<le> context_coefficients ! j \<and> context_map_cypher_to_plain j = k) \<longleftrightarrow>
      k \<notin> {3, 7, 10, 11}"
    using carried_slot [OF k] dead_slot by blast
  finally show "decoded_slots (\<lambda>j. arr ! context_map_cypher_to_plain j) [0..<15] (replicate 15 False) ! k =
      carried arr ! k"
    using k by (simp add: decoded_slots_nth carried_def)
qed

lemma plain_product_cypher_product:
  "(\<Prod>i\<leftarrow>[0..<15]. if arr ! i then plain_factor i else 1) =
   (\<Prod>j\<leftarrow>[0..<15]. if arr ! context_map_cypher_to_plain j then slot_factor j else 1)"
proof -
  let ?g = "\<lambda>j. if arr ! context_map_cypher_to_plain j then slot_factor j else 1"
  let ?ps = "map context_map_plain_to_cypher [0..<15]"
  have inv: "\<And>i. i < 15 \<Longrightarrow> context_map_cypher_to_plain (context_map_plain_to_cypher i) = i"
    by (auto simp: less_15_cases table_defs)
  have ps: "?ps = [5, 1, 12, 3, 13, 9, 0, 7, 6, 14, 10, 11, 4, 8, 2]"
    by (simp add: upt_rec table_defs)
  have "(\<Prod>i\<leftarrow>[0..<15]. if arr ! i then plain_factor i else 1) = prod_list (map ?g ?ps)"
    unfolding map_map comp_def using inv by (intro arg_cong [where f = prod_list] map_cong) simp_all
  also have "\<dots> = prod ?g (set ?ps)"
    by (subst prod.distinct_set_conv_list) (simp_all add: ps)
  also have "set ?ps = set [0..<15]"
    unfolding ps by (auto simp: less_15_cases)
  also have "prod ?g (set [0..<15]) = (\<Prod>j\<leftarrow>[0..<15]. ?g j)"
    by (rule prod.distinct_set_conv_list) simp
  finally show ?thesis .
qed

lemma prod_list_mono_nat:
  "(\<And>x. x \<in> set xs \<Longrightarrow> f x \<le> g x) \<Longrightarrow> (\<Prod>x\<leftarrow>xs. f x) \<le> (\<Prod>x\<leftarrow>xs. g x :: nat)"
  by (induction xs) (auto intro: mult_le_mono)

lemma encode_context_flags_product:
  "encode_context_flags arr =
     Some (\<Prod>j\<leftarrow>[0..<15]. if arr ! context_map_cypher_to_plain j then slot_factor j else 1)"
proof -
  have "(\<Prod>i\<leftarrow>[0..<15]. plain_factor i) = (0x178BA59576325029 :: nat)"
    by (simp add: upt_rec table_defs slot_factor_def odd_part_coefficients odd_part_odd)
  then show ?thesis
    by (simp add: encode_context_flags_def encode_from_product plain_product_cypher_product)
qed

lemma encoded_pos: "encode_context_flags arr = Some w \<Longrightarrow> 0 < w"
proof -
  assume "encode_context_flags arr = Some w"
  then have "w = (\<Prod>j\<leftarrow>[0..<15]. if arr ! context_map_cypher_to_plain j then slot_factor j else 1)"
    by (simp add: encode_context_flags_product)
  moreover have "1 \<le> (\<Prod>j\<leftarrow>[0..<15]. if arr ! context_map_cypher_to_plain j then slot_factor j else 1)"
    using coefficient_bounds(4) by (intro prod_list_ge_1) auto
  ultimately show ?thesis by linarith
qed

lemma context_flags_roundtrip_values:
  "\<exists>w. encode_context_flags arr = Some w \<and> w < 2 ^ 64 \<and> decode_context_flags w = carried arr"
proof -
  let ?w = "\<Prod>j\<leftarrow>[0..<15]. if arr ! context_map_cypher_to_plain j then slot_factor j else 1"
  have w: "encode_context_flags arr = Some ?w" by (rule encode_context_flags_product)
  have pos: "?w \<noteq> 0" using encoded_pos [OF w] by simp
  have "decode_context_flags ?w = carried arr"
    using pos decode_fold [of "[0..<15]" "replicate 15 False" "\<lambda>j. arr ! context_map_cypher_to_plain j"]
    by (simp only: decode_context_flags_def if_False decoded_slots_all)
       (simp add: decoded_slots_all)
  moreover have "?w \<le> (\<Prod>j\<leftarrow>[0..<15]. slot_factor j)"
    using coefficient_bounds(4) by (intro prod_list_mono_nat) auto
  moreover have "(\<Prod>j\<leftarrow>[0..<15]. slot_factor j) < (2 ^ 64 :: nat)"
    unfolding slot_factor_values by simp
  ultimately show ?thesis using w by (meson le_less_trans)
qed

text \<open>
  C32. Decoding an encoded flag array gives back every flag that has a coefficient: the
  encoder never leaves the \<open>u64\<close> range and its trimming loop returns, whatever the fifteen
  flags are, and the decoder clears exactly the flags 3, 7, 10 and 11, which the code
  encodes with the coefficient 1.
\<close>

theorem context_flags_roundtrip:
  "\<exists>w. encode_context_flags arr = Some w \<and> w < 2 ^ 64 \<and> decode_context_flags w = carried arr"
  by (rule context_flags_roundtrip_values)

section \<open>What the flags decide\<close>

lemma decode_step_dead:
  "i < 15 \<Longrightarrow> k \<in> {3, 7, 10, 11} \<Longrightarrow> length (fst pf) = 15 \<Longrightarrow> \<not> fst pf ! k \<Longrightarrow>
   length (fst (decode_step i pf)) = 15 \<and> \<not> fst (decode_step i pf) ! k"
  using dead_slot [of i] by (cases pf) (auto simp: Let_def nth_list_update)

lemma decode_fold_dead:
  "\<forall>i\<in>set is. i < 15 \<Longrightarrow> k \<in> {3, 7, 10, 11} \<Longrightarrow> length (fst pf) = 15 \<Longrightarrow> \<not> fst pf ! k \<Longrightarrow>
   \<not> fst (fold decode_step is pf) ! k"
proof (induction "is" arbitrary: pf)
  case Nil
  then show ?case by simp
next
  case (Cons i js)
  then have "length (fst (decode_step i pf)) = 15 \<and> \<not> fst (decode_step i pf) ! k"
    by (intro decode_step_dead) simp_all
  with Cons show ?case by simp
qed

lemma decode_dead_slots: "k \<in> {3, 7, 10, 11} \<Longrightarrow> \<not> decode_context_flags w ! k"
  by (auto simp: decode_context_flags_def intro: decode_fold_dead [THEN notE, rotated -1])

lemma check_flags_live_slots:
  "check_flags_sf_mi sf mi \<longleftrightarrow>
     (decode_context_flags sf ! 2 \<or> decode_context_flags sf ! 4) \<and>
     \<not> decode_context_flags sf ! 5 \<and> \<not> decode_context_flags sf ! 9"
  using decode_dead_slots [of 3 sf] decode_dead_slots [of 7 sf] decode_dead_slots [of 11 sf]
  by (auto simp: check_flags_sf_mi_def Let_def)

text \<open>
  The play check on an encoded flag array: it accepts exactly the arrays with flag 2 or 4
  set and neither 5 nor 9.  The code also tests 3, 7 and 11, which no decoded value has.
\<close>

theorem check_flags_on_encoded:
  "check_flags_sf_mi (the (encode_context_flags arr)) mi \<longleftrightarrow>
     (arr ! 2 \<or> arr ! 4) \<and> \<not> arr ! 5 \<and> \<not> arr ! 9"
proof -
  obtain w where "encode_context_flags arr = Some w" "decode_context_flags w = carried arr"
    using context_flags_roundtrip_values by blast
  then show ?thesis
    by (simp add: check_flags_live_slots carried_def numeral_2_eq_2)
qed

text \<open>
  The official-run decision of a new context: not in the editor, play flags, and a map
  whose UID starts with the Deep Dip 2 UID; asking again gives the memoised answer and leaves
  the context as it is.
\<close>

theorem is_official_decision:
  "(let (v, ctx') = is_official (new_player_ctx sf mi m i e)
    in v = (e \<noteq> Some True \<and> check_flags_sf_mi sf mi \<and>
            (\<exists>x rest. m = Some x \<and> m_uid x = DD2_MAP_UID @ rest)) \<and>
       is_official ctx' = (v, ctx'))"
  by (auto simp: is_official_def new_player_ctx_def Let_def is_dd2_def starts_with_decomp
      split: option.splits)

text \<open>
  When the hexadecimal parser unwinds instead of returning an error: exactly on texts
  shorter than two bytes and on texts whose third byte continues a character.  The read loop
  calls it on client-supplied text.
\<close>

theorem parse_u64_str_panics:
  "parse_u64_str s = Panic \<longleftrightarrow>
     length s < 2 \<or> (2 < length s \<and> 128 \<le> (of_char (s ! 2) :: nat) \<and> (of_char (s ! 2) :: nat) < 192)"
  by (auto simp: parse_u64_str_def slice_to_def slice_from_def is_char_boundary_def)

lemma parse_u64_str_prefixed:
  "is_char_boundary (''0x'' @ h) 2 \<Longrightarrow> parse_u64_str (''0x'' @ h) = Ret (from_str_radix 16 (2 ^ 64) h)"
  by (simp add: parse_u64_str_def slice_to_def slice_from_def)

lemma parse_u64_str_bound: "parse_u64_str s = Ret (Some n) \<Longrightarrow> n < 2 ^ 64"
  by (auto simp: parse_u64_str_def split: outcome.splits if_splits
      intro: from_str_radix_bound [of "2 ^ 64" 16, simplified])

end
