(* ===== verification/Wire.thy ===== *)
theory Wire
  imports Json_Value Context_Flags
begin

text \<open>
  The plugin protocol of \<open>src/router.rs\<close>: the request and response messages with their type
  bytes and names, and the framing on the socket.  A frame is a little-endian \<open>u32\<close> length,
  the type byte, the length of the text again, and the JSON text.  The JSON codec itself
  (\<open>serde_json::from_slice\<close>, \<open>to_string\<close>) is library code, a parameter of the model.

  Positions and heights are numbers a JSON text can carry: an \<open>f64\<close> is a finite rational, an
  \<open>f32\<close> may have overflowed to an infinity.
\<close>

section \<open>Payload types\<close>

record stats =
  st_seconds_spent_in_map :: int
  st_nb_jumps :: nat
  st_nb_falls :: nat
  st_nb_floors_fallen :: nat
  st_last_pb_set_ts :: nat
  st_total_dist_fallen :: f32
  st_pb_height :: f32
  st_pb_floor :: nat
  st_nb_resets :: nat
  st_ggs_triggered :: nat
  st_title_gags_triggered :: nat
  st_title_gags_special_triggered :: nat
  st_bye_byes_triggered :: nat
  st_monument_triggers :: json
  st_reached_floor_count :: json
  st_floor_voice_lines_played :: json
  st_extra :: "json option"

record leaderboard_entry =
  le_rank :: nat
  le_wsid :: string
  le_height :: f32
  le_ts :: nat
  le_name :: string
  le_update_count :: int
  le_color :: "rat \<times> rat \<times> rat"

record leaderboard_entry2 =
  le2_rank :: nat
  le2_wsid :: string
  le2_pos :: "f64 \<times> f64 \<times> f64"
  le2_ts :: nat
  le2_name :: string
  le2_update_count :: int
  le2_color :: "rat \<times> rat \<times> rat"
  le2_race_time :: int

text \<open>The \<open>PartialEq\<close> of the second entry type compares the cheap fields only.\<close>

definition lbe2_eq :: "leaderboard_entry2 \<Rightarrow> leaderboard_entry2 \<Rightarrow> bool" where
  "lbe2_eq a b \<longleftrightarrow>
     le2_ts a = le2_ts b \<and> le2_rank a = le2_rank b \<and> le2_pos a = le2_pos b \<and>
     le2_update_count a = le2_update_count b \<and> le2_race_time a = le2_race_time b"

record minigame_lb_entry =
  mle_rank :: nat
  mle_wsid :: string
  mle_name :: string
  mle_score :: int
  mle_ts :: nat

record minigame_list_game =
  mlg_slug :: string
  mlg_kind :: string
  mlg_name :: string
  mlg_key :: string

record collectible_list_item =
  cli_slug :: string
  cli_name :: string
  cli_pickup :: string
  cli_collect_on_unlock :: bool
  cli_has_zone :: bool
  cli_gated_by :: "string option"
  cli_unlock_score :: "int option"
  cli_key :: string

record collectible_mine_item = collectible_list_item +
  cmi_unlocked_at :: "nat option"
  cmi_collected_at :: "nat option"

record hat_mine_item =
  hmi_slug :: string
  hmi_name :: string
  hmi_key :: string
  hmi_unlocked_at :: "nat option"

record hat_on_map_player =
  hom_wsid :: string
  hom_name :: string
  hom_slug :: string

record donor =
  dr_name :: string
  dr_amount :: rat

record donation =
  dn_name :: string
  dn_amount :: rat
  dn_comment :: string
  dn_ts :: int

record asset_ref =
  as_name :: string
  as_filename :: string
  as_url :: string

section \<open>Requests\<close>

datatype (plugins only: code) request =
    QAuthenticate string string string string
  | QResumeSession string string string string
  | QReportContext string string "map_info option" "bool option" "int \<times> int" "bool option"
  | QReportGCNodMsg string
  | QPing
  | QReportVehicleState "f32 \<times> f32 \<times> f32" "f32 \<times> f32 \<times> f32 \<times> f32" "f32 \<times> f32 \<times> f32"
  | QReportRespawn int
  | QReportFinish int
  | QReportFallStart nat "f32 \<times> f32 \<times> f32" f32 int
  | QReportFallEnd nat "f32 \<times> f32 \<times> f32" int
  | QReportStats stats
  | QReportPBHeight f32
  | QReportPlayerColor string "rat \<times> rat \<times> rat"
  | QReportTwitch string
  | QDowngradeStats stats
  | QReportMapCurrPos string "rat \<times> rat \<times> rat" "int option"
  | QReportCustomMapAuxSpec nat string json
  | QDeleteCustomMapAuxSpec nat string
  | QListCustomMapAuxSpecs nat
  | QReportMapStats string json
  | QReportMinigameAttempt string string int int string
  | QReportMinigameMap string int
  | QReportCollectibleUnlock string string int
  | QReportCollectibleCollect string string int f32 f32 f32 string
  | QReportHatUnlock string string int
  | QReportHatEquip string string
  | QGetMyStats
  | QGetGlobalLB nat nat
  | QGetFriendsLB "string list"
  | QGetGlobalOverview
  | QGetServerStats
  | QGetMyRank
  | QGetPlayersPb string
  | QGetDonations
  | QGetGfmDonations
  | QGetTwitch "string option"
  | QGetMyProfile
  | QSetMyProfile json
  | QGetMyPreferences
  | QSetMyPreferences json
  | QGetUsersProfile string
  | QGetPlayersSpecInfo string string
  | QGetMapOverview string
  | QGetMapLB string nat nat
  | QGetMapLive string
  | QGetMapMyRank string
  | QGetMapRank string string
  | QGetMinigameLB string string nat nat
  | QGetMinigameMyRank string string
  | QGetMinigameList string
  | QGetCollectibleList string
  | QGetCollectibleMine string
  | QGetHatsMine string
  | QGetHatsOnMap string
  | QGetSecretAssets
  | QStressMe

fun request_ty :: "request \<Rightarrow> nat" where
  "request_ty (QAuthenticate _ _ _ _) = 1"
| "request_ty (QResumeSession _ _ _ _) = 2"
| "request_ty (QReportContext _ _ _ _ _ _) = 3"
| "request_ty (QReportGCNodMsg _) = 4"
| "request_ty QPing = 8"
| "request_ty (QReportVehicleState _ _ _) = 32"
| "request_ty (QReportRespawn _) = 33"
| "request_ty (QReportFinish _) = 34"
| "request_ty (QReportFallStart _ _ _ _) = 35"
| "request_ty (QReportFallEnd _ _ _) = 36"
| "request_ty (QReportStats _) = 37"
| "request_ty (QReportPBHeight _) = 39"
| "request_ty (QReportPlayerColor _ _) = 40"
| "request_ty (QReportTwitch _) = 41"
| "request_ty (QDowngradeStats _) = 42"
| "request_ty (QReportMapCurrPos _ _ _) = 64"
| "request_ty (QReportCustomMapAuxSpec _ _ _) = 65"
| "request_ty (QDeleteCustomMapAuxSpec _ _) = 66"
| "request_ty (QListCustomMapAuxSpecs _) = 67"
| "request_ty (QReportMapStats _ _) = 68"
| "request_ty (QReportMinigameAttempt _ _ _ _ _) = 80"
| "request_ty (QReportMinigameMap _ _) = 81"
| "request_ty (QReportCollectibleUnlock _ _ _) = 82"
| "request_ty (QReportCollectibleCollect _ _ _ _ _ _ _) = 83"
| "request_ty (QReportHatUnlock _ _ _) = 84"
| "request_ty (QReportHatEquip _ _) = 85"
| "request_ty QGetMyStats = 128"
| "request_ty (QGetGlobalLB _ _) = 129"
| "request_ty (QGetFriendsLB _) = 130"
| "request_ty QGetGlobalOverview = 131"
| "request_ty QGetServerStats = 132"
| "request_ty QGetMyRank = 133"
| "request_ty (QGetPlayersPb _) = 134"
| "request_ty QGetDonations = 135"
| "request_ty QGetGfmDonations = 136"
| "request_ty (QGetTwitch _) = 137"
| "request_ty QGetMyProfile = 138"
| "request_ty (QSetMyProfile _) = 139"
| "request_ty QGetMyPreferences = 140"
| "request_ty (QSetMyPreferences _) = 141"
| "request_ty (QGetUsersProfile _) = 142"
| "request_ty (QGetPlayersSpecInfo _ _) = 143"
| "request_ty (QGetMapOverview _) = 192"
| "request_ty (QGetMapLB _ _ _) = 193"
| "request_ty (QGetMapLive _) = 194"
| "request_ty (QGetMapMyRank _) = 195"
| "request_ty (QGetMapRank _ _) = 196"
| "request_ty (QGetMinigameLB _ _ _ _) = 208"
| "request_ty (QGetMinigameMyRank _ _) = 209"
| "request_ty (QGetMinigameList _) = 210"
| "request_ty (QGetCollectibleList _) = 211"
| "request_ty (QGetCollectibleMine _) = 212"
| "request_ty (QGetHatsMine _) = 213"
| "request_ty (QGetHatsOnMap _) = 214"
| "request_ty QGetSecretAssets = 254"
| "request_ty QStressMe = 255"

fun request_name :: "request \<Rightarrow> string" where
  "request_name (QAuthenticate _ _ _ _) = ''Authenticate''"
| "request_name (QResumeSession _ _ _ _) = ''ResumeSession''"
| "request_name (QReportContext _ _ _ _ _ _) = ''ReportContext''"
| "request_name (QReportGCNodMsg _) = ''ReportGameCamNod''"
| "request_name QPing = ''Ping''"
| "request_name (QReportVehicleState _ _ _) = ''ReportVehicleState''"
| "request_name (QReportRespawn _) = ''ReportRespawn''"
| "request_name (QReportFinish _) = ''ReportFinish''"
| "request_name (QReportFallStart _ _ _ _) = ''ReportFallStart''"
| "request_name (QReportFallEnd _ _ _) = ''ReportFallEnd''"
| "request_name (QReportStats _) = ''ReportStats''"
| "request_name (QReportPBHeight _) = ''ReportPBHeight''"
| "request_name (QReportPlayerColor _ _) = ''ReportPlayerColor''"
| "request_name (QReportTwitch _) = ''ReportTwitch''"
| "request_name (QDowngradeStats _) = ''DowngradeStats''"
| "request_name (QReportMapCurrPos _ _ _) = ''ReportMapCurrPos''"
| "request_name (QReportCustomMapAuxSpec _ _ _) = ''ReportCustomMapAuxSpec''"
| "request_name (QDeleteCustomMapAuxSpec _ _) = ''DeleteCustomMapAuxSpec''"
| "request_name (QListCustomMapAuxSpecs _) = ''ListCustomMapAuxSpecs''"
| "request_name (QReportMapStats _ _) = ''ReportMapStats''"
| "request_name (QReportMinigameAttempt _ _ _ _ _) = ''ReportMinigameAttempt''"
| "request_name (QReportMinigameMap _ _) = ''ReportMinigameMap''"
| "request_name (QReportCollectibleUnlock _ _ _) = ''ReportCollectibleUnlock''"
| "request_name (QReportCollectibleCollect _ _ _ _ _ _ _) = ''ReportCollectibleCollect''"
| "request_name (QReportHatUnlock _ _ _) = ''ReportHatUnlock''"
| "request_name (QReportHatEquip _ _) = ''ReportHatEquip''"
| "request_name QGetMyStats = ''GetMyStats''"
| "request_name (QGetGlobalLB _ _) = ''GetGlobalLB''"
| "request_name (QGetFriendsLB _) = ''GetFriendsLB''"
| "request_name QGetGlobalOverview = ''GetGlobalOverview''"
| "request_name QGetServerStats = ''GetServerStats''"
| "request_name QGetMyRank = ''GetMyRank''"
| "request_name (QGetPlayersPb _) = ''GetPlayersPb''"
| "request_name QGetDonations = ''GetDonations''"
| "request_name QGetGfmDonations = ''GetGfmDonations''"
| "request_name (QGetTwitch _) = ''GetTwitch''"
| "request_name QGetMyProfile = ''GetMyProfile''"
| "request_name (QSetMyProfile _) = ''SetMyProfile''"
| "request_name QGetMyPreferences = ''GetMyPreferences''"
| "request_name (QSetMyPreferences _) = ''SetMyPreferences''"
| "request_name (QGetUsersProfile _) = ''GetUsersProfile''"
| "request_name (QGetPlayersSpecInfo _ _) = ''GetPlayersSpecInfo''"
| "request_name (QGetMapOverview _) = ''GetMapOverview''"
| "request_name (QGetMapLB _ _ _) = ''GetMapLB''"
| "request_name (QGetMapLive _) = ''GetMapLive''"
| "request_name (QGetMapMyRank _) = ''GetMapMyRank''"
| "request_name (QGetMapRank _ _) = ''GetMapRank''"
| "request_name (QGetMinigameLB _ _ _ _) = ''GetMinigameLB''"
| "request_name (QGetMinigameMyRank _ _) = ''GetMinigameMyRank''"
| "request_name (QGetMinigameList _) = ''GetMinigameList''"
| "request_name (QGetCollectibleList _) = ''GetCollectibleList''"
| "request_name (QGetCollectibleMine _) = ''GetCollectibleMine''"
| "request_name (QGetHatsMine _) = ''GetHatsMine''"
| "request_name (QGetHatsOnMap _) = ''GetHatsOnMap''"
| "request_name QGetSecretAssets = ''GetSecretAssets''"
| "request_name QStressMe = ''StressMe''"

section \<open>Responses\<close>

datatype (plugins only: code) response =
    RAuthFail string
  | RAuthSuccess string
  | RContextAck string
  | RPing
  | RServerInfo nat
  | RNonFatalErrorMsg nat string
  | RNewRecord string f32 nat
  | RStats stats nat
  | RGlobalLB "leaderboard_entry list"
  | RFriendsLB "leaderboard_entry list"
  | RGlobalOverview json
  | RTop3 "leaderboard_entry list"
  | RMyRank "leaderboard_entry option"
  | RPlayersPB string f64 int string int int
  | RDonations "donor list" "donation list"
  | RGfmDonations rat
  | RTwitchName string string
  | RUsersProfile json
  | RYourPreferences json
  | RPlayersSpecInfo string string int int
  | RMapOverview string nat nat
  | RMapLB string "leaderboard_entry2 list"
  | RMapLivePlayers string "leaderboard_entry2 list"
  | RMapRank string "leaderboard_entry2 option" bool "string option" bool
  | RMinigameLB string string "minigame_lb_entry list"
  | RMinigameRank string string "minigame_lb_entry option"
  | RMinigameList string "minigame_list_game list"
  | RCollectibleList string "collectible_list_item list"
  | RCollectibleMine string "collectible_mine_item list"
  | RHatsMine string string "hat_mine_item list"
  | RHatsOnMap string "hat_on_map_player list"
  | RHatsOnMapUpdate string "hat_on_map_player list"
  | RTaskResponse nat bool "string option"
  | RTaskResponseJson nat json
  | RSecretAssets "asset_ref list"

fun response_ty :: "response \<Rightarrow> nat" where
  "response_ty (RAuthFail _) = 1"
| "response_ty (RAuthSuccess _) = 2"
| "response_ty (RContextAck _) = 3"
| "response_ty RPing = 8"
| "response_ty (RServerInfo _) = 9"
| "response_ty (RNonFatalErrorMsg _ _) = 10"
| "response_ty (RNewRecord _ _ _) = 32"
| "response_ty (RStats _ _) = 128"
| "response_ty (RGlobalLB _) = 129"
| "response_ty (RFriendsLB _) = 130"
| "response_ty (RGlobalOverview _) = 131"
| "response_ty (RTop3 _) = 132"
| "response_ty (RMyRank _) = 133"
| "response_ty (RPlayersPB _ _ _ _ _ _) = 134"
| "response_ty (RDonations _ _) = 135"
| "response_ty (RGfmDonations _) = 136"
| "response_ty (RTwitchName _ _) = 137"
| "response_ty (RUsersProfile _) = 138"
| "response_ty (RYourPreferences _) = 139"
| "response_ty (RPlayersSpecInfo _ _ _ _) = 143"
| "response_ty (RMapOverview _ _ _) = 192"
| "response_ty (RMapLB _ _) = 193"
| "response_ty (RMapLivePlayers _ _) = 194"
| "response_ty (RMapRank _ _ _ _ _) = 195"
| "response_ty (RMinigameLB _ _ _) = 208"
| "response_ty (RMinigameRank _ _ _) = 209"
| "response_ty (RMinigameList _ _) = 210"
| "response_ty (RCollectibleList _ _) = 211"
| "response_ty (RCollectibleMine _ _) = 212"
| "response_ty (RHatsMine _ _ _) = 213"
| "response_ty (RHatsOnMap _ _) = 214"
| "response_ty (RHatsOnMapUpdate _ _) = 215"
| "response_ty (RTaskResponse _ _ _) = 253"
| "response_ty (RTaskResponseJson _ _) = 252"
| "response_ty (RSecretAssets _) = 254"

fun response_name :: "response \<Rightarrow> string" where
  "response_name (RAuthFail _) = ''AuthFail''"
| "response_name (RAuthSuccess _) = ''AuthSuccess''"
| "response_name (RContextAck _) = ''ContextAck''"
| "response_name RPing = ''Ping''"
| "response_name (RServerInfo _) = ''ServerInfo''"
| "response_name (RNonFatalErrorMsg _ _) = ''NonFatalErrorMsg''"
| "response_name (RNewRecord _ _ _) = ''NewRecord''"
| "response_name (RStats _ _) = ''Stats''"
| "response_name (RGlobalLB _) = ''GlobalLB''"
| "response_name (RFriendsLB _) = ''FriendsLB''"
| "response_name (RGlobalOverview _) = ''GlobalOverview''"
| "response_name (RTop3 _) = ''Top3''"
| "response_name (RMyRank _) = ''MyRank''"
| "response_name (RPlayersPB _ _ _ _ _ _) = ''PlayersPB''"
| "response_name (RDonations _ _) = ''Donations''"
| "response_name (RGfmDonations _) = ''GfmDonations''"
| "response_name (RTwitchName _ _) = ''TwitchName''"
| "response_name (RUsersProfile _) = ''UsersProfile''"
| "response_name (RYourPreferences _) = ''YourPreferences''"
| "response_name (RPlayersSpecInfo _ _ _ _) = ''PlayersSpecInfo''"
| "response_name (RMapOverview _ _ _) = ''MapOverview''"
| "response_name (RMapLB _ _) = ''MapLB''"
| "response_name (RMapLivePlayers _ _) = ''MapLivePlayers''"
| "response_name (RMapRank _ _ _ _ _) = ''MapRank''"
| "response_name (RMinigameLB _ _ _) = ''MinigameLB''"
| "response_name (RMinigameRank _ _ _) = ''MinigameRank''"
| "response_name (RMinigameList _ _) = ''MinigameList''"
| "response_name (RCollectibleList _ _) = ''CollectibleList''"
| "response_name (RCollectibleMine _ _) = ''CollectibleMine''"
| "response_name (RHatsMine _ _ _) = ''HatsMine''"
| "response_name (RHatsOnMap _ _) = ''HatsOnMap''"
| "response_name (RHatsOnMapUpdate _ _) = ''HatsOnMapUpdate''"
| "response_name (RTaskResponse _ _ _) = ''TaskResponse''"
| "response_name (RTaskResponseJson _ _) = ''TaskResponseJson''"
| "response_name (RSecretAssets _) = ''SecretAssets''"

section \<open>Type bytes identify the message\<close>

definition request_types :: "(nat \<times> string) list" where
  "request_types =
     [(1, ''Authenticate''), (2, ''ResumeSession''), (3, ''ReportContext''), (4,
     ''ReportGameCamNod''), (8, ''Ping''), (32, ''ReportVehicleState''), (33,
     ''ReportRespawn''), (34, ''ReportFinish''), (35, ''ReportFallStart''), (36,
     ''ReportFallEnd''), (37, ''ReportStats''), (39, ''ReportPBHeight''), (40,
     ''ReportPlayerColor''), (41, ''ReportTwitch''), (42, ''DowngradeStats''), (64,
     ''ReportMapCurrPos''), (65, ''ReportCustomMapAuxSpec''), (66, ''DeleteCustomMapAuxSpec''),
     (67, ''ListCustomMapAuxSpecs''), (68, ''ReportMapStats''), (80, ''ReportMinigameAttempt''),
     (81, ''ReportMinigameMap''), (82, ''ReportCollectibleUnlock''), (83,
     ''ReportCollectibleCollect''), (84, ''ReportHatUnlock''), (85, ''ReportHatEquip''), (128,
     ''GetMyStats''), (129, ''GetGlobalLB''), (130, ''GetFriendsLB''), (131,
     ''GetGlobalOverview''), (132, ''GetServerStats''), (133, ''GetMyRank''), (134,
     ''GetPlayersPb''), (135, ''GetDonations''), (136, ''GetGfmDonations''), (137,
     ''GetTwitch''), (138, ''GetMyProfile''), (139, ''SetMyProfile''), (140,
     ''GetMyPreferences''), (141, ''SetMyPreferences''), (142, ''GetUsersProfile''), (143,
     ''GetPlayersSpecInfo''), (192, ''GetMapOverview''), (193, ''GetMapLB''), (194,
     ''GetMapLive''), (195, ''GetMapMyRank''), (196, ''GetMapRank''), (208, ''GetMinigameLB''),
     (209, ''GetMinigameMyRank''), (210, ''GetMinigameList''), (211, ''GetCollectibleList''),
     (212, ''GetCollectibleMine''), (213, ''GetHatsMine''), (214, ''GetHatsOnMap''), (254,
     ''GetSecretAssets''), (255, ''StressMe'')]"

definition response_types :: "(nat \<times> string) list" where
  "response_types =
     [(1, ''AuthFail''), (2, ''AuthSuccess''), (3, ''ContextAck''), (8, ''Ping''), (9,
     ''ServerInfo''), (10, ''NonFatalErrorMsg''), (32, ''NewRecord''), (128, ''Stats''), (129,
     ''GlobalLB''), (130, ''FriendsLB''), (131, ''GlobalOverview''), (132, ''Top3''), (133,
     ''MyRank''), (134, ''PlayersPB''), (135, ''Donations''), (136, ''GfmDonations''), (137,
     ''TwitchName''), (138, ''UsersProfile''), (139, ''YourPreferences''), (143,
     ''PlayersSpecInfo''), (192, ''MapOverview''), (193, ''MapLB''), (194, ''MapLivePlayers''),
     (195, ''MapRank''), (208, ''MinigameLB''), (209, ''MinigameRank''), (210,
     ''MinigameList''), (211, ''CollectibleList''), (212, ''CollectibleMine''), (213,
     ''HatsMine''), (214, ''HatsOnMap''), (215, ''HatsOnMapUpdate''), (253, ''TaskResponse''),
     (252, ''TaskResponseJson''), (254, ''SecretAssets'')]"

definition name_of_type :: "(nat \<times> string) list \<Rightarrow> nat \<Rightarrow> string" where
  "name_of_type tab t = (case map_of tab t of None \<Rightarrow> [] | Some n \<Rightarrow> n)"

lemma request_in_table: "(request_ty r, request_name r) \<in> set request_types"
  by (cases r) (simp_all add: request_types_def)

lemma response_in_table: "(response_ty r, response_name r) \<in> set response_types"
  by (cases r) (simp_all add: response_types_def)

lemma request_types_distinct: "distinct (map fst request_types)" "distinct (map snd request_types)"
  unfolding request_types_def by code_simp+

lemma response_types_distinct: "distinct (map fst response_types)" "distinct (map snd response_types)"
  unfolding response_types_def by code_simp+

lemma distinct_fst_snd:
  "distinct (map fst xs) \<Longrightarrow> (a, b) \<in> set xs \<Longrightarrow> (a, c) \<in> set xs \<Longrightarrow> b = c"
  by (metis eq_key_imp_eq_value)

lemma distinct_snd_fst:
  "distinct (map snd xs) \<Longrightarrow> (a, b) \<in> set xs \<Longrightarrow> (c, b) \<in> set xs \<Longrightarrow> a = c"
  by (induction xs) (auto simp: rev_image_eqI)

lemma request_ty_name_iff: "request_ty r = request_ty q \<longleftrightarrow> request_name r = request_name q"
  using request_in_table [of r] request_in_table [of q] request_types_distinct
  by (metis distinct_fst_snd distinct_snd_fst)

lemma response_ty_name_iff: "response_ty r = response_ty q \<longleftrightarrow> response_name r = response_name q"
  using response_in_table [of r] response_in_table [of q] response_types_distinct
  by (metis distinct_fst_snd distinct_snd_fst)

lemma request_ty_byte: "request_ty r < 256"
  by (cases r) simp_all

lemma response_ty_byte: "response_ty r < 256"
  by (cases r) simp_all

end
