(* ===== verification/Framing.thy ===== *)
theory Framing
  imports Wire
begin

text \<open>
  The framing on the plugin's socket, \<open>write_to_socket\<close> and \<open>read_from_socket\<close> of
  \<open>src/router.rs\<close>: a little-endian \<open>u32\<close> length, the type byte, the length of the text
  again, and the JSON text.  The JSON codec (\<open>serde_json\<close>) is a parameter.
\<close>

type_synonym u8 = "8 word"

datatype io_error = UnexpectedEof | InvalidData string | Interrupted

definition le32 :: "nat \<Rightarrow> u8 list" where
  "le32 n = [of_nat n, of_nat (n div 256), of_nat (n div 65536), of_nat (n div 16777216)]"

definition un_le32 :: "u8 list \<Rightarrow> nat" where
  "un_le32 bs =
     unat (bs ! 0) + 256 * unat (bs ! 1) + 65536 * unat (bs ! 2) + 16777216 * unat (bs ! 3)"

text \<open>\<open>write_to_socket\<close>: the length is cast to \<open>u32\<close> and \<open>5 + len\<close> is a \<open>u32\<close> sum.\<close>

definition write_frame :: "nat \<Rightarrow> u8 list \<Rightarrow> u8 list" where
  "write_frame ty body =
     (let len = length body mod 2 ^ 32
      in le32 ((5 + len) mod 2 ^ 32) @ [of_nat ty] @ le32 len @ body)"

definition write_to_socket :: "(response \<Rightarrow> u8 list) \<Rightarrow> response \<Rightarrow> u8 list" where
  "write_to_socket to_string r = write_frame (response_ty r) (to_string r)"

text \<open>Reading from the bytes that have arrived; at their end the peer has closed the socket.\<close>

definition read_exact :: "nat \<Rightarrow> u8 list \<Rightarrow> io_error + (u8 list \<times> u8 list)" where
  "read_exact n inp = (if length inp < n then Inl UnexpectedEof else Inr (take n inp, drop n inp))"

definition await_bytes :: "bool \<Rightarrow> io_error + unit" where
  "await_bytes cancelled = (if cancelled then Inl Interrupted else Inr ())"

text \<open>
  \<open>read_from_socket\<close>.  \<open>from_slice\<close> is the JSON decoder, the two flags say whether the
  connection was cancelled while waiting for the header or for the text.  The \<open>u32\<close> sum
  \<open>5 + str_len\<close> wraps.  Both results of a complete frame carry the rest of the input.
\<close>

definition read_from_socket ::
    "(u8 list \<Rightarrow> request option) \<Rightarrow> bool \<Rightarrow> bool \<Rightarrow> u8 list \<Rightarrow>
     io_error + (request option \<times> u8 list)" where
  "read_from_socket from_slice cancel1 cancel2 inp =
     bind_res (await_bytes cancel1) (\<lambda>_.
     bind_res (read_exact 4 inp) (\<lambda>(b1, r1).
     bind_res (read_exact 1 r1) (\<lambda>(b2, r2).
     bind_res (read_exact 4 r2) (\<lambda>(b3, r3).
       let len = un_le32 b1; ty = unat (b2 ! 0); str_len = un_le32 b3
       in if len \<noteq> (5 + str_len) mod 2 ^ 32
          then Inl (InvalidData ''Invalid request length'')
          else
            bind_res (await_bytes cancel2) (\<lambda>_.
            bind_res (read_exact str_len r3) (\<lambda>(buf, rest).
              case from_slice buf of
                None \<Rightarrow> Inr (None, rest)
              | Some req \<Rightarrow>
                  if request_ty req \<noteq> ty
                  then Inl (InvalidData ''Invalid request type'')
                  else Inr (Some req, rest)))))))"

text \<open>The requests a connection delivers until the first error, as the read loop takes them.\<close>

fun read_requests ::
    "(u8 list \<Rightarrow> request option) \<Rightarrow> nat \<Rightarrow> u8 list \<Rightarrow> request option list" where
  "read_requests from_slice 0 inp = []"
| "read_requests from_slice (Suc fuel) inp =
     (case read_from_socket from_slice False False inp of
        Inl e \<Rightarrow> []
      | Inr (r, rest) \<Rightarrow> r # read_requests from_slice fuel rest)"

lemma unat_of_nat_u8 [simp]: "unat (of_nat n :: u8) = n mod 256"
  by (simp add: unat_of_nat)

lemma base256: "(n::nat) = n mod 256 + 256 * (n div 256 mod 256) + 65536 * (n div 65536 mod 256)
      + 16777216 * (n div 16777216)"
proof -
  have a: "n = n mod 256 + 256 * (n div 256)" by simp
  have b: "n div 256 = n div 256 mod 256 + 256 * (n div 65536)"
    using div_mult2_eq [of n 256 256] by simp
  have c: "n div 65536 = n div 65536 mod 256 + 256 * (n div 16777216)"
    using div_mult2_eq [of n 65536 256] by simp
  from a b c show ?thesis by linarith
qed

lemma un_le32_le32: "n < 2 ^ 32 \<Longrightarrow> un_le32 (le32 n) = n"
proof -
  assume n: "n < 2 ^ 32"
  have "n div 16777216 mod 256 = n div 16777216"
    using n by (intro mod_less) (simp add: less_mult_imp_div_less)
  then show ?thesis
    using base256 [of n] by (simp add: un_le32_def le32_def)
qed

lemma length_le32 [simp]: "length (le32 n) = 4"
  by (simp add: le32_def)

lemma read_exact_append [simp]: "length a = n \<Longrightarrow> read_exact n (a @ b) = Inr (a, b)"
  by (simp add: read_exact_def)

lemma read_exact_one [simp]: "read_exact (Suc 0) (x # xs) = Inr ([x], xs)"
  by (simp add: read_exact_def)

lemma read_exact_Inr [res_iff]:
  "read_exact n inp = Inr (a, b) \<longleftrightarrow> inp = a @ b \<and> length a = n"
  by (auto simp: read_exact_def)

lemma read_frame:
  assumes ty: "ty < 256" and len: "length body + 5 < 2 ^ 32"
  shows "read_from_socket from_slice False False (write_frame ty body @ rest) =
     (case from_slice body of
        None \<Rightarrow> Inr (None, rest)
      | Some req \<Rightarrow>
          if request_ty req \<noteq> ty then Inl (InvalidData ''Invalid request type'')
          else Inr (Some req, rest))"
proof -
  let ?n = "length body"
  have n: "?n mod 2 ^ 32 = ?n" "(5 + ?n) mod 2 ^ 32 = 5 + ?n"
    using len by simp_all
  have le: "un_le32 (le32 ?n) = ?n" "un_le32 (le32 (5 + ?n)) = 5 + ?n"
    using len by (simp_all add: un_le32_le32)
  have f: "write_frame ty body @ rest = le32 (5 + ?n) @ (of_nat ty # (le32 ?n @ (body @ rest)))"
    by (simp add: write_frame_def Let_def n del: power_numeral)
  show ?thesis
    unfolding f read_from_socket_def
    using ty by (simp add: await_bytes_def le n Let_def del: power_numeral split: option.splits)
qed

section \<open>What the reader accepts\<close>

lemma length_Suc_0_iff: "length xs = Suc 0 \<longleftrightarrow> (\<exists>x. xs = [x])"
  by (cases xs) auto

text \<open>
  The reader accepts a request exactly when the input starts with two little-endian
  lengths that agree modulo \<open>2 ^ 32\<close>, around the type byte of that request, and with as many
  bytes of text as the second length says, which decode to it; what follows the text is left
  for the next frame.
\<close>

theorem read_accepts_iff:
  "read_from_socket from_slice False False inp = Inr (Some req, rest) \<longleftrightarrow>
     (\<exists>b1 t b3 body. inp = b1 @ [t] @ b3 @ body @ rest \<and> length b1 = 4 \<and> length b3 = 4 \<and>
        un_le32 b1 = (5 + un_le32 b3) mod 2 ^ 32 \<and> length body = un_le32 b3 \<and>
        from_slice body = Some req \<and> request_ty req = unat t)"
  (is "?L \<longleftrightarrow> ?R")
proof
  assume ?L
  then obtain b1 r1 b2 r2 b3 r3 body where h:
      "inp = b1 @ r1" "length b1 = 4" "r1 = b2 @ r2" "length b2 = 1" "r2 = b3 @ r3" "length b3 = 4"
      "un_le32 b1 = (5 + un_le32 b3) mod 2 ^ 32" "r3 = body @ rest" "length body = un_le32 b3"
      "from_slice body = Some req" "request_ty req = unat (b2 ! 0)"
    by (auto simp: read_from_socket_def await_bytes_def Let_def res_iff
        split: if_splits option.splits)
  then obtain t where "b2 = [t]" by (auto simp: length_Suc_0_iff)
  with h show ?R by (intro exI [of _ b1] exI [of _ t] exI [of _ b3] exI [of _ body]) simp
next
  assume ?R
  then obtain b1 t b3 body where "inp = b1 @ (t # (b3 @ (body @ rest)))"
      "length b1 = 4" "length b3 = 4" "un_le32 b1 = (5 + un_le32 b3) mod 2 ^ 32"
      "length body = un_le32 b3" "from_slice body = Some req" "request_ty req = unat t"
    by auto
  then show ?L by (simp add: read_from_socket_def await_bytes_def Let_def del: power_numeral)
qed

text \<open>
  C33. A stream of frames in the server's own format is read back frame by frame, in order and
  with nothing left over: each text is decoded on its own, and a text that does not decode
  costs its own request only.
\<close>

theorem frame_stream_roundtrip:
  assumes "\<forall>f\<in>set frames. fst f < 256 \<and> length (snd f) + 5 < 2 ^ 32 \<and>
      (\<forall>r. from_slice (snd f) = Some r \<longrightarrow> request_ty r = fst f)"
  shows "read_requests from_slice (Suc (length frames))
      (concat (map (\<lambda>f. write_frame (fst f) (snd f)) frames)) =
      map (\<lambda>f. from_slice (snd f)) frames"
  using assms
proof (induction frames)
  case Nil
  then show ?case by (simp add: read_from_socket_def await_bytes_def read_exact_def)
next
  case (Cons f fs)
  then have ih: "read_requests from_slice (Suc (length fs))
      (concat (map (\<lambda>f. write_frame (fst f) (snd f)) fs)) = map (\<lambda>f. from_slice (snd f)) fs"
    by simp
  have f: "fst f < 256" "length (snd f) + 5 < 2 ^ 32"
      "\<And>r. from_slice (snd f) = Some r \<Longrightarrow> request_ty r = fst f"
    using Cons.prems by auto
  show ?case
    using ih f(3)
    by (cases "from_slice (snd f)")
       (simp_all add: read_frame [OF f(1,2)] del: read_requests.simps(2)
         add: read_requests.simps(2) [of from_slice "Suc (length fs)"])
qed

theorem frame_stream_roundtrip_witness:
  "read_requests (\<lambda>b. if b = [123, 125] then Some QPing else None)
     (Suc (length [(8::nat, [123, 125 :: u8]), (9, [0])]))
     (concat (map (\<lambda>f. write_frame (fst f) (snd f)) [(8, [123, 125]), (9, [0])])) =
   [Some QPing, None]"
proof -
  let ?d = "\<lambda>b. if b = [123, 125 :: u8] then Some QPing else None"
  have "read_requests ?d (Suc (length [(8::nat, [123, 125 :: u8]), (9, [0])]))
     (concat (map (\<lambda>f. write_frame (fst f) (snd f)) [(8, [123, 125]), (9, [0])])) =
     map (\<lambda>f. ?d (snd f)) [(8::nat, [123, 125]), (9, [0])]"
    by (rule frame_stream_roundtrip) simp
  then show ?thesis by simp
qed

end
