(* ===== verification/Collections.thy ===== *)
theory Collections
  imports Rust_Std "HOL-Library.AList"
begin

text \<open>
  The containers of the server's in-memory state.

  A \<open>HashMap\<close> is an association list with distinct keys, updated with the library's
  \<^const>\<open>AList.update\<close> and \<^const>\<open>AList.delete\<close>; nothing modelled depends on the order
  of its entries.

  The \<open>lru\<close> crate is code from outside the repository.  A component that uses it takes its
  operations as a record \<open>lru_ops\<close>; \<open>lru_contract\<close> states their documented behaviour over the
  entries the iterator lists, from the most to the least recently used.  \<open>list_lru\<close>, a list
  kept in that order, shows that the contract can be met.
\<close>

section \<open>Hash maps\<close>

type_synonym ('k, 'v) hash_map = "('k \<times> 'v) list"

definition wf_map :: "('k, 'v) hash_map \<Rightarrow> bool" where
  "wf_map m \<longleftrightarrow> distinct (map fst m)"

definition hm_retain :: "('k \<Rightarrow> 'v \<Rightarrow> bool) \<Rightarrow> ('k, 'v) hash_map \<Rightarrow> ('k, 'v) hash_map" where
  "hm_retain P m = filter (\<lambda>(k, v). P k v) m"

lemma wf_map_Nil [simp]: "wf_map []"
  by (simp add: wf_map_def)

lemma wf_map_update [simp, intro]: "wf_map m \<Longrightarrow> wf_map (AList.update k v m)"
  by (simp add: wf_map_def distinct_update)

lemma wf_map_delete [simp, intro]: "wf_map m \<Longrightarrow> wf_map (AList.delete k m)"
  by (simp add: wf_map_def distinct_delete)

lemma wf_map_filter: "wf_map m \<Longrightarrow> wf_map (filter P m)"
  unfolding wf_map_def by (rule distinct_map_filter_rows)

lemma wf_map_retain [simp, intro]: "wf_map m \<Longrightarrow> wf_map (hm_retain P m)"
  by (simp add: hm_retain_def wf_map_filter)

lemma map_of_update [simp]: "map_of (AList.update k v m) = (map_of m)(k \<mapsto> v)"
  by (rule update_conv')

lemma map_of_delete [simp]: "map_of (AList.delete k m) j = (if j = k then None else map_of m j)"
  by (simp add: delete_conv')

lemma map_of_retain:
  "wf_map m \<Longrightarrow> map_of (hm_retain P m) k =
     (case map_of m k of None \<Rightarrow> None | Some v \<Rightarrow> if P k v then Some v else None)"
proof (induction m)
  case Nil
  then show ?case by (simp add: hm_retain_def)
next
  case (Cons p m)
  then have "fst p \<notin> fst ` set m" "wf_map m" by (auto simp: wf_map_def)
  moreover from this(1) have "map_of m (fst p) = None" by (simp add: map_of_eq_None_iff)
  ultimately show ?case
    using Cons.IH by (auto simp: hm_retain_def split: option.splits prod.splits)
qed

lemma length_retain: "length (hm_retain P m) \<le> length m"
  by (simp add: hm_retain_def)

lemma length_update:
  "length (AList.update k v m) = (if k \<in> fst ` set m then length m else Suc (length m))"
  by (induction m) auto

lemma length_update_le: "length (AList.update k v m) \<le> Suc (length m)"
  by (simp add: length_update)

section \<open>The interface of the LRU cache\<close>

record ('c, 'k, 'v) lru_ops =
  lru_cap :: "'c \<Rightarrow> nat"
  lru_iter :: "'c \<Rightarrow> ('k \<times> 'v) list"
  lru_peek :: "'c \<Rightarrow> 'k \<Rightarrow> 'v option"
  lru_get :: "'c \<Rightarrow> 'k \<Rightarrow> 'v option \<times> 'c"
  lru_put :: "'c \<Rightarrow> 'k \<Rightarrow> 'v \<Rightarrow> 'c"
  lru_pop :: "'c \<Rightarrow> 'k \<Rightarrow> 'c"

definition lru_len :: "('c, 'k, 'v, 'z) lru_ops_scheme \<Rightarrow> 'c \<Rightarrow> nat" where
  "lru_len ops c = length (lru_iter ops c)"

text \<open>
  \<open>get_mut\<close> hands out the entry, which becomes the most recently used; writing through the
  reference is a \<open>put\<close> on the key, which is then present.
\<close>

definition lru_without :: "'k \<Rightarrow> ('k \<times> 'v) list \<Rightarrow> ('k \<times> 'v) list" where
  "lru_without k es = filter (\<lambda>e. fst e \<noteq> k) es"

definition lru_contract :: "('c, 'k, 'v, 'z) lru_ops_scheme \<Rightarrow> ('c \<Rightarrow> bool) \<Rightarrow> bool" where
  "lru_contract ops ok \<longleftrightarrow>
     (\<forall>c. ok c \<longrightarrow> 0 < lru_cap ops c \<and> length (lru_iter ops c) \<le> lru_cap ops c \<and>
        distinct (map fst (lru_iter ops c))) \<and>
     (\<forall>c k. ok c \<longrightarrow> lru_peek ops c k = map_of (lru_iter ops c) k) \<and>
     (\<forall>c k. ok c \<longrightarrow> ok (snd (lru_get ops c k)) \<and>
        fst (lru_get ops c k) = map_of (lru_iter ops c) k \<and>
        lru_cap ops (snd (lru_get ops c k)) = lru_cap ops c \<and>
        lru_iter ops (snd (lru_get ops c k)) =
          (case map_of (lru_iter ops c) k of
             None \<Rightarrow> lru_iter ops c
           | Some v \<Rightarrow> (k, v) # lru_without k (lru_iter ops c))) \<and>
     (\<forall>c k v. ok c \<longrightarrow> ok (lru_put ops c k v) \<and>
        lru_cap ops (lru_put ops c k v) = lru_cap ops c \<and>
        lru_iter ops (lru_put ops c k v) =
          take (lru_cap ops c) ((k, v) # lru_without k (lru_iter ops c))) \<and>
     (\<forall>c k. ok c \<longrightarrow> ok (lru_pop ops c k) \<and> lru_cap ops (lru_pop ops c k) = lru_cap ops c \<and>
        lru_iter ops (lru_pop ops c k) = lru_without k (lru_iter ops c))"

lemma lru_contractD:
  assumes "lru_contract ops ok" and "ok c"
  shows lru_cap_pos: "0 < lru_cap ops c"
    and lru_len_le: "length (lru_iter ops c) \<le> lru_cap ops c"
    and lru_distinct: "distinct (map fst (lru_iter ops c))"
    and lru_peek_eq: "lru_peek ops c k = map_of (lru_iter ops c) k"
    and lru_get_ok: "ok (snd (lru_get ops c k))"
    and lru_get_val: "fst (lru_get ops c k) = map_of (lru_iter ops c) k"
    and lru_get_iter: "lru_iter ops (snd (lru_get ops c k)) =
          (case map_of (lru_iter ops c) k of
             None \<Rightarrow> lru_iter ops c
           | Some v \<Rightarrow> (k, v) # lru_without k (lru_iter ops c))"
    and lru_get_cap: "lru_cap ops (snd (lru_get ops c k)) = lru_cap ops c"
    and lru_put_ok: "ok (lru_put ops c k v)"
    and lru_put_iter: "lru_iter ops (lru_put ops c k v) =
          take (lru_cap ops c) ((k, v) # lru_without k (lru_iter ops c))"
    and lru_put_cap: "lru_cap ops (lru_put ops c k v) = lru_cap ops c"
    and lru_pop_ok: "ok (lru_pop ops c k)"
    and lru_pop_iter: "lru_iter ops (lru_pop ops c k) = lru_without k (lru_iter ops c)"
    and lru_pop_cap: "lru_cap ops (lru_pop ops c k) = lru_cap ops c"
  using assms unfolding lru_contract_def by simp_all

lemma map_of_without: "map_of (lru_without k es) j = (if j = k then None else map_of es j)"
  by (induction es) (auto simp: lru_without_def)

lemma length_without: "length (lru_without k es) \<le> length es"
  by (simp add: lru_without_def)

lemma length_without_present:
  "map_of es k = Some v \<Longrightarrow> length (lru_without k es) < length es"
proof (induction es)
  case (Cons e es)
  then show ?case
    using length_without [of k es] by (auto simp: lru_without_def less_Suc_eq_le split: if_splits)
qed simp

lemma fst_set_without: "fst ` set (lru_without k es) = fst ` set es - {k}"
  by (auto simp: lru_without_def)

lemma distinct_without: "distinct (map fst es) \<Longrightarrow> distinct (map fst (lru_without k es))"
  unfolding lru_without_def by (rule distinct_map_filter_rows)

lemma lru_peek_put:
  assumes "lru_contract ops ok" and "ok c"
  shows "lru_peek ops (lru_put ops c k v) k = Some v"
proof -
  have "lru_peek ops (lru_put ops c k v) k =
      map_of (take (lru_cap ops c) ((k, v) # lru_without k (lru_iter ops c))) k"
    by (simp add: lru_peek_eq [OF assms(1) lru_put_ok [OF assms]] lru_put_iter [OF assms])
  with lru_cap_pos [OF assms] show ?thesis
    by (cases "lru_cap ops c") simp_all
qed

text \<open>Writing to a key that is present evicts nothing.\<close>

lemma lru_put_present:
  assumes c: "lru_contract ops ok" "ok c" and p: "map_of (lru_iter ops c) k = Some w"
  shows "lru_iter ops (lru_put ops c k v) = (k, v) # lru_without k (lru_iter ops c)"
proof -
  have "Suc (length (lru_without k (lru_iter ops c))) \<le> lru_cap ops c"
    using length_without_present [OF p] lru_len_le [OF c] by simp
  then show ?thesis by (simp add: lru_put_iter [OF c])
qed

text \<open>
  An entry stays as long as fewer other keys than the capacity are written after it.
\<close>

definition lru_behind :: "'k set \<Rightarrow> 'k \<Rightarrow> 'v \<Rightarrow> ('k \<times> 'v) list \<Rightarrow> bool" where
  "lru_behind U u v es \<longleftrightarrow> (\<exists>pre post. es = pre @ (u, v) # post \<and> fst ` set pre \<subseteq> U)"

lemma lru_behind_lookup: "lru_behind U u v es \<Longrightarrow> u \<notin> U \<Longrightarrow> map_of es u = Some v"
  by (force simp: lru_behind_def map_add_def dest: map_of_SomeD split: option.splits)

lemma lru_behind_put_same:
  assumes "lru_contract ops ok" and "ok c"
  shows "lru_behind U u v (lru_iter ops (lru_put ops c u v))"
proof -
  have "lru_iter ops (lru_put ops c u v) =
      [] @ (u, v) # take (lru_cap ops c - 1) (lru_without u (lru_iter ops c))"
    using lru_cap_pos [OF assms] by (cases "lru_cap ops c") (simp_all add: lru_put_iter [OF assms])
  then show ?thesis unfolding lru_behind_def by fastforce
qed

lemma lru_behind_put:
  assumes c: "lru_contract ops ok" "ok c"
    and b: "lru_behind U u v (lru_iter ops c)"
    and U: "finite U" "card U < lru_cap ops c" "u \<notin> U" "k \<in> U"
  shows "lru_behind U u v (lru_iter ops (lru_put ops c k w))"
proof -
  obtain pre post where es: "lru_iter ops c = pre @ (u, v) # post" "fst ` set pre \<subseteq> U"
    using b by (auto simp: lru_behind_def)
  let ?pre = "(k, w) # lru_without k pre"
  have "distinct (map fst pre)"
    using lru_distinct [OF c] es by simp
  then have d: "distinct (map fst ?pre)"
    by (simp add: distinct_without fst_set_without)
  have sub: "fst ` set ?pre \<subseteq> U"
    using es(2) U(4) by (auto simp: lru_without_def)
  have "length ?pre = card (fst ` set ?pre)"
    using distinct_card [OF d] by simp
  also have "\<dots> \<le> card U" by (rule card_mono [OF U(1) sub])
  finally have len: "length ?pre < lru_cap ops c" using U(2) by simp
  then obtain n where n: "lru_cap ops c = length ?pre + Suc n"
    using less_iff_Suc_add by auto
  have "(k, w) # lru_without k (lru_iter ops c) = ?pre @ (u, v) # lru_without k post"
    using es(1) U(3,4) by (auto simp: lru_without_def)
  then have "lru_iter ops (lru_put ops c k w) = ?pre @ (u, v) # take n (lru_without k post)"
    by (simp add: lru_put_iter [OF c] n)
  with sub show ?thesis unfolding lru_behind_def by blast
qed

section \<open>An instance\<close>

type_synonym ('k, 'v) list_lru_cache = "nat \<times> ('k \<times> 'v) list"

definition list_lru :: "(('k, 'v) list_lru_cache, 'k, 'v) lru_ops" where
  "list_lru =
     \<lparr>lru_cap = fst, lru_iter = snd,
      lru_peek = (\<lambda>c k. map_of (snd c) k),
      lru_get = (\<lambda>c k. (map_of (snd c) k,
        case map_of (snd c) k of
          None \<Rightarrow> c
        | Some v \<Rightarrow> (fst c, (k, v) # lru_without k (snd c)))),
      lru_put = (\<lambda>c k v. (fst c, take (fst c) ((k, v) # lru_without k (snd c)))),
      lru_pop = (\<lambda>c k. (fst c, lru_without k (snd c)))\<rparr>"

definition list_lru_ok :: "('k, 'v) list_lru_cache \<Rightarrow> bool" where
  "list_lru_ok c \<longleftrightarrow> 0 < fst c \<and> length (snd c) \<le> fst c \<and> distinct (map fst (snd c))"

lemma distinct_take_cons_without:
  "distinct (map fst es) \<Longrightarrow> distinct (map fst (take n ((k, v) # lru_without k es)))"
proof -
  assume "distinct (map fst es)"
  then have "distinct (map fst ((k, v) # lru_without k es))"
    by (simp add: distinct_without fst_set_without)
  then show ?thesis by (metis distinct_take take_map)
qed

lemma list_lru_get_ok: "list_lru_ok c \<Longrightarrow> list_lru_ok (snd (lru_get list_lru c k))"
  using length_without_present [of "snd c" k]
  by (cases "map_of (snd c) k")
     (force simp: list_lru_ok_def list_lru_def distinct_without fst_set_without)+

lemma list_lru_contract: "lru_contract list_lru list_lru_ok"
proof -
  have g: "list_lru_ok c \<Longrightarrow> list_lru_ok (snd (lru_get list_lru c k))" for c :: "nat \<times> ('a \<times> 'b) list" and k
    by (rule list_lru_get_ok)
  have p: "list_lru_ok c \<Longrightarrow> list_lru_ok (lru_put list_lru c k v)"
    for c :: "nat \<times> ('a \<times> 'b) list" and k v
    by (auto simp: list_lru_ok_def list_lru_def intro: distinct_take_cons_without)
  have r: "list_lru_ok c \<Longrightarrow> list_lru_ok (lru_pop list_lru c k)"
    for c :: "nat \<times> ('a \<times> 'b) list" and k
    by (auto simp: list_lru_ok_def list_lru_def distinct_without
        intro: order_trans [OF length_without])
  show ?thesis
    unfolding lru_contract_def
    using g p r by (auto simp: list_lru_def list_lru_ok_def split: option.splits)
qed

end
