(* ===== verification/Sqlx.thy ===== *)
theory Sqlx
  imports Rust_Std
begin

text \<open>
  What the server uses of its database client: queries as functions of the database state,
  each with a result or an error.  A function outside a transaction keeps what it wrote
  before an error; \<open>in_tx\<close> is a transaction, which rolls back.  Constraint violations are the
  error values the schema under \<open>migrations/\<close> gives rise to.
\<close>

datatype db_error =
    RowNotFound
  | UniqueViolation string
  | ForeignKeyViolation string
  | CheckViolation string
  | NotNullViolation string
  | ValueTooLong
  | InvalidText
  | OutOfRange
  | InvalidRowCount
  | ColumnDecode

text \<open>\<open>api_error::Error\<close>; the payload of a wrapped error is its debug text.\<close>

datatype api_error =
    StrErr string
  | SqlxErr db_error
  | SendErr
  | SendErrToMgr
  | B64 string
  | JsonErr string
  | UuidErr string

type_synonym uuid = "128 word"

section \<open>Database actions\<close>

type_synonym ('d, 'e, 'a) db_action = "'d \<Rightarrow> ('e + 'a) \<times> 'd"

definition Ok :: "'a \<Rightarrow> ('d, 'e, 'a) db_action" where
  "Ok a d = (Inr a, d)"

definition Err :: "'e \<Rightarrow> ('d, 'e, 'a) db_action" where
  "Err e d = (Inl e, d)"

definition and_then ::
    "('d, 'e, 'a) db_action \<Rightarrow> ('a \<Rightarrow> ('d, 'e, 'b) db_action) \<Rightarrow> ('d, 'e, 'b) db_action" where
  "and_then m f d = (case m d of (Inl e, d1) \<Rightarrow> (Inl e, d1) | (Inr a, d1) \<Rightarrow> f a d1)"

definition fetch :: "('d \<Rightarrow> 'e + 'a) \<Rightarrow> ('d, 'e, 'a) db_action" where
  "fetch q d = (q d, d)"

definition execute :: "('d \<Rightarrow> 'd) \<Rightarrow> ('d, 'e, unit) db_action" where
  "execute u d = (Inr (), u d)"

definition map_err :: "('e \<Rightarrow> 'f) \<Rightarrow> ('d, 'e, 'a) db_action \<Rightarrow> ('d, 'f, 'a) db_action" where
  "map_err h m d = (case m d of (Inl e, d1) \<Rightarrow> (Inl (h e), d1) | (Inr a, d1) \<Rightarrow> (Inr a, d1))"

definition in_tx :: "('d, 'e, 'a) db_action \<Rightarrow> ('d, 'e, 'a) db_action" where
  "in_tx m d = (case m d of (Inl e, _) \<Rightarrow> (Inl e, d) | (Inr a, d1) \<Rightarrow> (Inr a, d1))"

definition attempt :: "('d, 'e, 'a) db_action \<Rightarrow> ('d, 'f, 'e + 'a) db_action" where
  "attempt m d = (case m d of (r, d1) \<Rightarrow> (Inr r, d1))"

lemma action_simps [simp]:
  "Ok a d = (Inr a, d)" "Err e d = (Inl e, d)"
  "fetch q d = (q d, d)" "execute u d = (Inr (), u d)"
  by (simp_all add: Ok_def Err_def fetch_def execute_def)

lemma and_then_Inr [res_iff]:
  "and_then m f d = (Inr b, d2) \<longleftrightarrow> (\<exists>a d1. m d = (Inr a, d1) \<and> f a d1 = (Inr b, d2))"
  by (auto simp: and_then_def split: prod.splits sum.splits)

lemma and_then_Inl:
  "and_then m f d = (Inl e, d2) \<longleftrightarrow>
     m d = (Inl e, d2) \<or> (\<exists>a d1. m d = (Inr a, d1) \<and> f a d1 = (Inl e, d2))"
  by (auto simp: and_then_def split: prod.splits sum.splits)

lemma and_then_simps [simp]:
  "m d = (Inr a, d1) \<Longrightarrow> and_then m f d = f a d1"
  "m d = (Inl e, d1) \<Longrightarrow> and_then m f d = (Inl e, d1)"
  by (simp_all add: and_then_def)

lemma in_tx_Inl [simp]: "m d = (Inl e, d1) \<Longrightarrow> in_tx m d = (Inl e, d)"
  by (simp add: in_tx_def)

lemma in_tx_Inr [simp]: "m d = (Inr a, d1) \<Longrightarrow> in_tx m d = (Inr a, d1)"
  by (simp add: in_tx_def)

lemma in_tx_Inr_iff [res_iff]: "in_tx m d = (Inr a, d1) \<longleftrightarrow> m d = (Inr a, d1)"
  by (auto simp: in_tx_def split: prod.splits sum.splits)

lemma in_tx_rollback: "fst (in_tx m d) = Inl e \<Longrightarrow> snd (in_tx m d) = d"
  by (auto simp: in_tx_def split: prod.splits sum.splits)

lemma map_err_Inr_iff [res_iff]: "map_err h m d = (Inr a, d1) \<longleftrightarrow> m d = (Inr a, d1)"
  by (auto simp: map_err_def split: prod.splits sum.splits)

text \<open>
  An invariant of the database: an action keeps it on every outcome.  The rules compose the
  proofs along the code.
\<close>

definition keeps :: "('d \<Rightarrow> bool) \<Rightarrow> ('d, 'e, 'a) db_action \<Rightarrow> bool" where
  "keeps I m \<longleftrightarrow> (\<forall>d. I d \<longrightarrow> I (snd (m d)))"

lemma keepsI [intro?]: "(\<And>d. I d \<Longrightarrow> I (snd (m d))) \<Longrightarrow> keeps I m"
  by (simp add: keeps_def)

lemma keepsD: "keeps I m \<Longrightarrow> I d \<Longrightarrow> I (snd (m d))"
  by (simp add: keeps_def)

named_theorems keeps_rules \<open>rules for the invariants of database actions\<close>

lemma keeps_ok [keeps_rules]: "keeps I (Ok a)"
  by (rule keepsI) simp

lemma keeps_err [keeps_rules]: "keeps I (Err e)"
  by (rule keepsI) simp

lemma keeps_fetch [keeps_rules]: "keeps I (fetch q)"
  by (rule keepsI) simp

lemma keeps_execute: "(\<And>d. I d \<Longrightarrow> I (u d)) \<Longrightarrow> keeps I (execute u)"
  by (rule keepsI) simp

lemma keeps_and_then [keeps_rules]:
  "keeps I m \<Longrightarrow> (\<And>a. keeps I (f a)) \<Longrightarrow> keeps I (and_then m f)"
  by (auto simp: keeps_def and_then_def split: prod.splits sum.splits)

lemma keeps_in_tx [keeps_rules]: "keeps I m \<Longrightarrow> keeps I (in_tx m)"
  by (auto simp: keeps_def in_tx_def split: prod.splits sum.splits)

lemma keeps_map_err [keeps_rules]: "keeps I m \<Longrightarrow> keeps I (map_err h m)"
  by (auto simp: keeps_def map_err_def split: prod.splits sum.splits)

lemma keeps_attempt [keeps_rules]: "keeps I m \<Longrightarrow> keeps I (attempt m)"
  by (auto simp: keeps_def attempt_def split: prod.splits)

lemma keeps_if [keeps_rules]: "keeps I m \<Longrightarrow> keeps I n \<Longrightarrow> keeps I (if b then m else n)"
  by simp

lemma keeps_case_option [keeps_rules]:
  "keeps I m \<Longrightarrow> (\<And>x. keeps I (f x)) \<Longrightarrow> keeps I (case y of None \<Rightarrow> m | Some x \<Rightarrow> f x)"
  by (cases y) simp_all

lemma keeps_case_sum [keeps_rules]:
  "(\<And>e. keeps I (g e)) \<Longrightarrow> (\<And>x. keeps I (f x)) \<Longrightarrow>
   keeps I (case y of Inl e \<Rightarrow> g e | Inr x \<Rightarrow> f x)"
  by (cases y) simp_all

lemma keeps_case_prod [keeps_rules]:
  "(\<And>a b. keeps I (f a b)) \<Longrightarrow> keeps I (case y of (a, b) \<Rightarrow> f a b)"
  by (cases y) simp

text \<open>A loop over a list, stopping at the first error.\<close>

fun for_each :: "('a \<Rightarrow> ('d, 'e, unit) db_action) \<Rightarrow> 'a list \<Rightarrow> ('d, 'e, unit) db_action" where
  "for_each f [] = Ok ()"
| "for_each f (x # xs) = and_then (f x) (\<lambda>_. for_each f xs)"

lemma keeps_for_each [keeps_rules]: "(\<And>x. keeps I (f x)) \<Longrightarrow> keeps I (for_each f xs)"
  by (induction xs) (auto intro: keeps_rules)

section \<open>Text columns\<close>

text \<open>
  A text column holds no NUL.  \<open>VARCHAR(n)\<close> counts characters, not bytes, and rejects longer
  values unless only blanks are cut off.
\<close>

definition is_cont_byte :: "char \<Rightarrow> bool" where
  "is_cont_byte c \<longleftrightarrow> 128 \<le> (of_char c :: nat) \<and> (of_char c :: nat) < 192"

definition char_count :: "string \<Rightarrow> nat" where
  "char_count s = length (filter (\<lambda>c. \<not> is_cont_byte c) s)"

fun take_chars :: "nat \<Rightarrow> string \<Rightarrow> string" where
  "take_chars n [] = []"
| "take_chars n (c # cs) =
     (if is_cont_byte c then c # take_chars n cs
      else (case n of 0 \<Rightarrow> [] | Suc m \<Rightarrow> c # take_chars m cs))"

definition text_col :: "string \<Rightarrow> db_error + string" where
  "text_col s = (if CHR 0x00 \<in> set s then Inl InvalidText else Inr s)"

definition varchar_col :: "nat \<Rightarrow> string \<Rightarrow> db_error + string" where
  "varchar_col n s =
     (if CHR 0x00 \<in> set s then Inl InvalidText
      else if char_count s \<le> n then Inr s
      else if set (drop (length (take_chars n s)) s) \<subseteq> {CHR '' ''} then Inr (take_chars n s)
      else Inl ValueTooLong)"

lemma varchar_col_short: "CHR 0x00 \<notin> set s \<Longrightarrow> char_count s \<le> n \<Longrightarrow> varchar_col n s = Inr s"
  by (simp add: varchar_col_def)

lemma char_count_le_length: "char_count s \<le> length s"
  by (simp add: char_count_def)

lemma char_count_take_chars: "char_count (take_chars n s) \<le> n"
  by (induction n s rule: take_chars.induct) (auto simp: char_count_def split: nat.splits)

lemma varchar_col_count: "varchar_col n s = Inr t \<Longrightarrow> char_count t \<le> n"
  by (auto simp: varchar_col_def char_count_take_chars split: if_splits)

lemma take_chars_all: "char_count s \<le> n \<Longrightarrow> take_chars n s = s"
  by (induction n s rule: take_chars.induct)
     (auto simp: char_count_def split: nat.splits if_splits)

end
