(* ===== verification/Plugin_Auth.thy ===== *)
theory Plugin_Auth
  imports Framing Collections Sqlx
begin

text \<open>
  How a connection logs in (\<open>run_auth\<close> and the version functions of \<open>src/server2.rs\<close>,
  \<open>check_token\<close> of \<open>src/op_auth.rs\<close>) and the session and user tables behind it
  (\<open>src/queries/auth.rs\<close>).

  Parameters: the UUID parser (its error is the debug text), the
  HTTP request to the token service, the JSON decoder of its answer, and the UUIDs
  \<open>Uuid::now_v7\<close> makes.
\<close>

section \<open>Versions\<close>

fun version_less :: "nat list \<Rightarrow> nat list \<Rightarrow> bool" where
  "version_less (a # v1) (b # v2) = (if a < b then True else if b < a then False else version_less v1 v2)"
| "version_less [] v2 = False"
| "version_less v1 [] = False"

definition version_to_string :: "nat list \<Rightarrow> string" where
  "version_to_string v = join_with ''.'' (map show_nat v)"

fun collect_parts :: "nat option list \<Rightarrow> nat list option" where
  "collect_parts [] = Some []"
| "collect_parts (None # ps) = None"
| "collect_parts (Some n # ps) = map_option ((#) n) (collect_parts ps)"

definition version_str_to_parts :: "string \<Rightarrow> nat list option" where
  "version_str_to_parts v = collect_parts (map parse_u32 (split_on (CHR ''.'') v))"

definition plugin_info_extract_version :: "string \<Rightarrow> string" where
  "plugin_info_extract_version info =
     (case List.find (\<lambda>l. starts_with l ''Version:'') (str_lines info) of
        None \<Rightarrow> ''0.0.0''
      | Some l \<Rightarrow> last (split_on (CHR '':'') l))"

definition MIN_PLUGIN_VERSION :: "nat list" where
  "MIN_PLUGIN_VERSION = [0, 4, 15]"

definition check_min_plugin_version :: "string \<Rightarrow> api_error + unit" where
  "check_min_plugin_version info =
     (let parts = (case version_str_to_parts (plugin_info_extract_version info) of
                     Some p \<Rightarrow> p | None \<Rightarrow> [0, 0, 0])
      in if version_less parts MIN_PLUGIN_VERSION
         then Inl (StrErr (''Update Plugin! Version too low: '' @ version_to_string parts))
         else Inr ())"

section \<open>Tokens of the plugin service\<close>

record op_config =
  op_secret :: string
  op_url :: string
  op_plugin_id :: int

record token_resp =
  tr_account_id :: string
  tr_display_name :: string
  tr_token_time :: int

text \<open>
  \<open>check_token\<close>: \<open>post\<close> is the form request, \<open>None\<close> when sending failed, otherwise the status
  and the body (\<open>None\<close> when reading it failed).
\<close>

definition check_token ::
    "('c, string, token_resp, 'z) lru_ops_scheme \<Rightarrow>
     (string \<Rightarrow> string \<Rightarrow> string \<Rightarrow> (nat \<times> string option) option) \<Rightarrow>
     (string \<Rightarrow> token_resp option) \<Rightarrow> (int, op_config) hash_map \<Rightarrow>
     string \<Rightarrow> int \<Rightarrow> 'c \<Rightarrow> token_resp option \<times> 'c" where
  "check_token ops post from_slice configs token plugin_id cache =
     (case map_of configs plugin_id of
        None \<Rightarrow> (None, cache)
      | Some config \<Rightarrow>
          let (hit, cache1) = lru_get ops cache token
          in case hit of
               Some r \<Rightarrow> (Some r, cache1)
             | None \<Rightarrow>
                 (case post (op_url config) token (op_secret config) of
                    None \<Rightarrow> (None, cache1)
                  | Some (status, body) \<Rightarrow>
                      if status \<noteq> 200 then (None, cache1)
                      else
                        (case from_slice (case body of None \<Rightarrow> [] | Some b \<Rightarrow> b) of
                           None \<Rightarrow> (None, cache1)
                         | Some r \<Rightarrow> (Some r, lru_put ops cache1 token r))))"

section \<open>Users, sessions and contexts\<close>

record user_row =
  ur_id :: uuid
  ur_display_name :: string
  ur_created_ts :: nat
  ur_last_login_ts :: nat

record display_name_row =
  dnr_user_id :: uuid
  dnr_display_name :: string
  dnr_created_ts :: nat

record session_row =
  sr_token :: uuid
  sr_user_id :: uuid
  sr_created_ts :: nat
  sr_ip_address :: string
  sr_replaced :: bool

record map_row =
  mr_map_id :: nat
  mr_uid :: string
  mr_name :: string
  mr_hash :: string
  mr_load_count :: int

record context_row =
  cr_context_id :: uuid
  cr_session_token :: uuid
  cr_flags :: "bool list"
  cr_flags_raw :: int
  cr_has_vl_item :: bool
  cr_map_id :: "nat option"
  cr_managers :: int
  cr_block_count :: int
  cr_item_count :: int
  cr_bi_count :: int
  cr_predecessor :: "uuid option"
  cr_successor :: "uuid option"
  cr_editor :: "bool option"
  cr_terminated :: bool

record core_db =
  users :: "user_row list"
  display_names :: "display_name_row list"
  sessions :: "session_row list"
  maps :: "map_row list"
  maps_seq :: nat
  contexts :: "context_row list"

definition has_user :: "uuid \<Rightarrow> 'z core_db_scheme \<Rightarrow> bool" where
  "has_user u d \<longleftrightarrow> u \<in> ur_id ` set (users d)"

definition find_user :: "uuid \<Rightarrow> 'z core_db_scheme \<Rightarrow> user_row option" where
  "find_user u d = List.find (\<lambda>r. ur_id r = u) (users d)"

definition find_session :: "uuid \<Rightarrow> 'z core_db_scheme \<Rightarrow> session_row option" where
  "find_session t d = List.find (\<lambda>r. sr_token r = t) (sessions d)"

text \<open>\<open>User\<close> is the id and the name; \<open>create_session\<close> returns the token it was given.\<close>

record user =
  u_id :: uuid
  u_display_name :: string

definition create_session ::
    "uuid \<Rightarrow> nat \<Rightarrow> uuid \<Rightarrow> string \<Rightarrow> ('z core_db_scheme, db_error, uuid) db_action" where
  "create_session token now user_id ip d =
     (if \<not> has_user user_id d then (Inl (ForeignKeyViolation ''sessions_user_id_fkey''), d)
      else if token \<in> sr_token ` set (sessions d) then (Inl (UniqueViolation ''sessions_pkey''), d)
      else (Inr token,
            d\<lparr>sessions := sessions d @
               [\<lparr>sr_token = token, sr_user_id = user_id, sr_created_ts = now,
                 sr_ip_address = take 39 ip, sr_replaced = False\<rparr>]\<rparr>))"

definition session_user :: "uuid \<Rightarrow> 'z core_db_scheme \<Rightarrow> db_error + user" where
  "session_user token d =
     (case find_session token d of
        None \<Rightarrow> Inl RowNotFound
      | Some s \<Rightarrow>
          (case find_user (sr_user_id s) d of
             None \<Rightarrow> Inl RowNotFound
           | Some u \<Rightarrow> Inr \<lparr>u_id = ur_id u, u_display_name = ur_display_name u\<rparr>))"

definition resume_session ::
    "uuid \<Rightarrow> nat \<Rightarrow> uuid \<Rightarrow> string \<Rightarrow> ('z core_db_scheme, db_error, uuid \<times> user) db_action" where
  "resume_session new_token now session_token ip =
     and_then (fetch (session_user session_token)) (\<lambda>u.
     and_then (execute (\<lambda>d. d\<lparr>sessions :=
        upd_where (\<lambda>r. sr_token r = session_token) (\<lambda>r. r\<lparr>sr_replaced := True\<rparr>) (sessions d)\<rparr>)) (\<lambda>_.
     and_then (create_session new_token now (u_id u) ip) (\<lambda>s. Ok (s, u))))"

definition insert_display_name ::
    "nat \<Rightarrow> uuid \<Rightarrow> string \<Rightarrow> ('z core_db_scheme, db_error, unit) db_action" where
  "insert_display_name now user_id name d =
     (case varchar_col 75 name of
        Inl e \<Rightarrow> (Inl e, d)
      | Inr n \<Rightarrow>
          if \<not> has_user user_id d then (Inl (ForeignKeyViolation ''display_names_user_id_fkey''), d)
          else if \<exists>r\<in>set (display_names d). dnr_user_id r = user_id \<and> dnr_created_ts r = now
          then (Inl (UniqueViolation ''display_names_pkey''), d)
          else (Inr (), d\<lparr>display_names := display_names d @
                 [\<lparr>dnr_user_id = user_id, dnr_display_name = n, dnr_created_ts = now\<rparr>]\<rparr>))"

definition update_user_login ::
    "nat \<Rightarrow> uuid \<Rightarrow> string \<Rightarrow> ('z core_db_scheme, db_error, unit) db_action" where
  "update_user_login now account name d =
     (case varchar_col 75 name of
        Inl e \<Rightarrow> (Inl e, d)
      | Inr n \<Rightarrow> (Inr (), d\<lparr>users := upd_where (\<lambda>r. ur_id r = account)
           (\<lambda>r. r\<lparr>ur_display_name := n, ur_last_login_ts := now\<rparr>) (users d)\<rparr>))"

definition insert_user ::
    "nat \<Rightarrow> uuid \<Rightarrow> string \<Rightarrow> ('z core_db_scheme, db_error, user) db_action" where
  "insert_user now account name d =
     (case varchar_col 75 name of
        Inl e \<Rightarrow> (Inl e, d)
      | Inr n \<Rightarrow>
          if has_user account d then (Inl (UniqueViolation ''users_pkey''), d)
          else (Inr \<lparr>u_id = account, u_display_name = n\<rparr>,
                d\<lparr>users := users d @ [\<lparr>ur_id = account, ur_display_name = n,
                   ur_created_ts = now, ur_last_login_ts = now\<rparr>]\<rparr>))"

text \<open>
  \<open>register_or_login\<close>: three statements, each committed on its own.  The name the caller gets
  back is the text it passed in when the user existed.
\<close>

definition register_or_login ::
    "nat \<Rightarrow> uuid \<Rightarrow> string \<Rightarrow> ('z core_db_scheme, db_error, user) db_action" where
  "register_or_login now account name =
     and_then (fetch (\<lambda>d. Inr (find_user account d))) (\<lambda>found.
     and_then
       (case found of
          Some u \<Rightarrow>
            and_then (update_user_login now account name) (\<lambda>_.
              Ok (ur_display_name u \<noteq> name, \<lparr>u_id = ur_id u, u_display_name = name\<rparr>))
        | None \<Rightarrow> and_then (insert_user now account name) (\<lambda>u. Ok (True, u)))
       (\<lambda>(insert_name, u).
          if insert_name
          then and_then (insert_display_name now (u_id u) name) (\<lambda>_. Ok u)
          else Ok u))"

section \<open>The login request\<close>

record login_session =
  ls_user :: user
  ls_session :: uuid
  ls_resumed :: bool
  ls_plugin_ver :: string

record auth_env =
  ae_parse_uuid :: "string \<Rightarrow> string + uuid"
  ae_fmt_request :: "request option \<Rightarrow> string"
  ae_fmt_io_error :: "io_error \<Rightarrow> string"
  ae_now :: nat
  ae_new_token :: uuid
  ae_ip :: string

definition login_via_token ::
    "auth_env \<Rightarrow> token_resp option \<Rightarrow> string \<Rightarrow> ('z core_db_scheme, api_error, login_session) db_action" where
  "login_via_token env resp plugin_info =
     (case resp of
        None \<Rightarrow> Err (StrErr ''Invalid token'')
      | Some r \<Rightarrow>
          (case ae_parse_uuid env (tr_account_id r) of
             Inl e \<Rightarrow> Err (StrErr (''Invalid account_id: '' @ e))
           | Inr wsid \<Rightarrow>
               and_then (map_err SqlxErr (register_or_login (ae_now env) wsid (tr_display_name r))) (\<lambda>u.
               and_then (map_err SqlxErr (create_session (ae_new_token env) (ae_now env) (u_id u) (ae_ip env)))
                 (\<lambda>s. Ok \<lparr>ls_user = u, ls_session = s, ls_resumed = False,
                          ls_plugin_ver = plugin_info_extract_version plugin_info\<rparr>))))"

definition login_via_session ::
    "auth_env \<Rightarrow> string \<Rightarrow> string \<Rightarrow> ('z core_db_scheme, api_error, login_session) db_action" where
  "login_via_session env session_token plugin_info =
     (case ae_parse_uuid env session_token of
        Inl e \<Rightarrow> Err (StrErr (''Invalid session_token: '' @ e))
      | Inr t \<Rightarrow>
          and_then (map_err SqlxErr (resume_session (ae_new_token env) (ae_now env) t (ae_ip env)))
            (\<lambda>(s, u). Ok \<lparr>ls_user = u, ls_session = s, ls_resumed = True,
                          ls_plugin_ver = plugin_info_extract_version plugin_info\<rparr>))"

text \<open>\<open>run_auth\<close>; \<open>token_check\<close> is \<^const>\<open>check_token\<close> with plugin id 519.\<close>

definition run_auth ::
    "auth_env \<Rightarrow> (string \<Rightarrow> token_resp option) \<Rightarrow> io_error + request option \<Rightarrow>
     ('z core_db_scheme, api_error, login_session) db_action" where
  "run_auth env token_check msg =
     (case msg of
        Inl e \<Rightarrow> Err (StrErr (ae_fmt_io_error env e))
      | Inr m \<Rightarrow>
          (case m of
             Some (QAuthenticate token plugin_info _ _) \<Rightarrow>
               (case check_min_plugin_version plugin_info of
                  Inl e \<Rightarrow> Err e
                | Inr _ \<Rightarrow> login_via_token env (token_check token) plugin_info)
           | Some (QResumeSession session_token plugin_info _ _) \<Rightarrow>
               (case check_min_plugin_version plugin_info of
                  Inl e \<Rightarrow> Err e
                | Inr _ \<Rightarrow> login_via_session env session_token plugin_info)
           | _ \<Rightarrow> Err (StrErr (''Invalid request '' @ ae_fmt_request env m))))"

text \<open>\<open>handle\<close> answers a failed login with a text; \<open>fmt\<close> is the debug text of other errors.\<close>

definition auth_fail_text :: "(db_error \<Rightarrow> string) \<Rightarrow> (api_error \<Rightarrow> string) \<Rightarrow> api_error \<Rightarrow> string" where
  "auth_fail_text fmt_db fmt e =
     (case e of StrErr s \<Rightarrow> s | SqlxErr x \<Rightarrow> ''DB Error: '' @ fmt_db x | _ \<Rightarrow> fmt e)"

definition auth_response ::
    "(db_error \<Rightarrow> string) \<Rightarrow> (api_error \<Rightarrow> string) \<Rightarrow> (uuid \<Rightarrow> string) \<Rightarrow>
     api_error + login_session \<Rightarrow> response" where
  "auth_response fmt_db fmt show_uuid r =
     (case r of
        Inl e \<Rightarrow> RAuthFail (auth_fail_text fmt_db fmt e)
      | Inr ls \<Rightarrow> RAuthSuccess (show_uuid (ls_session ls)))"

section \<open>Lemmas\<close>

lemma collect_parts_Some: "collect_parts (map f xs) = Some ys \<Longrightarrow> length ys = length xs"
proof (induction xs arbitrary: ys)
  case (Cons x xs)
  then show ?case by (cases "f x") auto
qed simp

lemma version_parts_nonempty: "version_str_to_parts v \<noteq> Some []"
  using collect_parts_Some [of parse_u32 "split_on (CHR ''.'') v" "[]"]
  by (auto simp: version_str_to_parts_def)

lemma version_less_Nil [simp]: "\<not> version_less v []"
  by (cases v) simp_all

lemma version_less_MIN:
  "version_less (a # rest) MIN_PLUGIN_VERSION \<longleftrightarrow>
     a = 0 \<and> (case rest of [] \<Rightarrow> False
       | b # rest' \<Rightarrow> b < 4 \<or> b = 4 \<and> (case rest' of [] \<Rightarrow> False | c # _ \<Rightarrow> c < 15))"
  by (auto simp: MIN_PLUGIN_VERSION_def split: list.splits)

lemma check_min_Inr:
  "check_min_plugin_version info = Inr () \<longleftrightarrow>
     (\<exists>p. version_str_to_parts (plugin_info_extract_version info) = Some p \<and>
        \<not> version_less p MIN_PLUGIN_VERSION)"
  by (auto simp: check_min_plugin_version_def Let_def MIN_PLUGIN_VERSION_def split: option.splits)

text \<open>The invariant of the user and session tables: their keys and references.\<close>

definition core_wf :: "'z core_db_scheme \<Rightarrow> bool" where
  "core_wf d \<longleftrightarrow>
     distinct (map ur_id (users d)) \<and>
     (\<forall>u\<in>set (users d). char_count (ur_display_name u) \<le> 75) \<and>
     distinct (map sr_token (sessions d)) \<and>
     (\<forall>s\<in>set (sessions d). has_user (sr_user_id s) d) \<and>
     distinct (map (\<lambda>r. (dnr_user_id r, dnr_created_ts r)) (display_names d)) \<and>
     (\<forall>r\<in>set (display_names d). has_user (dnr_user_id r) d)"

lemma find_user_Some: "find_user u d = Some r \<Longrightarrow> r \<in> set (users d) \<and> ur_id r = u"
  unfolding find_user_def by (rule find_Some_in)

lemma find_user_None: "find_user u d = None \<longleftrightarrow> \<not> has_user u d"
  by (auto simp: find_user_def has_user_def find_None_all)

lemma find_session_Some: "find_session t d = Some r \<Longrightarrow> r \<in> set (sessions d) \<and> sr_token r = t"
  unfolding find_session_def by (rule find_Some_in)

lemma has_user_upd [simp]:
  "has_user u (d\<lparr>sessions := x\<rparr>) = has_user u d"
  "has_user u (d\<lparr>display_names := y\<rparr>) = has_user u d"
  by (simp_all add: has_user_def)

lemma keeps_create_session [keeps_rules]: "keeps core_wf (create_session tok now uid ip)"
  by (rule keepsI) (auto simp: create_session_def core_wf_def)

lemma keeps_resume_session [keeps_rules]: "keeps core_wf (resume_session nt now t ip)"
  unfolding resume_session_def
  by (intro keeps_rules keeps_execute)
     (auto simp: core_wf_def set_upd_where intro: distinct_map_upd_where)

lemma keeps_insert_display_name [keeps_rules]: "keeps core_wf (insert_display_name now uid n)"
  by (rule keepsI) (auto simp: insert_display_name_def core_wf_def split: sum.splits)

lemma ids_upd_where:
  "map ur_id (upd_where P (\<lambda>r. r\<lparr>ur_display_name := n, ur_last_login_ts := t\<rparr>) us) = map ur_id us"
  by (rule map_upd_where) simp

lemma has_user_upd_where [simp]:
  "has_user u (d\<lparr>users := upd_where P (\<lambda>r. r\<lparr>ur_display_name := n, ur_last_login_ts := t\<rparr>) (users d)\<rparr>)
     = has_user u d"
proof -
  have "ur_id ` set (upd_where P (\<lambda>r. r\<lparr>ur_display_name := n, ur_last_login_ts := t\<rparr>) us) = ur_id ` set us"
    for us
    using ids_upd_where by (metis list.set_map)
  then show ?thesis by (simp add: has_user_def)
qed

lemma keeps_update_user_login [keeps_rules]: "keeps core_wf (update_user_login now a n)"
  by (rule keepsI)
     (auto simp: update_user_login_def core_wf_def ids_upd_where set_upd_where
       dest: varchar_col_count split: sum.splits if_splits)

lemma keeps_insert_user [keeps_rules]: "keeps core_wf (insert_user now a n)"
  by (rule keepsI)
     (auto simp: insert_user_def core_wf_def has_user_def dest: varchar_col_count split: sum.splits)

lemma keeps_register [keeps_rules]: "keeps core_wf (register_or_login now a n)"
  unfolding register_or_login_def by (intro keeps_rules)

lemma keeps_login_via_token [keeps_rules]: "keeps core_wf (login_via_token env r info)"
  unfolding login_via_token_def by (intro keeps_rules)

lemma keeps_login_via_session [keeps_rules]: "keeps core_wf (login_via_session env t info)"
  unfolding login_via_session_def by (intro keeps_rules)

lemma keeps_run_auth: "keeps core_wf (run_auth env tc msg)"
proof (cases msg)
  case (Inr m)
  then show ?thesis
  proof (cases m)
    case (Some r)
    with Inr show ?thesis
      by (cases r) (auto simp: run_auth_def split: sum.split intro!: keeps_rules)
  qed (simp add: run_auth_def keeps_rules)
qed (simp add: run_auth_def keeps_rules)

text \<open>The name history: a user's current name has an entry.\<close>

definition names_recorded :: "'z core_db_scheme \<Rightarrow> bool" where
  "names_recorded d \<longleftrightarrow>
     (\<forall>u\<in>set (users d). \<exists>r\<in>set (display_names d).
        dnr_user_id r = ur_id u \<and> dnr_display_name r = ur_display_name u)"

lemma find_user_unique: "core_wf d \<Longrightarrow> r \<in> set (users d) \<Longrightarrow> find_user (ur_id r) d = Some r"
  unfolding find_user_def core_wf_def by (intro find_unique) simp

lemma find_session_unique:
  "core_wf d \<Longrightarrow> r \<in> set (sessions d) \<Longrightarrow> find_session (sr_token r) d = Some r"
  unfolding find_session_def core_wf_def by (intro find_unique) simp

lemma create_session_Inr:
  "create_session tok now uid ip d = (Inr s, d1) \<longleftrightarrow>
     has_user uid d \<and> tok \<notin> sr_token ` set (sessions d) \<and> s = tok \<and>
     d1 = d\<lparr>sessions := sessions d @ [\<lparr>sr_token = tok, sr_user_id = uid, sr_created_ts = now,
       sr_ip_address = take 39 ip, sr_replaced = False\<rparr>]\<rparr>"
  by (auto simp: create_session_def)

lemma session_user_Inr:
  "session_user t d = Inr u \<longleftrightarrow>
     (\<exists>s r. find_session t d = Some s \<and> find_user (sr_user_id s) d = Some r \<and>
        u = \<lparr>u_id = ur_id r, u_display_name = ur_display_name r\<rparr>)"
  by (auto simp: session_user_def split: option.splits)

lemma token_upd_where:
  "map sr_token (upd_where P (\<lambda>r. r\<lparr>sr_replaced := True\<rparr>) ss) = map sr_token ss"
  by (rule map_upd_where) simp

lemma resume_session_run:
  assumes u: "session_user t d = Inr u" and new: "nt \<notin> sr_token ` set (sessions d)"
  shows "resume_session nt now t ip d = (Inr (nt, u),
     d\<lparr>sessions := upd_where (\<lambda>r. sr_token r = t) (\<lambda>r. r\<lparr>sr_replaced := True\<rparr>) (sessions d) @
        [\<lparr>sr_token = nt, sr_user_id = u_id u, sr_created_ts = now,
          sr_ip_address = take 39 ip, sr_replaced = False\<rparr>]\<rparr>)"
proof -
  have "has_user (u_id u) d"
    using u by (force simp: session_user_Inr has_user_def dest!: find_user_Some)
  moreover have "nt \<notin> sr_token ` set (upd_where (\<lambda>r. sr_token r = t) (\<lambda>r. r\<lparr>sr_replaced := True\<rparr>) (sessions d))"
    using new token_upd_where by (metis list.set_map)
  ultimately show ?thesis
    using u by (simp add: resume_session_def and_then_def create_session_def)
qed

lemma register_Inr:
  "register_or_login now a name d = (Inr u, d1) \<longleftrightarrow>
    (\<exists>n. varchar_col 75 name = Inr n \<and> u_id u = a \<and>
       (case find_user a d of
          Some r \<Rightarrow> u = \<lparr>u_id = ur_id r, u_display_name = name\<rparr> \<and>
            (let d2 = d\<lparr>users := upd_where (\<lambda>r. ur_id r = a)
               (\<lambda>r. r\<lparr>ur_display_name := n, ur_last_login_ts := now\<rparr>) (users d)\<rparr>
             in if ur_display_name r = name then d1 = d2
                else insert_display_name now a name d2 = (Inr (), d1))
        | None \<Rightarrow> u = \<lparr>u_id = a, u_display_name = n\<rparr> \<and>
            insert_display_name now a name
              (d\<lparr>users := users d @ [\<lparr>ur_id = a, ur_display_name = n, ur_created_ts = now,
                 ur_last_login_ts = now\<rparr>]\<rparr>) = (Inr (), d1)))"
  by (auto simp: register_or_login_def res_iff update_user_login_def insert_user_def Let_def
        find_user_None [symmetric] and_then_def
      dest: find_user_Some split: option.splits sum.splits prod.splits if_splits)
     (simp add: find_user_None)

lemma insert_display_name_Inr:
  "insert_display_name now a name d = (Inr (), d1) \<longleftrightarrow>
     (\<exists>n. varchar_col 75 name = Inr n \<and> has_user a d \<and>
        \<not> (\<exists>r\<in>set (display_names d). dnr_user_id r = a \<and> dnr_created_ts r = now) \<and>
        d1 = d\<lparr>display_names := display_names d @
          [\<lparr>dnr_user_id = a, dnr_display_name = n, dnr_created_ts = now\<rparr>]\<rparr>)"
  by (auto simp: insert_display_name_def split: sum.splits)

section \<open>Properties\<close>

text \<open>
  The version gate accepts a plugin exactly when its version text parses and is not below
  0.4.15 on the parts it has; a text that does not parse is refused.
\<close>

theorem min_version_decision:
  "check_min_plugin_version info = Inr () \<longleftrightarrow>
     (\<exists>a rest. version_str_to_parts (plugin_info_extract_version info) = Some (a # rest) \<and>
        (0 < a \<or> (case rest of [] \<Rightarrow> True
           | b # rest' \<Rightarrow> 4 < b \<or> b = 4 \<and> (case rest' of [] \<Rightarrow> True | c # _ \<Rightarrow> 15 \<le> c))))"
  (is "_ \<longleftrightarrow> ?R")
proof -
  have dec: "\<not> version_less (a # rest) MIN_PLUGIN_VERSION \<longleftrightarrow>
      (0 < a \<or> (case rest of [] \<Rightarrow> True
           | b # rest' \<Rightarrow> 4 < b \<or> b = 4 \<and> (case rest' of [] \<Rightarrow> True | c # _ \<Rightarrow> 15 \<le> c)))" for a rest
    by (auto simp: version_less_MIN split: list.splits)
  show ?thesis
    unfolding check_min_Inr
  proof (cases "version_str_to_parts (plugin_info_extract_version info)")
    case (Some p)
    with version_parts_nonempty [of "plugin_info_extract_version info"]
    obtain a rest where "p = a # rest" by (cases p) auto
    with Some show "(\<exists>p. version_str_to_parts (plugin_info_extract_version info) = Some p \<and>
        \<not> version_less p MIN_PLUGIN_VERSION) \<longleftrightarrow> ?R"
      by (simp add: dec)
  qed simp
qed

text \<open>
  A login, successful or not, keeps the keys and references of the user, name and session
  tables.
\<close>

theorem run_auth_keeps_core_wf: "keeps core_wf (run_auth env token_check msg)"
  by (rule keeps_run_auth)

lemma find_user_login:
  "find_user v (d\<lparr>users := upd_where (\<lambda>r. ur_id r = a)
      (\<lambda>r. r\<lparr>ur_display_name := n, ur_last_login_ts := t\<rparr>) (users d)\<rparr>) =
   (if v = a then map_option (\<lambda>r. r\<lparr>ur_display_name := n, ur_last_login_ts := t\<rparr>) (find_user a d)
    else find_user v d)"
proof -
  have "find_user v (d\<lparr>users := upd_where (\<lambda>r. ur_id r = a)
      (\<lambda>r. r\<lparr>ur_display_name := n, ur_last_login_ts := t\<rparr>) (users d)\<rparr>) =
    map_option (\<lambda>r. if ur_id r = a then r\<lparr>ur_display_name := n, ur_last_login_ts := t\<rparr> else r)
      (find_user v d)"
    unfolding find_user_def by (simp add: find_upd_where)
  then show ?thesis
    by (cases "find_user v d") (auto dest: find_user_Some)
qed

lemma find_user_append:
  "find_user v (d\<lparr>users := users d @ [r]\<rparr>) =
     (case find_user v d of None \<Rightarrow> if ur_id r = v then Some r else None | Some x \<Rightarrow> Some x)"
  by (simp add: find_user_def find_append split: option.splits)

lemma find_user_display_names [simp]: "find_user v (d\<lparr>display_names := x\<rparr>) = find_user v d"
  by (simp add: find_user_def)

lemma register_found_cases:
  assumes "register_or_login now a name d = (Inr u, d1)"
  obtains (same) n r where "find_user a d = Some r" "varchar_col 75 name = Inr n" "u_id u = a"
      "ur_display_name r = name"
      "d1 = d\<lparr>users := upd_where (\<lambda>r. ur_id r = a)
        (\<lambda>r. r\<lparr>ur_display_name := n, ur_last_login_ts := now\<rparr>) (users d)\<rparr>"
    | (renamed) n r where "find_user a d = Some r" "varchar_col 75 name = Inr n" "u_id u = a"
      "ur_display_name r \<noteq> name"
      "d1 = d\<lparr>users := upd_where (\<lambda>r. ur_id r = a)
        (\<lambda>r. r\<lparr>ur_display_name := n, ur_last_login_ts := now\<rparr>) (users d),
        display_names := display_names d @
          [\<lparr>dnr_user_id = a, dnr_display_name = n, dnr_created_ts = now\<rparr>]\<rparr>"
    | (fresh) n where "find_user a d = None" "varchar_col 75 name = Inr n" "u_id u = a"
      "d1 = d\<lparr>users := users d @ [\<lparr>ur_id = a, ur_display_name = n, ur_created_ts = now,
           ur_last_login_ts = now\<rparr>],
        display_names := display_names d @
          [\<lparr>dnr_user_id = a, dnr_display_name = n, dnr_created_ts = now\<rparr>]\<rparr>"
proof (cases "find_user a d")
  case None
  with assms that(3) show ?thesis by (auto simp: register_Inr insert_display_name_Inr)
next
  case (Some r)
  let ?d = "\<lambda>n. d\<lparr>users := upd_where (\<lambda>r. ur_id r = a)
        (\<lambda>r. r\<lparr>ur_display_name := n, ur_last_login_ts := now\<rparr>) (users d)\<rparr>"
  from assms Some obtain n where n: "varchar_col 75 name = Inr n" "u_id u = a"
      "if ur_display_name r = name then d1 = ?d n
       else insert_display_name now a name (?d n) = (Inr (), d1)"
    by (auto simp: register_Inr Let_def dest: find_user_Some)
  show ?thesis
  proof (cases "ur_display_name r = name")
    case True
    with n show ?thesis by (intro that(1) [OF Some]) simp_all
  next
    case False
    with n show ?thesis by (intro that(2) [OF Some]) (simp_all add: insert_display_name_Inr)
  qed
qed

lemma names_recorded_append:
  "names_recorded d \<Longrightarrow> names_recorded (d\<lparr>display_names := display_names d @ xs\<rparr>)"
  by (fastforce simp: names_recorded_def)

text \<open>
  A successful login under an account leaves the account with the name it reported (cut
  to its column), every other user untouched, and the current name of every user in the name
  history.
\<close>

theorem register_records_name:
  assumes wf: "core_wf d" and rec: "names_recorded d"
    and reg: "register_or_login now account name d = (Inr u, d1)"
  shows "u_id u = account \<and> names_recorded d1 \<and>
    (\<exists>n r. varchar_col 75 name = Inr n \<and> find_user account d1 = Some r \<and>
       ur_display_name r = n \<and> ur_last_login_ts r = now) \<and>
    (\<forall>v. v \<noteq> account \<longrightarrow> find_user v d1 = find_user v d)"
  using reg
proof (cases rule: register_found_cases)
  case (same n r)
  have "char_count name \<le> 75"
    using wf same(1,4) by (auto simp: core_wf_def dest: find_user_Some)
  then have "n = name" using same(2) by (auto simp: varchar_col_def split: if_splits)
  moreover have "names_recorded d1"
    using rec same(1,4) \<open>n = name\<close> unfolding same(5) names_recorded_def
    by (auto simp: set_upd_where dest!: find_user_Some)
  ultimately show ?thesis
    using same by (auto simp: find_user_login)
next
  case (renamed n r)
  have "names_recorded d1"
    using rec unfolding renamed(5) names_recorded_def by (auto simp: set_upd_where)
  then show ?thesis using renamed by (auto simp: find_user_login)
next
  case (fresh n)
  have "names_recorded d1"
    using rec unfolding fresh(4) names_recorded_def by auto
  then show ?thesis using fresh by (auto simp: find_user_append split: option.splits)
qed

theorem register_records_name_witness:
  "names_recorded (snd (register_or_login 7 3 ''Bob''
     \<lparr>users = [\<lparr>ur_id = 3, ur_display_name = ''Al'', ur_created_ts = 0, ur_last_login_ts = 0\<rparr>],
      display_names = [\<lparr>dnr_user_id = 3, dnr_display_name = ''Al'', dnr_created_ts = 0\<rparr>],
      sessions = [], maps = [], maps_seq = 0, contexts = []\<rparr>))"
proof -
  let ?d = "\<lparr>users = [\<lparr>ur_id = 3 :: uuid, ur_display_name = ''Al'', ur_created_ts = 0, ur_last_login_ts = 0\<rparr>],
      display_names = [\<lparr>dnr_user_id = 3, dnr_display_name = ''Al'', dnr_created_ts = 0\<rparr>],
      sessions = [], maps = [], maps_seq = 0, contexts = []\<rparr>"
  obtain d1 where r: "register_or_login 7 3 ''Bob'' ?d = (Inr \<lparr>u_id = 3, u_display_name = ''Bob''\<rparr>, d1)"
    by (simp add: register_or_login_def and_then_def find_user_def update_user_login_def
        insert_display_name_def has_user_def varchar_col_def char_count_def is_cont_byte_def)
  have "core_wf ?d" "names_recorded ?d"
    by (simp_all add: core_wf_def names_recorded_def has_user_def char_count_def is_cont_byte_def)
  from register_records_name [OF this r] r show ?thesis by simp
qed

text \<open>
  C35. A session opened by a login can be resumed with the text of its token: the same user
  gets a new session, and the old one is marked replaced.
\<close>

theorem login_then_resume:
  assumes wf: "core_wf d" and login: "login_via_token env resp info d = (Inr ls, d1)"
    and parse: "ae_parse_uuid env2 token = Inr (ls_session ls)"
    and new: "ae_new_token env2 \<notin> sr_token ` set (sessions d1)"
  shows "\<exists>ls2 d2. login_via_session env2 token info2 d1 = (Inr ls2, d2) \<and>
    u_id (ls_user ls2) = u_id (ls_user ls) \<and> ls_session ls2 = ae_new_token env2 \<and>
    (\<exists>s. find_session (ls_session ls) d2 = Some s \<and> sr_replaced s) \<and>
    (\<exists>s. find_session (ls_session ls2) d2 = Some s \<and> \<not> sr_replaced s)"
proof -
  have "\<exists>s0\<in>set (sessions d1). sr_token s0 = ls_session ls \<and> sr_user_id s0 = u_id (ls_user ls)"
    using login by (auto simp: login_via_token_def res_iff create_session_Inr
        split: option.splits sum.splits)
  then obtain s0 where s0: "s0 \<in> set (sessions d1)" "sr_token s0 = ls_session ls"
      "sr_user_id s0 = u_id (ls_user ls)" by blast
  have wf1: "core_wf d1"
    using keepsD [OF keeps_login_via_token wf, of env resp info] login by simp
  then obtain r where r: "find_user (u_id (ls_user ls)) d1 = Some r" "ur_id r = u_id (ls_user ls)"
    using s0 find_user_None [of "u_id (ls_user ls)" d1] find_user_Some [of "u_id (ls_user ls)" d1]
    by (cases "find_user (u_id (ls_user ls)) d1") (auto simp: core_wf_def)
  let ?u = "\<lparr>u_id = ur_id r, u_display_name = ur_display_name r\<rparr>"
  have "session_user (ls_session ls) d1 = Inr ?u"
    using find_session_unique [OF wf1 s0(1)] s0 r by (simp add: session_user_Inr)
  note run = resume_session_run [OF this new, of "ae_now env2" "ae_ip env2"]
  have "find_session (ls_session ls) d1 = Some s0"
    using find_session_unique [OF wf1 s0(1)] s0(2) by simp
  moreover have "List.find (\<lambda>r. sr_token r = ae_new_token env2) (sessions d1) = None"
    using new by (force simp: find_None_all)
  ultimately show ?thesis
    using run parse r(2) s0(2)
    by (auto simp: login_via_session_def and_then_def map_err_def find_session_def find_append
        find_upd_where split: option.splits)
qed

theorem login_then_resume_witness:
  "\<exists>ls2 d2. login_via_session
      \<lparr>ae_parse_uuid = (\<lambda>s. if s = ''t'' then Inr 10 else Inr 3), ae_fmt_request = (\<lambda>_. []),
       ae_fmt_io_error = (\<lambda>_. []), ae_now = 8, ae_new_token = 11, ae_ip = ''::1''\<rparr> ''t'' []
      (snd (login_via_token
        \<lparr>ae_parse_uuid = (\<lambda>s. if s = ''t'' then Inr 10 else Inr 3), ae_fmt_request = (\<lambda>_. []),
         ae_fmt_io_error = (\<lambda>_. []), ae_now = 7, ae_new_token = 10, ae_ip = ''::1''\<rparr>
        (Some \<lparr>tr_account_id = ''a'', tr_display_name = ''Bob'', tr_token_time = 0\<rparr>) []
        \<lparr>users = [], display_names = [], sessions = [], maps = [], maps_seq = 0, contexts = []\<rparr>))
    = (Inr ls2, d2) \<and> u_id (ls_user ls2) = 3"
proof -
  let ?p = "\<lambda>s. if s = ''t'' then Inr 10 else Inr 3 :: string + uuid"
  let ?d = "\<lparr>users = [], display_names = [], sessions = [], maps = [], maps_seq = 0, contexts = []\<rparr>"
  let ?e1 = "\<lparr>ae_parse_uuid = ?p, ae_fmt_request = (\<lambda>_. []),
       ae_fmt_io_error = (\<lambda>_. []), ae_now = 7, ae_new_token = 10, ae_ip = ''::1''\<rparr>"
  let ?e2 = "\<lparr>ae_parse_uuid = ?p, ae_fmt_request = (\<lambda>_. []),
       ae_fmt_io_error = (\<lambda>_. []), ae_now = 8, ae_new_token = 11, ae_ip = ''::1''\<rparr>"
  let ?r = "Some \<lparr>tr_account_id = ''a'', tr_display_name = ''Bob'', tr_token_time = 0\<rparr>"
  obtain ls d1 where l: "login_via_token ?e1 ?r [] ?d = (Inr ls, d1)"
      and ls: "u_id (ls_user ls) = 3" "ls_session ls = 10" "map sr_token (sessions d1) = [10]"
    by (simp add: login_via_token_def register_or_login_def and_then_def map_err_def find_user_def
        insert_user_def insert_display_name_def create_session_def has_user_def varchar_col_def
        char_count_def is_cont_byte_def)
  have "core_wf ?d" by (simp add: core_wf_def)
  moreover have "sr_token ` set (sessions d1) = {10}"
    using ls(3) by (metis list.set_map list.set(1) list.set(2))
  then have "ae_new_token ?e2 \<notin> sr_token ` set (sessions d1)" by simp
  ultimately show ?thesis
    using login_then_resume [OF _ l, of ?e2 "''t''" "[]"] ls l by force
qed

end
