(* ===== verification/Contexts.thy ===== *)
theory Contexts
  imports Plugin_Auth
begin

text \<open>
  The contexts a connection reports: \<open>src/queries/context.rs\<close> and \<open>XPlayer::update_context\<close>
  of \<open>src/server2.rs\<close>.  Each context names its predecessor, and the row of the predecessor is
  closed with the new context as its successor.  \<open>hex\<close> is the hexadecimal decoder, \<open>new_id\<close>
  the UUID \<open>Uuid::now_v7\<close> makes.
\<close>

definition decode_map_hash :: "(string \<Rightarrow> string option) \<Rightarrow> string \<Rightarrow> string outcome" where
  "decode_map_hash hex hash =
     (if length hash = 64
      then (case hex hash of
              Some h \<Rightarrow> Ret h
            | None \<Rightarrow> slice_to hash (min (length hash) 32))
      else slice_to hash (min (length hash) 32))"

text \<open>
  The upsert of \<open>get_or_insert_map\<close>.  The serial is drawn for every insert that reaches the
  table, a conflict included.
\<close>

definition upsert_map ::
    "string \<Rightarrow> string \<Rightarrow> string \<Rightarrow> ('z core_db_scheme, db_error, nat) db_action" where
  "upsert_map uid name h d =
     (case varchar_col 30 uid of
        Inl e \<Rightarrow> (Inl e, d)
      | Inr u \<Rightarrow>
          (case varchar_col 255 name of
             Inl e \<Rightarrow> (Inl e, d)
           | Inr n \<Rightarrow>
               let d1 = d\<lparr>maps_seq := maps_seq d + 1\<rparr>
               in (case List.find (\<lambda>m. mr_uid m = u \<and> mr_hash m = h) (maps d) of
                     Some m \<Rightarrow>
                       if mr_load_count m = i32_max then (Inl OutOfRange, d1)
                       else (Inr (mr_map_id m),
                             d1\<lparr>maps := upd_where (\<lambda>m. mr_uid m = u \<and> mr_hash m = h)
                                (\<lambda>m. m\<lparr>mr_load_count := mr_load_count m + 1\<rparr>) (maps d)\<rparr>)
                   | None \<Rightarrow>
                       (Inr (maps_seq d),
                        d1\<lparr>maps := maps d @ [\<lparr>mr_map_id = maps_seq d, mr_uid = u, mr_name = n,
                           mr_hash = h, mr_load_count = 1\<rparr>]\<rparr>))))"

definition get_or_insert_map ::
    "(string \<Rightarrow> string option) \<Rightarrow> string \<Rightarrow> string \<Rightarrow> string \<Rightarrow> 'z core_db_scheme \<Rightarrow>
     ((db_error + nat) \<times> 'z core_db_scheme) outcome" where
  "get_or_insert_map hex uid name hash d =
     (case decode_map_hash hex hash of
        Panic \<Rightarrow> Panic
      | Ret h \<Rightarrow> Ret (upsert_map uid name h d))"

text \<open>
  \<open>insert_context\<close>.  The flags column holds the array as it is; \<open>bi[0] + bi[1]\<close> is an \<open>i32\<close>
  sum, which wraps in the release build.
\<close>

definition insert_context ::
    "uuid \<Rightarrow> uuid \<Rightarrow> bool list \<Rightarrow> nat \<Rightarrow> bool \<Rightarrow> nat option \<Rightarrow> int \<Rightarrow> int \<times> int \<Rightarrow>
     uuid option \<Rightarrow> bool option \<Rightarrow> ('z core_db_scheme, db_error, uuid) db_action" where
  "insert_context context_id token flags raw_flags has_vl_item map_id managers bi predecessor editor d =
     (if token \<notin> sr_token ` set (sessions d)
      then (Inl (ForeignKeyViolation ''contexts_session_token_fkey''), d)
      else if (case map_id of None \<Rightarrow> False | Some i \<Rightarrow> i \<notin> mr_map_id ` set (maps d))
      then (Inl (ForeignKeyViolation ''contexts_map_id_fkey''), d)
      else if context_id \<in> cr_context_id ` set (contexts d)
      then (Inl (UniqueViolation ''contexts_pkey''), d)
      else (Inr context_id,
            d\<lparr>contexts := contexts d @
              [\<lparr>cr_context_id = context_id, cr_session_token = token, cr_flags = flags,
                cr_flags_raw = as_i64 (int raw_flags), cr_has_vl_item = has_vl_item,
                cr_map_id = map_id, cr_managers = managers, cr_block_count = fst bi,
                cr_item_count = snd bi, cr_bi_count = as_i32 (fst bi + snd bi),
                cr_predecessor = predecessor, cr_successor = None, cr_editor = editor,
                cr_terminated = False\<rparr>]\<rparr>))"

definition insert_context_packed ::
    "uuid \<Rightarrow> uuid \<Rightarrow> player_ctx \<Rightarrow> uuid option \<Rightarrow> nat option \<Rightarrow> int \<times> int \<Rightarrow> bool option \<Rightarrow>
     ('z core_db_scheme, db_error, uuid) db_action" where
  "insert_context_packed new_id token c prior map_id bi editor =
     insert_context new_id token (decode_context_flags (pc_sf c)) (pc_sf c) (pc_i c) map_id
       (as_i64 (int (pc_mi c))) bi prior editor"

definition context_mark_succeeded ::
    "uuid \<Rightarrow> uuid \<Rightarrow> ('z core_db_scheme, db_error, unit) db_action" where
  "context_mark_succeeded prior successor =
     execute (\<lambda>d. d\<lparr>contexts := upd_where (\<lambda>c. cr_context_id c = prior)
       (\<lambda>c. c\<lparr>cr_successor := Some successor, cr_terminated := True\<rparr>) (contexts d)\<rparr>)"

text \<open>The three variables of the read loop that \<open>update_context\<close> writes.\<close>

record context_vars =
  cv_ctx :: "player_ctx option"
  cv_ctx_id :: "uuid option"
  cv_previous :: "uuid option"

definition context_rows ::
    "uuid \<Rightarrow> uuid \<Rightarrow> player_ctx \<Rightarrow> uuid option \<Rightarrow> nat option \<Rightarrow> int \<times> int \<Rightarrow> bool option \<Rightarrow>
     ('z core_db_scheme, db_error, uuid) db_action" where
  "context_rows new_id token c previous map_id bi editor =
     and_then (insert_context_packed new_id token c previous map_id bi editor) (\<lambda>i.
       case previous of
         None \<Rightarrow> Ok i
       | Some p \<Rightarrow> and_then (context_mark_succeeded p i) (\<lambda>_. Ok i))"

definition update_context ::
    "(string \<Rightarrow> string option) \<Rightarrow> uuid \<Rightarrow> uuid \<Rightarrow> nat \<Rightarrow> nat \<Rightarrow> map_info option \<Rightarrow> bool \<Rightarrow>
     int \<times> int \<Rightarrow> bool option \<Rightarrow> context_vars \<Rightarrow> 'z core_db_scheme \<Rightarrow>
     ((api_error + unit) \<times> context_vars \<times> 'z core_db_scheme) outcome" where
  "update_context hex new_id token sf mi m has_vl_item bi editor v d =
     (let v1 = (case cv_ctx_id v of None \<Rightarrow> v | Some i \<Rightarrow> v\<lparr>cv_previous := Some i\<rparr>);
          c = new_player_ctx sf mi m has_vl_item editor;
          rows = (\<lambda>map_id d1.
            (case context_rows new_id token c (cv_previous v1) map_id bi editor d1 of
               (Inl e, d2) \<Rightarrow> Ret (Inl (SqlxErr e), v1, d2)
             | (Inr i, d2) \<Rightarrow> Ret (Inr (), v1\<lparr>cv_ctx := Some c, cv_ctx_id := Some i\<rparr>, d2)))
      in case m of
           None \<Rightarrow> rows None d
         | Some mp \<Rightarrow>
             (case get_or_insert_map hex (m_uid mp) (m_name mp) (m_hash mp) d of
                Panic \<Rightarrow> Panic
              | Ret (Inl e, d1) \<Rightarrow> Ret (Inl (SqlxErr e), v1, d1)
              | Ret (Inr i, d1) \<Rightarrow> rows (Some i) d1))"

section \<open>The chain of a session's contexts\<close>

definition session_contexts :: "uuid \<Rightarrow> 'z core_db_scheme \<Rightarrow> context_row list" where
  "session_contexts token d = filter (\<lambda>c. cr_session_token c = token) (contexts d)"

fun linked :: "uuid option \<Rightarrow> context_row list \<Rightarrow> bool" where
  "linked p [] = True"
| "linked p [c] = (cr_predecessor c = p \<and> cr_successor c = None \<and> \<not> cr_terminated c)"
| "linked p (c # b # cs) =
     (cr_predecessor c = p \<and> cr_successor c = Some (cr_context_id b) \<and> cr_terminated c \<and>
      linked (Some (cr_context_id c)) (b # cs))"

definition last_id :: "context_row list \<Rightarrow> uuid option" where
  "last_id cs = (if cs = [] then None else Some (cr_context_id (last cs)))"

lemma last_id_simps [simp]: "last_id [] = None" "last_id (cs @ [c]) = Some (cr_context_id c)"
  by (simp_all add: last_id_def)

definition conn_inv :: "uuid \<Rightarrow> context_vars \<Rightarrow> 'z core_db_scheme \<Rightarrow> bool" where
  "conn_inv token v d \<longleftrightarrow>
     distinct (map cr_context_id (contexts d)) \<and>
     linked None (session_contexts token d) \<and>
     cv_ctx_id v = last_id (session_contexts token d) \<and>
     (session_contexts token d = [] \<longrightarrow> cv_previous v = None)"

lemma linked_snoc:
  "linked p cs \<Longrightarrow> distinct (map cr_context_id cs) \<Longrightarrow> cs \<noteq> [] \<Longrightarrow>
   cr_predecessor n = last_id cs \<Longrightarrow> cr_successor n = None \<Longrightarrow> \<not> cr_terminated n \<Longrightarrow>
   linked p (upd_where (\<lambda>c. Some (cr_context_id c) = last_id cs)
      (\<lambda>c. c\<lparr>cr_successor := Some (cr_context_id n), cr_terminated := True\<rparr>) cs @ [n])"
proof (induction p cs rule: linked.induct)
  case (3 p c b cs)
  have l: "last_id (c # b # cs) = last_id (b # cs)" by (simp add: last_id_def)
  have "Some (cr_context_id c) \<noteq> last_id (b # cs)"
    using "3.prems"(2) by (auto simp: last_id_def)
  moreover have "linked (Some (cr_context_id c)) (upd_where (\<lambda>c. Some (cr_context_id c) = last_id (b # cs))
      (\<lambda>c. c\<lparr>cr_successor := Some (cr_context_id n), cr_terminated := True\<rparr>) (b # cs) @ [n])"
    using "3.prems" by (intro "3.IH") (simp_all add: l)
  ultimately show ?case
    using "3.prems"(1) unfolding l by (cases cs) auto
qed (simp_all add: last_id_def)

lemma session_contexts_mark:
  "filter (\<lambda>c. cr_session_token c = token) (upd_where (\<lambda>c. cr_context_id c = i)
      (\<lambda>c. c\<lparr>cr_successor := Some n, cr_terminated := True\<rparr>) cs) =
   upd_where (\<lambda>c. cr_context_id c = i) (\<lambda>c. c\<lparr>cr_successor := Some n, cr_terminated := True\<rparr>)
      (filter (\<lambda>c. cr_session_token c = token) cs)"
  by (induction cs) auto

lemma ids_mark:
  "map cr_context_id (upd_where P (\<lambda>c. c\<lparr>cr_successor := Some n, cr_terminated := True\<rparr>) cs) =
   map cr_context_id cs"
  by (rule map_upd_where) simp

lemma insert_context_Inr:
  "insert_context cid token fl raw vl mid mg bi pre ed d = (Inr i, d1) \<longleftrightarrow>
     token \<in> sr_token ` set (sessions d) \<and>
     (case mid of None \<Rightarrow> True | Some j \<Rightarrow> j \<in> mr_map_id ` set (maps d)) \<and>
     cid \<notin> cr_context_id ` set (contexts d) \<and> i = cid \<and>
     d1 = d\<lparr>contexts := contexts d @
              [\<lparr>cr_context_id = cid, cr_session_token = token, cr_flags = fl,
                cr_flags_raw = as_i64 (int raw), cr_has_vl_item = vl,
                cr_map_id = mid, cr_managers = mg, cr_block_count = fst bi,
                cr_item_count = snd bi, cr_bi_count = as_i32 (fst bi + snd bi),
                cr_predecessor = pre, cr_successor = None, cr_editor = ed,
                cr_terminated = False\<rparr>]\<rparr>"
  by (auto simp: insert_context_def split: option.splits)

lemma insert_context_Inl:
  "insert_context cid token fl raw vl mid mg bi pre ed d = (Inl e, d1) \<Longrightarrow> d1 = d"
  by (auto simp: insert_context_def split: if_splits)

lemma context_rows_Inl: "context_rows nid token c pre mid bi ed d = (Inl e, d1) \<Longrightarrow> d1 = d"
  by (auto simp: context_rows_def and_then_Inl insert_context_packed_def context_mark_succeeded_def
      dest: insert_context_Inl split: option.splits)

lemma context_rows_Inr:
  assumes "context_rows nid token c pre mid bi ed d = (Inr i, d1)"
    and inv: "distinct (map cr_context_id (contexts d))" "linked None (session_contexts token d)"
    and pre: "pre = last_id (session_contexts token d)"
  shows "i = nid \<and> distinct (map cr_context_id (contexts d1)) \<and>
    linked None (session_contexts token d1) \<and>
    (\<exists>cs n. session_contexts token d1 = cs @ [n] \<and> length cs = length (session_contexts token d) \<and>
       cr_context_id n = nid \<and> cr_flags n = decode_context_flags (pc_sf c) \<and> cr_predecessor n = pre)"
proof (cases pre)
  case None
  then have "session_contexts token d = []" using pre by (simp add: last_id_def split: if_splits)
  with None assms(1) inv(1) show ?thesis
    by (auto simp: context_rows_def res_iff insert_context_packed_def insert_context_Inr
        session_contexts_def)
next
  case (Some p)
  then have ne: "session_contexts token d \<noteq> []" and p: "Some p = last_id (session_contexts token d)"
    using pre by (auto simp: last_id_def split: if_splits)
  define n where "n = \<lparr>cr_context_id = nid, cr_session_token = token,
      cr_flags = decode_context_flags (pc_sf c), cr_flags_raw = as_i64 (int (pc_sf c)),
      cr_has_vl_item = pc_i c, cr_map_id = mid, cr_managers = as_i64 (int (pc_mi c)),
      cr_block_count = fst bi, cr_item_count = snd bi, cr_bi_count = as_i32 (fst bi + snd bi),
      cr_predecessor = Some p, cr_successor = None, cr_editor = ed, cr_terminated = False\<rparr>"
  then have n: "cr_context_id n = nid" "cr_session_token n = token" "cr_predecessor n = Some p"
      "cr_flags n = decode_context_flags (pc_sf c)" "cr_successor n = None" "\<not> cr_terminated n"
    by simp_all
  have "insert_context_packed nid token c (Some p) mid bi ed d = (Inr i, d\<lparr>contexts := contexts d @ [n]\<rparr>)
      \<and> d1 = d\<lparr>contexts := upd_where (\<lambda>c. cr_context_id c = p)
          (\<lambda>c. c\<lparr>cr_successor := Some i, cr_terminated := True\<rparr>) (contexts d @ [n])\<rparr>"
    using assms(1) unfolding Some context_rows_def n_def
    by (simp add: res_iff insert_context_packed_def insert_context_Inr context_mark_succeeded_def
         del: upd_where_append upd_where_simps)
       (elim exE conjE, simp del: upd_where_append upd_where_simps)
  then have new: "nid \<notin> cr_context_id ` set (contexts d)" "i = nid"
      and d1: "d1 = d\<lparr>contexts := upd_where (\<lambda>c. cr_context_id c = p)
          (\<lambda>c. c\<lparr>cr_successor := Some nid, cr_terminated := True\<rparr>) (contexts d @ [n])\<rparr>"
    by (simp_all add: insert_context_packed_def insert_context_Inr)
  have np: "nid \<noteq> p"
  proof -
    have "p \<in> cr_context_id ` set (session_contexts token d)"
      using p ne by (auto simp: last_id_def)
    then show ?thesis using new by (auto simp: session_contexts_def)
  qed
  have sc: "session_contexts token d1 = upd_where (\<lambda>c. Some (cr_context_id c) = last_id (session_contexts token d))
      (\<lambda>c. c\<lparr>cr_successor := Some (cr_context_id n), cr_terminated := True\<rparr>) (session_contexts token d) @ [n]"
    using n np p [symmetric] unfolding d1 session_contexts_def by (simp add: session_contexts_mark)
  have "linked None (session_contexts token d1)"
    unfolding sc using inv n p ne
    by (intro linked_snoc) (auto simp: session_contexts_def intro: distinct_map_filter_rows)
  moreover have "distinct (map cr_context_id (contexts d1))"
    using inv(1) new n(1) np unfolding d1 by (simp add: ids_mark)
  ultimately show ?thesis
    using sc n new(2) Some by auto
qed

lemma upsert_map_contexts:
  "contexts (snd (upsert_map u n h d)) = contexts d"
  by (auto simp: upsert_map_def Let_def split: sum.splits option.splits)

section \<open>Properties\<close>

text \<open>
  C36. The contexts of a session are a doubly linked chain in the order they were reported: a
  report appends one row whose predecessor is the context before it and closes that row with
  the new one as its successor; a report that fails changes no context row.
\<close>

theorem update_context_chain:
  assumes inv: "conn_inv token v d"
    and upd: "update_context hex new_id token sf mi m vl bi ed v d = Ret (r, v1, d1)"
  shows "conn_inv token v1 d1 \<and>
    (if r = Inr ()
     then \<exists>cs n. session_contexts token d1 = cs @ [n] \<and>
       length cs = length (session_contexts token d) \<and> cr_context_id n = new_id \<and>
       cr_flags n = decode_context_flags sf \<and> cr_predecessor n = cv_ctx_id v
     else contexts d1 = contexts d)"
proof -
  let ?v = "case cv_ctx_id v of None \<Rightarrow> v | Some i \<Rightarrow> v\<lparr>cv_previous := Some i\<rparr>"
  let ?c = "new_player_ctx sf mi m vl ed"
  have prev: "cv_previous ?v = cv_ctx_id v" "cv_ctx_id ?v = cv_ctx_id v"
    using inv by (auto simp: conn_inv_def last_id_def split: option.splits if_splits)
  have step: "conn_inv token v1 d1 \<and> (if r = Inr ()
     then \<exists>cs n. session_contexts token d1 = cs @ [n] \<and>
       length cs = length (session_contexts token d) \<and> cr_context_id n = new_id \<and>
       cr_flags n = decode_context_flags sf \<and> cr_predecessor n = cv_ctx_id v
     else contexts d1 = contexts d)"
    if d2: "contexts d2 = contexts d"
      and r: "(case context_rows new_id token ?c (cv_previous ?v) mid bi ed d2 of
               (Inl e, d3) \<Rightarrow> Ret (Inl (SqlxErr e), ?v, d3)
             | (Inr i, d3) \<Rightarrow> Ret (Inr (), ?v\<lparr>cv_ctx := Some ?c, cv_ctx_id := Some i\<rparr>, d3))
          = Ret (r, v1, d1)" for d2 mid
  proof (cases "context_rows new_id token ?c (cv_previous ?v) mid bi ed d2")
    case (Pair q d3)
    have sd: "session_contexts token d2 = session_contexts token d"
      by (simp add: session_contexts_def d2)
    show ?thesis
    proof (cases q)
      case (Inl e)
      with Pair r context_rows_Inl [of new_id token ?c "cv_previous ?v" mid bi ed d2 e d3] inv prev d2
      show ?thesis by (auto simp: conn_inv_def session_contexts_def)
    next
      case (Inr i)
      have "cv_previous ?v = last_id (session_contexts token d2)"
        using inv prev sd by (simp add: conn_inv_def)
      from context_rows_Inr [OF _ _ _ this, of new_id ?c mid bi ed i d3] Pair Inr inv sd d2
      have "i = new_id \<and> distinct (map cr_context_id (contexts d3)) \<and>
        linked None (session_contexts token d3) \<and>
        (\<exists>cs n. session_contexts token d3 = cs @ [n] \<and> length cs = length (session_contexts token d) \<and>
           cr_context_id n = new_id \<and> cr_flags n = decode_context_flags sf \<and>
           cr_predecessor n = cv_ctx_id v)"
        by (simp add: conn_inv_def new_player_ctx_def prev)
      with Pair Inr r show ?thesis
        by (auto simp: conn_inv_def last_id_def)
    qed
  qed
  show ?thesis
  proof (cases m)
    case None
    show ?thesis
      using step [of d None] upd unfolding None update_context_def Let_def by simp
  next
    case (Some mp)
    show ?thesis
    proof (cases "decode_map_hash hex (m_hash mp)")
      case Panic
      with Some upd show ?thesis by (simp add: update_context_def get_or_insert_map_def Let_def)
    next
      case (Ret h)
      obtain q d2 where q: "upsert_map (m_uid mp) (m_name mp) h d = (q, d2)"
        by (cases "upsert_map (m_uid mp) (m_name mp) h d")
      then have d2: "contexts d2 = contexts d"
        using upsert_map_contexts [of "m_uid mp" "m_name mp" h d] by simp
      show ?thesis
      proof (cases q)
        case (Inl e)
        with Some Ret q upd d2 inv prev show ?thesis
          by (auto simp: update_context_def get_or_insert_map_def Let_def conn_inv_def
              session_contexts_def)
      next
        case (Inr i)
        show ?thesis
          using step [OF d2, of "Some i"] upd
          unfolding Some update_context_def get_or_insert_map_def Let_def by (simp add: Ret q Inr)
      qed
    qed
  qed
qed

theorem update_context_chain_witness:
  "\<exists>v1 d1. update_context (\<lambda>_. None) 21 5 0 0 None False (1, 2) None
      \<lparr>cv_ctx = None, cv_ctx_id = None, cv_previous = None\<rparr>
      \<lparr>users = [], display_names = [],
       sessions = [\<lparr>sr_token = 5, sr_user_id = 3, sr_created_ts = 0, sr_ip_address = [], sr_replaced = False\<rparr>],
       maps = [], maps_seq = 0, contexts = []\<rparr> = Ret (Inr (), v1, d1) \<and> conn_inv 5 v1 d1"
proof -
  let ?v = "\<lparr>cv_ctx = None, cv_ctx_id = None, cv_previous = None\<rparr>"
  let ?d = "\<lparr>users = [], display_names = [],
       sessions = [\<lparr>sr_token = 5, sr_user_id = 3, sr_created_ts = 0, sr_ip_address = [], sr_replaced = False\<rparr>],
       maps = [], maps_seq = 0, contexts = []\<rparr>"
  obtain v1 d1 where u: "update_context (\<lambda>_. None) 21 5 0 0 None False (1, 2) None ?v ?d = Ret (Inr (), v1, d1)"
    by (simp add: update_context_def context_rows_def insert_context_packed_def insert_context_def
        and_then_def Let_def)
  have "conn_inv 5 ?v ?d" by (simp add: conn_inv_def session_contexts_def)
  from update_context_chain [OF this u] u show ?thesis by blast
qed

end
