(* ===== verification/Catalogs.thy ===== *)
theory Catalogs
  imports Json_Value
begin

text \<open>
  The parsers that turn a mapper's spec into catalogs: \<open>parse_catalog_games\<close>
  (\<open>src/queries/minigames.rs\<close>), \<open>parse_catalog_collectibles\<close>
  (\<open>src/queries/collectibles.rs\<close>), \<open>parse_catalog_hats\<close> (\<open>src/queries/hats.rs\<close>), and the
  spec helpers of \<open>src/queries/custom_map_aux_specs.rs\<close>.  A parser's loop is recursion over
  the entries with the slugs seen so far.
\<close>

datatype catalog_validation_error =
    BlankSlug string
  | DuplicateSlug string string
  | DuplicateRecordUid string

section \<open>Slugs\<close>

text \<open>The slug of an entry: the default, or the trimmed text of an explicit one.\<close>

definition entry_slug :: "string \<Rightarrow> string \<Rightarrow> json \<Rightarrow> catalog_validation_error + string" where
  "entry_slug catalog dflt item =
     (case json_get item ''slug'' of
        None \<Rightarrow> Inr dflt
      | Some value \<Rightarrow>
          (case as_str value of
             None \<Rightarrow> Inl (BlankSlug catalog)
           | Some s \<Rightarrow>
               let slug = trim s
               in if slug = [] then Inl (BlankSlug catalog) else Inr slug))"

text \<open>The next positional default after a slug of the form \<open>prefix-N\<close>.\<close>

definition bump_default :: "string \<Rightarrow> string \<Rightarrow> nat \<Rightarrow> nat" where
  "bump_default prefix slug next_default =
     (case (case strip_prefix prefix slug of None \<Rightarrow> None | Some suffix \<Rightarrow> parse_u32 suffix) of
        None \<Rightarrow> next_default
      | Some number \<Rightarrow>
          if next_default \<le> number then min (2 ^ 32 - 1) (number + 1) else next_default)"

text \<open>The display name: the trimmed \<open>name\<close> unless blank, else the slug.\<close>

definition entry_name :: "string \<Rightarrow> json \<Rightarrow> string" where
  "entry_name slug item =
     (case json_get item ''name'' of
        None \<Rightarrow> slug
      | Some v \<Rightarrow>
          (case as_str v of
             None \<Rightarrow> slug
           | Some s \<Rightarrow> if trim s = [] then slug else trim s))"

section \<open>Minigames\<close>

record catalog_game =
  cg_slug :: string
  cg_kind :: string
  cg_name :: string
  cg_lower_is_better :: bool

definition map_kind_str :: "string \<Rightarrow> (string \<times> bool) option" where
  "map_kind_str k =
     (if k \<in> {''Sprint'', ''TimeTrial'', ''PuzzleLocations''} then Some (''Sprint'', True)
      else if k \<in> {''Survival'', ''TimeOffGround'', ''KingOfTheHill''} then Some (''Survival'', False)
      else if k \<in> {''Darts'', ''JumpAccuracy''} then Some (''Darts'', False)
      else if k \<in> {''HighJump'', ''JumpHigh''} then Some (''HighJump'', False)
      else if k = ''LongJump'' then Some (''LongJump'', False)
      else if k = ''MaxAvgSpeed'' then Some (''MaxAvgSpeed'', False)
      else None)"

definition map_kind_int :: "int \<Rightarrow> (string \<times> bool) option" where
  "map_kind_int t =
     (if t = 1 then Some (''Sprint'', True)
      else if t = 2 then Some (''HighJump'', False)
      else if t = 3 then Some (''Darts'', False)
      else if t = 4 then Some (''MaxAvgSpeed'', False)
      else if t = 5 then Some (''Survival'', False)
      else if t = 6 then Some (''Sprint'', True)
      else None)"

definition map_kind_from_game :: "json \<Rightarrow> (string \<times> bool) option" where
  "map_kind_from_game game =
     (case (case json_get game ''kind'' of None \<Rightarrow> None | Some v \<Rightarrow> as_str v) of
        Some k \<Rightarrow>
          if trim k \<noteq> [] then map_kind_str (trim k)
          else
            (case (case json_get game ''type'' of None \<Rightarrow> None | Some v \<Rightarrow> json_int_like v) of
               None \<Rightarrow> None | Some t \<Rightarrow> map_kind_int t)
      | None \<Rightarrow>
          (case (case json_get game ''type'' of None \<Rightarrow> None | Some v \<Rightarrow> json_int_like v) of
             None \<Rightarrow> None | Some t \<Rightarrow> map_kind_int t))"

definition kind_count :: "(string \<times> nat) list \<Rightarrow> string \<Rightarrow> nat" where
  "kind_count counts k = (case map_of counts k of None \<Rightarrow> 0 | Some n \<Rightarrow> n)"

definition game_name :: "json \<Rightarrow> string" where
  "game_name g =
     (case (case json_get g ''name'' of None \<Rightarrow> None | Some v \<Rightarrow> as_str v) of
        None \<Rightarrow> [] | Some s \<Rightarrow> s)"

fun games_loop ::
    "json list \<Rightarrow> string list \<Rightarrow> (string \<times> nat) list \<Rightarrow>
     catalog_validation_error + catalog_game list" where
  "games_loop [] seen counts = Inr []"
| "games_loop (g # gs) seen counts =
     (if \<not> is_object g then games_loop gs seen counts
      else
        (case map_kind_from_game g of
           None \<Rightarrow> games_loop gs seen counts
         | Some (kind, lower) \<Rightarrow>
             let next = kind_count counts kind + 1
             in bind_res (entry_slug ''minigame'' (kind @ ''-'' @ show_nat next) g) (\<lambda>slug.
                  if slug \<in> set seen then Inl (DuplicateSlug ''minigame'' slug)
                  else bind_res (games_loop gs (slug # seen) ((kind, next) # counts)) (\<lambda>rest.
                    Inr (\<lparr>cg_slug = slug, cg_kind = kind, cg_name = game_name g,
                          cg_lower_is_better = lower\<rparr> # rest)))))"

definition parse_catalog_games :: "json \<Rightarrow> catalog_validation_error + catalog_game list" where
  "parse_catalog_games spec =
     (case Option.bind (Option.bind (json_get spec ''minigames'') (\<lambda>m. json_get m ''games'')) as_array of
        None \<Rightarrow> Inr []
      | Some games \<Rightarrow> games_loop games [] [])"

section \<open>Collectibles\<close>

record catalog_collectible =
  cc_slug :: string
  cc_name :: string
  cc_pickup :: string
  cc_collect_on_unlock :: bool
  cc_has_zone :: bool
  cc_gated_by :: "string option"
  cc_unlock_score :: "int option"

definition array_in :: "json \<Rightarrow> json list option" where
  "array_in v =
     or_else (as_array v)
       (or_else (Option.bind (json_get v ''items'') as_array)
          (Option.bind (json_get v ''games'') as_array))"

definition collectible_array :: "json \<Rightarrow> json list option" where
  "collectible_array spec =
     or_else (Option.bind (json_get spec ''collectibles'') array_in)
       (Option.bind (json_get spec ''collectables'') array_in)"

definition ascii_lower :: "char \<Rightarrow> char" where
  "ascii_lower c =
     (if 65 \<le> (of_char c :: nat) \<and> (of_char c :: nat) \<le> 90 then char_of (of_char c + 32 :: nat) else c)"

definition parse_collect_paths :: "json \<Rightarrow> (bool \<times> bool \<times> string) option" where
  "parse_collect_paths item =
     (let canonical_collect = Option.bind (json_get item ''collectOnUnlock'') as_bool;
          canonical_marker = (json_get item ''collectOnUnlock'' \<noteq> None \<or> json_get item ''zone'' \<noteq> None);
          has_canonical_zone =
            (case json_get item ''zone'' of None \<Rightarrow> False | Some z \<Rightarrow> is_object z);
          legacy_pickup =
            map_option (\<lambda>s. map ascii_lower (trim s)) (Option.bind (json_get item ''pickup'') as_str)
      in (case (case legacy_pickup of
                  None \<Rightarrow> Some (False, \<not> canonical_marker)
                | Some p \<Rightarrow>
                    if p = [] \<or> p = ''zone'' then Some (False, True)
                    else if p = ''grant'' then Some (True, False) else None) of
            None \<Rightarrow> None
          | Some (legacy_collect, legacy_zone) \<Rightarrow>
              let collect_on_unlock = ((case canonical_collect of None \<Rightarrow> False | Some b \<Rightarrow> b) \<or> legacy_collect);
                  has_zone = (has_canonical_zone \<or> legacy_zone)
              in if \<not> collect_on_unlock \<and> \<not> has_zone then None
                 else Some (collect_on_unlock, has_zone,
                        if collect_on_unlock then ''grant'' else ''zone'')))"

definition parse_unlock_score :: "json \<Rightarrow> int option" where
  "parse_unlock_score item =
     Option.bind (or_else (json_get item ''unlock_score'') (json_get item ''unlockScore'')) json_int_like"

definition parse_gated_by :: "json \<Rightarrow> string option" where
  "parse_gated_by item =
     (let s = trim (case Option.bind (or_else (json_get item ''gated_by'') (json_get item ''gatedBy'')) as_str of
                      None \<Rightarrow> [] | Some s \<Rightarrow> s)
      in if s = [] then None else Some s)"

fun collectibles_loop ::
    "json list \<Rightarrow> string list \<Rightarrow> nat \<Rightarrow> catalog_validation_error + catalog_collectible list" where
  "collectibles_loop [] seen next_default = Inr []"
| "collectibles_loop (item # items) seen next_default =
     (if \<not> is_object item then collectibles_loop items seen next_default
      else
        (case parse_collect_paths item of
           None \<Rightarrow> collectibles_loop items seen next_default
         | Some (collect_on_unlock, has_zone, pickup) \<Rightarrow>
             bind_res (entry_slug ''collectible'' (''Collectible-'' @ show_nat next_default) item) (\<lambda>slug.
               if slug \<in> set seen then Inl (DuplicateSlug ''collectible'' slug)
               else bind_res
                 (collectibles_loop items (slug # seen) (bump_default ''Collectible-'' slug next_default))
                 (\<lambda>rest. Inr (\<lparr>cc_slug = slug, cc_name = entry_name slug item, cc_pickup = pickup,
                    cc_collect_on_unlock = collect_on_unlock, cc_has_zone = has_zone,
                    cc_gated_by = parse_gated_by item,
                    cc_unlock_score = parse_unlock_score item\<rparr> # rest)))))"

definition parse_catalog_collectibles ::
    "json \<Rightarrow> catalog_validation_error + catalog_collectible list" where
  "parse_catalog_collectibles spec =
     (case collectible_array spec of None \<Rightarrow> Inr [] | Some items \<Rightarrow> collectibles_loop items [] 1)"

section \<open>Hats\<close>

record catalog_hat =
  ch_slug :: string
  ch_name :: string
  ch_finish_this_map :: bool
  ch_record_uids :: "string list"

definition hats_array :: "json \<Rightarrow> json list option" where
  "hats_array spec = Option.bind (json_get spec ''hats'') array_in"

fun record_uids_loop :: "json list \<Rightarrow> string list \<Rightarrow> catalog_validation_error + string list" where
  "record_uids_loop [] seen = Inr []"
| "record_uids_loop (v # vs) seen =
     (case as_str v of
        None \<Rightarrow> record_uids_loop vs seen
      | Some s \<Rightarrow>
          let uid = trim s
          in if uid = [] then record_uids_loop vs seen
             else if uid \<in> set seen then Inl (DuplicateRecordUid uid)
             else bind_res (record_uids_loop vs (uid # seen)) (\<lambda>rest. Inr (uid # rest)))"

definition parse_unlock :: "json \<Rightarrow> catalog_validation_error + (bool \<times> string list)" where
  "parse_unlock item =
     (case json_get item ''unlock'' of
        None \<Rightarrow> Inr (False, [])
      | Some unlock \<Rightarrow>
          let finish =
                (case Option.bind (or_else (json_get unlock ''finishThisMap'') (json_get unlock ''finish_this_map'')) as_bool of
                   None \<Rightarrow> False | Some b \<Rightarrow> b)
          in (case Option.bind (or_else (json_get unlock ''recordUids'') (json_get unlock ''record_uids'')) as_array of
                None \<Rightarrow> Inr (finish, [])
              | Some arr \<Rightarrow> bind_res (record_uids_loop arr []) (\<lambda>uids. Inr (finish, uids))))"

definition uids_from_json :: "json \<Rightarrow> string list" where
  "uids_from_json v =
     (case as_array v of
        None \<Rightarrow> []
      | Some a \<Rightarrow>
          filter (\<lambda>s. s \<noteq> []) (map trim (map the (filter (\<lambda>x. x \<noteq> None) (map as_str a)))))"

fun hats_loop ::
    "json list \<Rightarrow> string list \<Rightarrow> nat \<Rightarrow> catalog_validation_error + catalog_hat list" where
  "hats_loop [] seen next_default = Inr []"
| "hats_loop (item # items) seen next_default =
     (if \<not> is_object item then hats_loop items seen next_default
      else
        bind_res (entry_slug ''hat'' (''Hat-'' @ show_nat next_default) item) (\<lambda>slug.
          let next1 = bump_default ''Hat-'' slug next_default
          in if slug \<in> set seen then Inl (DuplicateSlug ''hat'' slug)
             else bind_res (parse_unlock item) (\<lambda>(finish, uids).
               if \<not> finish \<and> uids = [] then hats_loop items (slug # seen) next1
               else bind_res (hats_loop items (slug # seen) next1) (\<lambda>rest.
                 Inr (\<lparr>ch_slug = slug, ch_name = entry_name slug item, ch_finish_this_map = finish,
                       ch_record_uids = uids\<rparr> # rest)))))"

definition parse_catalog_hats :: "json \<Rightarrow> catalog_validation_error + catalog_hat list" where
  "parse_catalog_hats spec =
     (case hats_array spec of None \<Rightarrow> Inr [] | Some items \<Rightarrow> hats_loop items [] 1)"

section \<open>Spec helpers\<close>

definition strip_injected_spec_id :: "json \<Rightarrow> json" where
  "strip_injected_spec_id spec = json_remove ''spec_id'' (json_remove ''specId'' spec)"

text \<open>\<open>Value::from(i64)\<close>: a non-negative integer takes the unsigned representation.\<close>

definition json_of_int :: "int \<Rightarrow> json" where
  "json_of_int i = (if 0 \<le> i then JPos (nat i) else JNeg i)"

definition spec_json_with_id :: "int \<Rightarrow> json \<Rightarrow> json" where
  "spec_json_with_id i spec = json_insert ''specId'' (json_of_int i) spec"

definition DEFAULT_LISTING_THRESHOLD :: int where "DEFAULT_LISTING_THRESHOLD = 25"
definition MIN_LISTING_THRESHOLD :: int where "MIN_LISTING_THRESHOLD = 5"
definition MAX_LISTING_THRESHOLD :: int where "MAX_LISTING_THRESHOLD = 100"

definition clamp :: "int \<Rightarrow> int \<Rightarrow> int \<Rightarrow> int" where
  "clamp lo hi n = (if n < lo then lo else if hi < n then hi else n)"

definition listing_threshold_from_spec :: "json \<Rightarrow> int" where
  "listing_threshold_from_spec spec =
     (case json_get spec ''listingThreshold'' of
        None \<Rightarrow> DEFAULT_LISTING_THRESHOLD
      | Some raw \<Rightarrow>
          (case or_else (json_i64 raw)
                  (or_else
                     (map_option (\<lambda>u. if int u \<le> i64_max then int u else MAX_LISTING_THRESHOLD) (json_u64 raw))
                     (map_option f64_as_i64 (json_f64 raw))) of
             None \<Rightarrow> DEFAULT_LISTING_THRESHOLD
           | Some n \<Rightarrow> clamp MIN_LISTING_THRESHOLD MAX_LISTING_THRESHOLD n))"

section \<open>What a parsed catalog satisfies\<close>

lemma entry_slug_nonblank:
  "entry_slug cat dflt item = Inr slug \<Longrightarrow> dflt \<noteq> [] \<Longrightarrow> slug \<noteq> []"
  by (auto simp: entry_slug_def Let_def split: option.splits if_splits)

lemma entry_name_nonblank: "slug \<noteq> [] \<Longrightarrow> entry_name slug item \<noteq> []"
  by (auto simp: entry_name_def split: option.splits)

definition canonical_kinds :: "string list" where
  "canonical_kinds = [''Sprint'', ''Survival'', ''Darts'', ''HighJump'', ''LongJump'', ''MaxAvgSpeed'']"

definition kind_ok :: "string \<times> bool \<Rightarrow> bool" where
  "kind_ok k \<longleftrightarrow> fst k \<in> set canonical_kinds \<and> snd k = (fst k = ''Sprint'')"

lemma map_kind_ok: "map_kind_from_game g = Some k \<Longrightarrow> kind_ok k"
  by (auto simp: map_kind_from_game_def map_kind_str_def map_kind_int_def kind_ok_def canonical_kinds_def
      split: option.splits if_splits)

definition game_ok :: "catalog_game \<Rightarrow> bool" where
  "game_ok g \<longleftrightarrow> cg_slug g \<noteq> [] \<and> kind_ok (cg_kind g, cg_lower_is_better g)"

lemma games_loop_ok:
  "games_loop gs seen counts = Inr rs \<Longrightarrow>
   distinct (map cg_slug rs) \<and> set (map cg_slug rs) \<inter> set seen = {} \<and> (\<forall>r\<in>set rs. game_ok r)"
proof (induction gs seen counts arbitrary: rs rule: games_loop.induct)
  case (2 g gs seen counts)
  show ?case
  proof (cases "is_object g \<and> map_kind_from_game g \<noteq> None")
    case False
    with "2.IH"(1,2) "2.prems" show ?thesis
      by (cases "map_kind_from_game g") (auto split: if_splits)
  next
    case True
    then obtain kind lower where k: "map_kind_from_game g = Some (kind, lower)" by auto
    let ?next = "kind_count counts kind + 1"
    obtain slug rest where s: "entry_slug ''minigame'' (kind @ ''-'' @ show_nat ?next) g = Inr slug"
        "slug \<notin> set seen" "games_loop gs (slug # seen) ((kind, ?next) # counts) = Inr rest"
        "rs = \<lparr>cg_slug = slug, cg_kind = kind, cg_name = game_name g, cg_lower_is_better = lower\<rparr> # rest"
      using True k "2.prems" by (auto simp: res_iff Let_def split: if_splits)
    have "distinct (map cg_slug rest) \<and> set (map cg_slug rest) \<inter> set (slug # seen) = {} \<and>
        (\<forall>r\<in>set rest. game_ok r)"
      using "2.IH"(3) [of "(kind, lower)" kind lower ?next slug rest] True k s by simp
    moreover have "game_ok \<lparr>cg_slug = slug, cg_kind = kind, cg_name = game_name g, cg_lower_is_better = lower\<rparr>"
      using map_kind_ok [OF k] entry_slug_nonblank [OF s(1)] by (simp add: game_ok_def)
    ultimately show ?thesis using s by auto
  qed
qed simp

definition collectible_ok :: "catalog_collectible \<Rightarrow> bool" where
  "collectible_ok c \<longleftrightarrow> cc_slug c \<noteq> [] \<and> cc_name c \<noteq> [] \<and>
     (cc_collect_on_unlock c \<or> cc_has_zone c) \<and>
     cc_pickup c = (if cc_collect_on_unlock c then ''grant'' else ''zone'') \<and>
     cc_gated_by c \<noteq> Some []"

lemma parse_collect_paths_ok:
  "parse_collect_paths item = Some (c, z, p) \<Longrightarrow> (c \<or> z) \<and> p = (if c then ''grant'' else ''zone'')"
  by (auto simp: parse_collect_paths_def Let_def split: option.splits if_splits)

lemma collectibles_loop_ok:
  "collectibles_loop items seen n = Inr rs \<Longrightarrow>
   distinct (map cc_slug rs) \<and> set (map cc_slug rs) \<inter> set seen = {} \<and> (\<forall>r\<in>set rs. collectible_ok r)"
proof (induction items seen n arbitrary: rs rule: collectibles_loop.induct)
  case (2 item items seen n)
  show ?case
  proof (cases "is_object item \<and> parse_collect_paths item \<noteq> None")
    case False
    with "2.IH"(1,2) "2.prems" show ?thesis
      by (cases "parse_collect_paths item") (auto split: if_splits)
  next
    case True
    then obtain c z p where k: "parse_collect_paths item = Some (c, z, p)" by auto
    obtain slug rest where s: "entry_slug ''collectible'' (''Collectible-'' @ show_nat n) item = Inr slug"
        "slug \<notin> set seen"
        "collectibles_loop items (slug # seen) (bump_default ''Collectible-'' slug n) = Inr rest"
        "rs = \<lparr>cc_slug = slug, cc_name = entry_name slug item, cc_pickup = p,
            cc_collect_on_unlock = c, cc_has_zone = z, cc_gated_by = parse_gated_by item,
            cc_unlock_score = parse_unlock_score item\<rparr> # rest"
      using True k "2.prems" by (auto simp: res_iff split: if_splits)
    have "distinct (map cc_slug rest) \<and> set (map cc_slug rest) \<inter> set (slug # seen) = {} \<and>
        (\<forall>r\<in>set rest. collectible_ok r)"
      using "2.IH"(3) [of "(c, z, p)" c "(z, p)" z p slug rest] True k s by simp
    moreover have "slug \<noteq> []" using entry_slug_nonblank [OF s(1)] by simp
    ultimately show ?thesis
      using s parse_collect_paths_ok [OF k]
      by (auto simp: collectible_ok_def entry_name_nonblank parse_gated_by_def Let_def split: if_splits)
  qed
qed simp

definition hat_ok :: "catalog_hat \<Rightarrow> bool" where
  "hat_ok h \<longleftrightarrow> ch_slug h \<noteq> [] \<and> ch_name h \<noteq> [] \<and>
     (ch_finish_this_map h \<or> ch_record_uids h \<noteq> []) \<and>
     distinct (ch_record_uids h) \<and> [] \<notin> set (ch_record_uids h)"

lemma record_uids_loop_ok:
  "record_uids_loop vs seen = Inr us \<Longrightarrow> distinct us \<and> set us \<inter> set seen = {} \<and> [] \<notin> set us"
proof (induction vs seen arbitrary: us rule: record_uids_loop.induct)
  case (2 v vs seen)
  then show ?case
    by (fastforce simp: res_iff Let_def split: option.splits if_splits)
qed simp

lemma parse_unlock_ok:
  "parse_unlock item = Inr (f, us) \<Longrightarrow> distinct us \<and> [] \<notin> set us"
  by (auto simp: parse_unlock_def Let_def res_iff dest: record_uids_loop_ok split: option.splits)

lemma hats_loop_ok:
  "hats_loop items seen n = Inr rs \<Longrightarrow>
   distinct (map ch_slug rs) \<and> set (map ch_slug rs) \<inter> set seen = {} \<and> (\<forall>r\<in>set rs. hat_ok r)"
proof (induction items seen n arbitrary: rs rule: hats_loop.induct)
  case (2 item items seen n)
  show ?case
  proof (cases "is_object item")
    case False
    with "2.IH"(1) "2.prems" show ?thesis by simp
  next
    case True
    obtain slug finish uids where s: "entry_slug ''hat'' (''Hat-'' @ show_nat n) item = Inr slug"
        "slug \<notin> set seen" "parse_unlock item = Inr (finish, uids)"
        "(if \<not> finish \<and> uids = [] then hats_loop items (slug # seen) (bump_default ''Hat-'' slug n)
          else bind_res (hats_loop items (slug # seen) (bump_default ''Hat-'' slug n)) (\<lambda>rest.
             Inr (\<lparr>ch_slug = slug, ch_name = entry_name slug item, ch_finish_this_map = finish,
                   ch_record_uids = uids\<rparr> # rest))) = Inr rs"
      using True "2.prems" by (auto simp: res_iff Let_def split: if_splits)
    have slug: "slug \<noteq> []" using entry_slug_nonblank [OF s(1)] by simp
    have step: "distinct (map ch_slug r) \<and> set (map ch_slug r) \<inter> set (slug # seen) = {} \<and>
        (\<forall>x\<in>set r. hat_ok x)"
      if r: "hats_loop items (slug # seen) (bump_default ''Hat-'' slug n) = Inr r" for r
      using "2.IH"(2,3) True s(2) r by (cases "\<not> finish \<and> uids = []") simp_all
    show ?thesis
    proof (cases "\<not> finish \<and> uids = []")
      case True
      with step s(4) show ?thesis by auto
    next
      case False
      then obtain rest where "hats_loop items (slug # seen) (bump_default ''Hat-'' slug n) = Inr rest"
          "rs = \<lparr>ch_slug = slug, ch_name = entry_name slug item, ch_finish_this_map = finish,
                   ch_record_uids = uids\<rparr> # rest"
        using s(4) by (auto simp: res_iff)
      with step [of rest] slug False s(2) parse_unlock_ok [OF s(3)] show ?thesis
        by (auto simp: hat_ok_def entry_name_nonblank)
    qed
  qed
qed simp

text \<open>
  The contract of a catalog parser: what the tables built from it rely on.
\<close>

locale catalog_parser =
  fixes parse :: "json \<Rightarrow> catalog_validation_error + 'g list" and slug :: "'g \<Rightarrow> string"
  assumes slugs: "parse spec = Inr gs \<Longrightarrow> distinct (map slug gs) \<and> (\<forall>g\<in>set gs. slug g \<noteq> [])"
begin

lemma slug_unique: "parse spec = Inr gs \<Longrightarrow> g \<in> set gs \<Longrightarrow> h \<in> set gs \<Longrightarrow> slug g = slug h \<Longrightarrow> g = h"
  using slugs by (metis distinct_map inj_onD)

lemma distinct_slugs: "parse spec = Inr gs \<Longrightarrow> distinct (map slug gs)"
  using slugs by blast

end

lemma parse_games_result:
  "parse_catalog_games spec = Inr gs \<Longrightarrow> distinct (map cg_slug gs) \<and> (\<forall>g\<in>set gs. game_ok g)"
  by (auto simp: parse_catalog_games_def dest: games_loop_ok split: option.splits)

lemma parse_collectibles_result:
  "parse_catalog_collectibles spec = Inr cs \<Longrightarrow>
   distinct (map cc_slug cs) \<and> (\<forall>c\<in>set cs. collectible_ok c)"
  by (auto simp: parse_catalog_collectibles_def dest: collectibles_loop_ok split: option.splits)

lemma parse_hats_result:
  "parse_catalog_hats spec = Inr hs \<Longrightarrow> distinct (map ch_slug hs) \<and> (\<forall>h\<in>set hs. hat_ok h)"
  by (auto simp: parse_catalog_hats_def dest: hats_loop_ok split: option.splits)

interpretation games_parser: catalog_parser parse_catalog_games cg_slug
  by unfold_locales (auto simp: game_ok_def dest!: parse_games_result)

interpretation collectibles_parser: catalog_parser parse_catalog_collectibles cc_slug
  by unfold_locales (auto simp: collectible_ok_def dest!: parse_collectibles_result)

interpretation hats_parser: catalog_parser parse_catalog_hats ch_slug
  by unfold_locales (auto simp: hat_ok_def dest!: parse_hats_result)

text \<open>Default slugs of minigames do not collide.\<close>

lemma canonical_no_dash: "k \<in> set canonical_kinds \<Longrightarrow> CHR ''-'' \<notin> set k"
  by (auto simp: canonical_kinds_def)

lemma default_slug_inj:
  assumes "j \<in> set canonical_kinds" "k \<in> set canonical_kinds"
    and eq: "j @ ''-'' @ show_nat m = k @ ''-'' @ show_nat n"
  shows "j = k \<and> m = n"
proof -
  have "split_on (CHR ''-'') (j @ CHR ''-'' # show_nat m) = j # split_on (CHR ''-'') (show_nat m)"
    using assms(1) by (intro split_on_append canonical_no_dash)
  moreover have "split_on (CHR ''-'') (k @ CHR ''-'' # show_nat n) = k # split_on (CHR ''-'') (show_nat n)"
    using assms(2) by (intro split_on_append canonical_no_dash)
  ultimately have "j = k" using eq by simp
  with eq have "show_nat m = show_nat n" by simp
  with \<open>j = k\<close> show ?thesis using show_nat_inj by blast
qed

definition defaults_upto :: "(string \<times> nat) list \<Rightarrow> string list \<Rightarrow> bool" where
  "defaults_upto counts seen \<longleftrightarrow>
     (\<forall>s\<in>set seen. \<exists>k\<in>set canonical_kinds. \<exists>m\<le>kind_count counts k. s = k @ ''-'' @ show_nat m)"

lemma defaults_upto_step:
  assumes "defaults_upto counts seen" and k: "kind \<in> set canonical_kinds"
  shows "defaults_upto ((kind, kind_count counts kind + 1) # counts)
    ((kind @ ''-'' @ show_nat (kind_count counts kind + 1)) # seen)"
  unfolding defaults_upto_def
proof
  let ?c = "(kind, kind_count counts kind + 1) # counts"
  fix s assume s: "s \<in> set ((kind @ ''-'' @ show_nat (kind_count counts kind + 1)) # seen)"
  have mono: "kind_count counts j \<le> kind_count ?c j" for j by (simp add: kind_count_def)
  have top: "kind_count ?c kind = kind_count counts kind + 1" by (simp add: kind_count_def)
  show "\<exists>k\<in>set canonical_kinds. \<exists>m\<le>kind_count ?c k. s = k @ ''-'' @ show_nat m"
  proof (cases "s \<in> set seen")
    case True
    with assms(1) obtain j m where "j \<in> set canonical_kinds" "m \<le> kind_count counts j"
        "s = j @ ''-'' @ show_nat m"
      unfolding defaults_upto_def by blast
    with mono [of j] show ?thesis by (intro bexI [of _ j] exI [of _ m]) auto
  next
    case False
    with s have "s = kind @ ''-'' @ show_nat (kind_count counts kind + 1)" by simp
    with k top show ?thesis by (intro bexI [of _ kind] exI [of _ "kind_count counts kind + 1"]) auto
  qed
qed

lemma games_loop_defaults:
  "\<forall>g\<in>set gs. json_get g ''slug'' = None \<Longrightarrow> defaults_upto counts seen \<Longrightarrow>
   \<exists>rs. games_loop gs seen counts = Inr rs"
proof (induction gs arbitrary: seen counts)
  case (Cons g gs)
  show ?case
  proof (cases "is_object g \<and> map_kind_from_game g \<noteq> None")
    case False
    with Cons show ?thesis by (cases "map_kind_from_game g") auto
  next
    case True
    then obtain kind lower where k: "map_kind_from_game g = Some (kind, lower)" by auto
    have ck: "kind \<in> set canonical_kinds" using map_kind_ok [OF k] by (simp add: kind_ok_def)
    let ?n = "kind_count counts kind + 1"
    let ?slug = "kind @ ''-'' @ show_nat ?n"
    have e: "entry_slug ''minigame'' ?slug g = Inr ?slug"
      using Cons.prems(1) by (simp add: entry_slug_def)
    have new: "?slug \<notin> set seen"
    proof
      assume "?slug \<in> set seen"
      then obtain j m where j: "j \<in> set canonical_kinds" "m \<le> kind_count counts j"
          "?slug = j @ ''-'' @ show_nat m"
        using Cons.prems(2) unfolding defaults_upto_def by blast
      from default_slug_inj [OF ck j(1,3)] j(2) show False by auto
    qed
    have "defaults_upto ((kind, ?n) # counts) (?slug # seen)"
      using Cons.prems(2) ck by (rule defaults_upto_step)
    then obtain rest where "games_loop gs (?slug # seen) ((kind, ?n) # counts) = Inr rest"
      using Cons.IH [of "(kind, ?n) # counts" "?slug # seen"] Cons.prems(1) by auto
    with True k e new show ?thesis by (auto simp: Let_def)
  qed
qed simp

lemma show_nat_digit: "n < 10 \<Longrightarrow> show_nat n = [digit_char n]"
  by (subst show_nat.simps) simp

lemma digit_char_1: "digit_char (Suc 0) = CHR ''1''" and trim_a: "trim ''a'' = ''a''"
  by code_simp+

section \<open>Properties\<close>

text \<open>
  C37. A parsed minigame catalog has distinct, non-blank slugs and canonical kinds, and lower
  scores win exactly for \<open>Sprint\<close>, which is how the leaderboards read the stored kind.
\<close>

theorem parsed_games_ok:
  assumes "parse_catalog_games spec = Inr games"
  shows "distinct (map cg_slug games) \<and>
    (\<forall>g\<in>set games. cg_slug g \<noteq> [] \<and> cg_kind g \<in> set canonical_kinds \<and>
       cg_lower_is_better g = (cg_kind g = ''Sprint''))"
  using parse_games_result [OF assms] by (auto simp: game_ok_def kind_ok_def)

theorem parsed_games_ok_witness:
  "\<exists>g. parse_catalog_games (JObj [(''minigames'', JObj [(''games'',
      JArr [JObj [(''type'', JPos 6)], JNull])])]) = Inr [g] \<and> cg_lower_is_better g"
proof -
  let ?s = "JObj [(''minigames'', JObj [(''games'', JArr [JObj [(''type'', JPos 6)], JNull])])]"
  have p: "parse_catalog_games ?s =
      Inr [\<lparr>cg_slug = ''Sprint-1'', cg_kind = ''Sprint'', cg_name = [], cg_lower_is_better = True\<rparr>]"
    by (simp add: parse_catalog_games_def map_kind_from_game_def json_int_like_def i64_max_def
        map_kind_int_def kind_count_def entry_slug_def show_nat_digit digit_char_1 game_name_def)
  from parsed_games_ok [OF p] p show ?thesis by auto
qed

text \<open>
Minigames without slugs are never rejected: the positional defaults of one spec do not
  collide.
\<close>

theorem games_without_slugs_accepted:
  assumes "\<forall>g\<in>set gs. json_get g ''slug'' = None"
  shows "\<exists>games. parse_catalog_games (JObj [(''minigames'', JObj [(''games'', JArr gs)])]) = Inr games"
  using games_loop_defaults [OF assms, of "[]" "[]"]
  by (simp add: parse_catalog_games_def defaults_upto_def)

theorem games_without_slugs_accepted_witness:
  "\<exists>games. parse_catalog_games (JObj [(''minigames'', JObj [(''games'',
      JArr [JObj [(''kind'', JStr ''Darts'')], JObj [(''kind'', JStr ''Darts'')]])])]) = Inr games"
  by (rule games_without_slugs_accepted) simp

text \<open>
  Every parsed collectible can be collected: by its zone, or together with its unlock; and
  the compatibility field says which one a client that knows one path only is to use.
\<close>

theorem parsed_collectibles_ok:
  assumes "parse_catalog_collectibles spec = Inr cs"
  shows "distinct (map cc_slug cs) \<and>
    (\<forall>c\<in>set cs. cc_slug c \<noteq> [] \<and> cc_name c \<noteq> [] \<and> (cc_collect_on_unlock c \<or> cc_has_zone c) \<and>
       cc_pickup c = (if cc_collect_on_unlock c then ''grant'' else ''zone''))"
  using parse_collectibles_result [OF assms] by (auto simp: collectible_ok_def)

theorem parsed_collectibles_ok_witness:
  "\<exists>c. parse_catalog_collectibles (JObj [(''collectables'', JArr [
      JObj [(''slug'', JStr '' star''), (''pickup'', JStr ''Grant'')]])]) = Inr [c] \<and> cc_pickup c = ''grant''"
proof -
  let ?s = "JObj [(''collectables'', JArr [JObj [(''slug'', JStr '' star''), (''pickup'', JStr ''Grant'')]])]"
  have p: "parse_catalog_collectibles ?s =
      Inr [\<lparr>cc_slug = ''star'', cc_name = ''star'', cc_pickup = ''grant'', cc_collect_on_unlock = True,
            cc_has_zone = False, cc_gated_by = None, cc_unlock_score = None\<rparr>]"
    by code_simp
  from parsed_collectibles_ok [OF p] p show ?thesis by auto
qed

text \<open>
  Every parsed hat has a condition to unlock it: finishing the map, or a list of distinct,
  non-blank record ids.
\<close>

theorem parsed_hats_ok:
  assumes "parse_catalog_hats spec = Inr hats"
  shows "distinct (map ch_slug hats) \<and>
    (\<forall>h\<in>set hats. ch_slug h \<noteq> [] \<and> ch_name h \<noteq> [] \<and>
       (ch_finish_this_map h \<or> ch_record_uids h \<noteq> []) \<and>
       distinct (ch_record_uids h) \<and> [] \<notin> set (ch_record_uids h))"
  using parse_hats_result [OF assms] by (auto simp: hat_ok_def)

theorem parsed_hats_ok_witness:
  "\<exists>h. parse_catalog_hats (JObj [(''hats'', JArr [JNull,
      JObj [(''unlock'', JObj [(''recordUids'', JArr [JStr ''a'', JNull])])]])]) = Inr [h] \<and>
    ch_record_uids h = [''a'']"
proof -
  let ?s = "JObj [(''hats'', JArr [JNull, JObj [(''unlock'', JObj [(''recordUids'', JArr [JStr ''a'', JNull])])]])]"
  have p: "parse_catalog_hats ?s =
      Inr [\<lparr>ch_slug = ''Hat-1'', ch_name = ''Hat-1'', ch_finish_this_map = False, ch_record_uids = [''a'']\<rparr>]"
    by (simp add: parse_catalog_hats_def hats_array_def array_in_def entry_slug_def entry_name_def
        show_nat_digit digit_char_1 parse_unlock_def trim_a Let_def)
  from parsed_hats_ok [OF p] p show ?thesis by auto
qed

text \<open>
The listing threshold of any spec is in the range the table accepts, 5 to 100.
\<close>

theorem listing_threshold_range:
  "5 \<le> listing_threshold_from_spec spec \<and> listing_threshold_from_spec spec \<le> 100"
  by (auto simp: listing_threshold_from_spec_def clamp_def DEFAULT_LISTING_THRESHOLD_def
      MIN_LISTING_THRESHOLD_def MAX_LISTING_THRESHOLD_def split: option.splits)

text \<open>
  The id the server injects into a spec it serves is never stored: stripping a served spec
  gives what stripping the stored one gives, and no stripped spec has an injected id.
\<close>

theorem strip_served_spec:
  "strip_injected_spec_id (spec_json_with_id i spec) = strip_injected_spec_id spec \<and>
   json_get (strip_injected_spec_id spec) ''specId'' = None \<and>
   json_get (strip_injected_spec_id spec) ''spec_id'' = None \<and>
   strip_injected_spec_id (strip_injected_spec_id spec) = strip_injected_spec_id spec"
  by (simp add: strip_injected_spec_id_def spec_json_with_id_def json_remove_insert json_get_remove)
     (metis json_remove_commute json_remove_idem)

end
