(* ===== verification/Wayfinder_Db.thy ===== *)
theory Wayfinder_Db
  imports Catalogs Plugin_Auth "HOL-Library.List_Lexorder"
begin

text \<open>
  The tables of the map features and the operations that fill them from a mapper's spec:
  \<open>src/queries/custom_map_aux_specs.rs\<close> and the catalog halves of
  \<open>src/queries/minigames.rs\<close>, \<open>collectibles.rs\<close> and \<open>hats.rs\<close>.  A spec is parsed into three
  catalogs; binding a map copies the catalogs of its spec into the on-map tables.

  Parameters, in \<open>wf_env\<close>: the hash of a stored spec (a generated column), MD5 in hexadecimal,
  the text of a UUID, and the sort key of the database's collation.
\<close>

section \<open>Tables\<close>

record wf_env =
  we_spec_hash :: "json \<Rightarrow> string"
  we_md5 :: "string \<Rightarrow> string"
  we_show_uuid :: "uuid \<Rightarrow> string"
  we_collate :: "string \<Rightarrow> nat list"

record aux_spec =
  sx_id :: int
  sx_user_id :: uuid
  sx_name_id :: string
  sx_spec :: json
  sx_hit_counter :: int
  sx_created_at :: nat
  sx_updated_at :: nat
  sx_listing_threshold :: int

record listing_bind =
  lb_map_uid :: string
  lb_spec_id :: int
  lb_verified_author_id :: "uuid option"
  lb_author_verified_at :: "nat option"
  lb_materialized_spec_updated_at :: "nat option"
  lb_materialized_spec_hash :: "string option"

record game_row =
  gr_spec_id :: int
  gr_user_id :: uuid
  gr_name_id :: string
  gr_slug :: string
  gr_kind :: string
  gr_name :: string
  gr_lower_is_better :: bool

record game_on_map =
  gm_map_uid :: string
  gm_slug :: string
  gm_key :: string
  gm_kind :: string
  gm_name :: string
  gm_spec_user :: uuid
  gm_name_id :: string

record collectible_row =
  cl_spec_id :: int
  cl_user_id :: uuid
  cl_name_id :: string
  cl_slug :: string
  cl_name :: string
  cl_pickup :: string
  cl_collect_on_unlock :: bool
  cl_has_zone :: bool
  cl_gated_by :: "string option"
  cl_unlock_score :: "int option"

record collectible_on_map =
  cm_map_uid :: string
  cm_slug :: string
  cm_key :: string
  cm_name :: string
  cm_pickup :: string
  cm_collect_on_unlock :: bool
  cm_has_zone :: bool
  cm_gated_by :: "string option"
  cm_unlock_score :: "int option"
  cm_spec_user :: uuid
  cm_name_id :: string

record hat_row =
  ht_spec_id :: int
  ht_user_id :: uuid
  ht_name_id :: string
  ht_slug :: string
  ht_name :: string
  ht_finish_this_map :: bool
  ht_record_uids :: json

record hat_on_map =
  hm_map_uid :: string
  hm_slug :: string
  hm_key :: string
  hm_name :: string
  hm_finish_this_map :: bool
  hm_record_uids :: json
  hm_spec_user :: uuid
  hm_name_id :: string

record hat_unlock_row =
  hu_user_id :: uuid
  hu_key :: string
  hu_map_uid :: string
  hu_slug :: string
  hu_unlocked_at :: nat

record hat_equipped_row =
  hq_user_id :: uuid
  hq_map_uid :: string
  hq_slug :: string
  hq_key :: string
  hq_updated_at :: nat

record pb_row =
  pb_user_id :: uuid
  pb_key :: string
  pb_map_uid :: string
  pb_slug :: string
  pb_score :: int
  pb_finish_count :: int
  pb_attempt_count :: int
  pb_last_played :: nat
  pb_updated_at :: nat

record attempt_row =
  at_user_id :: uuid
  at_key :: string
  at_map_uid :: string
  at_slug :: string
  at_elapsed_ms :: int
  at_status :: string
  at_created_at :: nat

record progress_row =
  pg_user_id :: uuid
  pg_key :: string
  pg_map_uid :: string
  pg_slug :: string
  pg_unlocked_at :: "nat option"
  pg_collected_at :: "nat option"

record collect_log_row =
  lg_user_id :: uuid
  lg_map_uid :: string
  lg_slug :: string
  lg_key :: string
  lg_collected_at :: nat
  lg_pos :: "rat \<times> rat \<times> rat"
  lg_source :: string

record curr_height_row =
  hh_user_id :: uuid
  hh_map_uid :: string
  hh_height :: f64
  hh_pos :: "f64 \<times> f64 \<times> f64"
  hh_race_time :: int
  hh_updated_at :: nat
  hh_update_count :: int
  hh_afk_update_count :: int
  hh_velocity :: "f64 \<times> f64 \<times> f64"
  hh_dt :: f64

record wf_db = core_db +
  aux_specs :: "aux_spec list"
  specs_seq :: int
  listing_binds :: "listing_bind list"
  minigame_catalog :: "game_row list"
  minigame_on_map :: "game_on_map list"
  minigame_pb :: "pb_row list"
  minigame_attempt :: "attempt_row list"
  collectible_catalog :: "collectible_row list"
  collectibles_on_map :: "collectible_on_map list"
  collectible_progress :: "progress_row list"
  collect_log :: "collect_log_row list"
  hat_catalog :: "hat_row list"
  hats_on_map :: "hat_on_map list"
  hat_unlocks :: "hat_unlock_row list"
  hat_equipped :: "hat_equipped_row list"
  curr_heights :: "curr_height_row list"
  shadow_bans :: "uuid list"

section \<open>Columns\<close>

text \<open>\<open>JSONB\<close> rejects a NUL in any text.\<close>

fun json_has_nul :: "json \<Rightarrow> bool" where
  "json_has_nul (JStr s) = (CHR 0x00 \<in> set s)"
| "json_has_nul (JArr vs) = list_ex json_has_nul vs"
| "json_has_nul (JObj kvs) = list_ex (\<lambda>kv. CHR 0x00 \<in> set (fst kv) \<or> json_has_nul (snd kv)) kvs"
| "json_has_nul _ = False"

definition has_nul :: "string \<Rightarrow> bool" where
  "has_nul s \<longleftrightarrow> CHR 0x00 \<in> set s"

text \<open>A map uid column; the callers pass uids of 27 bytes, so nothing is ever cut.\<close>

definition uid_col :: "string \<Rightarrow> db_error + string" where
  "uid_col u =
     (if has_nul u then Inl InvalidText else if char_count u \<le> 27 then Inr u else Inl ValueTooLong)"

text \<open>
  Timestamps count microseconds; a time sent to a client is in seconds, as a \<open>u32\<close>.
\<close>

definition unix_seconds :: "nat \<Rightarrow> nat" where
  "unix_seconds t = nat (as_u32 (int t div 1000000))"

section \<open>Catalogs of a spec\<close>

text \<open>Inserting rows one by one, each against the constraints of the table.\<close>

fun insert_rows :: "('r \<Rightarrow> 'r list \<Rightarrow> db_error option) \<Rightarrow> 'r list \<Rightarrow> 'r list \<Rightarrow> db_error + 'r list" where
  "insert_rows check [] table = Inr table"
| "insert_rows check (r # rs) table =
     (case check r table of Some e \<Rightarrow> Inl e | None \<Rightarrow> insert_rows check rs (table @ [r]))"

definition game_check :: "game_row \<Rightarrow> game_row list \<Rightarrow> db_error option" where
  "game_check r table =
     (if has_nul (gr_slug r) \<or> has_nul (gr_name r) then Some InvalidText
      else if gr_kind r \<notin> set canonical_kinds
      then Some (CheckViolation ''minigame_catalog_canonical_kind_check'')
      else if gr_lower_is_better r \<noteq> (gr_kind r = ''Sprint'')
      then Some (CheckViolation ''minigame_catalog_sort_direction_check'')
      else if \<exists>x\<in>set table. gr_user_id x = gr_user_id r \<and> gr_name_id x = gr_name_id r \<and> gr_slug x = gr_slug r
      then Some (UniqueViolation ''minigame_catalog_user_id_name_id_slug_key'')
      else None)"

definition game_to_row :: "int \<Rightarrow> uuid \<Rightarrow> string \<Rightarrow> catalog_game \<Rightarrow> game_row" where
  "game_to_row spec_id user name_id g =
     \<lparr>gr_spec_id = spec_id, gr_user_id = user, gr_name_id = name_id, gr_slug = cg_slug g,
      gr_kind = cg_kind g, gr_name = cg_name g, gr_lower_is_better = cg_lower_is_better g\<rparr>"

definition replace_games_in_tx ::
    "int \<Rightarrow> uuid \<Rightarrow> string \<Rightarrow> catalog_game list \<Rightarrow> ('z wf_db_scheme, db_error, unit) db_action" where
  "replace_games_in_tx spec_id user name_id games d =
     (case insert_rows game_check (map (game_to_row spec_id user name_id) games)
             (filter (\<lambda>r. gr_spec_id r \<noteq> spec_id) (minigame_catalog d)) of
        Inl e \<Rightarrow> (Inl e, d)
      | Inr t \<Rightarrow> (Inr (), d\<lparr>minigame_catalog := t\<rparr>))"

definition collectible_check :: "collectible_row \<Rightarrow> collectible_row list \<Rightarrow> db_error option" where
  "collectible_check r table =
     (if has_nul (cl_slug r) \<or> has_nul (cl_name r) \<or>
         (case cl_gated_by r of None \<Rightarrow> False | Some g \<Rightarrow> has_nul g) then Some InvalidText
      else if cl_pickup r \<notin> {''zone'', ''grant''}
      then Some (CheckViolation ''collectible_catalog_pickup_check'')
      else if \<not> (cl_collect_on_unlock r \<or> cl_has_zone r)
      then Some (CheckViolation ''collectible_catalog_collect_path_check'')
      else if \<exists>x\<in>set table. cl_spec_id x = cl_spec_id r \<and> cl_slug x = cl_slug r
      then Some (UniqueViolation ''collectible_catalog_spec_id_slug_key'')
      else None)"

definition collectible_to_row ::
    "int \<Rightarrow> uuid \<Rightarrow> string \<Rightarrow> catalog_collectible \<Rightarrow> collectible_row" where
  "collectible_to_row spec_id user name_id c =
     \<lparr>cl_spec_id = spec_id, cl_user_id = user, cl_name_id = name_id, cl_slug = cc_slug c,
      cl_name = cc_name c, cl_pickup = cc_pickup c, cl_collect_on_unlock = cc_collect_on_unlock c,
      cl_has_zone = cc_has_zone c, cl_gated_by = cc_gated_by c, cl_unlock_score = cc_unlock_score c\<rparr>"

definition replace_collectibles_in_tx ::
    "int \<Rightarrow> uuid \<Rightarrow> string \<Rightarrow> catalog_collectible list \<Rightarrow>
     ('z wf_db_scheme, db_error, unit) db_action" where
  "replace_collectibles_in_tx spec_id user name_id items d =
     (case insert_rows collectible_check (map (collectible_to_row spec_id user name_id) items)
             (filter (\<lambda>r. cl_spec_id r \<noteq> spec_id) (collectible_catalog d)) of
        Inl e \<Rightarrow> (Inl e, d)
      | Inr t \<Rightarrow> (Inr (), d\<lparr>collectible_catalog := t\<rparr>))"

definition hat_check :: "hat_row \<Rightarrow> hat_row list \<Rightarrow> db_error option" where
  "hat_check r table =
     (if has_nul (ht_slug r) \<or> has_nul (ht_name r) \<or> json_has_nul (ht_record_uids r)
      then Some InvalidText
      else if \<exists>x\<in>set table. ht_spec_id x = ht_spec_id r \<and> ht_slug x = ht_slug r
      then Some (UniqueViolation ''hat_catalog_spec_id_slug_key'')
      else None)"

definition hat_to_row :: "int \<Rightarrow> uuid \<Rightarrow> string \<Rightarrow> catalog_hat \<Rightarrow> hat_row" where
  "hat_to_row spec_id user name_id h =
     \<lparr>ht_spec_id = spec_id, ht_user_id = user, ht_name_id = name_id, ht_slug = ch_slug h,
      ht_name = ch_name h, ht_finish_this_map = ch_finish_this_map h,
      ht_record_uids = JArr (map JStr (ch_record_uids h))\<rparr>"

definition replace_hats_in_tx ::
    "int \<Rightarrow> uuid \<Rightarrow> string \<Rightarrow> catalog_hat list \<Rightarrow> ('z wf_db_scheme, db_error, unit) db_action" where
  "replace_hats_in_tx spec_id user name_id items d =
     (case insert_rows hat_check (map (hat_to_row spec_id user name_id) items)
             (filter (\<lambda>r. ht_spec_id r \<noteq> spec_id) (hat_catalog d)) of
        Inl e \<Rightarrow> (Inl e, d)
      | Inr t \<Rightarrow> (Inr (), d\<lparr>hat_catalog := t\<rparr>))"

text \<open>\<open>delete_catalog\<close> of the three modules.\<close>

definition delete_games_catalog ::
    "uuid \<Rightarrow> string \<Rightarrow> ('z wf_db_scheme, db_error, unit) db_action" where
  "delete_games_catalog user name_id = execute (\<lambda>d. d\<lparr>minigame_catalog :=
     filter (\<lambda>r. \<not> (gr_user_id r = user \<and> gr_name_id r = name_id)) (minigame_catalog d)\<rparr>)"

definition delete_collectibles_catalog ::
    "uuid \<Rightarrow> string \<Rightarrow> ('z wf_db_scheme, db_error, unit) db_action" where
  "delete_collectibles_catalog user name_id = execute (\<lambda>d. d\<lparr>collectible_catalog :=
     filter (\<lambda>r. \<not> (cl_user_id r = user \<and> cl_name_id r = name_id)) (collectible_catalog d)\<rparr>)"

definition delete_hats_catalog ::
    "uuid \<Rightarrow> string \<Rightarrow> ('z wf_db_scheme, db_error, unit) db_action" where
  "delete_hats_catalog user name_id = execute (\<lambda>d. d\<lparr>hat_catalog :=
     filter (\<lambda>r. \<not> (ht_user_id r = user \<and> ht_name_id r = name_id)) (hat_catalog d)\<rparr>)"

section \<open>Specs\<close>

definition find_spec :: "int \<Rightarrow> 'z wf_db_scheme \<Rightarrow> aux_spec option" where
  "find_spec i d = List.find (\<lambda>s. sx_id s = i) (aux_specs d)"

definition find_spec_by_name :: "uuid \<Rightarrow> string \<Rightarrow> 'z wf_db_scheme \<Rightarrow> aux_spec option" where
  "find_spec_by_name user name_id d =
     List.find (\<lambda>s. sx_user_id s = user \<and> sx_name_id s = name_id) (aux_specs d)"

definition get_spec ::
    "uuid \<Rightarrow> string \<Rightarrow> ('z wf_db_scheme, db_error, aux_spec option) db_action" where
  "get_spec user name_id d =
     (let d1 = d\<lparr>aux_specs := upd_where (\<lambda>s. sx_user_id s = user \<and> sx_name_id s = name_id)
           (\<lambda>s. s\<lparr>sx_hit_counter := sx_hit_counter s + 1\<rparr>) (aux_specs d)\<rparr>
      in (Inr (find_spec_by_name user name_id d1), d1))"

text \<open>The insert-or-update of a spec row that \<open>upsert_spec\<close> and the catalog upsert share.\<close>

definition upsert_spec_row ::
    "nat \<Rightarrow> uuid \<Rightarrow> string \<Rightarrow> json \<Rightarrow> int \<Rightarrow> ('z wf_db_scheme, db_error, int) db_action" where
  "upsert_spec_row now user name_id spec threshold d =
     (case varchar_col 32 name_id of
        Inl e \<Rightarrow> (Inl e, d)
      | Inr name \<Rightarrow>
          if json_has_nul spec then (Inl InvalidText, d)
          else if \<not> (5 \<le> threshold \<and> threshold \<le> 100)
          then (Inl (CheckViolation ''custom_map_aux_specs_listing_threshold_check''), d)
          else
            let d1 = d\<lparr>specs_seq := specs_seq d + 1\<rparr>
            in (case find_spec_by_name user name d of
                  Some s \<Rightarrow>
                    (Inr (sx_id s), d1\<lparr>aux_specs := upd_where (\<lambda>x. sx_id x = sx_id s)
                       (\<lambda>x. x\<lparr>sx_spec := spec, sx_listing_threshold := threshold, sx_updated_at := now\<rparr>)
                       (aux_specs d)\<rparr>)
                | None \<Rightarrow>
                    if \<not> has_user user d
                    then (Inl (ForeignKeyViolation ''custom_map_aux_specs_user_id_fkey''), d1)
                    else (Inr (specs_seq d), d1\<lparr>aux_specs := aux_specs d @
                       [\<lparr>sx_id = specs_seq d, sx_user_id = user, sx_name_id = name, sx_spec = spec,
                         sx_hit_counter = 0, sx_created_at = now, sx_updated_at = now,
                         sx_listing_threshold = threshold\<rparr>]\<rparr>)))"

definition upsert_spec ::
    "nat \<Rightarrow> uuid \<Rightarrow> string \<Rightarrow> json \<Rightarrow> ('z wf_db_scheme, db_error, int) db_action" where
  "upsert_spec now user name_id spec =
     (let stored = strip_injected_spec_id spec
      in upsert_spec_row now user name_id stored (listing_threshold_from_spec stored))"

datatype upsert_error = UpsertValidation catalog_validation_error | UpsertDatabase db_error

text \<open>
  The rows of a catalog carry the spec's name as the column stores it; it is the text passed in
  unless blanks were cut off.
\<close>

definition name_col :: "string \<Rightarrow> string" where
  "name_col name_id = (case varchar_col 32 name_id of Inl _ \<Rightarrow> name_id | Inr n \<Rightarrow> n)"

definition upsert_spec_and_catalogs ::
    "nat \<Rightarrow> uuid \<Rightarrow> string \<Rightarrow> json \<Rightarrow> ('z wf_db_scheme, upsert_error, int) db_action" where
  "upsert_spec_and_catalogs now user name_id spec =
     (let stored = strip_injected_spec_id spec
      in case parse_catalog_games stored of
           Inl e \<Rightarrow> Err (UpsertValidation e)
         | Inr games \<Rightarrow>
             (case parse_catalog_collectibles stored of
                Inl e \<Rightarrow> Err (UpsertValidation e)
              | Inr collectibles \<Rightarrow>
                  (case parse_catalog_hats stored of
                     Inl e \<Rightarrow> Err (UpsertValidation e)
                   | Inr hats \<Rightarrow>
                       map_err UpsertDatabase (in_tx
                         (and_then (upsert_spec_row now user name_id stored
                                      (listing_threshold_from_spec stored)) (\<lambda>i.
                          and_then (replace_games_in_tx i user (name_col name_id) games) (\<lambda>_.
                          and_then (replace_collectibles_in_tx i user (name_col name_id) collectibles) (\<lambda>_.
                          and_then (replace_hats_in_tx i user (name_col name_id) hats) (\<lambda>_.
                            Ok i)))))))))"

definition bound_map_uid :: "wf_env \<Rightarrow> uuid \<Rightarrow> string \<Rightarrow> 'z wf_db_scheme \<Rightarrow> string option" where
  "bound_map_uid env user name_id d =
     (case sort_key (we_collate env)
             (map lb_map_uid (filter (\<lambda>b. \<exists>s\<in>set (aux_specs d). sx_id s = lb_spec_id b \<and>
                sx_user_id s = user \<and> sx_name_id s = name_id) (listing_binds d))) of
        [] \<Rightarrow> None | u # _ \<Rightarrow> Some u)"

text \<open>A bound spec cannot be deleted; deleting an unbound one deletes its catalogs with it.\<close>

definition delete_spec ::
    "uuid \<Rightarrow> string \<Rightarrow> ('z wf_db_scheme, db_error, unit) db_action" where
  "delete_spec user name_id d =
     (let gone = map sx_id (filter (\<lambda>s. sx_user_id s = user \<and> sx_name_id s = name_id) (aux_specs d))
      in if \<exists>b\<in>set (listing_binds d). lb_spec_id b \<in> set gone
         then (Inl (ForeignKeyViolation ''map_listing_bind_spec_id_fkey''), d)
         else (Inr (), d\<lparr>aux_specs := filter (\<lambda>s. sx_id s \<notin> set gone) (aux_specs d),
           minigame_catalog := filter (\<lambda>r. gr_spec_id r \<notin> set gone) (minigame_catalog d),
           collectible_catalog := filter (\<lambda>r. cl_spec_id r \<notin> set gone) (collectible_catalog d),
           hat_catalog := filter (\<lambda>r. ht_spec_id r \<notin> set gone) (hat_catalog d)\<rparr>))"

definition list_specs :: "uuid \<Rightarrow> 'z wf_db_scheme \<Rightarrow> aux_spec list" where
  "list_specs user d =
     sort_key (\<lambda>s. - int (sx_created_at s)) (filter (\<lambda>s. sx_user_id s = user) (aux_specs d))"

section \<open>Copying the catalogs of a spec onto a map\<close>

definition item_key :: "wf_env \<Rightarrow> string \<Rightarrow> string \<Rightarrow> string \<Rightarrow> string" where
  "item_key env map_uid tag slug = take 16 (we_md5 env (map_uid @ tag @ slug))"

definition game_onto_map :: "wf_env \<Rightarrow> string \<Rightarrow> game_row \<Rightarrow> game_on_map" where
  "game_onto_map env map_uid c =
     \<lparr>gm_map_uid = map_uid, gm_slug = gr_slug c, gm_key = item_key env map_uid '':'' (gr_slug c),
      gm_kind = gr_kind c, gm_name = gr_name c, gm_spec_user = gr_user_id c, gm_name_id = gr_name_id c\<rparr>"

definition bind_games_in_tx ::
    "wf_env \<Rightarrow> string \<Rightarrow> int \<Rightarrow> ('z wf_db_scheme, db_error, bool) db_action" where
  "bind_games_in_tx env map_uid spec_id d =
     (let rows = map (game_onto_map env map_uid) (filter (\<lambda>c. gr_spec_id c = spec_id) (minigame_catalog d))
      in (Inr (rows \<noteq> []), d\<lparr>minigame_on_map :=
            filter (\<lambda>r. gm_map_uid r \<noteq> map_uid) (minigame_on_map d) @ rows\<rparr>))"

definition collectible_onto_map :: "wf_env \<Rightarrow> string \<Rightarrow> collectible_row \<Rightarrow> collectible_on_map" where
  "collectible_onto_map env map_uid c =
     \<lparr>cm_map_uid = map_uid, cm_slug = cl_slug c, cm_key = item_key env map_uid '':c:'' (cl_slug c),
      cm_name = cl_name c, cm_pickup = cl_pickup c, cm_collect_on_unlock = cl_collect_on_unlock c,
      cm_has_zone = cl_has_zone c, cm_gated_by = cl_gated_by c, cm_unlock_score = cl_unlock_score c,
      cm_spec_user = cl_user_id c, cm_name_id = cl_name_id c\<rparr>"

definition bind_collectibles_in_tx ::
    "wf_env \<Rightarrow> string \<Rightarrow> int \<Rightarrow> ('z wf_db_scheme, db_error, bool) db_action" where
  "bind_collectibles_in_tx env map_uid spec_id d =
     (let rows = map (collectible_onto_map env map_uid)
            (filter (\<lambda>c. cl_spec_id c = spec_id) (collectible_catalog d))
      in (Inr (rows \<noteq> []), d\<lparr>collectibles_on_map :=
            filter (\<lambda>r. cm_map_uid r \<noteq> map_uid) (collectibles_on_map d) @ rows\<rparr>))"

definition hat_onto_map :: "wf_env \<Rightarrow> string \<Rightarrow> hat_row \<Rightarrow> hat_on_map" where
  "hat_onto_map env map_uid c =
     \<lparr>hm_map_uid = map_uid, hm_slug = ht_slug c, hm_key = item_key env map_uid '':h:'' (ht_slug c),
      hm_name = ht_name c, hm_finish_this_map = ht_finish_this_map c,
      hm_record_uids = ht_record_uids c, hm_spec_user = ht_user_id c, hm_name_id = ht_name_id c\<rparr>"

text \<open>The players whose equipment a deletion removed, as entries with an empty slug.\<close>

definition wearer_entries :: "wf_env \<Rightarrow> 'z wf_db_scheme \<Rightarrow> hat_equipped_row list \<Rightarrow> hat_on_map_player list" where
  "wearer_entries env d rows =
     concat (map (\<lambda>e. case find_user (hq_user_id e) d of
         None \<Rightarrow> []
       | Some u \<Rightarrow> [\<lparr>hom_wsid = we_show_uuid env (hq_user_id e), hom_name = ur_display_name u, hom_slug = []\<rparr>])
       rows)"

definition purge_map_equipment_in_tx ::
    "wf_env \<Rightarrow> string \<Rightarrow> ('z wf_db_scheme, db_error, hat_on_map_player list) db_action" where
  "purge_map_equipment_in_tx env map_uid d =
     (Inr (wearer_entries env d (filter (\<lambda>e. hq_map_uid e = map_uid) (hat_equipped d))),
      d\<lparr>hat_equipped := filter (\<lambda>e. hq_map_uid e \<noteq> map_uid) (hat_equipped d)\<rparr>)"

definition hat_still_there :: "hat_on_map list \<Rightarrow> hat_equipped_row \<Rightarrow> bool" where
  "hat_still_there hats e \<longleftrightarrow>
     (\<exists>h\<in>set hats. hm_map_uid h = hq_map_uid e \<and> hm_slug h = hq_slug e \<and> hm_key h = hq_key e)"

record hat_bind_result =
  hb_bound :: bool
  hb_removed_wearers :: "hat_on_map_player list"

definition bind_hats_in_tx ::
    "wf_env \<Rightarrow> string \<Rightarrow> int \<Rightarrow> ('z wf_db_scheme, db_error, hat_bind_result) db_action" where
  "bind_hats_in_tx env map_uid spec_id d =
     (let rows = map (hat_onto_map env map_uid) (filter (\<lambda>c. ht_spec_id c = spec_id) (hat_catalog d));
          hats = filter (\<lambda>r. hm_map_uid r \<noteq> map_uid) (hats_on_map d) @ rows;
          stale = (\<lambda>e. hq_map_uid e = map_uid \<and> \<not> hat_still_there hats e)
      in (Inr \<lparr>hb_bound = (rows \<noteq> []),
               hb_removed_wearers = wearer_entries env d (filter stale (hat_equipped d))\<rparr>,
          d\<lparr>hats_on_map := hats, hat_equipped := filter (\<lambda>e. \<not> stale e) (hat_equipped d)\<rparr>))"

end
