(* ===== verification/Binding.thy ===== *)
theory Binding
  imports Wayfinder_Db
begin

text \<open>
  Which spec a map is bound to: \<open>src/queries/listed_maps.rs\<close>.  A binding is made by the
  author of the map reporting it in game (\<open>commit_authoritative_bind\<close>, after a lookup of the
  author at Nadeo) or by the map's published comment (\<open>commit_comment_bind\<close>).  It is usable
  while its spec has not changed since the catalogs were copied onto the map.

  The author lookup is a parameter, \<open>verifier\<close>, as is the lookup of the published comment.
\<close>

section \<open>Reading the binding of a map\<close>

datatype bind_spec_error =
    ConflictingBinding
  | SpecNotFound
  | SpecNotOwned
  | AuthorMismatch
  | AuthorVerification string
  | Catalog catalog_validation_error
  | Database db_error

definition find_bind :: "string \<Rightarrow> 'z wf_db_scheme \<Rightarrow> listing_bind option" where
  "find_bind map_uid d = List.find (\<lambda>b. lb_map_uid b = map_uid) (listing_binds d)"

text \<open>A binding joined with its spec.\<close>

definition bind_join :: "string \<Rightarrow> 'z wf_db_scheme \<Rightarrow> (listing_bind \<times> aux_spec) option" where
  "bind_join map_uid d =
     (case find_bind map_uid d of
        None \<Rightarrow> None
      | Some b \<Rightarrow> map_option (\<lambda>s. (b, s)) (find_spec (lb_spec_id b) d))"

definition is_verified :: "listing_bind \<Rightarrow> aux_spec \<Rightarrow> bool" where
  "is_verified b s \<longleftrightarrow>
     lb_author_verified_at b \<noteq> None \<and> lb_verified_author_id b = Some (sx_user_id s)"

definition is_current :: "wf_env \<Rightarrow> listing_bind \<Rightarrow> aux_spec \<Rightarrow> bool" where
  "is_current env b s \<longleftrightarrow>
     lb_materialized_spec_updated_at b = Some (sx_updated_at s) \<and>
     lb_materialized_spec_hash b = Some (we_spec_hash env (sx_spec s))"

record spec_binding =
  sb_spec_id :: int
  sb_verified :: bool

definition get_spec_binding :: "string \<Rightarrow> 'z wf_db_scheme \<Rightarrow> spec_binding option" where
  "get_spec_binding map_uid d =
     map_option (\<lambda>(b, s). \<lparr>sb_spec_id = lb_spec_id b, sb_verified = is_verified b s\<rparr>)
       (bind_join map_uid d)"

definition bind_requires_author_verification ::
    "uuid \<Rightarrow> string \<Rightarrow> int \<Rightarrow> 'z wf_db_scheme \<Rightarrow> bool" where
  "bind_requires_author_verification reporter map_uid spec_id d =
     (let verified = (case bind_join map_uid d of
            None \<Rightarrow> False | Some (b, s) \<Rightarrow> lb_spec_id b = spec_id \<and> is_verified b s);
          owned = (\<exists>s\<in>set (aux_specs d). sx_id s = spec_id \<and> sx_user_id s = reporter)
      in \<not> verified \<and> owned)"

definition verified_binding_spec_id :: "wf_env \<Rightarrow> string \<Rightarrow> 'z wf_db_scheme \<Rightarrow> int option" where
  "verified_binding_spec_id env map_uid d =
     (case bind_join map_uid d of
        None \<Rightarrow> None
      | Some (b, s) \<Rightarrow> if is_verified b s \<and> is_current env b s then Some (lb_spec_id b) else None)"

definition resolve_bound_spec :: "wf_env \<Rightarrow> string \<Rightarrow> int \<Rightarrow> 'z wf_db_scheme \<Rightarrow> int option" where
  "resolve_bound_spec env map_uid client_spec_id d =
     (case bind_join map_uid d of
        None \<Rightarrow> None
      | Some (b, s) \<Rightarrow>
          if lb_spec_id b = client_spec_id \<and> is_verified b s \<and> is_current env b s
          then Some (lb_spec_id b) else None)"

definition lock_materialized_spec :: "wf_env \<Rightarrow> string \<Rightarrow> int \<Rightarrow> 'z wf_db_scheme \<Rightarrow> bool" where
  "lock_materialized_spec env map_uid spec_id d =
     (case find_spec spec_id d of
        None \<Rightarrow> False
      | Some source \<Rightarrow>
          (case List.find (\<lambda>b. lb_map_uid b = map_uid \<and> lb_spec_id b = spec_id \<and>
                  lb_author_verified_at b \<noteq> None) (listing_binds d) of
             None \<Rightarrow> False
           | Some b \<Rightarrow>
               lb_verified_author_id b = Some (sx_user_id source) \<and>
               lb_materialized_spec_updated_at b = Some (sx_updated_at source) \<and>
               lb_materialized_spec_hash b = Some (we_spec_hash env (sx_spec source))))"

text \<open>All these reads look at the specs and the bindings only.\<close>

lemma bind_reads_cong:
  assumes "aux_specs d' = aux_specs d" "listing_binds d' = listing_binds d"
  shows "bind_join m d' = bind_join m d"
    and "resolve_bound_spec env m i d' = resolve_bound_spec env m i d"
    and "verified_binding_spec_id env m d' = verified_binding_spec_id env m d"
    and "lock_materialized_spec env m i d' = lock_materialized_spec env m i d"
  unfolding resolve_bound_spec_def verified_binding_spec_id_def lock_materialized_spec_def bind_join_def
    find_bind_def find_spec_def assms by (rule refl)+

section \<open>Binding by the author\<close>

record authoritative_bind_result =
  ab_spec_id :: int
  ab_removed_hat_wearers :: "hat_on_map_player list"
  ab_materialized :: bool
  ab_replaced_previous :: bool

text \<open>Phase one: no writes; the result is the author Nadeo confirmed in this attempt.\<close>

definition prepare_authoritative_bind ::
    "(uuid \<Rightarrow> string \<Rightarrow> string + uuid) \<Rightarrow> uuid \<Rightarrow> string \<Rightarrow> int \<Rightarrow> 'z wf_db_scheme \<Rightarrow>
     bind_spec_error + uuid option" where
  "prepare_authoritative_bind verifier reporter map_uid spec_id d =
     (let existing = get_spec_binding map_uid d
      in if (case existing of None \<Rightarrow> False | Some b \<Rightarrow> sb_verified b \<and> sb_spec_id b \<noteq> spec_id)
         then Inl ConflictingBinding
         else
           (case find_spec spec_id d of
              None \<Rightarrow> Inl SpecNotFound
            | Some s \<Rightarrow>
                if (case existing of None \<Rightarrow> False | Some b \<Rightarrow> sb_verified b) then Inr None
                else if sx_user_id s \<noteq> reporter then Inl SpecNotOwned
                else
                  (case verifier reporter map_uid of
                     Inl e \<Rightarrow> Inl (AuthorVerification e)
                   | Inr author \<Rightarrow>
                       if author \<noteq> sx_user_id s then Inl AuthorMismatch else Inr (Some author))))"

text \<open>The catalogs of a spec written and copied onto the map, then the binding stamped.\<close>

definition stamp_binding ::
    "wf_env \<Rightarrow> string \<Rightarrow> int \<Rightarrow> aux_spec \<Rightarrow> ('z wf_db_scheme, db_error, unit) db_action" where
  "stamp_binding env map_uid spec_id s =
     execute (\<lambda>d. d\<lparr>listing_binds :=
       upd_where (\<lambda>b. lb_map_uid b = map_uid \<and> lb_spec_id b = spec_id)
         (\<lambda>b. b\<lparr>lb_materialized_spec_updated_at := Some (sx_updated_at s),
                lb_materialized_spec_hash := Some (we_spec_hash env (sx_spec s))\<rparr>)
         (listing_binds d)\<rparr>)"

definition materialize ::
    "wf_env \<Rightarrow> string \<Rightarrow> int \<Rightarrow> aux_spec \<Rightarrow> catalog_game list \<Rightarrow> catalog_collectible list \<Rightarrow>
     catalog_hat list \<Rightarrow> ('z wf_db_scheme, db_error, hat_bind_result) db_action" where
  "materialize env map_uid spec_id s games collectibles hats =
     and_then (replace_games_in_tx spec_id (sx_user_id s) (sx_name_id s) games) (\<lambda>_.
     and_then (replace_collectibles_in_tx spec_id (sx_user_id s) (sx_name_id s) collectibles) (\<lambda>_.
     and_then (replace_hats_in_tx spec_id (sx_user_id s) (sx_name_id s) hats) (\<lambda>_.
     and_then (bind_games_in_tx env map_uid spec_id) (\<lambda>_.
     and_then (bind_collectibles_in_tx env map_uid spec_id) (\<lambda>_.
     and_then (bind_hats_in_tx env map_uid spec_id) (\<lambda>hat_bind.
     and_then (stamp_binding env map_uid spec_id s) (\<lambda>_. Ok hat_bind)))))))"

text \<open>
  The first statement of the bind: a new row for a map without one, for a spec the reporter
  owns.
\<close>

definition insert_first_bind ::
    "nat \<Rightarrow> string \<Rightarrow> int \<Rightarrow> uuid \<Rightarrow> ('z wf_db_scheme, db_error, unit) db_action" where
  "insert_first_bind now map_uid spec_id reporter d =
     (case List.find (\<lambda>s. sx_id s = spec_id \<and> sx_user_id s = reporter) (aux_specs d) of
        None \<Rightarrow> (Inr (), d)
      | Some s \<Rightarrow>
          (case uid_col map_uid of
             Inl e \<Rightarrow> (Inl e, d)
           | Inr u \<Rightarrow>
               if find_bind u d \<noteq> None then (Inr (), d)
               else (Inr (), d\<lparr>listing_binds := listing_binds d @
                 [\<lparr>lb_map_uid = u, lb_spec_id = spec_id, lb_verified_author_id = Some (sx_user_id s),
                   lb_author_verified_at = Some now, lb_materialized_spec_updated_at = None,
                   lb_materialized_spec_hash = None\<rparr>]\<rparr>)))"

text \<open>The second: an unverified binding is taken over.\<close>

definition promote_unverified ::
    "nat \<Rightarrow> string \<Rightarrow> int \<Rightarrow> uuid \<Rightarrow> ('z wf_db_scheme, db_error, unit) db_action" where
  "promote_unverified now map_uid spec_id reporter =
     execute (\<lambda>d. d\<lparr>listing_binds :=
       upd_where (\<lambda>b. lb_map_uid b = map_uid \<and>
           (lb_author_verified_at b = None \<or>
            lb_verified_author_id b \<noteq> map_option sx_user_id (find_spec (lb_spec_id b) d)))
         (\<lambda>b. b\<lparr>lb_spec_id := spec_id, lb_verified_author_id := Some reporter,
                lb_author_verified_at := Some now, lb_materialized_spec_updated_at := None,
                lb_materialized_spec_hash := None\<rparr>)
         (listing_binds d)\<rparr>)"

definition parse_catalogs ::
    "json \<Rightarrow> catalog_validation_error + (catalog_game list \<times> catalog_collectible list \<times> catalog_hat list)" where
  "parse_catalogs spec =
     bind_res (parse_catalog_games spec) (\<lambda>games.
     bind_res (parse_catalog_collectibles spec) (\<lambda>collectibles.
     bind_res (parse_catalog_hats spec) (\<lambda>hats. Inr (games, collectibles, hats))))"

definition db :: "('d, db_error, 'a) db_action \<Rightarrow> ('d, bind_spec_error, 'a) db_action" where
  "db = map_err Database"

text \<open>The winner of the race is read back; a binding to another spec or an unverified one fails.\<close>

definition check_winner :: "string \<Rightarrow> int \<Rightarrow> ('z wf_db_scheme, bind_spec_error, int) db_action" where
  "check_winner map_uid spec_id =
     fetch (\<lambda>d. case bind_join map_uid d of
         None \<Rightarrow> Inl SpecNotFound
       | Some (b, s) \<Rightarrow>
           if lb_spec_id b \<noteq> spec_id then Inl ConflictingBinding
           else if \<not> is_verified b s then Inl (AuthorVerification ''binding was not durably verified'')
           else Inr (lb_spec_id b))"

definition write_authoritative_bind ::
    "wf_env \<Rightarrow> nat \<Rightarrow> uuid \<Rightarrow> string \<Rightarrow> int \<Rightarrow> aux_spec \<Rightarrow> bool \<Rightarrow>
     ('z wf_db_scheme, bind_spec_error, authoritative_bind_result) db_action" where
  "write_authoritative_bind env now reporter map_uid spec_id s recovering_legacy =
     (case parse_catalogs (sx_spec s) of
        Inl e \<Rightarrow> Err (Catalog e)
      | Inr (games, collectibles, hats) \<Rightarrow>
          and_then (db (insert_first_bind now map_uid spec_id reporter)) (\<lambda>_.
          and_then (db (promote_unverified now map_uid spec_id reporter)) (\<lambda>_.
          and_then (check_winner map_uid spec_id) (\<lambda>winner.
          and_then (if recovering_legacy then db (purge_map_equipment_in_tx env map_uid) else Ok []) (\<lambda>removed.
          and_then (db (materialize env map_uid spec_id s games collectibles hats)) (\<lambda>hat_bind.
            Ok \<lparr>ab_spec_id = winner, ab_removed_hat_wearers = removed @ hb_removed_wearers hat_bind,
                ab_materialized = True, ab_replaced_previous = recovering_legacy\<rparr>))))))"

definition commit_authoritative_bind ::
    "wf_env \<Rightarrow> nat \<Rightarrow> uuid option \<Rightarrow> uuid \<Rightarrow> string \<Rightarrow> int \<Rightarrow>
     ('z wf_db_scheme, bind_spec_error, authoritative_bind_result) db_action" where
  "commit_authoritative_bind env now prepared reporter map_uid spec_id =
     in_tx (\<lambda>d.
       (case find_spec spec_id d of
          None \<Rightarrow> Err SpecNotFound d
        | Some s \<Rightarrow>
            let locked = bind_join map_uid d;
                verified = (case locked of None \<Rightarrow> False | Some (b, t) \<Rightarrow> is_verified b t);
                recovering_legacy = (case locked of None \<Rightarrow> False | Some (b, t) \<Rightarrow> \<not> is_verified b t)
            in if \<not> verified \<and> sx_user_id s \<noteq> reporter then Err SpecNotOwned d
               else if \<not> verified \<and> prepared \<noteq> Some (sx_user_id s)
               then Err (AuthorVerification ''map author was not verified for this binding attempt'') d
               else
                 (case locked of
                    None \<Rightarrow> write_authoritative_bind env now reporter map_uid spec_id s recovering_legacy d
                  | Some (b, t) \<Rightarrow>
                      if is_verified b t \<and> lb_spec_id b \<noteq> spec_id then Err ConflictingBinding d
                      else if is_verified b t \<and> is_current env b s
                      then Ok \<lparr>ab_spec_id = lb_spec_id b, ab_removed_hat_wearers = [],
                               ab_materialized = False, ab_replaced_previous = False\<rparr> d
                      else write_authoritative_bind env now reporter map_uid spec_id s recovering_legacy d)))"

definition bind_authoritative_spec ::
    "wf_env \<Rightarrow> nat \<Rightarrow> (uuid \<Rightarrow> string \<Rightarrow> string + uuid) \<Rightarrow> uuid \<Rightarrow> string \<Rightarrow> int \<Rightarrow>
     ('z wf_db_scheme, bind_spec_error, authoritative_bind_result) db_action" where
  "bind_authoritative_spec env now verifier reporter map_uid spec_id =
     and_then (fetch (prepare_authoritative_bind verifier reporter map_uid spec_id)) (\<lambda>prepared.
       commit_authoritative_bind env now prepared reporter map_uid spec_id)"

section \<open>Binding by the published comment\<close>

text \<open>\<open>trim_start_matches\<close> and \<open>trim_end_matches\<close>: the pattern is removed as often as it occurs.\<close>

function trim_start_matches :: "string \<Rightarrow> string \<Rightarrow> string" where
  "trim_start_matches p s =
     (if p \<noteq> [] \<and> starts_with s p then trim_start_matches p (drop (length p) s) else s)"
  by pat_completeness auto
termination
proof (relation "measure (length \<circ> snd)")
  fix p s :: string
  assume "p \<noteq> [] \<and> starts_with s p"
  then show "((p, drop (length p) s), (p, s)) \<in> measure (length \<circ> snd)"
    by (cases s) (auto simp: starts_with_def)
qed simp

declare trim_start_matches.simps [simp del]

definition trim_end_matches :: "string \<Rightarrow> string \<Rightarrow> string" where
  "trim_end_matches p s = rev (trim_start_matches (rev p) (rev s))"

definition dpp_block :: "string \<Rightarrow> string option" where
  "dpp_block comment =
     (case find_sub comment ''--BEGIN-DPP--'' of
        None \<Rightarrow> None
      | Some start \<Rightarrow>
          (case find_sub (drop start comment) ''--END-DPP--'' of
             None \<Rightarrow> None
           | Some n \<Rightarrow> Some (take n (drop start comment))))"

definition dpp_segments :: "string \<Rightarrow> string list" where
  "dpp_segments line =
     (let url = trim (trim_start_matches ''url='' (trim_start line));
          path = (case find_sub url ''://'' of None \<Rightarrow> url | Some i \<Rightarrow> drop (i + 3) url)
      in filter (\<lambda>s. s \<noteq> []) (split_on (CHR ''/'') path))"

definition parse_dpp_comment_url :: "(string \<Rightarrow> uuid option) \<Rightarrow> string \<Rightarrow> (uuid \<times> string) option" where
  "parse_dpp_comment_url parse_uuid comment =
     (case dpp_block comment of
        None \<Rightarrow> None
      | Some block \<Rightarrow>
          (case List.find (\<lambda>l. starts_with (trim_start l) ''url='') (str_lines block) of
             None \<Rightarrow> None
           | Some line \<Rightarrow>
               (case rev (dpp_segments line) of
                  nm # wsid # seg # _ \<Rightarrow>
                    let name = trim_end_matches ''.json'' nm
                    in if seg \<noteq> ''aux_spec'' then None
                       else
                         (case parse_uuid wsid of
                            None \<Rightarrow> None
                          | Some w \<Rightarrow> if name = [] \<or> 32 < length name then None else Some (w, name))
                | _ \<Rightarrow> None)))"

definition upsert_comment_bind ::
    "nat \<Rightarrow> string \<Rightarrow> int \<Rightarrow> uuid \<Rightarrow> ('z wf_db_scheme, db_error, unit) db_action" where
  "upsert_comment_bind now map_uid spec_id owner d =
     (case uid_col map_uid of
        Inl e \<Rightarrow> (Inl e, d)
      | Inr u \<Rightarrow>
          let row = \<lparr>lb_map_uid = u, lb_spec_id = spec_id, lb_verified_author_id = Some owner,
                     lb_author_verified_at = Some now, lb_materialized_spec_updated_at = None,
                     lb_materialized_spec_hash = None\<rparr>
          in (Inr (), d\<lparr>listing_binds :=
                (if find_bind u d \<noteq> None
                 then upd_where (\<lambda>b. lb_map_uid b = u) (\<lambda>_. row) (listing_binds d)
                 else listing_binds d @ [row])\<rparr>))"

definition write_comment_bind ::
    "wf_env \<Rightarrow> nat \<Rightarrow> string \<Rightarrow> int \<Rightarrow> aux_spec \<Rightarrow> bool \<Rightarrow>
     ('z wf_db_scheme, bind_spec_error, authoritative_bind_result) db_action" where
  "write_comment_bind env now map_uid spec_id s replaced_previous =
     (case parse_catalogs (sx_spec s) of
        Inl e \<Rightarrow> Err (Catalog e)
      | Inr (games, collectibles, hats) \<Rightarrow>
          and_then (db (upsert_comment_bind now map_uid spec_id (sx_user_id s))) (\<lambda>_.
          and_then (if replaced_previous then db (purge_map_equipment_in_tx env map_uid) else Ok []) (\<lambda>removed.
          and_then (db (materialize env map_uid spec_id s games collectibles hats)) (\<lambda>_.
            Ok \<lparr>ab_spec_id = spec_id, ab_removed_hat_wearers = removed,
                ab_materialized = True, ab_replaced_previous = replaced_previous\<rparr>))))"

definition commit_comment_bind ::
    "wf_env \<Rightarrow> nat \<Rightarrow> string \<Rightarrow> int \<Rightarrow>
     ('z wf_db_scheme, bind_spec_error, authoritative_bind_result) db_action" where
  "commit_comment_bind env now map_uid spec_id =
     in_tx (\<lambda>d.
       (case find_spec spec_id d of
          None \<Rightarrow> Err SpecNotFound d
        | Some s \<Rightarrow>
            let locked = bind_join map_uid d;
                replaced_previous = (case locked of None \<Rightarrow> False | Some (b, t) \<Rightarrow> lb_spec_id b \<noteq> spec_id)
            in if (case locked of None \<Rightarrow> False
                   | Some (b, t) \<Rightarrow> \<not> replaced_previous \<and> is_verified b t \<and> is_current env b s)
               then Ok \<lparr>ab_spec_id = spec_id, ab_removed_hat_wearers = [],
                        ab_materialized = False, ab_replaced_previous = False\<rparr> d
               else write_comment_bind env now map_uid spec_id s replaced_previous d))"

definition bind_from_resolved_comment ::
    "wf_env \<Rightarrow> nat \<Rightarrow> string \<Rightarrow> uuid \<Rightarrow> string \<Rightarrow>
     ('z wf_db_scheme, bind_spec_error, authoritative_bind_result) db_action" where
  "bind_from_resolved_comment env now map_uid wsid name_id =
     and_then (fetch (\<lambda>d. ok_or SpecNotFound (find_spec_by_name wsid name_id d))) (\<lambda>s.
       commit_comment_bind env now map_uid (sx_id s))"

datatype published_comment = CommentNotOnNadeo | Comment "string option"

datatype comment_bind_outcome =
    Bound int bool bool
  | NotOnNadeo
  | NoComment
  | NoDppUrl
  | CommentSpecNotFound
  | OffNadeo string

text \<open>\<open>fmt\<close> is the message of a bind error.\<close>

definition try_comment_bind ::
    "wf_env \<Rightarrow> nat \<Rightarrow> (bind_spec_error \<Rightarrow> string) \<Rightarrow> (string \<Rightarrow> uuid option) \<Rightarrow>
     string + published_comment \<Rightarrow> string \<Rightarrow> 'z wf_db_scheme \<Rightarrow>
     (comment_bind_outcome \<times> hat_on_map_player list) \<times> 'z wf_db_scheme" where
  "try_comment_bind env now fmt parse_uuid fetched map_uid d =
     (case fetched of
        Inl e \<Rightarrow> ((OffNadeo e, []), d)
      | Inr CommentNotOnNadeo \<Rightarrow> ((NotOnNadeo, []), d)
      | Inr (Comment None) \<Rightarrow> ((NoComment, []), d)
      | Inr (Comment (Some comment)) \<Rightarrow>
          (case parse_dpp_comment_url parse_uuid comment of
             None \<Rightarrow> ((NoDppUrl, []), d)
           | Some (wsid, name_id) \<Rightarrow>
               (case bind_from_resolved_comment env now map_uid wsid name_id d of
                  (Inr r, d1) \<Rightarrow>
                    ((Bound (ab_spec_id r) (ab_materialized r) (ab_replaced_previous r),
                      ab_removed_hat_wearers r), d1)
                | (Inl SpecNotFound, d1) \<Rightarrow> ((CommentSpecNotFound, []), d1)
                | (Inl e, d1) \<Rightarrow> ((OffNadeo (fmt e), []), d1))))"

section \<open>Listed maps\<close>

definition LISTED_MAPS_PAGE_SIZE :: int where "LISTED_MAPS_PAGE_SIZE = 100"

text \<open>The quotient is an \<open>f64\<close>; for every count a database can hold it rounds up as the exact one.\<close>

definition listed_maps_page_count :: "int \<Rightarrow> int" where
  "listed_maps_page_count len = \<lceil>(of_int len :: rat) / of_int LISTED_MAPS_PAGE_SIZE\<rceil>"

end
