(* ===== verification/Materialization.thy ===== *)
theory Materialization
  imports Binding
begin

text \<open>
  What binding a map to a spec achieves.  The invariant \<open>mat_inv\<close>: while a binding is current,
  the on-map tables of its map hold exactly what the parsers make of the spec as it is stored
  now.  Every operation on specs and bindings keeps it, because saving a spec moves its time
  stamp on and thereby invalidates the bindings to it.
\<close>

section \<open>Catalog replacement\<close>

lemma insert_rows_Inr: "insert_rows check rs t = Inr t' \<Longrightarrow> t' = t @ rs"
  by (induction rs arbitrary: t) (simp, fastforce split: option.splits)

text \<open>
  A catalog table against its parser: no two entries of one parsed catalog have the same key,
  so replacing a catalog by a parsed one never violates the table's uniqueness.
\<close>

locale catalog_table = catalog_parser parse slug
  for parse :: "json \<Rightarrow> catalog_validation_error + 'g list" and slug :: "'g \<Rightarrow> string" +
  fixes row :: "'c \<Rightarrow> 'g \<Rightarrow> 'r" and check :: "'r \<Rightarrow> 'r list \<Rightarrow> db_error option"
    and key :: "'r \<Rightarrow> 'k" and mine :: "'c \<Rightarrow> 'k set"
  assumes unique: "check r table = Some (UniqueViolation n) \<Longrightarrow> \<exists>x\<in>set table. key x = key r"
    and key_mine: "key (row c g) \<in> mine c"
    and key_slug: "key (row c g) = key (row c h) \<Longrightarrow> slug g = slug h"
begin

lemma insert_no_clash:
  "distinct (map slug gs) \<Longrightarrow> (\<forall>x\<in>set table. \<forall>g\<in>set gs. key x \<noteq> key (row c g)) \<Longrightarrow>
   insert_rows check (map (row c) gs) table \<noteq> Inl (UniqueViolation n)"
proof (induction gs arbitrary: table)
  case (Cons g gs)
  have "check (row c g) table \<noteq> Some (UniqueViolation n)"
    using unique [of "row c g" table n] Cons.prems(2) by auto
  moreover have "\<forall>x\<in>set (table @ [row c g]). \<forall>h\<in>set gs. key x \<noteq> key (row c h)"
  proof (intro ballI)
    fix x h assume x: "x \<in> set (table @ [row c g])" and h: "h \<in> set gs"
    then have "slug g \<noteq> slug h" using Cons.prems(1) by force
    with x h Cons.prems(2) key_slug [of c g h] show "key x \<noteq> key (row c h)" by auto
  qed
  then have "insert_rows check (map (row c) gs) (table @ [row c g]) \<noteq> Inl (UniqueViolation n)"
    using Cons.prems(1) by (intro Cons.IH) simp_all
  ultimately show ?case by (auto split: option.splits)
qed simp

lemma replace_no_clash:
  "parse spec = Inr gs \<Longrightarrow> \<forall>x\<in>set table. key x \<notin> mine c \<Longrightarrow>
   insert_rows check (map (row c) gs) table \<noteq> Inl (UniqueViolation n)"
  using key_mine by (intro insert_no_clash distinct_slugs) auto

end

interpretation games_table: catalog_table parse_catalog_games cg_slug
    "\<lambda>(i, u, n). game_to_row i u n" game_check
    "\<lambda>r. (gr_user_id r, gr_name_id r, gr_slug r)" "\<lambda>(i, u, n). {k. fst k = u \<and> fst (snd k) = n}"
  by unfold_locales (auto simp: game_check_def game_to_row_def split: if_splits)

interpretation collectibles_table: catalog_table parse_catalog_collectibles cc_slug
    "\<lambda>(i, u, n). collectible_to_row i u n" collectible_check
    "\<lambda>r. (cl_spec_id r, cl_slug r)" "\<lambda>(i, u, n). {k. fst k = i}"
  by unfold_locales (auto simp: collectible_check_def collectible_to_row_def split: if_splits)

interpretation hats_table: catalog_table parse_catalog_hats ch_slug
    "\<lambda>(i, u, n). hat_to_row i u n" hat_check
    "\<lambda>r. (ht_spec_id r, ht_slug r)" "\<lambda>(i, u, n). {k. fst k = i}"
  by unfold_locales (auto simp: hat_check_def hat_to_row_def split: if_splits)

section \<open>The on-map tables of a bound map\<close>

type_synonym map_tables = "game_on_map list \<times> collectible_on_map list \<times> hat_on_map list"

definition stored_on_map :: "string \<Rightarrow> 'z wf_db_scheme \<Rightarrow> map_tables" where
  "stored_on_map m d =
     (filter (\<lambda>r. gm_map_uid r = m) (minigame_on_map d),
      filter (\<lambda>r. cm_map_uid r = m) (collectibles_on_map d),
      filter (\<lambda>r. hm_map_uid r = m) (hats_on_map d))"

text \<open>What the tables of a map are to hold for a spec with these parsed catalogs.\<close>

definition on_map ::
    "wf_env \<Rightarrow> string \<Rightarrow> aux_spec \<Rightarrow>
     catalog_game list \<times> catalog_collectible list \<times> catalog_hat list \<Rightarrow> map_tables" where
  "on_map env m s = (\<lambda>(gs, cs, hs).
     (map (\<lambda>g. game_onto_map env m (game_to_row (sx_id s) (sx_user_id s) (sx_name_id s) g)) gs,
      map (\<lambda>c. collectible_onto_map env m
        (collectible_to_row (sx_id s) (sx_user_id s) (sx_name_id s) c)) cs,
      map (\<lambda>h. hat_onto_map env m (hat_to_row (sx_id s) (sx_user_id s) (sx_name_id s) h)) hs))"

definition map_holds :: "wf_env \<Rightarrow> string \<Rightarrow> aux_spec \<Rightarrow> 'z wf_db_scheme \<Rightarrow> bool" where
  "map_holds env m s d \<longleftrightarrow> (\<exists>cats. parse_catalogs (sx_spec s) = Inr cats \<and>
     stored_on_map m d = on_map env m s cats)"

definition mat_inv :: "wf_env \<Rightarrow> 'z wf_db_scheme \<Rightarrow> bool" where
  "mat_inv env d \<longleftrightarrow> (\<forall>b\<in>set (listing_binds d). \<forall>s\<in>set (aux_specs d).
     lb_spec_id b = sx_id s \<longrightarrow> is_current env b s \<longrightarrow> map_holds env (lb_map_uid b) s d)"

text \<open>The keys of the two tables.\<close>

definition specs_ok :: "'z wf_db_scheme \<Rightarrow> bool" where
  "specs_ok d \<longleftrightarrow>
     distinct (map sx_id (aux_specs d)) \<and>
     distinct (map (\<lambda>s. (sx_user_id s, sx_name_id s)) (aux_specs d)) \<and>
     (\<forall>s\<in>set (aux_specs d). sx_id s < specs_seq d) \<and>
     distinct (map lb_map_uid (listing_binds d)) \<and>
     (\<forall>b\<in>set (listing_binds d). lb_spec_id b \<in> sx_id ` set (aux_specs d))"

lemma find_spec_iff:
  "distinct (map sx_id (aux_specs d)) \<Longrightarrow>
   find_spec i d = Some s \<longleftrightarrow> s \<in> set (aux_specs d) \<and> sx_id s = i"
  unfolding find_spec_def
  by (auto simp: find_Some_iff in_set_conv_nth distinct_map inj_on_def)
     (metis nat_neq_iff nth_eq_iff_index_eq nth_mem order_less_trans)+

lemma find_spec_in: "find_spec i d = Some s \<Longrightarrow> s \<in> set (aux_specs d) \<and> sx_id s = i"
  unfolding find_spec_def by (drule find_Some_in) simp

lemma find_bind_in: "find_bind m d = Some b \<Longrightarrow> b \<in> set (listing_binds d) \<and> lb_map_uid b = m"
  unfolding find_bind_def by (drule find_Some_in) simp

lemma bind_join_in:
  "bind_join m d = Some (b, s) \<Longrightarrow>
   b \<in> set (listing_binds d) \<and> lb_map_uid b = m \<and> s \<in> set (aux_specs d) \<and> lb_spec_id b = sx_id s"
  by (auto simp: bind_join_def split: option.splits dest: find_bind_in find_spec_in)

section \<open>Materializing a spec\<close>

lemma stored_on_map_eq:
  "minigame_on_map d' = minigame_on_map d \<Longrightarrow> collectibles_on_map d' = collectibles_on_map d \<Longrightarrow>
   hats_on_map d' = hats_on_map d \<Longrightarrow> stored_on_map m d' = stored_on_map m d"
  by (simp add: stored_on_map_def)

lemma filter_map_tagged:
  "(\<And>x. P (f x)) \<Longrightarrow> filter P (map f xs) = map f xs"
  "(\<And>x. \<not> P (f x)) \<Longrightarrow> filter P (map f xs) = []"
  by (induction xs) simp_all

lemma filter_rows_new:
  "(\<And>x. P (f x)) \<Longrightarrow> filter P (filter (\<lambda>r. \<not> P r) t @ map f xs) = map f xs"
  by (simp add: filter_map_tagged filter_False)

lemma replace_games_Inr:
  "replace_games_in_tx i u n gs d = (Inr x, d') \<longleftrightarrow>
     (\<exists>t. insert_rows game_check (map (game_to_row i u n) gs)
            (filter (\<lambda>r. gr_spec_id r \<noteq> i) (minigame_catalog d)) = Inr t \<and>
          d' = d\<lparr>minigame_catalog := t\<rparr>)"
  by (auto simp: replace_games_in_tx_def split: sum.splits)

lemma replace_collectibles_Inr:
  "replace_collectibles_in_tx i u n cs d = (Inr x, d') \<longleftrightarrow>
     (\<exists>t. insert_rows collectible_check (map (collectible_to_row i u n) cs)
            (filter (\<lambda>r. cl_spec_id r \<noteq> i) (collectible_catalog d)) = Inr t \<and>
          d' = d\<lparr>collectible_catalog := t\<rparr>)"
  by (auto simp: replace_collectibles_in_tx_def split: sum.splits)

lemma replace_hats_Inr:
  "replace_hats_in_tx i u n hs d = (Inr x, d') \<longleftrightarrow>
     (\<exists>t. insert_rows hat_check (map (hat_to_row i u n) hs)
            (filter (\<lambda>r. ht_spec_id r \<noteq> i) (hat_catalog d)) = Inr t \<and>
          d' = d\<lparr>hat_catalog := t\<rparr>)"
  by (auto simp: replace_hats_in_tx_def split: sum.splits)

lemmas replace_Inr = replace_games_Inr replace_collectibles_Inr replace_hats_Inr

lemma filter_other_key:
  "m' \<noteq> m \<Longrightarrow> filter (\<lambda>r. k r = m') (filter (\<lambda>r. k r \<noteq> m) t) = filter (\<lambda>r. k r = m') t"
  by (induction t) auto

lemma catalog_rows_new:
  "filter (\<lambda>c. gr_spec_id c = i) (filter (\<lambda>r. gr_spec_id r \<noteq> i) t @ map (game_to_row i u n) gs) =
     map (game_to_row i u n) gs"
  "filter (\<lambda>c. cl_spec_id c = i) (filter (\<lambda>r. cl_spec_id r \<noteq> i) t2 @ map (collectible_to_row i u n) cs) =
     map (collectible_to_row i u n) cs"
  "filter (\<lambda>c. ht_spec_id c = i) (filter (\<lambda>r. ht_spec_id r \<noteq> i) t3 @ map (hat_to_row i u n) hs) =
     map (hat_to_row i u n) hs"
  by (simp_all add: filter_rows_new game_to_row_def collectible_to_row_def hat_to_row_def)

lemma onto_map_uid [simp]:
  "gm_map_uid (game_onto_map env m r) = m" "cm_map_uid (collectible_onto_map env m r2) = m"
  "hm_map_uid (hat_onto_map env m r3) = m"
  by (simp_all add: game_onto_map_def collectible_onto_map_def hat_onto_map_def)

lemma bind_in_tx_Inr:
  "bind_games_in_tx env m i d = (Inr x1, d') \<Longrightarrow>
   d' = d\<lparr>minigame_on_map := filter (\<lambda>r. gm_map_uid r \<noteq> m) (minigame_on_map d) @
     map (game_onto_map env m) (filter (\<lambda>c. gr_spec_id c = i) (minigame_catalog d))\<rparr>"
  "bind_collectibles_in_tx env m i d = (Inr x2, d') \<Longrightarrow>
   d' = d\<lparr>collectibles_on_map := filter (\<lambda>r. cm_map_uid r \<noteq> m) (collectibles_on_map d) @
     map (collectible_onto_map env m) (filter (\<lambda>c. cl_spec_id c = i) (collectible_catalog d))\<rparr>"
  "bind_hats_in_tx env m i d = (Inr x3, d') \<Longrightarrow> \<exists>q.
   d' = d\<lparr>hats_on_map := filter (\<lambda>r. hm_map_uid r \<noteq> m) (hats_on_map d) @
     map (hat_onto_map env m) (filter (\<lambda>c. ht_spec_id c = i) (hat_catalog d)), hat_equipped := q\<rparr>"
  by (auto simp: bind_games_in_tx_def bind_collectibles_in_tx_def bind_hats_in_tx_def Let_def)

text \<open>The state after a materialization, field by field.\<close>

lemma materialize_state:
  assumes "materialize env m i s gs cs hs d = (Inr x, d')"
  shows "\<exists>q. d' = d
    \<lparr>minigame_catalog := filter (\<lambda>r. gr_spec_id r \<noteq> i) (minigame_catalog d) @
       map (game_to_row i (sx_user_id s) (sx_name_id s)) gs,
     collectible_catalog := filter (\<lambda>r. cl_spec_id r \<noteq> i) (collectible_catalog d) @
       map (collectible_to_row i (sx_user_id s) (sx_name_id s)) cs,
     hat_catalog := filter (\<lambda>r. ht_spec_id r \<noteq> i) (hat_catalog d) @
       map (hat_to_row i (sx_user_id s) (sx_name_id s)) hs,
     minigame_on_map := filter (\<lambda>r. gm_map_uid r \<noteq> m) (minigame_on_map d) @
       map (game_onto_map env m) (map (game_to_row i (sx_user_id s) (sx_name_id s)) gs),
     collectibles_on_map := filter (\<lambda>r. cm_map_uid r \<noteq> m) (collectibles_on_map d) @
       map (collectible_onto_map env m) (map (collectible_to_row i (sx_user_id s) (sx_name_id s)) cs),
     hats_on_map := filter (\<lambda>r. hm_map_uid r \<noteq> m) (hats_on_map d) @
       map (hat_onto_map env m) (map (hat_to_row i (sx_user_id s) (sx_name_id s)) hs),
     hat_equipped := q,
     listing_binds := upd_where (\<lambda>b. lb_map_uid b = m \<and> lb_spec_id b = i)
       (\<lambda>b. b\<lparr>lb_materialized_spec_updated_at := Some (sx_updated_at s),
              lb_materialized_spec_hash := Some (we_spec_hash env (sx_spec s))\<rparr>)
       (listing_binds d)\<rparr>"
proof -
  let ?u = "sx_user_id s" and ?n = "sx_name_id s"
  obtain d1 d2 d3 d4 d5 d6 x1 x2 x3 x4 x5 x6 x7 where steps:
    "replace_games_in_tx i ?u ?n gs d = (Inr x1, d1)"
    "replace_collectibles_in_tx i ?u ?n cs d1 = (Inr x2, d2)"
    "replace_hats_in_tx i ?u ?n hs d2 = (Inr x3, d3)"
    "bind_games_in_tx env m i d3 = (Inr x4, d4)"
    "bind_collectibles_in_tx env m i d4 = (Inr x5, d5)"
    "bind_hats_in_tx env m i d5 = (Inr x6, d6)"
    "stamp_binding env m i s d6 = (Inr x7, d')"
    using assms unfolding materialize_def and_then_Inr by auto
  have d1: "d1 = d\<lparr>minigame_catalog := filter (\<lambda>r. gr_spec_id r \<noteq> i) (minigame_catalog d) @
       map (game_to_row i ?u ?n) gs\<rparr>"
    using steps(1) by (auto simp: replace_Inr dest!: insert_rows_Inr)
  have d2: "d2 = d1\<lparr>collectible_catalog := filter (\<lambda>r. cl_spec_id r \<noteq> i) (collectible_catalog d1) @
       map (collectible_to_row i ?u ?n) cs\<rparr>"
    using steps(2) by (auto simp: replace_Inr dest!: insert_rows_Inr)
  have d3: "d3 = d2\<lparr>hat_catalog := filter (\<lambda>r. ht_spec_id r \<noteq> i) (hat_catalog d2) @
       map (hat_to_row i ?u ?n) hs\<rparr>"
    using steps(3) by (auto simp: replace_Inr dest!: insert_rows_Inr)
  note d4 = bind_in_tx_Inr(1) [OF steps(4)] and d5 = bind_in_tx_Inr(2) [OF steps(5)]
  obtain q where d6: "d6 = d5\<lparr>hats_on_map := filter (\<lambda>r. hm_map_uid r \<noteq> m) (hats_on_map d5) @
     map (hat_onto_map env m) (filter (\<lambda>c. ht_spec_id c = i) (hat_catalog d5)), hat_equipped := q\<rparr>"
    using bind_in_tx_Inr(3) [OF steps(6)] by blast
  from steps(7) show ?thesis
    unfolding stamp_binding_def
    by (intro exI [of _ q]) (simp add: d6 d5 d4 d3 d2 d1 catalog_rows_new del: filter_append)
qed

lemma materialize_Inr:
  assumes "materialize env m (sx_id s) s gs cs hs d = (Inr x, d')"
  shows "stored_on_map m d' = on_map env m s (gs, cs, hs)"
    and "m' \<noteq> m \<Longrightarrow> stored_on_map m' d' = stored_on_map m' d"
    and "aux_specs d' = aux_specs d" and "specs_seq d' = specs_seq d"
    and "listing_binds d' = upd_where (\<lambda>b. lb_map_uid b = m \<and> lb_spec_id b = sx_id s)
         (\<lambda>b. b\<lparr>lb_materialized_spec_updated_at := Some (sx_updated_at s),
                lb_materialized_spec_hash := Some (we_spec_hash env (sx_spec s))\<rparr>)
         (listing_binds d)"
proof -
  note * = materialize_state [OF assms]
  show "stored_on_map m d' = on_map env m s (gs, cs, hs)"
    using * by (auto simp: stored_on_map_def on_map_def filter_map_tagged)
  show "m' \<noteq> m \<Longrightarrow> stored_on_map m' d' = stored_on_map m' d"
    using * by (auto simp: stored_on_map_def filter_map_tagged filter_other_key simp del: filter_filter)
qed (use materialize_state [OF assms] in auto)

section \<open>Rebinding a map\<close>

text \<open>
  Both ways of binding a map leave the specs alone, touch only the binding of that map, and end
  with its tables holding the spec as it is stored.
\<close>

definition bindings_ok :: "wf_env \<Rightarrow> 'z wf_db_scheme \<Rightarrow> bool" where
  "bindings_ok env d \<longleftrightarrow> specs_ok d \<and> mat_inv env d"

lemma map_holds_eq:
  "stored_on_map m d' = stored_on_map m d \<Longrightarrow> map_holds env m s d' = map_holds env m s d"
  by (simp add: map_holds_def)

definition rebound :: "string \<Rightarrow> aux_spec \<Rightarrow> 'z wf_db_scheme \<Rightarrow> 'z wf_db_scheme \<Rightarrow> bool" where
  "rebound m s d d' \<longleftrightarrow>
     aux_specs d' = aux_specs d \<and> specs_seq d' = specs_seq d \<and>
     distinct (map lb_map_uid (listing_binds d')) \<and>
     (\<forall>b\<in>set (listing_binds d'). if lb_map_uid b = m
        then lb_spec_id b = sx_id s \<and> lb_materialized_spec_updated_at b \<in> {None, Some (sx_updated_at s)}
        else b \<in> set (listing_binds d)) \<and>
     (\<forall>m'. m' \<noteq> m \<longrightarrow> stored_on_map m' d' = stored_on_map m' d)"

lemma rebound_keeps:
  assumes ok: "bindings_ok env d" and s: "s \<in> set (aux_specs d)"
    and re: "rebound m s d d'" and holds: "map_holds env m s d'"
  shows "bindings_ok env d'"
proof -
  have old: "b \<in> set (listing_binds d)" if "b \<in> set (listing_binds d')" "lb_map_uid b \<noteq> m" for b
    using re that unfolding rebound_def by metis
  have new: "lb_spec_id b = sx_id s \<and> lb_materialized_spec_updated_at b \<in> {None, Some (sx_updated_at s)}"
    if "b \<in> set (listing_binds d')" "lb_map_uid b = m" for b
    using re that unfolding rebound_def by metis
  have specs: "aux_specs d' = aux_specs d" "specs_seq d' = specs_seq d"
    and keys: "distinct (map lb_map_uid (listing_binds d'))"
    and others: "\<And>m'. m' \<noteq> m \<Longrightarrow> stored_on_map m' d' = stored_on_map m' d"
    using re by (auto simp: rebound_def)
  have ok1: "specs_ok d" and inv: "mat_inv env d" using ok by (auto simp: bindings_ok_def)
  have "lb_spec_id b \<in> sx_id ` set (aux_specs d)" if "b \<in> set (listing_binds d')" for b
    using ok1 s old [OF that] new [OF that] by (cases "lb_map_uid b = m") (auto simp: specs_ok_def)
  then have "specs_ok d'"
    using ok1 specs keys by (auto simp: specs_ok_def)
  moreover have "map_holds env (lb_map_uid b) t d'"
    if b: "b \<in> set (listing_binds d')" and t: "t \<in> set (aux_specs d')"
      and eq: "lb_spec_id b = sx_id t" and cur: "is_current env b t" for b t
  proof (cases "lb_map_uid b = m")
    case True
    have "t = s" using new [OF b True] eq t s ok1 specs by (auto simp: specs_ok_def distinct_map inj_on_def)
    then show ?thesis using holds True by simp
  next
    case False
    then have "map_holds env (lb_map_uid b) t d"
      using inv old [OF b False] t eq cur specs by (auto simp: mat_inv_def)
    then show ?thesis using others [OF False] map_holds_eq by blast
  qed
  ultimately show ?thesis by (auto simp: bindings_ok_def mat_inv_def)
qed

lemma materialize_rebound:
  assumes m: "materialize env m (sx_id s) s gs cs hs d1 = (Inr x, d')"
    and d1: "aux_specs d1 = aux_specs d" "specs_seq d1 = specs_seq d"
      "\<And>m'. stored_on_map m' d1 = stored_on_map m' d"
    and keys: "distinct (map lb_map_uid (listing_binds d1))"
    and mine: "\<And>b. b \<in> set (listing_binds d1) \<Longrightarrow> lb_map_uid b = m \<Longrightarrow> lb_spec_id b = sx_id s"
    and others: "\<And>b. b \<in> set (listing_binds d1) \<Longrightarrow> lb_map_uid b \<noteq> m \<Longrightarrow> b \<in> set (listing_binds d)"
    and cats: "parse_catalogs (sx_spec s) = Inr (gs, cs, hs)"
  shows "rebound m s d d'" and "map_holds env m s d'"
proof -
  note eff = materialize_Inr [OF m]
  show "map_holds env m s d'" using eff(1) cats by (auto simp: map_holds_def)
  have "distinct (map lb_map_uid (listing_binds d'))"
    unfolding eff(5) by (rule distinct_map_upd_where) (simp_all add: keys)
  then show "rebound m s d d'"
    using eff(2) d1 mine others by (auto simp: rebound_def eff(3-5) set_upd_where)
qed

lemma uid_col_Inr: "uid_col u = Inr v \<Longrightarrow> v = u"
  by (auto simp: uid_col_def split: if_splits)

text \<open>Steps that change nothing but the bindings of one map.\<close>

definition binds_only :: "string \<Rightarrow> 'z wf_db_scheme \<Rightarrow> 'z wf_db_scheme \<Rightarrow> bool" where
  "binds_only m d d1 \<longleftrightarrow> (\<exists>bs. d1 = d\<lparr>listing_binds := bs\<rparr> \<and>
     (distinct (map lb_map_uid (listing_binds d)) \<longrightarrow> distinct (map lb_map_uid bs)) \<and>
     (\<forall>b\<in>set bs. lb_map_uid b \<noteq> m \<longrightarrow> b \<in> set (listing_binds d)))"

lemma binds_only_refl: "binds_only m d d"
  unfolding binds_only_def by (rule exI [of _ "listing_binds d"]) simp

lemma binds_only_upd:
  "(\<And>b. P b \<Longrightarrow> lb_map_uid b = m \<and> lb_map_uid (f b) = m) \<Longrightarrow>
   binds_only m d (d\<lparr>listing_binds := upd_where P f (listing_binds d)\<rparr>)"
  unfolding binds_only_def
  by (intro exI [of _ "upd_where P f (listing_binds d)"])
     (auto simp: set_upd_where intro!: distinct_map_upd_where)

lemma binds_only_snoc:
  "find_bind m d = None \<Longrightarrow> lb_map_uid row = m \<Longrightarrow>
   binds_only m d (d\<lparr>listing_binds := listing_binds d @ [row]\<rparr>)"
  unfolding binds_only_def
  by (intro exI [of _ "listing_binds d @ [row]"]) (auto simp: find_bind_def find_None_iff)

lemma binds_only_trans:
  assumes "binds_only m d d1" "binds_only m d1 d2"
  shows "binds_only m d d2"
proof -
  obtain bs cs where "d1 = d\<lparr>listing_binds := bs\<rparr>" "d2 = d1\<lparr>listing_binds := cs\<rparr>"
    "distinct (map lb_map_uid (listing_binds d)) \<longrightarrow> distinct (map lb_map_uid bs)"
    "distinct (map lb_map_uid (listing_binds d1)) \<longrightarrow> distinct (map lb_map_uid cs)"
    "\<forall>b\<in>set bs. lb_map_uid b \<noteq> m \<longrightarrow> b \<in> set (listing_binds d)"
    "\<forall>b\<in>set cs. lb_map_uid b \<noteq> m \<longrightarrow> b \<in> set (listing_binds d1)"
    using assms unfolding binds_only_def by metis
  then show ?thesis unfolding binds_only_def by (intro exI [of _ cs]) auto
qed

lemma insert_first_bind_only:
  "insert_first_bind now m i reporter d = (Inr x, d1) \<Longrightarrow> binds_only m d d1"
  unfolding insert_first_bind_def
  by (auto split: option.splits sum.splits if_splits dest!: uid_col_Inr
      intro: binds_only_refl binds_only_snoc)

lemma promote_unverified_only:
  "promote_unverified now m i reporter d = (Inr x, d1) \<Longrightarrow> binds_only m d d1"
  unfolding promote_unverified_def by (auto intro!: binds_only_upd)

lemma upsert_comment_bind_only:
  "upsert_comment_bind now m i owner d = (Inr x, d1) \<Longrightarrow> binds_only m d d1"
  unfolding upsert_comment_bind_def Let_def
  by (auto split: sum.splits if_splits dest!: uid_col_Inr intro!: binds_only_upd binds_only_snoc)

lemma purge_Inr:
  "purge_map_equipment_in_tx env m d = (Inr x, d1) \<Longrightarrow> \<exists>q. d1 = d\<lparr>hat_equipped := q\<rparr>"
  by (auto simp: purge_map_equipment_in_tx_def)

lemma maybe_purge_Inr:
  "(if b then db (purge_map_equipment_in_tx env m) else Ok []) d = (Inr x, d1) \<Longrightarrow>
   \<exists>q. d1 = d\<lparr>hat_equipped := q\<rparr>"
proof -
  have "\<exists>q. d = d\<lparr>hat_equipped := q\<rparr>" by (rule exI [of _ "hat_equipped d"]) simp
  then show "(if b then db (purge_map_equipment_in_tx env m) else Ok []) d = (Inr x, d1) \<Longrightarrow>
    \<exists>q. d1 = d\<lparr>hat_equipped := q\<rparr>"
    by (auto simp: db_def map_err_Inr_iff dest: purge_Inr split: if_splits)
qed

lemma stored_on_map_binds [simp]:
  "stored_on_map m (d\<lparr>listing_binds := bs\<rparr>) = stored_on_map m d"
  "stored_on_map m (d\<lparr>hat_equipped := q\<rparr>) = stored_on_map m d"
  by (simp_all add: stored_on_map_def)

text \<open>What the two commits share: bindings, then perhaps a purge, then the materialization.\<close>

lemma rebind_materialize:
  assumes only: "binds_only m d d2"
    and purge: "(if legacy then db (purge_map_equipment_in_tx env m) else Ok []) d2 = (Inr x4, d3)"
    and m: "materialize env m (sx_id s) s gs cs hs d3 = (Inr x5, d')"
    and keys: "distinct (map lb_map_uid (listing_binds d))"
    and mine: "\<And>b. b \<in> set (listing_binds d2) \<Longrightarrow> lb_map_uid b = m \<Longrightarrow> lb_spec_id b = sx_id s"
    and cats: "parse_catalogs (sx_spec s) = Inr (gs, cs, hs)"
  shows "rebound m s d d' \<and> map_holds env m s d'"
proof -
  obtain q where d3: "d3 = d2\<lparr>hat_equipped := q\<rparr>" using maybe_purge_Inr [OF purge] by blast
  obtain bs where d2: "d2 = d\<lparr>listing_binds := bs\<rparr>" and keys2: "distinct (map lb_map_uid bs)"
    and old: "\<And>b. b \<in> set bs \<Longrightarrow> lb_map_uid b \<noteq> m \<Longrightarrow> b \<in> set (listing_binds d)"
    using only keys unfolding binds_only_def by blast
  have "aux_specs d3 = aux_specs d" "specs_seq d3 = specs_seq d"
    "\<And>m'. stored_on_map m' d3 = stored_on_map m' d" "listing_binds d3 = bs"
    by (simp_all add: d3 d2)
  then show ?thesis
    using materialize_rebound [OF m, of d] cats keys2 mine old d2 by auto
qed

lemma check_winner_mine:
  assumes "check_winner m i d = (Inr x, d1)" "distinct (map lb_map_uid (listing_binds d))"
    "b \<in> set (listing_binds d)" "lb_map_uid b = m"
  shows "lb_spec_id b = i"
proof -
  obtain w s where w: "bind_join m d = Some (w, s)" "lb_spec_id w = i"
    using assms(1) by (auto simp: check_winner_def split: option.splits if_splits)
  then have "w = b" using bind_join_in [OF w(1)] assms(2-4) by (auto simp: distinct_map inj_on_def)
  then show ?thesis using w by simp
qed

lemma write_authoritative_rebound:
  assumes w: "write_authoritative_bind env now reporter m (sx_id s) s legacy d = (Inr r, d')"
    and keys: "distinct (map lb_map_uid (listing_binds d))"
  shows "rebound m s d d' \<and> map_holds env m s d'"
proof -
  obtain gs cs hs where cats: "parse_catalogs (sx_spec s) = Inr (gs, cs, hs)"
    using w by (auto simp: write_authoritative_bind_def split: sum.splits)
  obtain d1 d2 d3 d4 x1 x2 x3 x4 x5 where steps:
    "insert_first_bind now m (sx_id s) reporter d = (Inr x1, d1)"
    "promote_unverified now m (sx_id s) reporter d1 = (Inr x2, d2)"
    "check_winner m (sx_id s) d2 = (Inr x3, d3)"
    "(if legacy then db (purge_map_equipment_in_tx env m) else Ok []) d3 = (Inr x4, d4)"
    "materialize env m (sx_id s) s gs cs hs d4 = (Inr x5, d')"
    using w unfolding write_authoritative_bind_def cats sum.case prod.case and_then_Inr db_def map_err_Inr_iff
    by auto
  have d3: "d3 = d2" using steps(3) by (simp add: check_winner_def)
  have only: "binds_only m d d2"
    using binds_only_trans insert_first_bind_only [OF steps(1)] promote_unverified_only [OF steps(2)] .
  then have "distinct (map lb_map_uid (listing_binds d2))" using keys by (auto simp: binds_only_def)
  then show ?thesis
    using rebind_materialize [OF only _ steps(5) keys _ cats] steps(4) check_winner_mine [OF steps(3)]
    unfolding d3 by blast
qed

lemma write_comment_rebound:
  assumes w: "write_comment_bind env now m (sx_id s) s replaced d = (Inr r, d')"
    and keys: "distinct (map lb_map_uid (listing_binds d))"
  shows "rebound m s d d' \<and> map_holds env m s d'"
proof -
  obtain gs cs hs where cats: "parse_catalogs (sx_spec s) = Inr (gs, cs, hs)"
    using w by (auto simp: write_comment_bind_def split: sum.splits)
  obtain d1 d2 x1 x2 x3 where steps:
    "upsert_comment_bind now m (sx_id s) (sx_user_id s) d = (Inr x1, d1)"
    "(if replaced then db (purge_map_equipment_in_tx env m) else Ok []) d1 = (Inr x2, d2)"
    "materialize env m (sx_id s) s gs cs hs d2 = (Inr x3, d')"
    using w unfolding write_comment_bind_def cats sum.case prod.case and_then_Inr db_def map_err_Inr_iff
    by auto
  have "lb_spec_id b = sx_id s" if "b \<in> set (listing_binds d1)" "lb_map_uid b = m" for b
    using steps(1) that unfolding upsert_comment_bind_def Let_def
    by (auto split: sum.splits if_splits dest!: uid_col_Inr
        simp: set_upd_where find_bind_def find_None_iff) (metis listing_bind.select_convs(2))+
  then show ?thesis
    using rebind_materialize [OF upsert_comment_bind_only [OF steps(1)] steps(2,3) keys _ cats] by blast
qed

section \<open>The operations on specs and bindings\<close>

lemma commit_authoritative_outcome:
  assumes "commit_authoritative_bind env now prepared reporter m i d = (r, d')"
  shows "d' = d \<or> (\<exists>s legacy x. find_spec i d = Some s \<and> r = Inr x \<and>
    write_authoritative_bind env now reporter m i s legacy d = (Inr x, d'))"
  using assms unfolding commit_authoritative_bind_def Let_def in_tx_def
  by (auto split: option.splits if_splits prod.splits sum.splits)

lemma commit_comment_outcome:
  assumes "commit_comment_bind env now m i d = (r, d')"
  shows "d' = d \<or> (\<exists>s replaced x. find_spec i d = Some s \<and> r = Inr x \<and>
    write_comment_bind env now m i s replaced d = (Inr x, d'))"
  using assms unfolding commit_comment_bind_def Let_def in_tx_def
  by (auto split: option.splits if_splits prod.splits sum.splits)

lemma keys_of_ok: "bindings_ok env d \<Longrightarrow> distinct (map lb_map_uid (listing_binds d))"
  by (simp add: bindings_ok_def specs_ok_def)

lemma commit_authoritative_keeps:
  assumes "bindings_ok env d"
  shows "bindings_ok env (snd (commit_authoritative_bind env t prepared reporter m i d))"
proof (cases "commit_authoritative_bind env t prepared reporter m i d")
  case (Pair r d')
  from commit_authoritative_outcome [OF Pair]
  show ?thesis
  proof
    assume "\<exists>s legacy x. find_spec i d = Some s \<and> r = Inr x \<and>
      write_authoritative_bind env t reporter m i s legacy d = (Inr x, d')"
    then obtain s legacy x where s: "s \<in> set (aux_specs d)" "i = sx_id s"
      and w: "write_authoritative_bind env t reporter m i s legacy d = (Inr x, d')"
      using find_spec_in by blast
    show ?thesis
      using write_authoritative_rebound [OF w [unfolded s(2)] keys_of_ok [OF assms]]
        rebound_keeps [OF assms s(1), of m d'] Pair by simp
  qed (simp add: Pair assms)
qed

lemma commit_comment_keeps:
  assumes "bindings_ok env d"
  shows "bindings_ok env (snd (commit_comment_bind env t m i d))"
proof (cases "commit_comment_bind env t m i d")
  case (Pair r d')
  from commit_comment_outcome [OF Pair]
  show ?thesis
  proof
    assume "\<exists>s replaced x. find_spec i d = Some s \<and> r = Inr x \<and>
      write_comment_bind env t m i s replaced d = (Inr x, d')"
    then obtain s replaced x where s: "s \<in> set (aux_specs d)" "i = sx_id s"
      and w: "write_comment_bind env t m i s replaced d = (Inr x, d')"
      using find_spec_in by blast
    show ?thesis
      using write_comment_rebound [OF w [unfolded s(2)] keys_of_ok [OF assms]]
        rebound_keeps [OF assms s(1), of m d'] Pair by simp
  qed (simp add: Pair assms)
qed

lemma bind_from_resolved_comment_keeps:
  "bindings_ok env d \<Longrightarrow> bindings_ok env (snd (bind_from_resolved_comment env t m u n d))"
  unfolding bind_from_resolved_comment_def
  by (rule keepsD [of "bindings_ok env"])
     (intro keeps_and_then keeps_fetch keepsI commit_comment_keeps)

text \<open>What the invariant looks at.\<close>

lemma bindings_ok_cong:
  "aux_specs d' = aux_specs d \<Longrightarrow> specs_seq d' = specs_seq d \<Longrightarrow> listing_binds d' = listing_binds d \<Longrightarrow>
   (\<And>m. stored_on_map m d' = stored_on_map m d) \<Longrightarrow> bindings_ok env d' = bindings_ok env d"
  by (simp add: bindings_ok_def specs_ok_def mat_inv_def map_holds_def)

lemma specs_changed_keeps:
  assumes ok: "bindings_ok env d" and same: "listing_binds d' = listing_binds d"
      "\<And>m. stored_on_map m d' = stored_on_map m d" and specs: "specs_ok d'"
    and change: "\<And>s b. s \<in> set (aux_specs d') \<Longrightarrow> b \<in> set (listing_binds d) \<Longrightarrow>
       lb_spec_id b = sx_id s \<Longrightarrow> is_current env b s \<Longrightarrow>
       \<exists>s0\<in>set (aux_specs d). sx_id s0 = sx_id s \<and> sx_user_id s0 = sx_user_id s \<and>
         sx_name_id s0 = sx_name_id s \<and> sx_spec s0 = sx_spec s \<and> sx_updated_at s0 = sx_updated_at s"
  shows "bindings_ok env d'"
proof -
  have "map_holds env (lb_map_uid b) s d'" if b: "b \<in> set (listing_binds d')"
    and s: "s \<in> set (aux_specs d')" and eq: "lb_spec_id b = sx_id s" and cur: "is_current env b s" for b s
  proof -
    obtain s0 where s0: "s0 \<in> set (aux_specs d)" "sx_id s0 = sx_id s" "sx_user_id s0 = sx_user_id s"
      "sx_name_id s0 = sx_name_id s" "sx_spec s0 = sx_spec s" "sx_updated_at s0 = sx_updated_at s"
      using change [of s b] b s eq cur same(1) by auto
    have "map_holds env (lb_map_uid b) s0 d"
      using ok s0 b eq cur same(1) by (auto simp: bindings_ok_def mat_inv_def is_current_def)
    then show ?thesis using s0 same(2) by (simp add: map_holds_def on_map_def)
  qed
  then show ?thesis using specs by (auto simp: bindings_ok_def mat_inv_def)
qed

lemma find_spec_by_name_in:
  "find_spec_by_name u n d = Some s \<Longrightarrow> s \<in> set (aux_specs d) \<and> sx_user_id s = u \<and> sx_name_id s = n"
  unfolding find_spec_by_name_def by (drule find_Some_in) simp

lemma find_spec_by_name_None:
  "find_spec_by_name u n d = None \<Longrightarrow> s \<in> set (aux_specs d) \<Longrightarrow> (sx_user_id s, sx_name_id s) \<noteq> (u, n)"
  by (auto simp: find_spec_by_name_def find_None_iff)

text \<open>
  A save is told apart from what is already on the maps: no binding carries both its time stamp
  and the hash of its text.
\<close>

definition unseen :: "wf_env \<Rightarrow> nat \<Rightarrow> json \<Rightarrow> 'z wf_db_scheme \<Rightarrow> bool" where
  "unseen env t stored d \<longleftrightarrow> (\<forall>b\<in>set (listing_binds d).
     \<not> (lb_materialized_spec_updated_at b = Some t \<and>
        lb_materialized_spec_hash b = Some (we_spec_hash env stored)))"

lemma upsert_spec_row_keeps:
  assumes ok: "bindings_ok env d" and t: "unseen env t spec d"
    and up: "upsert_spec_row t user nm spec th d = (Inr i, d')"
  shows "bindings_ok env d'"
proof -
  obtain n where n: "varchar_col 32 nm = Inr n"
    using up by (auto simp: upsert_spec_row_def split: sum.splits)
  have so: "specs_ok d" using ok by (simp add: bindings_ok_def)
  have fresh: "\<not> (sx_updated_at x = t \<and> sx_spec x = spec \<and> is_current env b x)"
    if "b \<in> set (listing_binds d)" for b x
    using t that by (auto simp: unseen_def is_current_def)
  show ?thesis
  proof (cases "find_spec_by_name user n d")
    case None
    let ?row = "\<lparr>sx_id = specs_seq d, sx_user_id = user, sx_name_id = n, sx_spec = spec,
      sx_hit_counter = 0, sx_created_at = t, sx_updated_at = t, sx_listing_threshold = th\<rparr>"
    have d': "d' = d\<lparr>specs_seq := specs_seq d + 1, aux_specs := aux_specs d @ [?row]\<rparr>"
      using up n None by (auto simp: upsert_spec_row_def Let_def split: if_splits)
    have "specs_ok d'"
      using so find_spec_by_name_None [OF None] unfolding specs_ok_def d'
      by (auto simp: image_iff)
    moreover have "\<exists>s0\<in>set (aux_specs d). s0 = x" if x: "x \<in> set (aux_specs d')"
      and b: "b \<in> set (listing_binds d)" and cur: "is_current env b x" for x b
      using x fresh [OF b, of x] cur by (auto simp: d')
    ultimately show ?thesis
      by (intro specs_changed_keeps [OF ok]) (auto simp: d' stored_on_map_def)
  next
    case (Some s)
    let ?f = "\<lambda>x. x\<lparr>sx_spec := spec, sx_listing_threshold := th, sx_updated_at := t\<rparr>"
    have d': "d' = d\<lparr>specs_seq := specs_seq d + 1,
        aux_specs := upd_where (\<lambda>x. sx_id x = sx_id s) ?f (aux_specs d)\<rparr>"
      using up n Some by (auto simp: upsert_spec_row_def Let_def split: if_splits)
    have ids: "map sx_id (aux_specs d') = map sx_id (aux_specs d)"
      and names: "map (\<lambda>s. (sx_user_id s, sx_name_id s)) (aux_specs d') =
        map (\<lambda>s. (sx_user_id s, sx_name_id s)) (aux_specs d)"
      by (simp_all add: d' map_upd_where)
    have ids2: "sx_id ` set (aux_specs d') = sx_id ` set (aux_specs d)"
      using ids by (metis list.set_map)
    have each: "\<exists>s0\<in>set (aux_specs d). sx_id s' = sx_id s0 \<and>
        (s' = s0 \<or> sx_updated_at s' = t \<and> sx_spec s' = spec)"
      if "s' \<in> set (aux_specs d')" for s'
      using that by (auto simp: d' set_upd_where) metis
    have "specs_ok d'"
      using so each unfolding specs_ok_def ids names ids2 by (fastforce simp: d')
    moreover have "\<exists>s0\<in>set (aux_specs d). s0 = x" if x: "x \<in> set (aux_specs d')"
      and b: "b \<in> set (listing_binds d)" and cur: "is_current env b x" for x b
      using each [OF x] fresh [OF b, of x] cur by auto
    ultimately show ?thesis
      by (intro specs_changed_keeps [OF ok]) (auto simp: d' stored_on_map_def)
  qed
qed

lemma bindings_ok_catalogs [simp]:
  "bindings_ok env (d\<lparr>minigame_catalog := t1\<rparr>) = bindings_ok env d"
  "bindings_ok env (d\<lparr>collectible_catalog := t2\<rparr>) = bindings_ok env d"
  "bindings_ok env (d\<lparr>hat_catalog := t3\<rparr>) = bindings_ok env d"
  by (rule bindings_ok_cong; simp add: stored_on_map_def)+

lemma replace_only_catalogs:
  "replace_games_in_tx i u n gs d = (Inr x, d') \<Longrightarrow> bindings_ok env d' = bindings_ok env d"
  "replace_collectibles_in_tx i u n cs d = (Inr x2, d') \<Longrightarrow> bindings_ok env d' = bindings_ok env d"
  "replace_hats_in_tx i u n hs d = (Inr x3, d') \<Longrightarrow> bindings_ok env d' = bindings_ok env d"
  by (auto simp: replace_Inr)

lemma upsert_spec_and_catalogs_keeps:
  assumes ok: "bindings_ok env d" and t: "unseen env t (strip_injected_spec_id spec) d"
  shows "bindings_ok env (snd (upsert_spec_and_catalogs t user nm spec d))"
proof (cases "upsert_spec_and_catalogs t user nm spec d")
  case (Pair r d')
  show ?thesis
  proof (cases r)
    case (Inl e)
    then show ?thesis using Pair ok
      by (auto simp: upsert_spec_and_catalogs_def Let_def map_err_def in_tx_def
          split: sum.splits prod.splits)
  next
    case (Inr i)
    obtain j x1 x2 x3 d1 d2 d3 gs cs hs th where
      "upsert_spec_row t user nm (strip_injected_spec_id spec) th d = (Inr j, d1)"
      "replace_games_in_tx j user (name_col nm) gs d1 = (Inr x1, d2)"
      "replace_collectibles_in_tx j user (name_col nm) cs d2 = (Inr x2, d3)"
      "replace_hats_in_tx j user (name_col nm) hs d3 = (Inr x3, d')"
      using Pair unfolding upsert_spec_and_catalogs_def Let_def Inr
      by (auto simp: map_err_Inr_iff in_tx_Inr_iff and_then_Inr split: sum.splits)
    then show ?thesis using upsert_spec_row_keeps [OF ok t] replace_only_catalogs Pair by (metis snd_conv)
  qed
qed

lemma delete_spec_keeps:
  assumes ok: "bindings_ok env d"
  shows "bindings_ok env (snd (delete_spec user nm d))"
proof -
  define gone where "gone = map sx_id (filter (\<lambda>s. sx_user_id s = user \<and> sx_name_id s = nm) (aux_specs d))"
  have so: "specs_ok d" using ok by (simp add: bindings_ok_def)
  show ?thesis
  proof (cases "\<exists>b\<in>set (listing_binds d). lb_spec_id b \<in> set gone")
    case True
    then show ?thesis using ok by (simp add: delete_spec_def Let_def gone_def)
  next
    case False
    define d1 where "d1 = d\<lparr>aux_specs := filter (\<lambda>s. sx_id s \<notin> set gone) (aux_specs d),
      minigame_catalog := filter (\<lambda>r. gr_spec_id r \<notin> set gone) (minigame_catalog d),
      collectible_catalog := filter (\<lambda>r. cl_spec_id r \<notin> set gone) (collectible_catalog d),
      hat_catalog := filter (\<lambda>r. ht_spec_id r \<notin> set gone) (hat_catalog d)\<rparr>"
    have "snd (delete_spec user nm d) = d1"
      using False unfolding delete_spec_def Let_def gone_def [symmetric] d1_def by simp
    moreover have "lb_spec_id b \<in> sx_id ` set (aux_specs d1)" if "b \<in> set (listing_binds d)" for b
      using so False that by (force simp: specs_ok_def d1_def)
    then have "specs_ok d1" using so by (auto simp: specs_ok_def d1_def distinct_map_filter_rows)
    then have "bindings_ok env d1"
      by (intro specs_changed_keeps [OF ok]) (auto simp: d1_def stored_on_map_def)
    ultimately show ?thesis by simp
  qed
qed

lemma get_spec_keeps:
  assumes ok: "bindings_ok env d"
  shows "bindings_ok env (snd (get_spec user nm d))"
proof -
  define d1 where "d1 = snd (get_spec user nm d)"
  let ?P = "\<lambda>s. sx_user_id s = user \<and> sx_name_id s = nm"
  have d1: "d1 = d\<lparr>aux_specs := upd_where ?P (\<lambda>s. s\<lparr>sx_hit_counter := sx_hit_counter s + 1\<rparr>) (aux_specs d)\<rparr>"
    by (simp add: d1_def get_spec_def Let_def)
  have ids: "map sx_id (aux_specs d1) = map sx_id (aux_specs d)"
    and names: "map (\<lambda>s. (sx_user_id s, sx_name_id s)) (aux_specs d1) =
      map (\<lambda>s. (sx_user_id s, sx_name_id s)) (aux_specs d)"
    by (simp_all add: d1 map_upd_where)
  have ids2: "sx_id ` set (aux_specs d1) = sx_id ` set (aux_specs d)"
    using ids by (metis list.set_map)
  have each: "\<exists>s0\<in>set (aux_specs d). sx_id s0 = sx_id s \<and> sx_user_id s0 = sx_user_id s \<and>
      sx_name_id s0 = sx_name_id s \<and> sx_spec s0 = sx_spec s \<and> sx_updated_at s0 = sx_updated_at s"
    if s: "s \<in> set (aux_specs d1)" for s
  proof -
    obtain s0 where "s0 \<in> set (aux_specs d)"
      "s = (if ?P s0 then s0\<lparr>sx_hit_counter := sx_hit_counter s0 + 1\<rparr> else s0)"
      using s by (auto simp: d1 set_upd_where)
    then show ?thesis by (intro bexI [of _ s0]) auto
  qed
  have "sx_id s < specs_seq d" if "s \<in> set (aux_specs d1)" for s
    using each [OF that] ok by (auto simp: bindings_ok_def specs_ok_def)
  then have "specs_ok d1"
    using ok unfolding bindings_ok_def specs_ok_def ids names ids2 by (simp add: d1)
  then have "bindings_ok env d1"
    by (intro specs_changed_keeps [OF ok _ _ _ each]) (simp_all add: d1 stored_on_map_def)
  then show ?thesis by (simp add: d1_def)
qed

section \<open>Runs\<close>

text \<open>
  The steps of the system: saving, reading and deleting specs, and the two kinds of bind.  Each
  is a transaction, so the steps of different connections interleave as whole operations.
\<close>

inductive binding_step :: "wf_env \<Rightarrow> 'z wf_db_scheme \<Rightarrow> 'z wf_db_scheme \<Rightarrow> bool" for env where
  save: "unseen env t (strip_injected_spec_id spec) d \<Longrightarrow>
    binding_step env d (snd (upsert_spec_and_catalogs t user nm spec d))"
| read: "binding_step env d (snd (get_spec user nm d))"
| delete: "binding_step env d (snd (delete_spec user nm d))"
| author: "binding_step env d (snd (commit_authoritative_bind env t prepared reporter m i d))"
| comment: "binding_step env d (snd (bind_from_resolved_comment env t m user nm d))"

inductive binding_reach :: "wf_env \<Rightarrow> 'z wf_db_scheme \<Rightarrow> 'z wf_db_scheme \<Rightarrow> bool" for env d where
  here: "binding_reach env d d"
| step: "binding_reach env d d1 \<Longrightarrow> binding_step env d1 d2 \<Longrightarrow> binding_reach env d d2"

lemma binding_step_keeps: "binding_step env d d' \<Longrightarrow> bindings_ok env d \<Longrightarrow> bindings_ok env d'"
  by (induction rule: binding_step.induct)
     (simp_all add: upsert_spec_and_catalogs_keeps get_spec_keeps delete_spec_keeps
       commit_authoritative_keeps bind_from_resolved_comment_keeps)

lemma binding_reach_keeps: "binding_reach env d d' \<Longrightarrow> bindings_ok env d \<Longrightarrow> bindings_ok env d'"
  by (induction rule: binding_reach.induct) (auto intro: binding_step_keeps)

lemma bind_join_current_holds:
  "bindings_ok env d \<Longrightarrow> bind_join m d = Some (b, s) \<Longrightarrow> is_current env b s \<Longrightarrow> map_holds env m s d"
  by (auto simp: bindings_ok_def mat_inv_def dest!: bind_join_in)

lemma resolve_bound_specD:
  "resolve_bound_spec env m i d = Some j \<Longrightarrow>
   j = i \<and> (\<exists>b s. bind_join m d = Some (b, s) \<and> lb_spec_id b = i \<and> is_verified b s \<and> is_current env b s)"
  by (auto simp: resolve_bound_spec_def split: option.splits if_splits)

end
