(* ===== verification/Sample_World.thy ===== *)
theory Sample_World
  imports Binding
begin

text \<open>
  Concrete inputs for the witnesses: a database with one player, who saves a spec with a
  minigame, a collectible and a hat, and binds a map to it.
\<close>

definition sample_env :: wf_env where
  "sample_env = \<lparr>we_spec_hash = (\<lambda>j. case json_get j ''v'' of Some (JStr s) \<Rightarrow> s | _ \<Rightarrow> ''0''),
     we_md5 = rev, we_show_uuid = (\<lambda>u. replicate (unat u) (CHR ''u'')), we_collate = map of_char\<rparr>"

text \<open>A map uid has 27 bytes.\<close>

definition sample_map :: string where
  "sample_map = ''MMMMMMMMMMMMMMMMMMMMMMMMMMM''"

definition sample_spec :: json where
  "sample_spec = JObj [(''v'', JStr ''1''), (''minigames'', JObj [(''games'', JArr [
      JObj [(''slug'', JStr ''run''), (''kind'', JStr ''Sprint'')]])]), (''collectibles'', JArr [
      JObj [(''slug'', JStr ''star''), (''pickup'', JStr ''zone'')]]),
    (''hats'', JArr [JObj [(''slug'', JStr ''cap''), (''unlock'', JObj [(''finishThisMap'', JBool True)])]])]"

definition sample_db :: wf_db where
  "sample_db = \<lparr>users = [\<lparr>ur_id = 7, ur_display_name = ''ann'', ur_created_ts = 1, ur_last_login_ts = 1\<rparr>],
     display_names = [], sessions = [], maps = [], maps_seq = 1, contexts = [],
     aux_specs = [], specs_seq = 1, listing_binds = [], minigame_catalog = [], minigame_on_map = [],
     minigame_pb = [], minigame_attempt = [], collectible_catalog = [], collectibles_on_map = [],
     collectible_progress = [], collect_log = [], hat_catalog = [], hats_on_map = [], hat_unlocks = [],
     hat_equipped = [], curr_heights = [], shadow_bans = []\<rparr>"

definition sample_row :: aux_spec where
  "sample_row = \<lparr>sx_id = 1, sx_user_id = 7, sx_name_id = ''a'', sx_spec = sample_spec, sx_hit_counter = 0,
     sx_created_at = 10, sx_updated_at = 10, sx_listing_threshold = 25\<rparr>"

definition saved_db :: wf_db where
  "saved_db = sample_db\<lparr>aux_specs := [sample_row], specs_seq := 2,
     minigame_catalog := [\<lparr>gr_spec_id = 1, gr_user_id = 7, gr_name_id = ''a'', gr_slug = ''run'',
       gr_kind = ''Sprint'', gr_name = [], gr_lower_is_better = True\<rparr>],
     collectible_catalog := [\<lparr>cl_spec_id = 1, cl_user_id = 7, cl_name_id = ''a'', cl_slug = ''star'',
       cl_name = ''star'', cl_pickup = ''zone'', cl_collect_on_unlock = False, cl_has_zone = True,
       cl_gated_by = None, cl_unlock_score = None\<rparr>],
     hat_catalog := [\<lparr>ht_spec_id = 1, ht_user_id = 7, ht_name_id = ''a'', ht_slug = ''cap'', ht_name = ''cap'',
       ht_finish_this_map = True, ht_record_uids = JArr []\<rparr>]\<rparr>"

definition sample_bind :: listing_bind where
  "sample_bind = \<lparr>lb_map_uid = sample_map, lb_spec_id = 1, lb_verified_author_id = Some 7,
     lb_author_verified_at = Some 11, lb_materialized_spec_updated_at = Some 10,
     lb_materialized_spec_hash = Some ''1''\<rparr>"

definition bound_db :: wf_db where
  "bound_db = saved_db\<lparr>listing_binds := [sample_bind],
     minigame_on_map := [\<lparr>gm_map_uid = sample_map, gm_slug = ''run'', gm_key = ''nur:MMMMMMMMMMMM'',
       gm_kind = ''Sprint'', gm_name = [], gm_spec_user = 7, gm_name_id = ''a''\<rparr>],
     collectibles_on_map := [\<lparr>cm_map_uid = sample_map, cm_slug = ''star'', cm_key = ''rats:c:MMMMMMMMM'',
       cm_name = ''star'', cm_pickup = ''zone'', cm_collect_on_unlock = False, cm_has_zone = True,
       cm_gated_by = None, cm_unlock_score = None, cm_spec_user = 7, cm_name_id = ''a''\<rparr>],
     hats_on_map := [\<lparr>hm_map_uid = sample_map, hm_slug = ''cap'', hm_key = ''pac:h:MMMMMMMMMM'',
       hm_name = ''cap'', hm_finish_this_map = True, hm_record_uids = JArr [], hm_spec_user = 7,
       hm_name_id = ''a''\<rparr>]\<rparr>"

text \<open>The two states are what the operations make of the first one.\<close>

lemma saved_db_run: "upsert_spec_and_catalogs 10 7 ''a'' sample_spec sample_db = (Inr 1, saved_db)"
  by code_simp

definition sample_bound :: authoritative_bind_result where
  "sample_bound = \<lparr>ab_spec_id = 1, ab_removed_hat_wearers = [], ab_materialized = True,
     ab_replaced_previous = False\<rparr>"

lemma bound_db_run:
  "commit_authoritative_bind sample_env 11 (Some 7) 7 sample_map 1 saved_db = (Inr sample_bound, bound_db)"
  by code_simp

lemma bound_db_resolves: "resolve_bound_spec sample_env sample_map 1 bound_db = Some 1"
  by code_simp

end
