(* ===== verification/Binding_Properties.thy ===== *)
theory Binding_Properties
  imports Materialization Sample_World
begin

text \<open>
  The properties of specs and bindings: what a report may bind, what a binding guarantees about
  the tables of its map, and what saving a spec does to the bindings of it.
\<close>

section \<open>The small world is a run\<close>

lemma sample_db_ok: "bindings_ok sample_env sample_db"
  by (simp add: bindings_ok_def specs_ok_def mat_inv_def sample_db_def)

lemma saved_db_step: "binding_step sample_env sample_db saved_db"
proof -
  have "unseen sample_env 10 (strip_injected_spec_id sample_spec) sample_db"
    by (simp add: unseen_def sample_db_def)
  from binding_step.save [OF this, of 7 "''a''"] show ?thesis by (simp add: saved_db_run)
qed

lemma bound_db_step: "binding_step sample_env saved_db bound_db"
  using binding_step.author [of sample_env saved_db 11 "Some 7" 7 sample_map 1]
  by (simp add: bound_db_run)

lemma bound_db_reach: "binding_reach sample_env sample_db bound_db"
  by (rule binding_reach.step [OF binding_reach.step [OF binding_reach.here saved_db_step] bound_db_step])

section \<open>What a resolved binding means\<close>

text \<open>
  C1. Whatever saves, reads, deletions and binds happen in whatever order: when a gameplay report
  resolves the binding of its map, the tables of the map hold exactly what the spec says now.
\<close>

theorem resolved_maps_hold_their_spec:
  assumes "binding_reach env d0 d" and "bindings_ok env d0"
    and "resolve_bound_spec env m i d = Some j"
  shows "j = i \<and> (\<exists>s. find_spec i d = Some s \<and> map_holds env m s d)"
proof -
  have ok: "bindings_ok env d" using binding_reach_keeps assms by blast
  obtain b s where bs: "bind_join m d = Some (b, s)" "lb_spec_id b = i" "is_current env b s" "j = i"
    using resolve_bound_specD [OF assms(3)] by blast
  then have "find_spec i d = Some s" by (auto simp: bind_join_def split: option.splits)
  then show ?thesis using bind_join_current_holds [OF ok bs(1,3)] bs(4) by blast
qed

theorem resolved_maps_hold_their_spec_witness:
  "\<exists>s. find_spec 1 bound_db = Some s \<and> map_holds sample_env sample_map s bound_db"
  using resolved_maps_hold_their_spec [OF bound_db_reach sample_db_ok bound_db_resolves] by blast

lemma find_by_key:
  "distinct (map k xs) \<Longrightarrow> List.find (\<lambda>x. k x = a \<and> P x) xs =
     (case List.find (\<lambda>x. k x = a) xs of None \<Rightarrow> None | Some x \<Rightarrow> if P x then Some x else None)"
  by (induction xs) (auto simp: find_None_iff split: option.splits dest!: find_Some_in)

text \<open>
  The unlocked check of a report and the check under the row locks are the same decision,
  and the first one only ever returns the id it was asked for.
\<close>

theorem resolve_agrees_with_lock:
  assumes "specs_ok d"
  shows "resolve_bound_spec env m i d = (if lock_materialized_spec env m i d then Some i else None)"
proof -
  have keys: "distinct (map lb_map_uid (listing_binds d))" using assms by (simp add: specs_ok_def)
  have one: "List.find (\<lambda>b. lb_map_uid b = m \<and> P b) (listing_binds d) =
      (case find_bind m d of None \<Rightarrow> None | Some b \<Rightarrow> if P b then Some b else None)" for P
    unfolding find_bind_def by (rule find_by_key [OF keys])
  show ?thesis
    unfolding resolve_bound_spec_def lock_materialized_spec_def one bind_join_def is_verified_def
      is_current_def
    by (auto split: option.splits if_splits)
qed

theorem resolve_agrees_with_lock_witness:
  "resolve_bound_spec sample_env sample_map 1 bound_db = Some 1 \<and> lock_materialized_spec sample_env sample_map 1 bound_db"
proof -
  have ok: "specs_ok bound_db"
    using binding_reach_keeps [OF bound_db_reach sample_db_ok] by (simp add: bindings_ok_def)
  show ?thesis
    using resolve_agrees_with_lock [OF ok, of sample_env sample_map 1] bound_db_resolves
    by (simp split: if_splits)
qed

section \<open>Who may bind\<close>

lemma commit_authoritative_allowed:
  assumes "commit_authoritative_bind env t prepared reporter m i d = (Inr r, d')"
  shows "(\<exists>b s. bind_join m d = Some (b, s) \<and> is_verified b s \<and> lb_spec_id b = i) \<or>
    (\<exists>s. find_spec i d = Some s \<and> sx_user_id s = reporter \<and> prepared = Some reporter)"
  using assms unfolding commit_authoritative_bind_def Let_def in_tx_Inr_iff
  by (auto split: option.splits if_splits prod.splits)

text \<open>
  C2. A report binds a map only when the map already has a verified binding to that very spec,
  or the reporter owns the spec and Nadeo named the reporter as the author of the map.
\<close>

theorem bind_needs_proof:
  assumes "bind_authoritative_spec env t verifier reporter m i d = (Inr r, d')"
  shows "(\<exists>b s. bind_join m d = Some (b, s) \<and> is_verified b s \<and> lb_spec_id b = i) \<or>
    (\<exists>s. find_spec i d = Some s \<and> sx_user_id s = reporter \<and> verifier reporter m = Inr reporter)"
  using assms commit_authoritative_allowed
  unfolding bind_authoritative_spec_def and_then_Inr prepare_authoritative_bind_def Let_def
  by (fastforce split: option.splits if_splits sum.splits prod.splits)

theorem bind_needs_proof_witness:
  "fst (bind_authoritative_spec sample_env 11 (\<lambda>u m. Inr u) 7 sample_map 1 saved_db) =
     Inr sample_bound \<and>
   (\<exists>s. find_spec 1 saved_db = Some s \<and> sx_user_id s = 7)"
proof -
  have run: "bind_authoritative_spec sample_env 11 (\<lambda>u m. Inr u) 7 sample_map 1 saved_db =
      (Inr sample_bound, bound_db)"
    using bound_db_run by (simp add: bind_authoritative_spec_def and_then_def prepare_authoritative_bind_def
      get_spec_binding_def bind_join_def find_bind_def find_spec_def saved_db_def sample_db_def sample_row_def)
  have none: "bind_join sample_map saved_db = None" by code_simp
  from bind_needs_proof [OF run] run none show ?thesis by auto
qed

text \<open>
  C13. While a map has a verified binding, no report can bind the map to another spec, whatever
  Nadeo says: nothing is written.
\<close>

theorem verified_binding_stays:
  assumes "bind_join m d = Some (b, s)" and "is_verified b s" and "lb_spec_id b \<noteq> i"
  shows "bind_authoritative_spec env t verifier reporter m i d = (Inl ConflictingBinding, d) \<and>
    (\<exists>e. commit_authoritative_bind env t prepared reporter m i d = (Inl e, d) \<and>
         e \<in> {ConflictingBinding, SpecNotFound})"
  using assms
  by (auto simp: bind_authoritative_spec_def and_then_def prepare_authoritative_bind_def
      get_spec_binding_def commit_authoritative_bind_def Let_def in_tx_def split: option.splits)

theorem verified_binding_stays_witness:
  "bind_authoritative_spec sample_env 12 (\<lambda>u m. Inr u) 8 sample_map 2 bound_db = (Inl ConflictingBinding, bound_db)"
proof -
  have "bind_join sample_map bound_db = Some (sample_bind, sample_row)" "is_verified sample_bind sample_row"
    "lb_spec_id sample_bind \<noteq> 2"
    by code_simp+
  from verified_binding_stays [OF this] show ?thesis by simp
qed

lemma materialize_current:
  assumes m: "materialize env m (sx_id s) s gs cs hs d = (Inr x, d')"
    and w: "find_bind m d = Some w" "lb_spec_id w = sx_id s"
  shows "\<exists>w'. find_bind m d' = Some w' \<and> lb_spec_id w' = sx_id s \<and> is_current env w' s \<and>
    is_verified w' s = is_verified w s"
proof -
  let ?w = "w\<lparr>lb_materialized_spec_updated_at := Some (sx_updated_at s),
    lb_materialized_spec_hash := Some (we_spec_hash env (sx_spec s))\<rparr>"
  have "find_bind m d' = Some ?w"
    using w find_bind_in [OF w(1)] unfolding find_bind_def materialize_Inr(5) [OF m]
    by (subst find_upd_where) auto
  then show ?thesis using w(2) by (intro exI [of _ ?w]) (simp add: is_current_def is_verified_def)
qed

lemma write_authoritative_usable:
  assumes w: "write_authoritative_bind env now reporter m (sx_id s) s legacy d = (Inr r, d')"
    and s: "s \<in> set (aux_specs d)" and ids: "distinct (map sx_id (aux_specs d))"
  shows "ab_spec_id r = sx_id s \<and> (\<exists>b. find_bind m d' = Some b \<and> lb_spec_id b = sx_id s \<and>
    is_current env b s \<and> is_verified b s)"
proof -
  obtain gs cs hs where cats: "parse_catalogs (sx_spec s) = Inr (gs, cs, hs)"
    using w by (auto simp: write_authoritative_bind_def split: sum.splits)
  obtain d1 d2 d4 x1 x2 x3 x4 x5 where steps:
    "insert_first_bind now m (sx_id s) reporter d = (Inr x1, d1)"
    "promote_unverified now m (sx_id s) reporter d1 = (Inr x2, d2)"
    "check_winner m (sx_id s) d2 = (Inr x3, d2)"
    "(if legacy then db (purge_map_equipment_in_tx env m) else Ok []) d2 = (Inr x4, d4)"
    "materialize env m (sx_id s) s gs cs hs d4 = (Inr x5, d')" "ab_spec_id r = x3"
    using w unfolding write_authoritative_bind_def cats sum.case prod.case and_then_Inr db_def map_err_Inr_iff
    by (auto simp: check_winner_def)
  obtain b s' where b: "bind_join m d2 = Some (b, s')" "lb_spec_id b = sx_id s" "x3 = sx_id s" "is_verified b s'"
    using steps(3) by (auto simp: check_winner_def split: option.splits if_splits)
  have "aux_specs d2 = aux_specs d"
    using insert_first_bind_only [OF steps(1)] promote_unverified_only [OF steps(2)]
    by (auto simp: binds_only_def)
  then have "s' = s"
    using bind_join_in [OF b(1)] b(2) s ids by (auto simp: distinct_map inj_on_def)
  moreover have "find_bind m d4 = Some b"
    using b(1) maybe_purge_Inr [OF steps(4)]
    by (auto simp: bind_join_def find_bind_def split: option.splits)
  ultimately show ?thesis
    using materialize_current [OF steps(5)] b steps(6) by simp
qed

text \<open>
  C15. A bind that succeeds leaves the map usable: the binding is verified, current and to the
  spec that was asked for, and the tables of the map hold that spec.
\<close>

theorem bind_makes_usable:
  assumes ok: "bindings_ok env d"
    and run: "commit_authoritative_bind env t prepared reporter m i d = (Inr r, d')"
  shows "ab_spec_id r = i \<and> resolve_bound_spec env m i d' = Some i \<and>
    (\<exists>s. find_spec i d' = Some s \<and> map_holds env m s d')"
proof -
  have ids: "distinct (map sx_id (aux_specs d))" using ok by (simp add: bindings_ok_def specs_ok_def)
  have "ab_spec_id r = i \<and> (\<exists>b s. bind_join m d' = Some (b, s) \<and> lb_spec_id b = i \<and>
      is_current env b s \<and> is_verified b s)"
  proof (cases "\<exists>s legacy. find_spec i d = Some s \<and>
      write_authoritative_bind env t reporter m i s legacy d = (Inr r, d')")
    case True
    then obtain s legacy where s: "s \<in> set (aux_specs d)" "sx_id s = i" "find_spec i d = Some s"
      and w: "write_authoritative_bind env t reporter m (sx_id s) s legacy d = (Inr r, d')"
      using find_spec_in by blast
    have "aux_specs d' = aux_specs d"
      using write_authoritative_rebound [OF w keys_of_ok [OF ok]] by (simp add: rebound_def)
    then show ?thesis
      using write_authoritative_usable [OF w s(1) ids] s by (auto simp: bind_join_def find_spec_def)
  next
    case False
    with run show ?thesis
      unfolding commit_authoritative_bind_def Let_def in_tx_Inr_iff
      by (auto simp: bind_join_def split: option.splits if_splits prod.splits)
  qed
  then obtain b s where bs: "ab_spec_id r = i" "bind_join m d' = Some (b, s)" "lb_spec_id b = i"
    "is_current env b s" "is_verified b s" by blast
  have "bindings_ok env d'" using commit_authoritative_keeps [OF ok] run by (metis snd_conv)
  then show ?thesis
    using bs bind_join_current_holds [OF _ bs(2) bs(4)]
    by (auto simp: resolve_bound_spec_def bind_join_def split: option.splits)
qed

theorem bind_makes_usable_witness:
  "resolve_bound_spec sample_env sample_map 1 bound_db = Some 1"
proof -
  show ?thesis
    using bind_makes_usable [OF binding_step_keeps [OF saved_db_step sample_db_ok] bound_db_run] by blast
qed

section \<open>Saving a spec\<close>

text \<open>
  C18. Saving a spec suspends every map bound to it: until the map is bound again, no report for
  the spec resolves, whatever the map.
\<close>

theorem saved_spec_suspends_maps:
  assumes ok: "specs_ok d" and t: "unseen env t (strip_injected_spec_id spec) d"
    and run: "upsert_spec_and_catalogs t user nm spec d = (Inr i, d')"
  shows "resolve_bound_spec env m i d' = None"
proof -
  obtain x1 x2 x3 d1 d2 d3 gs cs hs th where
    up: "upsert_spec_row t user nm (strip_injected_spec_id spec) th d = (Inr i, d1)" and
    "replace_games_in_tx i user (name_col nm) gs d1 = (Inr x1, d2)"
    "replace_collectibles_in_tx i user (name_col nm) cs d2 = (Inr x2, d3)"
    "replace_hats_in_tx i user (name_col nm) hs d3 = (Inr x3, d')"
    using run unfolding upsert_spec_and_catalogs_def Let_def
    by (auto simp: map_err_Inr_iff in_tx_Inr_iff and_then_Inr split: sum.splits)
  then have d': "aux_specs d' = aux_specs d1" "listing_binds d' = listing_binds d1"
    by (auto simp: replace_Inr)
  obtain n where n: "varchar_col 32 nm = Inr n"
    using up by (auto simp: upsert_spec_row_def split: sum.splits)
  have "listing_binds d1 = listing_binds d \<and> (\<forall>s\<in>set (aux_specs d1). sx_id s = i \<longrightarrow>
      sx_updated_at s = t \<and> sx_spec s = strip_injected_spec_id spec)"
  proof (cases "find_spec_by_name user n d")
    case None
    have "\<forall>s\<in>set (aux_specs d). sx_id s \<noteq> specs_seq d" using ok by (force simp: specs_ok_def)
    then show ?thesis using up n None
      by (auto simp: upsert_spec_row_def Let_def split: if_splits)
  next
    case (Some s)
    then show ?thesis using up n
      by (auto simp: upsert_spec_row_def Let_def set_upd_where split: if_splits)
  qed
  then show ?thesis
    using t d' by (auto simp: resolve_bound_spec_def is_current_def unseen_def
        split: option.splits dest!: bind_join_in)
qed

theorem saved_spec_suspends_maps_witness:
  "resolve_bound_spec sample_env sample_map 1 bound_db = Some 1 \<and>
   resolve_bound_spec sample_env sample_map 1
     (snd (upsert_spec_and_catalogs 12 7 ''a'' (JObj [(''v'', JStr ''2'')]) bound_db)) = None"
proof -
  let ?d = "snd (upsert_spec_and_catalogs 12 7 ''a'' (JObj [(''v'', JStr ''2'')]) bound_db)"
  have run: "upsert_spec_and_catalogs 12 7 ''a'' (JObj [(''v'', JStr ''2'')]) bound_db = (Inr 1, ?d)"
    by code_simp
  have "unseen sample_env 12 (strip_injected_spec_id (JObj [(''v'', JStr ''2'')])) bound_db" by code_simp
  moreover have "specs_ok bound_db"
    using binding_reach_keeps [OF bound_db_reach sample_db_ok] by (simp add: bindings_ok_def)
  ultimately show ?thesis using saved_spec_suspends_maps [OF _ _ run] bound_db_resolves by blast
qed

text \<open>Every catalog row of a spec carries the owner and the name of the spec.\<close>

definition catalogs_owned :: "'z wf_db_scheme \<Rightarrow> bool" where
  "catalogs_owned d \<longleftrightarrow> (\<forall>r\<in>set (minigame_catalog d). \<exists>s\<in>set (aux_specs d).
     sx_id s = gr_spec_id r \<and> sx_user_id s = gr_user_id r \<and> sx_name_id s = gr_name_id r)"

lemma upsert_spec_row_owner:
  assumes ok: "specs_ok d" "catalogs_owned d"
    and up: "upsert_spec_row t user nm spec th d = (Inr i, d1)"
  shows "catalogs_owned d1 \<and> minigame_catalog d1 = minigame_catalog d \<and>
    (\<exists>s\<in>set (aux_specs d1). sx_id s = i \<and> sx_user_id s = user \<and> sx_name_id s = name_col nm) \<and>
    (\<forall>r\<in>set (minigame_catalog d). gr_spec_id r \<noteq> i \<longrightarrow> (gr_user_id r, gr_name_id r) \<noteq> (user, name_col nm))"
proof -
  obtain n where n: "varchar_col 32 nm = Inr n"
    using up by (auto simp: upsert_spec_row_def split: sum.splits)
  have nm: "name_col nm = n" by (simp add: name_col_def n)
  show ?thesis
  proof (cases "find_spec_by_name user n d")
    case None
    then show ?thesis using up n nm ok find_spec_by_name_None [OF None]
      by (force simp: upsert_spec_row_def Let_def catalogs_owned_def split: if_splits)
  next
    case (Some s)
    let ?f = "\<lambda>x. x\<lparr>sx_spec := spec, sx_listing_threshold := th, sx_updated_at := t\<rparr>"
    have s: "s \<in> set (aux_specs d)" "sx_user_id s = user" "sx_name_id s = n"
      using find_spec_by_name_in [OF Some] by auto
    have d1: "i = sx_id s" "d1 = d\<lparr>specs_seq := specs_seq d + 1,
        aux_specs := upd_where (\<lambda>x. sx_id x = sx_id s) ?f (aux_specs d)\<rparr>"
      using up n Some by (auto simp: upsert_spec_row_def Let_def split: if_splits)
    have each: "\<exists>s1\<in>set (aux_specs d1). sx_id s1 = sx_id s0 \<and> sx_user_id s1 = sx_user_id s0 \<and>
        sx_name_id s1 = sx_name_id s0" if s0: "s0 \<in> set (aux_specs d)" for s0
      using s0 by (intro bexI [of _ "if sx_id s0 = sx_id s then ?f s0 else s0"])
        (auto simp: d1 set_upd_where)
    have "gr_spec_id r = i" if r: "r \<in> set (minigame_catalog d)"
      "(gr_user_id r, gr_name_id r) = (user, n)" for r
    proof -
      obtain s0 where s0: "s0 \<in> set (aux_specs d)" "sx_id s0 = gr_spec_id r"
        "sx_user_id s0 = user" "sx_name_id s0 = n"
        using ok(2) r by (force simp: catalogs_owned_def)
      then have "s0 = s" using s ok(1) by (auto simp: specs_ok_def distinct_map inj_on_def)
      then show ?thesis using s0(2) d1(1) by simp
    qed
    moreover have "catalogs_owned d1"
      using ok(2) each unfolding catalogs_owned_def d1(2) by (simp, metis)
    moreover have "\<exists>s1\<in>set (aux_specs d1). sx_id s1 = i \<and> sx_user_id s1 = user \<and> sx_name_id s1 = n"
      using each [OF s(1)] s d1(1) by metis
    ultimately show ?thesis using d1(2) nm by auto
  qed
qed

lemma replace_no_unique_violation:
  "distinct (map cg_slug gs) \<Longrightarrow>
   \<forall>r\<in>set (minigame_catalog d). gr_spec_id r \<noteq> i \<longrightarrow> (gr_user_id r, gr_name_id r) \<noteq> (u, n) \<Longrightarrow>
   fst (replace_games_in_tx i u n gs d) \<noteq> Inl (UniqueViolation k)"
  "distinct (map cc_slug cs) \<Longrightarrow> fst (replace_collectibles_in_tx i u n cs d) \<noteq> Inl (UniqueViolation k)"
  "distinct (map ch_slug hs) \<Longrightarrow> fst (replace_hats_in_tx i u n hs d) \<noteq> Inl (UniqueViolation k)"
  using games_table.insert_no_clash [of gs "filter (\<lambda>r. gr_spec_id r \<noteq> i) (minigame_catalog d)" "(i, u, n)" k]
    collectibles_table.insert_no_clash [of cs "filter (\<lambda>r. cl_spec_id r \<noteq> i) (collectible_catalog d)" "(i, u, n)" k]
    hats_table.insert_no_clash [of hs "filter (\<lambda>r. ht_spec_id r \<noteq> i) (hat_catalog d)" "(i, u, n)" k]
  by (auto simp: replace_games_in_tx_def replace_collectibles_in_tx_def replace_hats_in_tx_def
      game_to_row_def collectible_to_row_def hat_to_row_def split: sum.splits)

lemma upsert_spec_row_no_unique:
  "fst (upsert_spec_row t user nm spec th d) \<noteq> Inl (UniqueViolation k)"
  by (auto simp: upsert_spec_row_def Let_def varchar_col_def split: sum.splits option.splits if_splits)

lemma replace_rest_owned:
  "replace_collectibles_in_tx i u n cs d = (Inr x, d') \<Longrightarrow> catalogs_owned d' = catalogs_owned d"
  "replace_hats_in_tx i u n hs d = (Inr x2, d') \<Longrightarrow> catalogs_owned d' = catalogs_owned d"
  by (auto simp: replace_Inr catalogs_owned_def)

lemma replace_games_owned:
  "replace_games_in_tx i u n gs d = (Inr x, d') \<Longrightarrow> catalogs_owned d \<Longrightarrow>
   \<exists>s\<in>set (aux_specs d). sx_id s = i \<and> sx_user_id s = u \<and> sx_name_id s = n \<Longrightarrow> catalogs_owned d'"
  by (auto simp: replace_Inr catalogs_owned_def game_to_row_def dest!: insert_rows_Inr) blast

lemma fst_and_then_Inl:
  "fst (and_then m f d) = Inl e \<longleftrightarrow>
   fst (m d) = Inl e \<or> (\<exists>a d1. m d = (Inr a, d1) \<and> fst (f a d1) = Inl e)"
  by (auto simp: and_then_def split: prod.splits sum.splits)

text \<open>
  Saving a spec never fails because two entries of its catalogs clash, with each other or
  with the catalogs of another spec; and every catalog row still belongs to its spec's owner.
\<close>

theorem save_never_clashes:
  assumes ok: "specs_ok d" "catalogs_owned d"
  shows "fst (upsert_spec_and_catalogs t user nm spec d) \<noteq> Inl (UpsertDatabase (UniqueViolation k)) \<and>
    catalogs_owned (snd (upsert_spec_and_catalogs t user nm spec d))"
proof (cases "\<exists>gs cs hs. parse_catalog_games (strip_injected_spec_id spec) = Inr gs \<and>
    parse_catalog_collectibles (strip_injected_spec_id spec) = Inr cs \<and>
    parse_catalog_hats (strip_injected_spec_id spec) = Inr hs")
  case False
  then show ?thesis
    using ok by (auto simp: upsert_spec_and_catalogs_def Let_def split: sum.splits)
next
  case True
  then obtain gs cs hs where
    p: "parse_catalog_games (strip_injected_spec_id spec) = Inr gs"
      "parse_catalog_collectibles (strip_injected_spec_id spec) = Inr cs"
      "parse_catalog_hats (strip_injected_spec_id spec) = Inr hs" by blast
  note slugs = games_parser.distinct_slugs [OF p(1)] collectibles_parser.distinct_slugs [OF p(2)]
    hats_parser.distinct_slugs [OF p(3)]
  define m :: "('a wf_db_scheme, db_error, int) db_action" where
    "m = and_then (upsert_spec_row t user nm (strip_injected_spec_id spec)
            (listing_threshold_from_spec (strip_injected_spec_id spec))) (\<lambda>i.
         and_then (replace_games_in_tx i user (name_col nm) gs) (\<lambda>_.
         and_then (replace_collectibles_in_tx i user (name_col nm) cs) (\<lambda>_.
         and_then (replace_hats_in_tx i user (name_col nm) hs) (\<lambda>_. Ok i))))"
  have up: "upsert_spec_and_catalogs t user nm spec d = map_err UpsertDatabase (in_tx m) d"
    by (simp add: upsert_spec_and_catalogs_def Let_def p m_def)
  have "fst (m d) \<noteq> Inl (UniqueViolation k)"
  proof -
    have g: "fst (replace_games_in_tx i user (name_col nm) gs d1) \<noteq> Inl (UniqueViolation k)"
      if "upsert_spec_row t user nm (strip_injected_spec_id spec)
        (listing_threshold_from_spec (strip_injected_spec_id spec)) d = (Inr i, d1)" for i d1
      using upsert_spec_row_owner [OF ok that] by (intro replace_no_unique_violation slugs) auto
    note c = replace_no_unique_violation(2) [OF slugs(2)] and h = replace_no_unique_violation(3) [OF slugs(3)]
    show ?thesis
      unfolding m_def fst_and_then_Inl by (simp add: upsert_spec_row_no_unique c h) (use g in blast)
  qed
  moreover have "catalogs_owned d'" if m: "m d = (Inr i, d')" for i d'
  proof -
    obtain d1 d2 d3 x1 x2 x3 where
      "upsert_spec_row t user nm (strip_injected_spec_id spec)
         (listing_threshold_from_spec (strip_injected_spec_id spec)) d = (Inr i, d1)"
      "replace_games_in_tx i user (name_col nm) gs d1 = (Inr x1, d2)"
      "replace_collectibles_in_tx i user (name_col nm) cs d2 = (Inr x2, d3)"
      "replace_hats_in_tx i user (name_col nm) hs d3 = (Inr x3, d')"
      using m unfolding m_def and_then_Inr by auto
    then show ?thesis
      using upsert_spec_row_owner [OF ok] replace_games_owned replace_rest_owned by metis
  qed
  ultimately show ?thesis
    using ok(2) unfolding up map_err_def in_tx_def by (auto split: prod.splits sum.splits)
qed

theorem save_never_clashes_witness:
  "fst (upsert_spec_and_catalogs 12 7 ''b'' sample_spec saved_db) \<noteq> Inl (UpsertDatabase
     (UniqueViolation ''minigame_catalog_user_id_name_id_slug_key''))"
proof -
  have "specs_ok saved_db"
    using binding_step_keeps [OF saved_db_step sample_db_ok] by (simp add: bindings_ok_def)
  moreover have "catalogs_owned saved_db" by code_simp
  ultimately show ?thesis using save_never_clashes by blast
qed

section \<open>Binding by the published comment\<close>

lemma write_comment_usable:
  assumes w: "write_comment_bind env now m (sx_id s) s replaced d = (Inr r, d')"
  shows "ab_spec_id r = sx_id s \<and> (\<exists>b. find_bind m d' = Some b \<and> lb_spec_id b = sx_id s \<and>
    is_current env b s \<and> is_verified b s)"
proof -
  obtain gs cs hs where cats: "parse_catalogs (sx_spec s) = Inr (gs, cs, hs)"
    using w by (auto simp: write_comment_bind_def split: sum.splits)
  obtain d1 d2 x1 x2 x3 where steps:
    "upsert_comment_bind now m (sx_id s) (sx_user_id s) d = (Inr x1, d1)"
    "(if replaced then db (purge_map_equipment_in_tx env m) else Ok []) d1 = (Inr x2, d2)"
    "materialize env m (sx_id s) s gs cs hs d2 = (Inr x3, d')" "ab_spec_id r = sx_id s"
    using w unfolding write_comment_bind_def cats sum.case prod.case and_then_Inr db_def map_err_Inr_iff
    by auto
  let ?row = "\<lparr>lb_map_uid = m, lb_spec_id = sx_id s, lb_verified_author_id = Some (sx_user_id s),
    lb_author_verified_at = Some now, lb_materialized_spec_updated_at = None,
    lb_materialized_spec_hash = None\<rparr>"
  have "find_bind m d1 = Some ?row"
  proof (cases "find_bind m d")
    case None
    then show ?thesis using steps(1) unfolding upsert_comment_bind_def Let_def
      by (auto simp: find_bind_def find_append split: sum.splits dest!: uid_col_Inr)
  next
    case (Some b)
    then show ?thesis using steps(1) find_bind_in [OF Some] unfolding upsert_comment_bind_def Let_def
      by (auto simp: find_bind_def find_upd_where split: sum.splits dest!: uid_col_Inr)
  qed
  then have "find_bind m d2 = Some ?row"
    using maybe_purge_Inr [OF steps(2)] by (auto simp: find_bind_def)
  then show ?thesis
    using materialize_current [OF steps(3)] steps(4) by (simp add: is_verified_def)
qed

text \<open>
  A bind from the published comment that succeeds leaves the map bound to the spec the
  comment names, verified and current, whatever the map was bound to before.
\<close>

theorem comment_bind_follows_comment:
  assumes ok: "bindings_ok env d" and run: "commit_comment_bind env t m i d = (Inr r, d')"
  shows "ab_spec_id r = i \<and> resolve_bound_spec env m i d' = Some i"
proof (cases "\<exists>s replaced. find_spec i d = Some s \<and> write_comment_bind env t m i s replaced d = (Inr r, d')")
  case True
  then obtain s replaced where s: "s \<in> set (aux_specs d)" "sx_id s = i" "find_spec i d = Some s"
    and w: "write_comment_bind env t m (sx_id s) s replaced d = (Inr r, d')"
    using find_spec_in by blast
  have "aux_specs d' = aux_specs d"
    using write_comment_rebound [OF w keys_of_ok [OF ok]] by (simp add: rebound_def)
  then show ?thesis
    using write_comment_usable [OF w] s by (auto simp: resolve_bound_spec_def bind_join_def find_spec_def)
next
  case False
  with run show ?thesis
    unfolding commit_comment_bind_def Let_def in_tx_Inr_iff
    by (auto simp: bind_join_def resolve_bound_spec_def split: option.splits if_splits prod.splits)
qed

theorem comment_bind_follows_comment_witness:
  "resolve_bound_spec sample_env ''N'' 1 (snd (commit_comment_bind sample_env 15 ''N'' 1 bound_db)) = Some 1"
proof -
  have run: "commit_comment_bind sample_env 15 ''N'' 1 bound_db =
      (Inr \<lparr>ab_spec_id = 1, ab_removed_hat_wearers = [], ab_materialized = True, ab_replaced_previous = False\<rparr>,
       snd (commit_comment_bind sample_env 15 ''N'' 1 bound_db))" by code_simp
  show ?thesis
    using comment_bind_follows_comment [OF binding_reach_keeps [OF bound_db_reach sample_db_ok] run] by blast
qed

definition worn_db :: wf_db where
  "worn_db = bound_db\<lparr>hat_unlocks := [\<lparr>hu_user_id = 7, hu_key = take 16 (rev (sample_map @ '':h:cap'')),
       hu_map_uid = sample_map, hu_slug = ''cap'', hu_unlocked_at = 12\<rparr>],
     hat_equipped := [\<lparr>hq_user_id = 7, hq_map_uid = sample_map, hq_slug = ''cap'',
       hq_key = take 16 (rev (sample_map @ '':h:cap'')), hq_updated_at = 13\<rparr>]\<rparr>"

definition hatless_db :: wf_db where
  "hatless_db = snd (upsert_spec_and_catalogs 14 7 ''a'' (JObj [(''v'', JStr ''2'')]) worn_db)"

text \<open>
  When the spec of a bound map loses a hat, a rebind by the author reports the players who
  wore it, so that others see the hat go; the rebind by the comment takes the hat off the same
  player and reports nobody.
\<close>

theorem comment_rebind_unreported_wearers:
  "hat_equipped (snd (commit_comment_bind sample_env 15 sample_map 1 hatless_db)) = [] \<and>
   map_option ab_removed_hat_wearers (case fst (commit_comment_bind sample_env 15 sample_map 1 hatless_db) of
     Inl _ \<Rightarrow> None | Inr r \<Rightarrow> Some r) = Some [] \<and>
   hat_equipped (snd (commit_authoritative_bind sample_env 15 None 7 sample_map 1 hatless_db)) = [] \<and>
   map_option (map hom_name \<circ> ab_removed_hat_wearers)
     (case fst (commit_authoritative_bind sample_env 15 None 7 sample_map 1 hatless_db) of
        Inl _ \<Rightarrow> None | Inr r \<Rightarrow> Some r) = Some [''ann'']"
  by code_simp

end
