(* ===== verification/Minigames.thy ===== *)
theory Minigames
  imports Sample_World
begin

text \<open>
  Minigame attempts and leaderboards: the gameplay half of \<open>src/queries/minigames.rs\<close> and its
  handlers in \<open>src/server2.rs\<close>.  Every attempt is logged, and the best finish of a player is
  kept in \<open>minigame_pb\<close>, with the best the lowest score for \<open>Sprint\<close> and the highest for every
  other kind.

  Where a query does not order equal scores, the model keeps the order of the table.
\<close>

section \<open>Reporting an attempt\<close>

definition find_game :: "string \<Rightarrow> string \<Rightarrow> 'z wf_db_scheme \<Rightarrow> game_on_map option" where
  "find_game map_uid slug d =
     List.find (\<lambda>g. gm_map_uid g = map_uid \<and> gm_slug g = slug) (minigame_on_map d)"

definition lower_is_better :: "game_on_map \<Rightarrow> bool" where
  "lower_is_better g \<longleftrightarrow> gm_kind g = ''Sprint''"

definition is_pb_of :: "uuid \<Rightarrow> string \<Rightarrow> pb_row \<Rightarrow> bool" where
  "is_pb_of user key p \<longleftrightarrow> pb_user_id p = user \<and> pb_key p = key"

definition insert_attempt ::
    "attempt_row \<Rightarrow> ('z wf_db_scheme, db_error, unit) db_action" where
  "insert_attempt a d =
     (if at_status a \<notin> {''finish'', ''cancel''} then (Inl (CheckViolation ''minigame_attempt_status_check''), d)
      else if at_status a = ''finish'' \<and> at_elapsed_ms a < 0
      then (Inl (CheckViolation ''minigame_attempt_finish_score_nonnegative_check''), d)
      else if \<not> has_user (at_user_id a) d
      then (Inl (ForeignKeyViolation ''minigame_attempt_user_id_fkey''), d)
      else (Inr (), d\<lparr>minigame_attempt := minigame_attempt d @ [a]\<rparr>))"

text \<open>An \<open>UPDATE\<close> of the rows of one player and key; the row constraints are checked on each.\<close>

definition update_pb ::
    "uuid \<Rightarrow> string \<Rightarrow> (pb_row \<Rightarrow> pb_row) \<Rightarrow> ('z wf_db_scheme, db_error, unit) db_action" where
  "update_pb user key f d =
     (let new = map f (filter (is_pb_of user key) (minigame_pb d))
      in if \<exists>p\<in>set new. pb_attempt_count p > i32_max \<or> pb_finish_count p > i32_max then (Inl OutOfRange, d)
         else if \<exists>p\<in>set new. pb_score p < 0 then (Inl (CheckViolation ''minigame_pb_score_nonnegative_check''), d)
         else (Inr (), d\<lparr>minigame_pb := upd_where (is_pb_of user key) f (minigame_pb d)\<rparr>))"

definition upsert_pb ::
    "nat \<Rightarrow> uuid \<Rightarrow> string \<Rightarrow> string \<Rightarrow> string \<Rightarrow> ('z wf_db_scheme, db_error, unit) db_action" where
  "upsert_pb now user key map_uid slug d =
     (if \<exists>p\<in>set (minigame_pb d). is_pb_of user key p
      then update_pb user key
             (\<lambda>p. p\<lparr>pb_attempt_count := pb_attempt_count p + 1, pb_last_played := now\<rparr>) d
      else (Inr (), d\<lparr>minigame_pb := minigame_pb d @
             [\<lparr>pb_user_id = user, pb_key = key, pb_map_uid = map_uid, pb_slug = slug, pb_score = 0,
               pb_finish_count = 0, pb_attempt_count = 1, pb_last_played = now, pb_updated_at = now\<rparr>]\<rparr>))"

definition improves :: "bool \<Rightarrow> int \<Rightarrow> pb_row \<Rightarrow> bool" where
  "improves lower score p \<longleftrightarrow>
     pb_finish_count p = 0 \<or> (lower \<and> pb_score p > score) \<or> (\<not> lower \<and> pb_score p < score)"

text \<open>
  The conditional update and, when it finds no row, the count alone.  The player has one row for
  the key, so both are one update.
\<close>

definition record_finish ::
    "nat \<Rightarrow> uuid \<Rightarrow> string \<Rightarrow> bool \<Rightarrow> int \<Rightarrow> ('z wf_db_scheme, db_error, unit) db_action" where
  "record_finish now user key lower score d =
     (if \<exists>p\<in>set (minigame_pb d). is_pb_of user key p \<and> improves lower score p
      then update_pb user key (\<lambda>p. if improves lower score p
             then p\<lparr>pb_score := score, pb_finish_count := pb_finish_count p + 1, pb_updated_at := now\<rparr>
             else p) d
      else update_pb user key (\<lambda>p. p\<lparr>pb_finish_count := pb_finish_count p + 1\<rparr>) d)"

definition report_attempt ::
    "wf_env \<Rightarrow> nat \<Rightarrow> uuid \<Rightarrow> string \<Rightarrow> string \<Rightarrow> int \<Rightarrow> int \<Rightarrow> string \<Rightarrow>
     ('z wf_db_scheme, db_error, unit) db_action" where
  "report_attempt env now user map_uid slug spec_id elapsed_ms status =
     (if status = ''finish'' \<and> elapsed_ms < 0 then Ok ()
      else in_tx (\<lambda>d.
        if \<not> lock_materialized_spec env map_uid spec_id d then Ok () d
        else
          (case find_game map_uid slug d of
             None \<Rightarrow> Ok () d
           | Some g \<Rightarrow>
               and_then (insert_attempt \<lparr>at_user_id = user, at_key = gm_key g, at_map_uid = map_uid,
                   at_slug = slug, at_elapsed_ms = elapsed_ms, at_status = status, at_created_at = now\<rparr>) (\<lambda>_.
               and_then (upsert_pb now user (gm_key g) map_uid slug) (\<lambda>_.
               if status = ''finish''
               then record_finish now user (gm_key g) (lower_is_better g) elapsed_ms
               else Ok ())) d)))"

text \<open>The handler: the guards on the request, then the unlocked check of the binding.\<close>

definition report_minigame_attempt ::
    "wf_env \<Rightarrow> nat \<Rightarrow> uuid \<Rightarrow> string \<Rightarrow> string \<Rightarrow> int \<Rightarrow> int \<Rightarrow> string \<Rightarrow>
     ('z wf_db_scheme, api_error, unit) db_action" where
  "report_minigame_attempt env now user map_uid slug spec_id elapsed_ms status d =
     (if length map_uid \<noteq> 27 then Ok () d
      else if spec_id \<le> 0 then Ok () d
      else if status \<noteq> ''finish'' \<and> status \<noteq> ''cancel'' then Ok () d
      else
        (case resolve_bound_spec env map_uid spec_id d of
           None \<Rightarrow> Ok () d
         | Some i \<Rightarrow> map_err SqlxErr (report_attempt env now user map_uid slug i elapsed_ms status) d))"

section \<open>Leaderboards\<close>

text \<open>The rows of a minigame's leaderboard: finished, not shadow-banned.\<close>

definition lb_rows :: "string \<Rightarrow> 'z wf_db_scheme \<Rightarrow> pb_row list" where
  "lb_rows key d = filter (\<lambda>p. pb_key p = key \<and> pb_user_id p \<notin> set (shadow_bans d) \<and> 0 < pb_finish_count p)
     (minigame_pb d)"

definition lb_score :: "bool \<Rightarrow> pb_row \<Rightarrow> int" where
  "lb_score lower p = (if lower then pb_score p else - pb_score p)"

definition lb_rank :: "bool \<Rightarrow> pb_row list \<Rightarrow> pb_row \<Rightarrow> nat" where
  "lb_rank lower rows p = 1 + length (filter (\<lambda>q. lb_score lower q < lb_score lower p) rows)"

text \<open>
  The name is joined from the user's row, which the foreign keys guarantee; without one the name
  is empty.
\<close>

definition lb_entry :: "wf_env \<Rightarrow> bool \<Rightarrow> pb_row list \<Rightarrow> 'z wf_db_scheme \<Rightarrow> pb_row \<Rightarrow> minigame_lb_entry" where
  "lb_entry env lower rows d p =
     \<lparr>mle_rank = nat (as_u32 (int (lb_rank lower rows p))), mle_wsid = we_show_uuid env (pb_user_id p),
      mle_name = (case find_user (pb_user_id p) d of None \<Rightarrow> [] | Some u \<Rightarrow> ur_display_name u),
      mle_score = pb_score p, mle_ts = unix_seconds (pb_updated_at p)\<rparr>"

definition ranked_entries :: "wf_env \<Rightarrow> string \<Rightarrow> string \<Rightarrow> 'z wf_db_scheme \<Rightarrow> minigame_lb_entry list" where
  "ranked_entries env map_uid slug d =
     (case find_game map_uid slug d of
        None \<Rightarrow> []
      | Some g \<Rightarrow>
          let rows = lb_rows (gm_key g) d
          in map (lb_entry env (lower_is_better g) rows d) (sort_key (lb_score (lower_is_better g)) rows))"

definition get_minigame_leaderboard ::
    "wf_env \<Rightarrow> string \<Rightarrow> string \<Rightarrow> int \<Rightarrow> int \<Rightarrow> 'z wf_db_scheme \<Rightarrow> db_error + minigame_lb_entry list" where
  "get_minigame_leaderboard env map_uid slug start stop d =
     (let limit = max (as_i64 (stop - start)) 0
      in if start < 0 then Inl InvalidRowCount
         else Inr (take (nat limit) (drop (nat start) (ranked_entries env map_uid slug d))))"

definition get_minigame_leaderboard_len :: "string \<Rightarrow> string \<Rightarrow> 'z wf_db_scheme \<Rightarrow> nat" where
  "get_minigame_leaderboard_len map_uid slug d =
     (case find_game map_uid slug d of None \<Rightarrow> 0 | Some g \<Rightarrow> length (lb_rows (gm_key g) d))"

definition get_minigame_my_rank ::
    "wf_env \<Rightarrow> string \<Rightarrow> string \<Rightarrow> uuid \<Rightarrow> 'z wf_db_scheme \<Rightarrow> minigame_lb_entry option" where
  "get_minigame_my_rank env map_uid slug user d =
     (case find_game map_uid slug d of
        None \<Rightarrow> None
      | Some g \<Rightarrow>
          let rows = lb_rows (gm_key g) d
          in map_option (lb_entry env (lower_is_better g) rows d) (List.find (\<lambda>p. pb_user_id p = user) rows))"

definition get_minigame_leaderboard_page ::
    "wf_env \<Rightarrow> string \<Rightarrow> string \<Rightarrow> nat \<Rightarrow> 'z wf_db_scheme \<Rightarrow> db_error + minigame_lb_entry list" where
  "get_minigame_leaderboard_page env map_uid slug page d =
     (let start = int page * 100
      in get_minigame_leaderboard env map_uid slug start (start + 100) d)"

definition get_minigame_list :: "wf_env \<Rightarrow> string \<Rightarrow> 'z wf_db_scheme \<Rightarrow> minigame_list_game list" where
  "get_minigame_list env map_uid d =
     map (\<lambda>g. \<lparr>mlg_slug = gm_slug g, mlg_kind = gm_kind g, mlg_name = gm_name g, mlg_key = trim (gm_key g)\<rparr>)
       (sort_key (\<lambda>g. we_collate env (gm_slug g)) (filter (\<lambda>g. gm_map_uid g = map_uid) (minigame_on_map d)))"

text \<open>The handlers of the read requests: what they put on the connection's queue.\<close>

definition send_minigame_lb ::
    "wf_env \<Rightarrow> string \<Rightarrow> string \<Rightarrow> int \<Rightarrow> int \<Rightarrow> 'z wf_db_scheme \<Rightarrow> api_error + response" where
  "send_minigame_lb env map_uid slug start stop d =
     (case get_minigame_leaderboard env map_uid slug start stop d of
        Inl e \<Rightarrow> Inl (SqlxErr e) | Inr es \<Rightarrow> Inr (RMinigameLB map_uid slug es))"

definition send_minigame_my_rank :: "wf_env \<Rightarrow> string \<Rightarrow> string \<Rightarrow> uuid \<Rightarrow> 'z wf_db_scheme \<Rightarrow> response" where
  "send_minigame_my_rank env map_uid slug user d =
     RMinigameRank map_uid slug (get_minigame_my_rank env map_uid slug user d)"

definition send_minigame_list :: "wf_env \<Rightarrow> string \<Rightarrow> 'z wf_db_scheme \<Rightarrow> response" where
  "send_minigame_list env map_uid d = RMinigameList map_uid (get_minigame_list env map_uid d)"

section \<open>The log and the best\<close>

definition finishes :: "uuid \<Rightarrow> string \<Rightarrow> attempt_row list \<Rightarrow> int list" where
  "finishes user key as = map at_elapsed_ms
     (filter (\<lambda>a. at_user_id a = user \<and> at_key a = key \<and> at_status a = ''finish'') as)"

definition attempts_of :: "uuid \<Rightarrow> string \<Rightarrow> attempt_row list \<Rightarrow> attempt_row list" where
  "attempts_of user key as = filter (\<lambda>a. at_user_id a = user \<and> at_key a = key) as"

definition best :: "bool \<Rightarrow> int list \<Rightarrow> int" where
  "best lower xs = (if xs = [] then 0 else if lower then Min (set xs) else Max (set xs))"

definition pb_row_ok :: "(string \<Rightarrow> bool) \<Rightarrow> attempt_row list \<Rightarrow> pb_row \<Rightarrow> bool" where
  "pb_row_ok lower as p \<longleftrightarrow>
     (let fs = finishes (pb_user_id p) (pb_key p) as
      in pb_finish_count p = int (length fs) \<and>
         pb_attempt_count p = int (length (attempts_of (pb_user_id p) (pb_key p) as)) \<and>
         pb_score p = best (lower (pb_key p)) fs)"

text \<open>
  The table of bests is the summary of the log: one row for every player and key with an attempt,
  with the counts and the best of the finishes.  \<open>lower\<close> says for which keys a lower score wins.
\<close>

definition pb_ok :: "(string \<Rightarrow> bool) \<Rightarrow> 'z wf_db_scheme \<Rightarrow> bool" where
  "pb_ok lower d \<longleftrightarrow>
     distinct (map (\<lambda>p. (pb_user_id p, pb_key p)) (minigame_pb d)) \<and>
     (\<forall>p\<in>set (minigame_pb d). pb_row_ok lower (minigame_attempt d) p) \<and>
     (\<forall>a\<in>set (minigame_attempt d). \<exists>p\<in>set (minigame_pb d). is_pb_of (at_user_id a) (at_key a) p)"

lemma best_snoc:
  "best lower (xs @ [x]) = (if xs = [] \<or> (lower \<and> best lower xs > x) \<or> (\<not> lower \<and> best lower xs < x)
     then x else best lower xs)"
proof (cases "xs = []")
  case False
  have "set (xs @ [x]) = insert x (set xs)" by auto
  moreover define lo hi where "lo = Min (set xs)" and "hi = Max (set xs)"
  ultimately have "Min (set (xs @ [x])) = min x lo" "Max (set (xs @ [x])) = max x hi"
    using False by simp_all
  then show ?thesis
    unfolding best_def lo_def [symmetric] hi_def [symmetric] using False
    by (auto simp: min_def max_def simp del: set_append split: if_splits)
qed (simp add: best_def)

lemma pb_row_ok_other:
  "(at_user_id a, at_key a) \<noteq> (pb_user_id p, pb_key p) \<Longrightarrow>
   pb_row_ok lower (as @ [a]) p = pb_row_ok lower as p"
  by (auto simp: pb_row_ok_def finishes_def attempts_of_def)

text \<open>What one accepted attempt does to the row of its player and key.\<close>

definition bump :: "nat \<Rightarrow> bool \<Rightarrow> bool \<Rightarrow> int \<Rightarrow> pb_row \<Rightarrow> pb_row" where
  "bump now lower finished score p =
     (let p1 = p\<lparr>pb_attempt_count := pb_attempt_count p + 1, pb_last_played := now\<rparr>
      in if \<not> finished then p1
         else if improves lower score p1
         then p1\<lparr>pb_score := score, pb_finish_count := pb_finish_count p1 + 1, pb_updated_at := now\<rparr>
         else p1\<lparr>pb_finish_count := pb_finish_count p1 + 1\<rparr>)"

lemma bump_key [simp]:
  "pb_user_id (bump now lower fin e p) = pb_user_id p" "pb_key (bump now lower fin e p) = pb_key p"
  by (simp_all add: bump_def Let_def)

lemma bump_ok:
  assumes "pb_row_ok lower as p" and "at_user_id a = pb_user_id p" "at_key a = pb_key p"
  shows "pb_row_ok lower (as @ [a])
    (bump now (lower (pb_key p)) (at_status a = ''finish'') (at_elapsed_ms a) p)"
  using assms
  by (auto simp: pb_row_ok_def bump_def Let_def improves_def finishes_def attempts_of_def best_snoc)

text \<open>The table after an accepted attempt, provided its keys are unique.\<close>

lemma is_pb_of_iff: "is_pb_of user key p \<longleftrightarrow> (pb_user_id p, pb_key p) = (user, key)"
  by (auto simp: is_pb_of_def)

lemma update_pb_Inr:
  "update_pb user key f d = (Inr x, d') \<Longrightarrow> d' = d\<lparr>minigame_pb := upd_where (is_pb_of user key) f (minigame_pb d)\<rparr>"
  by (auto simp: update_pb_def Let_def split: if_splits)

lemma insert_attempt_Inr:
  "insert_attempt a d = (Inr x, d') \<Longrightarrow> d' = d\<lparr>minigame_attempt := minigame_attempt d @ [a]\<rparr>"
  by (auto simp: insert_attempt_def split: if_splits)

lemma distinct_key_eq:
  "distinct (map k xs) \<Longrightarrow> x \<in> set xs \<Longrightarrow> y \<in> set xs \<Longrightarrow> k x = k y \<Longrightarrow> x = y"
  by (metis distinct_map inj_onD)

lemma record_finish_Inr:
  assumes r: "record_finish now user key lower e d = (Inr x, d')"
    and keys: "distinct (map (\<lambda>p. (pb_user_id p, pb_key p)) (minigame_pb d))"
  shows "d' = d\<lparr>minigame_pb := upd_where (is_pb_of user key)
    (\<lambda>p. if improves lower e p
      then p\<lparr>pb_score := e, pb_finish_count := pb_finish_count p + 1, pb_updated_at := now\<rparr>
      else p\<lparr>pb_finish_count := pb_finish_count p + 1\<rparr>) (minigame_pb d)\<rparr>"
proof (cases "\<exists>p\<in>set (minigame_pb d). is_pb_of user key p \<and> improves lower e p")
  case True
  then obtain p where p: "p \<in> set (minigame_pb d)" "is_pb_of user key p" "improves lower e p" by blast
  have "improves lower e q" if "q \<in> set (minigame_pb d)" "is_pb_of user key q" for q
    using distinct_key_eq [OF keys p(1) that(1)] p(2,3) that(2) by (simp add: is_pb_of_iff)
  then have "upd_where (is_pb_of user key) (\<lambda>p. if improves lower e p
        then p\<lparr>pb_score := e, pb_finish_count := pb_finish_count p + 1, pb_updated_at := now\<rparr> else p) (minigame_pb d) =
      upd_where (is_pb_of user key) (\<lambda>p. if improves lower e p
        then p\<lparr>pb_score := e, pb_finish_count := pb_finish_count p + 1, pb_updated_at := now\<rparr>
        else p\<lparr>pb_finish_count := pb_finish_count p + 1\<rparr>) (minigame_pb d)"
    by (auto simp: upd_where_def)
  with update_pb_Inr [OF r [unfolded record_finish_def if_P [OF True]]] show ?thesis by simp
next
  case False
  then have "upd_where (is_pb_of user key) (\<lambda>p. p\<lparr>pb_finish_count := pb_finish_count p + 1\<rparr>) (minigame_pb d) =
      upd_where (is_pb_of user key) (\<lambda>p. if improves lower e p
        then p\<lparr>pb_score := e, pb_finish_count := pb_finish_count p + 1, pb_updated_at := now\<rparr>
        else p\<lparr>pb_finish_count := pb_finish_count p + 1\<rparr>) (minigame_pb d)"
    by (auto simp: upd_where_def)
  with update_pb_Inr [OF r [unfolded record_finish_def if_not_P [OF False]]] show ?thesis by simp
qed

definition new_pb :: "nat \<Rightarrow> uuid \<Rightarrow> string \<Rightarrow> string \<Rightarrow> string \<Rightarrow> pb_row" where
  "new_pb now user key map_uid slug =
     \<lparr>pb_user_id = user, pb_key = key, pb_map_uid = map_uid, pb_slug = slug, pb_score = 0,
      pb_finish_count = 0, pb_attempt_count = 0, pb_last_played = now, pb_updated_at = now\<rparr>"

definition pb_rows_after :: "uuid \<Rightarrow> string \<Rightarrow> (pb_row \<Rightarrow> pb_row) \<Rightarrow> pb_row \<Rightarrow> pb_row list \<Rightarrow> pb_row list" where
  "pb_rows_after user key f new ps =
     (if \<exists>p\<in>set ps. is_pb_of user key p then upd_where (is_pb_of user key) f ps else ps @ [f new])"

lemma upd_pb_rows_after:
  "(\<And>p. is_pb_of user key p \<Longrightarrow> is_pb_of user key (f p)) \<Longrightarrow> is_pb_of user key (f n) \<Longrightarrow>
   upd_where (is_pb_of user key) g (pb_rows_after user key f n ps) =
     pb_rows_after user key (\<lambda>p. g (f p)) n ps"
  by (auto simp: pb_rows_after_def upd_where_def map_idI)

lemma upsert_pb_Inr:
  "upsert_pb now user key m slug d = (Inr x, d') \<Longrightarrow>
   d' = d\<lparr>minigame_pb := pb_rows_after user key
     (\<lambda>p. p\<lparr>pb_attempt_count := pb_attempt_count p + 1, pb_last_played := now\<rparr>)
     (new_pb now user key m slug) (minigame_pb d)\<rparr>"
  by (auto simp: upsert_pb_def pb_rows_after_def new_pb_def split: if_splits dest: update_pb_Inr)

lemma pb_rows_after_keys:
  assumes "distinct (map (\<lambda>p. (pb_user_id p, pb_key p)) ps)" "is_pb_of user key new"
    and f: "\<And>p. pb_user_id (f p) = pb_user_id p" "\<And>p. pb_key (f p) = pb_key p"
  shows "distinct (map (\<lambda>p. (pb_user_id p, pb_key p)) (pb_rows_after user key f new ps))"
  using assms by (auto simp: pb_rows_after_def map_upd_where is_pb_of_def)

lemma attempt_rows:
  assumes run: "and_then (insert_attempt a) (\<lambda>_. and_then (upsert_pb now user key m slug) (\<lambda>_.
      if fin then record_finish now user key lower e else Ok ())) d = (Inr x, d')"
    and keys: "distinct (map (\<lambda>p. (pb_user_id p, pb_key p)) (minigame_pb d))"
  shows "minigame_attempt d' = minigame_attempt d @ [a] \<and> minigame_on_map d' = minigame_on_map d \<and>
    minigame_pb d' = pb_rows_after user key (bump now lower fin e) (new_pb now user key m slug) (minigame_pb d)"
proof -
  let ?f = "\<lambda>p. p\<lparr>pb_attempt_count := pb_attempt_count p + 1, pb_last_played := now\<rparr>"
  let ?n = "new_pb now user key m slug"
  obtain d1 d2 x1 x2 where s: "insert_attempt a d = (Inr x1, d1)"
    "upsert_pb now user key m slug d1 = (Inr x2, d2)"
    "(if fin then record_finish now user key lower e else Ok ()) d2 = (Inr x, d')"
    using run unfolding and_then_Inr by blast
  note d1 = insert_attempt_Inr [OF s(1)] and d2 = upsert_pb_Inr [OF s(2)]
  have n: "is_pb_of user key ?n" by (simp add: is_pb_of_def new_pb_def)
  have keys2: "distinct (map (\<lambda>p. (pb_user_id p, pb_key p)) (minigame_pb d2))"
    using pb_rows_after_keys [OF keys n, of ?f] by (simp add: d1 d2)
  show ?thesis
  proof (cases fin)
    case True
    let ?g = "\<lambda>p. if improves lower e p
      then p\<lparr>pb_score := e, pb_finish_count := pb_finish_count p + 1, pb_updated_at := now\<rparr>
      else p\<lparr>pb_finish_count := pb_finish_count p + 1\<rparr>"
    have b: "(\<lambda>p. ?g (?f p)) = bump now lower True e" by (rule ext) (simp add: bump_def Let_def)
    have "d' = d2\<lparr>minigame_pb := upd_where (is_pb_of user key) ?g (minigame_pb d2)\<rparr>"
      using record_finish_Inr [OF _ keys2] s(3) True by auto
    moreover have "upd_where (is_pb_of user key) ?g (pb_rows_after user key ?f ?n (minigame_pb d)) =
        pb_rows_after user key (\<lambda>p. ?g (?f p)) ?n (minigame_pb d)"
      using n by (intro upd_pb_rows_after) (simp_all add: is_pb_of_def)
    ultimately show ?thesis using True unfolding b by (simp add: d1 d2)
  next
    case False
    moreover have "?f = bump now lower False e" by (rule ext) (simp add: bump_def Let_def)
    ultimately show ?thesis using s(3) by (auto simp: d1 d2)
  qed
qed

lemma new_pb_ok:
  "attempts_of user key as = [] \<Longrightarrow> pb_row_ok lower as (new_pb now user key m slug)"
  by (auto simp: pb_row_ok_def new_pb_def finishes_def attempts_of_def best_def filter_empty_conv Let_def)

lemma pb_ok_attempt:
  assumes ok: "pb_ok lower d" and a: "at_user_id a = user" "at_key a = key"
    and d': "minigame_attempt d' = minigame_attempt d @ [a]"
      "minigame_pb d' = pb_rows_after user key
         (bump now (lower key) (at_status a = ''finish'') (at_elapsed_ms a)) (new_pb now user key m slug) (minigame_pb d)"
  shows "pb_ok lower d'"
proof -
  let ?n = "new_pb now user key m slug"
  let ?f = "bump now (lower key) (at_status a = ''finish'') (at_elapsed_ms a)"
  have n: "pb_user_id ?n = user" "pb_key ?n = key" by (simp_all add: new_pb_def)
  have keys: "distinct (map (\<lambda>p. (pb_user_id p, pb_key p)) (minigame_pb d))"
    and rows: "\<And>p. p \<in> set (minigame_pb d) \<Longrightarrow> pb_row_ok lower (minigame_attempt d) p"
    and logged: "\<And>b. b \<in> set (minigame_attempt d) \<Longrightarrow>
      \<exists>p\<in>set (minigame_pb d). is_pb_of (at_user_id b) (at_key b) p"
    using ok by (auto simp: pb_ok_def)
  have new: "pb_row_ok lower (minigame_attempt d @ [a]) (?f p)"
    if "is_pb_of user key p" "pb_row_ok lower (minigame_attempt d) p" for p
    using bump_ok [OF that(2), of a now] that(1) a by (simp add: is_pb_of_def)
  have old: "pb_row_ok lower (minigame_attempt d @ [a]) p"
    if "\<not> is_pb_of user key p" "p \<in> set (minigame_pb d)" for p
    using rows [OF that(2)] that(1) a pb_row_ok_other [of a p] by (auto simp: is_pb_of_def)
  show ?thesis
  proof (cases "\<exists>p\<in>set (minigame_pb d). is_pb_of user key p")
    case True
    have pbs: "minigame_pb d' = upd_where (is_pb_of user key) ?f (minigame_pb d)"
      using True by (simp add: d' pb_rows_after_def)
    have "\<exists>p\<in>set (minigame_pb d'). is_pb_of (at_user_id b) (at_key b) p"
      if b: "b \<in> set (minigame_attempt d')" for b
    proof -
      obtain p where p: "p \<in> set (minigame_pb d)" "is_pb_of (at_user_id b) (at_key b) p"
        using b logged True a by (auto simp: d'(1))
      then show ?thesis
        by (intro bexI [of _ "if is_pb_of user key p then ?f p else p"])
           (auto simp: pbs set_upd_where is_pb_of_def)
    qed
    moreover have "distinct (map (\<lambda>p. (pb_user_id p, pb_key p)) (minigame_pb d'))"
      unfolding pbs by (rule distinct_map_upd_where) (simp_all add: keys)
    moreover have "\<forall>p\<in>set (minigame_pb d'). pb_row_ok lower (minigame_attempt d') p"
      using new old rows by (auto simp: pbs set_upd_where d'(1))
    ultimately show ?thesis by (simp add: pb_ok_def)
  next
    case False
    have pbs: "minigame_pb d' = minigame_pb d @ [?f ?n]" using False by (simp add: d' pb_rows_after_def)
    have "attempts_of user key (minigame_attempt d) = []"
      using logged False by (fastforce simp: attempts_of_def filter_empty_conv)
    then have "pb_row_ok lower (minigame_attempt d') (?f ?n)"
      unfolding d'(1) by (intro new new_pb_ok) (simp_all add: is_pb_of_def n)
    then show ?thesis
      using keys old False logged a n by (auto simp: pb_ok_def pbs d'(1) is_pb_of_def)
  qed
qed

section \<open>Properties\<close>

text \<open>
  C16. The table of personal bests is the summary of the attempt log: after any report, accepted
  or refused, each row counts the attempts and finishes of its player and minigame and holds the
  best finish, provided each minigame keeps its direction.
\<close>

theorem report_attempt_keeps_bests:
  assumes "pb_ok lower d" and "\<forall>g\<in>set (minigame_on_map d). lower_is_better g = lower (gm_key g)"
  shows "pb_ok lower (snd (report_minigame_attempt env now user m slug i e status d))"
proof (cases "snd (report_minigame_attempt env now user m slug i e status d) = d")
  case False
  let ?d = "snd (report_minigame_attempt env now user m slug i e status d)"
  obtain g where g: "find_game m slug d = Some g" and
    run: "and_then (insert_attempt \<lparr>at_user_id = user, at_key = gm_key g, at_map_uid = m,
        at_slug = slug, at_elapsed_ms = e, at_status = status, at_created_at = now\<rparr>) (\<lambda>_.
      and_then (upsert_pb now user (gm_key g) m slug) (\<lambda>_.
      if status = ''finish'' then record_finish now user (gm_key g) (lower_is_better g) e else Ok ())) d = (Inr (), ?d)"
    using False unfolding report_minigame_attempt_def report_attempt_def map_err_def in_tx_def
    by (auto split: if_splits option.splits prod.splits sum.splits)
  have "g \<in> set (minigame_on_map d)" using g unfolding find_game_def by (auto dest: find_Some_in)
  then have "lower_is_better g = lower (gm_key g)" using assms(2) by blast
  then show ?thesis
    using attempt_rows [OF run] assms(1)
    by (intro pb_ok_attempt [OF assms(1), of _ user "gm_key g"]) (auto simp: pb_ok_def)
qed (simp add: assms)

definition played_db :: wf_db where
  "played_db = snd (report_minigame_attempt sample_env 20 7 sample_map ''run'' 1 5000 ''finish'' bound_db)"

theorem report_attempt_keeps_bests_witness:
  "pb_ok (\<lambda>k. True) played_db \<and> map pb_score (minigame_pb played_db) = [5000]"
proof -
  have "pb_ok (\<lambda>k. True) bound_db" "\<forall>g\<in>set (minigame_on_map bound_db). lower_is_better g = True"
    by code_simp+
  from report_attempt_keeps_bests [OF this] have "pb_ok (\<lambda>k. True) played_db" by (simp add: played_db_def)
  moreover have "map pb_score (minigame_pb played_db) = [5000]" by code_simp
  ultimately show ?thesis by simp
qed

text \<open>
  A player's own rank is their row of the leaderboard: the two queries agree for every player,
  the ones without a finish and the shadow-banned included.
\<close>

theorem my_rank_is_leaderboard_row:
  assumes "pb_ok lower d" and "inj (we_show_uuid env)"
  shows "get_minigame_my_rank env m slug user d =
    List.find (\<lambda>e. mle_wsid e = we_show_uuid env user) (ranked_entries env m slug d)"
proof (cases "find_game m slug d")
  case (Some g)
  let ?rows = "lb_rows (gm_key g) d"
  let ?sorted = "sort_key (lb_score (lower_is_better g)) ?rows"
  let ?P = "\<lambda>p. pb_user_id p = user"
  have one: "p = q" if "p \<in> set ?rows" "q \<in> set ?rows" "?P p" "?P q" for p q
    using assms(1) that distinct_key_eq [of "\<lambda>p. (pb_user_id p, pb_key p)" "minigame_pb d" p q]
    by (auto simp: pb_ok_def lb_rows_def)
  have "List.find ?P ?sorted = List.find ?P ?rows"
  proof (cases "List.find ?P ?rows")
    case None
    then have "List.find ?P ?sorted = None" by (simp add: find_None_iff)
    with None show ?thesis by simp
  next
    case (Some p)
    then have p: "p \<in> set ?rows" "?P p" by (auto dest: find_Some_in)
    obtain q where q: "List.find ?P ?sorted = Some q"
      using p by (cases "List.find ?P ?sorted") (auto simp: find_None_iff)
    then have "q \<in> set ?rows" "?P q" by (auto dest!: find_Some_in)
    then show ?thesis using one [OF p(1) _ p(2)] Some q by auto
  qed
  moreover let ?f = "lb_entry env (lower_is_better g) ?rows d"
  have "List.find (\<lambda>e. mle_wsid e = we_show_uuid env user) (map ?f xs) = map_option ?f (List.find ?P xs)" for xs
    using assms(2) by (induction xs) (auto simp: inj_eq lb_entry_def)
  ultimately show ?thesis
    using Some by (simp add: get_minigame_my_rank_def ranked_entries_def Let_def)
qed (simp add: get_minigame_my_rank_def ranked_entries_def)

lemma inj_sample_show: "inj (we_show_uuid sample_env)"
  by (rule injI) (simp add: sample_env_def, metis length_replicate unsigned_word_eqI)

theorem my_rank_is_leaderboard_row_witness:
  "get_minigame_my_rank sample_env sample_map ''run'' 7 played_db =
     List.find (\<lambda>e. mle_wsid e = we_show_uuid sample_env 7) (ranked_entries sample_env sample_map ''run'' played_db) \<and>
   map_option mle_score (get_minigame_my_rank sample_env sample_map ''run'' 7 played_db) = Some 5000"
proof -
  have "pb_ok (\<lambda>k. True) played_db" by code_simp
  moreover have "map_option mle_score (get_minigame_my_rank sample_env sample_map ''run'' 7 played_db) = Some 5000"
    by code_simp
  ultimately show ?thesis using my_rank_is_leaderboard_row [OF _ inj_sample_show] by blast
qed

lemma concat_pages:
  "length xs \<le> k * n \<Longrightarrow> concat (map (\<lambda>i. take k (drop (i * k) xs)) [0..<n]) = xs"
proof (induction n arbitrary: xs)
  case (Suc n)
  have "concat (map (\<lambda>i. take k (drop (i * k) (drop k xs))) [0..<n]) = drop k xs"
    using Suc.prems by (intro Suc.IH) auto
  then show ?case by (simp add: upt_conv_Cons map_Suc_upt [symmetric] comp_def add.commute del: upt_Suc)
qed simp

lemma rank_mono:
  "lb_score lower p \<le> lb_score lower q \<Longrightarrow> lb_rank lower rows p \<le> lb_rank lower rows q"
  by (induction rows) (auto simp: lb_rank_def)

text \<open>
The pages of a leaderboard, put together, are all of it: as many entries as the length
  request says, in the order of their ranks, none of them twice or left out.
\<close>

theorem leaderboard_pages_cover:
  assumes "length (minigame_pb d) \<le> 100 * n" and "100 * n < 2 ^ 32"
  shows "\<exists>pages. map (\<lambda>i. get_minigame_leaderboard_page env m slug i d) [0..<n] = map Inr pages \<and>
    length (concat pages) = get_minigame_leaderboard_len m slug d \<and>
    sorted (map mle_rank (concat pages))"
proof -
  let ?es = "ranked_entries env m slug d"
  have page: "get_minigame_leaderboard_page env m slug i d = Inr (take 100 (drop (i * 100) ?es))"
    if "i < n" for i
  proof -
    have "as_i64 (int i * 100 + 100 - int i * 100) = 100" by (simp add: as_i64_def)
    then show ?thesis
      by (simp add: get_minigame_leaderboard_page_def get_minigame_leaderboard_def Let_def nat_mult_distrib)
  qed
  have len: "length ?es = get_minigame_leaderboard_len m slug d"
    by (simp add: ranked_entries_def get_minigame_leaderboard_len_def Let_def split: option.splits)
  have rows: "length (lb_rows key d) \<le> length (minigame_pb d)" for key by (simp add: lb_rows_def)
  have "get_minigame_leaderboard_len m slug d \<le> length (minigame_pb d)"
    using rows by (simp add: get_minigame_leaderboard_len_def split: option.splits)
  then have all: "concat (map (\<lambda>i. take 100 (drop (i * 100) ?es)) [0..<n]) = ?es"
    using assms(1) len by (intro concat_pages) simp
  have small: "nat (as_u32 (int (lb_rank l (lb_rows key d) p))) = lb_rank l (lb_rows key d) p"
    if p: "p \<in> set (lb_rows key d)" for l key p
  proof -
    have "length (filter (\<lambda>q. lb_score l q < lb_score l p) (lb_rows key d)) < length (lb_rows key d)"
      by (rule length_filter_less [OF p]) simp
    then have "lb_rank l (lb_rows key d) p \<le> length (lb_rows key d)" by (simp add: lb_rank_def)
    then have "lb_rank l (lb_rows key d) p < 2 ^ 32"
      using rows [of key] assms by (meson le_less_trans)
    then have "int (lb_rank l (lb_rows key d) p) < int (2 ^ 32)" by (simp only: of_nat_less_iff)
    then show ?thesis by (simp add: as_u32_def)
  qed
  have "sorted (map mle_rank ?es)"
  proof (cases "find_game m slug d")
    case (Some g)
    let ?l = "lower_is_better g" and ?rows = "lb_rows (gm_key g) d"
    let ?sorted = "sort_key (lb_score ?l) ?rows"
    have "map mle_rank ?es = map (lb_rank ?l ?rows) ?sorted"
      using Some small by (simp add: ranked_entries_def Let_def lb_entry_def)
    moreover have "sorted (map (lb_score ?l) ?sorted)" by (rule sorted_sort_key)
    then have "sorted (map (lb_rank ?l ?rows) ?sorted)"
      by (auto simp: sorted_iff_nth_mono rank_mono)
    ultimately show ?thesis by simp
  qed (simp add: ranked_entries_def)
  then show ?thesis
    using page all len by (intro exI [of _ "map (\<lambda>i. take 100 (drop (i * 100) ?es)) [0..<n]"]) simp
qed

theorem leaderboard_pages_cover_witness:
  "\<exists>pages. map (\<lambda>i. get_minigame_leaderboard_page sample_env sample_map ''run'' i played_db) [0..<1] = map Inr pages \<and>
    length (concat pages) = 1"
proof -
  have "length (minigame_pb played_db) \<le> 100 * 1" by code_simp
  moreover have "100 * 1 < (2 :: nat) ^ 32" by simp
  ultimately have "\<exists>pages. map (\<lambda>i. get_minigame_leaderboard_page sample_env sample_map ''run'' i played_db) [0..<1] = map Inr pages \<and>
      length (concat pages) = get_minigame_leaderboard_len sample_map ''run'' played_db"
    using leaderboard_pages_cover [of played_db 1 sample_env sample_map "''run''"] by blast
  moreover have "get_minigame_leaderboard_len sample_map ''run'' played_db = 1" by code_simp
  ultimately show ?thesis by simp
qed

end
