(* ===== verification/Collectibles.thy ===== *)
theory Collectibles
  imports Sample_World
begin

text \<open>
  Collectibles: the gameplay half of \<open>src/queries/collectibles.rs\<close> and its handlers in
  \<open>src/server2.rs\<close>.  A collectible is unlocked, then collected, each once and for good; the
  first collection is logged with the position it happened at.
\<close>

section \<open>Reports\<close>

definition find_collectible :: "string \<Rightarrow> string \<Rightarrow> 'z wf_db_scheme \<Rightarrow> collectible_on_map option" where
  "find_collectible map_uid slug d =
     List.find (\<lambda>c. cm_map_uid c = map_uid \<and> cm_slug c = slug) (collectibles_on_map d)"

definition lock_materialized_collectible ::
    "wf_env \<Rightarrow> string \<Rightarrow> int \<Rightarrow> string \<Rightarrow> 'z wf_db_scheme \<Rightarrow> collectible_on_map option" where
  "lock_materialized_collectible env map_uid spec_id slug d =
     (if \<not> lock_materialized_spec env map_uid spec_id d then None else find_collectible map_uid slug d)"

definition collect_log_source :: "string \<Rightarrow> string option" where
  "collect_log_source raw = (if raw = ''zone'' \<or> raw = ''grant'' then Some raw else None)"

definition is_progress_of :: "uuid \<Rightarrow> string \<Rightarrow> progress_row \<Rightarrow> bool" where
  "is_progress_of user key p \<longleftrightarrow> pg_user_id p = user \<and> pg_key p = key"

definition find_progress :: "uuid \<Rightarrow> string \<Rightarrow> 'z wf_db_scheme \<Rightarrow> progress_row option" where
  "find_progress user key d = List.find (is_progress_of user key) (collectible_progress d)"

definition coalesce :: "'a option \<Rightarrow> 'a \<Rightarrow> 'a" where
  "coalesce x y = (case x of None \<Rightarrow> y | Some a \<Rightarrow> a)"

text \<open>Insert a progress row, or on a conflict change the one there is.\<close>

definition upsert_progress ::
    "progress_row \<Rightarrow> (progress_row \<Rightarrow> progress_row) \<Rightarrow> ('z wf_db_scheme, db_error, unit) db_action" where
  "upsert_progress new f d =
     (if \<not> has_user (pg_user_id new) d
      then (Inl (ForeignKeyViolation ''collectible_progress_user_id_fkey''), d)
      else if find_progress (pg_user_id new) (pg_key new) d \<noteq> None
      then (Inr (), d\<lparr>collectible_progress :=
             upd_where (is_progress_of (pg_user_id new) (pg_key new)) f (collectible_progress d)\<rparr>)
      else (Inr (), d\<lparr>collectible_progress := collectible_progress d @ [new]\<rparr>))"

definition insert_collect_log ::
    "collect_log_row \<Rightarrow> ('z wf_db_scheme, db_error, unit) db_action" where
  "insert_collect_log r d =
     (if lg_source r \<notin> {''zone'', ''grant''}
      then (Inl (CheckViolation ''collectible_collect_log_source_check''), d)
      else if \<not> has_user (lg_user_id r) d
      then (Inl (ForeignKeyViolation ''collectible_collect_log_user_id_fkey''), d)
      else if \<exists>x\<in>set (collect_log d). lg_user_id x = lg_user_id r \<and> lg_key x = lg_key r then (Inr (), d)
      else (Inr (), d\<lparr>collect_log := collect_log d @ [r]\<rparr>))"

definition record_collect_transition ::
    "nat \<Rightarrow> uuid \<Rightarrow> string \<Rightarrow> string \<Rightarrow> string \<Rightarrow> rat \<times> rat \<times> rat \<Rightarrow> string \<Rightarrow>
     ('z wf_db_scheme, db_error, unit) db_action" where
  "record_collect_transition now user key map_uid slug pos source =
     and_then (fetch (\<lambda>d. Inr (find_progress user key d))) (\<lambda>previous.
     and_then (upsert_progress
         \<lparr>pg_user_id = user, pg_key = key, pg_map_uid = map_uid, pg_slug = slug,
          pg_unlocked_at = Some now, pg_collected_at = Some now\<rparr>
         (\<lambda>p. p\<lparr>pg_unlocked_at := Some (coalesce (pg_unlocked_at p) now),
                pg_collected_at := Some (coalesce (pg_collected_at p) now)\<rparr>)) (\<lambda>_.
     if (case previous of None \<Rightarrow> True | Some p \<Rightarrow> pg_collected_at p = None)
     then insert_collect_log
            \<lparr>lg_user_id = user, lg_map_uid = map_uid, lg_slug = slug, lg_key = key,
             lg_collected_at = now, lg_pos = pos, lg_source = source\<rparr>
     else Ok ()))"

definition collectible_report_unlock ::
    "wf_env \<Rightarrow> nat \<Rightarrow> uuid \<Rightarrow> string \<Rightarrow> string \<Rightarrow> int \<Rightarrow> ('z wf_db_scheme, db_error, unit) db_action" where
  "collectible_report_unlock env now user map_uid slug spec_id =
     in_tx (\<lambda>d.
       (case lock_materialized_collectible env map_uid spec_id slug d of
          None \<Rightarrow> Ok () d
        | Some row \<Rightarrow>
            upsert_progress
              \<lparr>pg_user_id = user, pg_key = cm_key row, pg_map_uid = map_uid, pg_slug = slug,
               pg_unlocked_at = Some now, pg_collected_at = None\<rparr>
              (\<lambda>p. p\<lparr>pg_unlocked_at := Some (coalesce (pg_unlocked_at p) now)\<rparr>) d))"

definition COLLECT_POSITION_LIMIT :: rat where "COLLECT_POSITION_LIMIT = 1000000"

definition plausible :: "f32 \<Rightarrow> bool" where
  "plausible x \<longleftrightarrow> f32_is_finite x \<and> \<bar>f32_value x\<bar> \<le> COLLECT_POSITION_LIMIT"

definition collect_position_is_plausible :: "f32 \<Rightarrow> f32 \<Rightarrow> f32 \<Rightarrow> bool" where
  "collect_position_is_plausible x y z \<longleftrightarrow> list_all plausible [x, y, z]"

definition report_collect ::
    "wf_env \<Rightarrow> nat \<Rightarrow> uuid \<Rightarrow> string \<Rightarrow> string \<Rightarrow> int \<Rightarrow> f32 \<Rightarrow> f32 \<Rightarrow> f32 \<Rightarrow> string \<Rightarrow>
     ('z wf_db_scheme, db_error, unit) db_action" where
  "report_collect env now user map_uid slug spec_id x y z raw =
     (case collect_log_source raw of
        None \<Rightarrow> Ok ()
      | Some source \<Rightarrow>
          if \<not> collect_position_is_plausible x y z then Ok ()
          else in_tx (\<lambda>d.
            (case lock_materialized_collectible env map_uid spec_id slug d of
               None \<Rightarrow> Ok () d
             | Some row \<Rightarrow>
                 let allowed = (if source = ''grant'' then cm_collect_on_unlock row
                                else if source = ''zone'' then cm_has_zone row else False)
                 in if \<not> allowed then Ok () d
                    else record_collect_transition now user (cm_key row) map_uid slug
                           (f32_value x, f32_value y, f32_value z) source d)))"

text \<open>The handlers.\<close>

definition report_collectible_unlock ::
    "wf_env \<Rightarrow> nat \<Rightarrow> uuid \<Rightarrow> string \<Rightarrow> string \<Rightarrow> int \<Rightarrow> ('z wf_db_scheme, api_error, unit) db_action" where
  "report_collectible_unlock env now user map_uid slug spec_id d =
     (if length map_uid \<noteq> 27 \<or> spec_id \<le> 0 \<or> slug = [] then Ok () d
      else
        (case resolve_bound_spec env map_uid spec_id d of
           None \<Rightarrow> Ok () d
         | Some i \<Rightarrow> map_err SqlxErr (collectible_report_unlock env now user map_uid slug i) d))"

definition report_collectible_collect ::
    "wf_env \<Rightarrow> nat \<Rightarrow> uuid \<Rightarrow> string \<Rightarrow> string \<Rightarrow> int \<Rightarrow> f32 \<Rightarrow> f32 \<Rightarrow> f32 \<Rightarrow> string \<Rightarrow>
     ('z wf_db_scheme, api_error, unit) db_action" where
  "report_collectible_collect env now user map_uid slug spec_id x y z raw d =
     (if length map_uid \<noteq> 27 \<or> spec_id \<le> 0 \<or> slug = [] then Ok () d
      else
        (case collect_log_source raw of
           None \<Rightarrow> Ok () d
         | Some source \<Rightarrow>
             (case resolve_bound_spec env map_uid spec_id d of
                None \<Rightarrow> Ok () d
              | Some i \<Rightarrow> map_err SqlxErr (report_collect env now user map_uid slug i x y z source) d)))"

section \<open>Lists\<close>

definition list_item :: "collectible_on_map \<Rightarrow> collectible_list_item" where
  "list_item c =
     \<lparr>cli_slug = cm_slug c, cli_name = cm_name c, cli_pickup = cm_pickup c,
      cli_collect_on_unlock = cm_collect_on_unlock c, cli_has_zone = cm_has_zone c,
      cli_gated_by = cm_gated_by c, cli_unlock_score = cm_unlock_score c, cli_key = trim (cm_key c)\<rparr>"

definition map_collectibles :: "wf_env \<Rightarrow> string \<Rightarrow> 'z wf_db_scheme \<Rightarrow> collectible_on_map list" where
  "map_collectibles env map_uid d =
     sort_key (\<lambda>c. we_collate env (cm_slug c)) (filter (\<lambda>c. cm_map_uid c = map_uid) (collectibles_on_map d))"

definition get_collectible_list :: "wf_env \<Rightarrow> string \<Rightarrow> 'z wf_db_scheme \<Rightarrow> collectible_list_item list" where
  "get_collectible_list env map_uid d = map list_item (map_collectibles env map_uid d)"

definition mine_item :: "uuid \<Rightarrow> 'z wf_db_scheme \<Rightarrow> collectible_on_map \<Rightarrow> collectible_mine_item" where
  "mine_item user d c =
     (let p = find_progress user (cm_key c) d
      in collectible_list_item.extend (list_item c)
           \<lparr>cmi_unlocked_at = map_option unix_seconds (Option.bind p pg_unlocked_at),
            cmi_collected_at = map_option unix_seconds (Option.bind p pg_collected_at)\<rparr>)"

definition get_collectible_mine :: "wf_env \<Rightarrow> string \<Rightarrow> uuid \<Rightarrow> 'z wf_db_scheme \<Rightarrow> collectible_mine_item list" where
  "get_collectible_mine env map_uid user d = map (mine_item user d) (map_collectibles env map_uid d)"

definition send_collectible_list :: "wf_env \<Rightarrow> string \<Rightarrow> 'z wf_db_scheme \<Rightarrow> response" where
  "send_collectible_list env map_uid d = RCollectibleList map_uid (get_collectible_list env map_uid d)"

definition send_collectible_mine :: "wf_env \<Rightarrow> string \<Rightarrow> uuid \<Rightarrow> 'z wf_db_scheme \<Rightarrow> response" where
  "send_collectible_mine env map_uid user d = RCollectibleMine map_uid (get_collectible_mine env map_uid user d)"

section \<open>Progress and its log\<close>

definition progress_key :: "progress_row \<Rightarrow> uuid \<times> string" where
  "progress_key p = (pg_user_id p, pg_key p)"

definition log_key :: "collect_log_row \<Rightarrow> uuid \<times> string" where
  "log_key r = (lg_user_id r, lg_key r)"

definition within_limit :: "rat \<times> rat \<times> rat \<Rightarrow> bool" where
  "within_limit = (\<lambda>(x, y, z). \<bar>x\<bar> \<le> COLLECT_POSITION_LIMIT \<and> \<bar>y\<bar> \<le> COLLECT_POSITION_LIMIT \<and>
     \<bar>z\<bar> \<le> COLLECT_POSITION_LIMIT)"

text \<open>
  One progress row and at most one log entry for a player and collectible; what is collected is
  unlocked; and an entry of the log is the moment the collectible counts as collected.
\<close>

definition progress_ok :: "'z wf_db_scheme \<Rightarrow> bool" where
  "progress_ok d \<longleftrightarrow>
     distinct (map progress_key (collectible_progress d)) \<and> distinct (map log_key (collect_log d)) \<and>
     (\<forall>p\<in>set (collectible_progress d). pg_collected_at p \<noteq> None \<longrightarrow> pg_unlocked_at p \<noteq> None) \<and>
     (\<forall>r\<in>set (collect_log d). within_limit (lg_pos r) \<and>
        (\<exists>p\<in>set (collectible_progress d). progress_key p = log_key r \<and>
           pg_collected_at p = Some (lg_collected_at r)))"

definition sticks :: "progress_row \<Rightarrow> progress_row \<Rightarrow> bool" where
  "sticks p q \<longleftrightarrow> progress_key q = progress_key p \<and>
     (pg_unlocked_at p = None \<or> pg_unlocked_at q = pg_unlocked_at p) \<and>
     (pg_collected_at p = None \<or> pg_collected_at q = pg_collected_at p)"

definition progress_extends :: "'z wf_db_scheme \<Rightarrow> 'z wf_db_scheme \<Rightarrow> bool" where
  "progress_extends d d' \<longleftrightarrow>
     (\<forall>p\<in>set (collectible_progress d). \<exists>q\<in>set (collectible_progress d'). sticks p q) \<and>
     (\<exists>new. collect_log d' = collect_log d @ new)"

lemma progress_extends_refl [simp]: "progress_extends d d"
  by (auto simp: progress_extends_def sticks_def)

lemma is_progress_iff: "is_progress_of u k p \<longleftrightarrow> progress_key p = (u, k)"
  by (auto simp: is_progress_of_def progress_key_def)

lemma upsert_progress_Inr:
  "upsert_progress new f d = (Inr x, d') \<Longrightarrow>
   d' = d\<lparr>collectible_progress :=
     (if find_progress (pg_user_id new) (pg_key new) d = None then collectible_progress d @ [new]
      else upd_where (is_progress_of (pg_user_id new) (pg_key new)) f (collectible_progress d))\<rparr>"
  by (auto simp: upsert_progress_def split: if_splits)

lemma upsert_progress_sticks:
  assumes run: "upsert_progress new f d = (Inr x, d')" and f: "\<And>p. sticks p (f p)"
  shows "p \<in> set (collectible_progress d) \<Longrightarrow> \<exists>q\<in>set (collectible_progress d'). sticks p q"
proof -
  assume p: "p \<in> set (collectible_progress d)"
  let ?q = "if find_progress (pg_user_id new) (pg_key new) d \<noteq> None \<and>
      is_progress_of (pg_user_id new) (pg_key new) p then f p else p"
  have "?q \<in> set (collectible_progress d')"
    using p unfolding upsert_progress_Inr [OF run] by (auto simp: set_upd_where)
  moreover have "sticks p ?q" using f by (simp add: sticks_def)
  ultimately show ?thesis by blast
qed

lemma upsert_progress_keys:
  assumes run: "upsert_progress new f d = (Inr x, d')" and f: "\<And>p. progress_key (f p) = progress_key p"
    and keys: "distinct (map progress_key (collectible_progress d))"
  shows "distinct (map progress_key (collectible_progress d'))"
proof (cases "find_progress (pg_user_id new) (pg_key new) d")
  case None
  then show ?thesis using keys unfolding upsert_progress_Inr [OF run]
    by (auto simp: find_progress_def find_None_iff is_progress_iff progress_key_def)
next
  case (Some p)
  then show ?thesis using keys unfolding upsert_progress_Inr [OF run]
    by (simp add: distinct_map_upd_where f)
qed

lemma sticky_updates:
  "sticks p (p\<lparr>pg_unlocked_at := Some (coalesce (pg_unlocked_at p) now)\<rparr>)"
  "sticks p (p\<lparr>pg_unlocked_at := Some (coalesce (pg_unlocked_at p) now),
               pg_collected_at := Some (coalesce (pg_collected_at p) now)\<rparr>)"
  by (auto simp: sticks_def progress_key_def coalesce_def split: option.splits)

text \<open>An upsert whose rows stay unlocked when collected keeps the invariant.\<close>

lemma upsert_progress_ok:
  assumes ok: "progress_ok d" and run: "upsert_progress new f d = (Inr x, d')"
    and f: "\<And>p. sticks p (f p)" "\<And>p. pg_unlocked_at (f p) \<noteq> None"
    and new: "pg_unlocked_at new \<noteq> None"
  shows "progress_ok d' \<and> progress_extends d d'"
proof -
  have keys: "distinct (map progress_key (collectible_progress d'))"
    using ok by (intro upsert_progress_keys [OF run]) (use f in \<open>auto simp: sticks_def progress_ok_def\<close>)
  note sticky = upsert_progress_sticks [OF run f(1)]
  have log: "collect_log d' = collect_log d" by (simp add: upsert_progress_Inr [OF run])
  have "pg_unlocked_at p \<noteq> None" if "p \<in> set (collectible_progress d')" "pg_collected_at p \<noteq> None" for p
    using that ok f(2) new unfolding upsert_progress_Inr [OF run]
    by (auto simp: progress_ok_def set_upd_where split: if_splits)
  moreover have "\<exists>p\<in>set (collectible_progress d'). progress_key p = log_key r \<and>
      pg_collected_at p = Some (lg_collected_at r)" if r: "r \<in> set (collect_log d)" for r
  proof -
    obtain p where p: "p \<in> set (collectible_progress d)" "progress_key p = log_key r"
      "pg_collected_at p = Some (lg_collected_at r)"
      using ok r by (auto simp: progress_ok_def)
    obtain q where "q \<in> set (collectible_progress d')" "sticks p q" using sticky [OF p(1)] by blast
    with p show ?thesis by (intro bexI [of _ q]) (auto simp: sticks_def)
  qed
  ultimately show ?thesis
    using ok keys sticky log by (auto simp: progress_ok_def progress_extends_def)
qed

lemma insert_collect_log_ok:
  assumes ok: "progress_ok d" and run: "insert_collect_log r d = (Inr x, d')"
    and r: "within_limit (lg_pos r)"
    and p: "\<exists>p\<in>set (collectible_progress d). progress_key p = log_key r \<and>
      pg_collected_at p = Some (lg_collected_at r)"
  shows "progress_ok d' \<and> collectible_progress d' = collectible_progress d \<and>
    (\<exists>new. collect_log d' = collect_log d @ new)"
proof (cases "d' = d")
  case False
  then have "d' = d\<lparr>collect_log := collect_log d @ [r]\<rparr>" "log_key r \<notin> log_key ` set (collect_log d)"
    using run by (auto simp: insert_collect_log_def log_key_def split: if_splits)
  then show ?thesis using ok r p by (auto simp: progress_ok_def)
qed (simp add: ok)

lemma record_collect_transition_ok:
  assumes ok: "progress_ok d" and pos: "within_limit pos"
    and run: "record_collect_transition now user key m slug pos src d = (Inr x, d')"
  shows "progress_ok d' \<and> progress_extends d d'"
proof -
  let ?new = "\<lparr>pg_user_id = user, pg_key = key, pg_map_uid = m, pg_slug = slug,
    pg_unlocked_at = Some now, pg_collected_at = Some now\<rparr>"
  let ?f = "\<lambda>p. p\<lparr>pg_unlocked_at := Some (coalesce (pg_unlocked_at p) now),
    pg_collected_at := Some (coalesce (pg_collected_at p) now)\<rparr>"
  let ?first = "case find_progress user key d of None \<Rightarrow> True | Some p \<Rightarrow> pg_collected_at p = None"
  let ?r = "\<lparr>lg_user_id = user, lg_map_uid = m, lg_slug = slug, lg_key = key,
    lg_collected_at = now, lg_pos = pos, lg_source = src\<rparr>"
  obtain d1 x1 where up: "upsert_progress ?new ?f d = (Inr x1, d1)"
    and log: "(if ?first then insert_collect_log ?r else Ok ()) d1 = (Inr x, d')"
    using run unfolding record_collect_transition_def and_then_Inr by auto
  have d1: "progress_ok d1" "progress_extends d d1"
    using upsert_progress_ok [OF ok up] by (auto simp: sticky_updates)
  show ?thesis
  proof (cases ?first)
    case False
    then show ?thesis using log d1 by simp
  next
    case True
    have "\<exists>p\<in>set (collectible_progress d1). progress_key p = (user, key) \<and> pg_collected_at p = Some now"
    proof (cases "find_progress user key d")
      case None
      then show ?thesis by (simp add: upsert_progress_Inr [OF up] progress_key_def)
    next
      case (Some p)
      then have "p \<in> set (collectible_progress d)" "is_progress_of user key p"
        by (auto simp: find_progress_def dest: find_Some_in)
      then have "?f p \<in> set (collectible_progress d1)"
        using Some by (auto simp: upsert_progress_Inr [OF up] set_upd_where)
      then show ?thesis using True Some \<open>is_progress_of user key p\<close>
        by (intro bexI [of _ "?f p"]) (auto simp: coalesce_def is_progress_iff progress_key_def)
    qed
    then have "progress_ok d' \<and> collectible_progress d' = collectible_progress d1 \<and>
        (\<exists>new. collect_log d' = collect_log d1 @ new)"
      using log True pos d1 by (intro insert_collect_log_ok [of d1 ?r x]) (auto simp: log_key_def)
    then show ?thesis using d1(2) by (auto simp: progress_extends_def)
  qed
qed

lemma plausible_within: "collect_position_is_plausible x y z \<Longrightarrow> within_limit (f32_value x, f32_value y, f32_value z)"
  by (simp add: collect_position_is_plausible_def plausible_def within_limit_def)

section \<open>Properties\<close>

text \<open>
  C17. Unlocks and collections are sticky and the log is append-only: whatever a report does, no
  row loses a time it has, no log entry changes, and a log entry is always the moment of the
  first collection, at a position within the limit.
\<close>

theorem collectible_reports_keep_progress:
  assumes ok: "progress_ok d"
    and run: "d' = snd (report_collectible_unlock env now user m slug i d) \<or>
      d' = snd (report_collectible_collect env now user m slug i x y z raw d)"
  shows "progress_ok d' \<and> progress_extends d d'"
proof (cases "d' = d")
  case False
  show ?thesis
  proof (cases "d' = snd (report_collectible_unlock env now user m slug i d)")
    case True
    then have "\<exists>k. upsert_progress
        \<lparr>pg_user_id = user, pg_key = k, pg_map_uid = m, pg_slug = slug,
         pg_unlocked_at = Some now, pg_collected_at = None\<rparr>
        (\<lambda>p. p\<lparr>pg_unlocked_at := Some (coalesce (pg_unlocked_at p) now)\<rparr>) d = (Inr (), d')"
      using False unfolding report_collectible_unlock_def collectible_report_unlock_def map_err_def in_tx_def
      by (auto split: if_splits option.splits prod.splits sum.splits)
    then show ?thesis using upsert_progress_ok [OF ok] by (fastforce simp: sticky_updates)
  next
    case unlock: False
    then have c: "d' = snd (report_collectible_collect env now user m slug i x y z raw d)" using run by blast
    obtain k s where p: "collect_position_is_plausible x y z" and
      "record_collect_transition now user k m slug (f32_value x, f32_value y, f32_value z) s d = (Inr (), d')"
      using False c unfolding report_collectible_collect_def report_collect_def map_err_def in_tx_def Let_def
      by (auto split: if_splits option.splits prod.splits sum.splits)
    then show ?thesis by (intro record_collect_transition_ok [OF ok plausible_within [OF p]])
  qed
qed (simp add: ok)

theorem collectible_reports_keep_progress_witness:
  "progress_ok (snd (report_collectible_collect sample_env 30 7 sample_map ''star'' 1 (Fin 1) (Fin 2) (Fin 3) ''zone'' bound_db)) \<and>
   map lg_slug (collect_log (snd (report_collectible_collect sample_env 30 7 sample_map ''star'' 1
     (Fin 1) (Fin 2) (Fin 3) ''zone'' bound_db))) = [''star'']"
proof -
  have "progress_ok bound_db" by code_simp
  from collectible_reports_keep_progress [OF this disjI2 [OF refl]]
  have "progress_ok (snd (report_collectible_collect sample_env 30 7 sample_map ''star'' 1 (Fin 1) (Fin 2) (Fin 3) ''zone'' bound_db))"
    by blast
  moreover have "map lg_slug (collect_log (snd (report_collectible_collect sample_env 30 7 sample_map ''star'' 1
      (Fin 1) (Fin 2) (Fin 3) ''zone'' bound_db))) = [''star'']" by code_simp
  ultimately show ?thesis by blast
qed

lemma upsert_progress_again:
  assumes "find_progress (pg_user_id new) (pg_key new) d \<noteq> None" "has_user (pg_user_id new) d"
    and "\<And>p. p \<in> set (collectible_progress d) \<Longrightarrow> is_progress_of (pg_user_id new) (pg_key new) p \<Longrightarrow> f p = p"
  shows "upsert_progress new f d = (Inr (), d)"
proof -
  have "upd_where (is_progress_of (pg_user_id new) (pg_key new)) f (collectible_progress d) = collectible_progress d"
    using assms(3) by (auto simp: upd_where_def map_idI)
  then show ?thesis using assms(1,2) by (simp add: upsert_progress_def)
qed

lemma record_collect_again:
  assumes run: "record_collect_transition now user key m slug pos src d = (Inr x, d')"
  shows "record_collect_transition later user key m slug pos' src' d' = (Inr (), d')"
proof -
  obtain d1 x1 where up: "upsert_progress
      \<lparr>pg_user_id = user, pg_key = key, pg_map_uid = m, pg_slug = slug,
       pg_unlocked_at = Some now, pg_collected_at = Some now\<rparr>
      (\<lambda>p. p\<lparr>pg_unlocked_at := Some (coalesce (pg_unlocked_at p) now),
             pg_collected_at := Some (coalesce (pg_collected_at p) now)\<rparr>) d = (Inr x1, d1)"
    and d': "collectible_progress d' = collectible_progress d1" "users d' = users d1"
    using run unfolding record_collect_transition_def and_then_Inr
    by (auto simp: insert_collect_log_def split: if_splits option.splits)
  have all: "pg_unlocked_at p \<noteq> None \<and> pg_collected_at p \<noteq> None"
    if "p \<in> set (collectible_progress d')" "is_progress_of user key p" for p
    using that unfolding d' upsert_progress_Inr [OF up]
    by (auto simp: set_upd_where find_progress_def find_None_iff split: if_splits)
  have "\<exists>p\<in>set (collectible_progress d'). is_progress_of user key p"
  proof (cases "find_progress user key d")
    case None
    then show ?thesis by (simp add: d' upsert_progress_Inr [OF up] is_progress_of_def)
  next
    case (Some p)
    then have "p \<in> set (collectible_progress d)" "is_progress_of user key p"
      by (auto simp: find_progress_def dest: find_Some_in)
    then obtain q where "q \<in> set (collectible_progress d1)" "sticks p q"
      using upsert_progress_sticks [OF up sticky_updates(2)] by blast
    then show ?thesis using \<open>is_progress_of user key p\<close>
      by (intro bexI [of _ q]) (auto simp: d' sticks_def is_progress_iff)
  qed
  then have found: "find_progress user key d' \<noteq> None"
    by (auto simp: find_progress_def find_None_iff)
  have u: "has_user user d'"
    using up d' by (auto simp: upsert_progress_def has_user_def split: if_splits)
  have same: "upsert_progress
      \<lparr>pg_user_id = user, pg_key = key, pg_map_uid = m, pg_slug = slug,
       pg_unlocked_at = Some later, pg_collected_at = Some later\<rparr>
      (\<lambda>p. p\<lparr>pg_unlocked_at := Some (coalesce (pg_unlocked_at p) later),
             pg_collected_at := Some (coalesce (pg_collected_at p) later)\<rparr>) d' = (Inr (), d')"
    using found u all by (intro upsert_progress_again) (force simp: coalesce_def)+
  obtain p where p: "find_progress user key d' = Some p" using found by blast
  then have "pg_collected_at p \<noteq> None"
    using all by (auto simp: find_progress_def dest: find_Some_in)
  then show ?thesis using same p by (auto simp: record_collect_transition_def and_then_def)
qed

text \<open>The guards of the report, apart from the writes: which collectible it is, if any.\<close>

definition collect_target ::
    "wf_env \<Rightarrow> string \<Rightarrow> string \<Rightarrow> int \<Rightarrow> f32 \<Rightarrow> f32 \<Rightarrow> f32 \<Rightarrow> string \<Rightarrow> 'z wf_db_scheme \<Rightarrow> string option" where
  "collect_target env m slug i x y z raw d =
     (if length m \<noteq> 27 \<or> i \<le> 0 \<or> slug = [] \<or> collect_log_source raw = None \<or>
         \<not> collect_position_is_plausible x y z then None
      else Option.bind (resolve_bound_spec env m i d) (\<lambda>j.
        Option.bind (lock_materialized_collectible env m j slug d) (\<lambda>row.
          if (raw = ''grant'' \<and> cm_collect_on_unlock row) \<or> (raw = ''zone'' \<and> cm_has_zone row)
          then Some (cm_key row) else None)))"

lemma report_collect_target:
  "report_collectible_collect env now user m slug i x y z raw d =
     (case collect_target env m slug i x y z raw d of
        None \<Rightarrow> (Inr (), d)
      | Some key \<Rightarrow> map_err SqlxErr (in_tx (record_collect_transition now user key m slug
          (f32_value x, f32_value y, f32_value z) raw)) d)"
proof (cases "collect_log_source raw")
  case (Some s)
  then have "s = raw" "raw = ''zone'' \<or> raw = ''grant''" by (auto simp: collect_log_source_def split: if_splits)
  then show ?thesis
    unfolding report_collectible_collect_def collect_target_def report_collect_def
    by (auto simp: Some map_err_def in_tx_def split: option.splits bind_splits)
qed (simp add: report_collectible_collect_def collect_target_def)

text \<open>
  A collection that was accepted can be reported again without harm: the second report, at
  whatever time, changes nothing, so the first one stays in the log.
\<close>

theorem collect_again_changes_nothing:
  assumes run: "report_collectible_collect env now user m slug i x y z raw d = (Inr (), d')"
  shows "report_collectible_collect env later user m slug i x y z raw d' = (Inr (), d')"
proof (cases "collect_target env m slug i x y z raw d")
  case None
  then show ?thesis using run by (simp add: report_collect_target)
next
  case (Some key)
  then have rec: "record_collect_transition now user key m slug
      (f32_value x, f32_value y, f32_value z) raw d = (Inr (), d')"
    using run by (simp add: report_collect_target map_err_Inr_iff in_tx_Inr_iff)
  have frame: "aux_specs d' = aux_specs d" "listing_binds d' = listing_binds d"
    "collectibles_on_map d' = collectibles_on_map d"
    using rec unfolding record_collect_transition_def and_then_Inr
    by (auto simp: insert_collect_log_def dest!: upsert_progress_Inr split: if_splits option.splits)
  have "collect_target env m slug i x y z raw d' = collect_target env m slug i x y z raw d"
    unfolding collect_target_def lock_materialized_collectible_def find_collectible_def
      bind_reads_cong [OF frame(1,2)] frame(3) by (rule refl)
  then show ?thesis
    using Some record_collect_again [OF rec]
    by (simp add: report_collect_target map_err_Inr_iff in_tx_Inr_iff)
qed

theorem collect_again_changes_nothing_witness:
  "\<exists>d' :: wf_db. report_collectible_collect sample_env 40 7 sample_map ''star'' 1 (Fin 1) (Fin 2) (Fin 3) ''zone'' d' = (Inr (), d') \<and>
     map lg_collected_at (collect_log d') = [30]"
proof -
  define d' where "d' = snd (report_collectible_collect sample_env 30 7 sample_map ''star'' 1 (Fin 1) (Fin 2) (Fin 3) ''zone'' bound_db)"
  have "fst (report_collectible_collect sample_env 30 7 sample_map ''star'' 1 (Fin 1) (Fin 2) (Fin 3) ''zone'' bound_db) = Inr ()"
    by code_simp
  then have "report_collectible_collect sample_env 30 7 sample_map ''star'' 1 (Fin 1) (Fin 2) (Fin 3) ''zone'' bound_db = (Inr (), d')"
    by (simp add: d'_def prod_eq_iff)
  from collect_again_changes_nothing [OF this, of 40]
  moreover have "map lg_collected_at (collect_log d') = [30]" unfolding d'_def by code_simp
  ultimately show ?thesis by (intro exI [of _ d'] conjI)
qed

end
