(* ===== verification/Hats.thy ===== *)
theory Hats
  imports Materialization Sample_World "HOL-Library.Product_Lexorder"
begin

text \<open>
  Hats: unlocking them, wearing them, and who wears what on a map; the gameplay half of
  \<open>src/queries/hats.rs\<close>.  An unlock is granted on proof from Nadeo only and is for good; a player
  wears at most one hat on a map, one they have unlocked there.

  The verifier of records is a parameter, as in the code, where it is a trait: two lookups that
  can fail, and the throttle.
\<close>

record record_verifier =
  rv_official :: "uuid \<Rightarrow> string \<Rightarrow> string + bool"
  rv_recent :: "uuid \<Rightarrow> string \<Rightarrow> string + bool"
  rv_allow :: "uuid \<Rightarrow> string \<Rightarrow> string \<Rightarrow> bool"

section \<open>Unlocking\<close>

record hat_target =
  hx_key :: string
  hx_finish_this_map :: bool
  hx_record_uids :: "string list"

definition find_hat :: "string \<Rightarrow> string \<Rightarrow> 'z wf_db_scheme \<Rightarrow> hat_target option" where
  "find_hat map_uid slug d =
     map_option (\<lambda>h. \<lparr>hx_key = hm_key h, hx_finish_this_map = hm_finish_this_map h,
                      hx_record_uids = uids_from_json (hm_record_uids h)\<rparr>)
       (List.find (\<lambda>h. hm_map_uid h = map_uid \<and> hm_slug h = slug) (hats_on_map d))"

definition materialized_row :: "wf_env \<Rightarrow> string \<Rightarrow> int \<Rightarrow> string \<Rightarrow> 'z wf_db_scheme \<Rightarrow> hat_target option" where
  "materialized_row env map_uid spec_id slug d =
     (if resolve_bound_spec env map_uid spec_id d = None then None else find_hat map_uid slug d)"

definition lock_materialized_row ::
    "wf_env \<Rightarrow> string \<Rightarrow> int \<Rightarrow> string \<Rightarrow> 'z wf_db_scheme \<Rightarrow> hat_target option" where
  "lock_materialized_row env map_uid spec_id slug d =
     (if \<not> lock_materialized_spec env map_uid spec_id d then None else find_hat map_uid slug d)"

text \<open>A lookup that fails counts as no record.\<close>

definition validate_finish_this_map :: "record_verifier \<Rightarrow> uuid \<Rightarrow> string \<Rightarrow> bool" where
  "validate_finish_this_map v user map_uid = (case rv_recent v user map_uid of Inr valid \<Rightarrow> valid | Inl _ \<Rightarrow> False)"

definition validate_record_for_uid :: "record_verifier \<Rightarrow> uuid \<Rightarrow> string \<Rightarrow> bool" where
  "validate_record_for_uid v user uid = (case rv_official v user uid of Inr valid \<Rightarrow> valid | Inl _ \<Rightarrow> False)"

lemma validate_iff:
  "validate_finish_this_map v user m \<longleftrightarrow> rv_recent v user m = Inr True"
  "validate_record_for_uid v user m \<longleftrightarrow> rv_official v user m = Inr True"
  by (auto simp: validate_finish_this_map_def validate_record_for_uid_def split: sum.splits)

definition validate_hat_unlock :: "record_verifier \<Rightarrow> uuid \<Rightarrow> string \<Rightarrow> hat_target \<Rightarrow> bool" where
  "validate_hat_unlock v user map_uid row =
     (if \<not> hx_finish_this_map row \<and> hx_record_uids row = [] then False
      else if hx_finish_this_map row \<and> \<not> validate_finish_this_map v user map_uid then False
      else list_all (validate_record_for_uid v user) (hx_record_uids row))"

definition already_unlocked :: "uuid \<Rightarrow> string \<Rightarrow> 'z wf_db_scheme \<Rightarrow> bool" where
  "already_unlocked user key d \<longleftrightarrow> (\<exists>u\<in>set (hat_unlocks d). hu_user_id u = user \<and> hu_key u = key)"

text \<open>
  An unlock has two phases, with the lookups at Nadeo between them: what is read before, and
  the transaction after, which other connections may have got ahead of.
\<close>

datatype unlock_phase = Answer bool | Validated hat_target

definition hat_unlock_check ::
    "wf_env \<Rightarrow> record_verifier \<Rightarrow> uuid \<Rightarrow> string \<Rightarrow> string \<Rightarrow> int \<Rightarrow> 'z wf_db_scheme \<Rightarrow> unlock_phase" where
  "hat_unlock_check env v user map_uid slug spec_id d =
     (case materialized_row env map_uid spec_id slug d of
        None \<Rightarrow> Answer False
      | Some row \<Rightarrow>
          if already_unlocked user (hx_key row) d then Answer True
          else if \<not> rv_allow v user map_uid slug then Answer False
          else if \<not> validate_hat_unlock v user map_uid row then Answer False
          else Validated row)"

definition insert_unlock ::
    "hat_unlock_row \<Rightarrow> ('z wf_db_scheme, db_error, unit) db_action" where
  "insert_unlock u d =
     (if \<not> has_user (hu_user_id u) d then (Inl (ForeignKeyViolation ''hat_unlock_user_id_fkey''), d)
      else if already_unlocked (hu_user_id u) (hu_key u) d then (Inr (), d)
      else (Inr (), d\<lparr>hat_unlocks := hat_unlocks d @ [u]\<rparr>))"

definition hat_unlock_commit ::
    "wf_env \<Rightarrow> nat \<Rightarrow> uuid \<Rightarrow> string \<Rightarrow> string \<Rightarrow> int \<Rightarrow> hat_target \<Rightarrow>
     ('z wf_db_scheme, db_error, bool) db_action" where
  "hat_unlock_commit env now user map_uid slug spec_id row =
     in_tx (\<lambda>d.
       (case lock_materialized_row env map_uid spec_id slug d of
          None \<Rightarrow> Ok False d
        | Some locked \<Rightarrow>
            if locked \<noteq> row then Ok False d
            else and_then (insert_unlock \<lparr>hu_user_id = user, hu_key = hx_key locked, hu_map_uid = map_uid,
                   hu_slug = slug, hu_unlocked_at = now\<rparr>) (\<lambda>_. Ok True) d))"

definition hat_report_unlock ::
    "wf_env \<Rightarrow> nat \<Rightarrow> record_verifier \<Rightarrow> uuid \<Rightarrow> string \<Rightarrow> string \<Rightarrow> int \<Rightarrow>
     ('z wf_db_scheme, db_error, bool) db_action" where
  "hat_report_unlock env now v user map_uid slug spec_id d =
     (case hat_unlock_check env v user map_uid slug spec_id d of
        Answer b \<Rightarrow> Ok b d
      | Validated row \<Rightarrow> hat_unlock_commit env now user map_uid slug spec_id row d)"

section \<open>Wearing\<close>

definition is_worn_by :: "uuid \<Rightarrow> string \<Rightarrow> hat_equipped_row \<Rightarrow> bool" where
  "is_worn_by user map_uid e \<longleftrightarrow> hq_user_id e = user \<and> hq_map_uid e = map_uid"

text \<open>The unlock behind a hat: its key is recomputed, and the hat must be on the map.\<close>

definition find_unlock ::
    "wf_env \<Rightarrow> uuid \<Rightarrow> string \<Rightarrow> string \<Rightarrow> 'z wf_db_scheme \<Rightarrow> hat_unlock_row option" where
  "find_unlock env user map_uid slug d =
     List.find (\<lambda>u. hu_user_id u = user \<and> hu_map_uid u = map_uid \<and> hu_slug u = slug \<and>
         hu_key u = item_key env map_uid '':h:'' slug \<and>
         (\<exists>h\<in>set (hats_on_map d). hm_map_uid h = hu_map_uid u \<and> hm_slug h = hu_slug u \<and> hm_key h = hu_key u))
       (hat_unlocks d)"

definition upsert_equipped ::
    "hat_equipped_row \<Rightarrow> ('z wf_db_scheme, db_error, bool) db_action" where
  "upsert_equipped r d =
     (case List.find (is_worn_by (hq_user_id r) (hq_map_uid r)) (hat_equipped d) of
        None \<Rightarrow>
          if \<not> has_user (hq_user_id r) d then (Inl (ForeignKeyViolation ''hat_equipped_user_id_fkey''), d)
          else (Inr True, d\<lparr>hat_equipped := hat_equipped d @ [r]\<rparr>)
      | Some e \<Rightarrow>
          if hq_slug e \<noteq> hq_slug r \<or> hq_key e \<noteq> hq_key r
          then (Inr True, d\<lparr>hat_equipped :=
                 upd_where (is_worn_by (hq_user_id r) (hq_map_uid r)) (\<lambda>_. r) (hat_equipped d)\<rparr>)
          else (Inr False, d))"

definition push_entry ::
    "wf_env \<Rightarrow> uuid \<Rightarrow> string \<Rightarrow> ('z wf_db_scheme, db_error, hat_on_map_player option) db_action" where
  "push_entry env user slug =
     fetch (\<lambda>d. case find_user user d of
         None \<Rightarrow> Inl RowNotFound
       | Some u \<Rightarrow> Inr (Some \<lparr>hom_wsid = we_show_uuid env user, hom_name = ur_display_name u, hom_slug = slug\<rparr>))"

definition report_equip ::
    "wf_env \<Rightarrow> nat \<Rightarrow> uuid \<Rightarrow> string \<Rightarrow> string \<Rightarrow>
     ('z wf_db_scheme, db_error, hat_on_map_player option) db_action" where
  "report_equip env now user map_uid slug =
     in_tx (\<lambda>d.
       if slug = [] then
         (if \<not> list_ex (is_worn_by user map_uid) (hat_equipped d) then Ok None d
          else push_entry env user []
                 (d\<lparr>hat_equipped := filter (\<lambda>e. \<not> is_worn_by user map_uid e) (hat_equipped d)\<rparr>))
       else
         (case find_bind map_uid d of
            None \<Rightarrow> Ok None d
          | Some b \<Rightarrow>
              if \<not> lock_materialized_spec env map_uid (lb_spec_id b) d then Ok None d
              else
                (case find_unlock env user map_uid slug d of
                   None \<Rightarrow> Ok None d
                 | Some u \<Rightarrow>
                     and_then (upsert_equipped \<lparr>hq_user_id = user, hq_map_uid = map_uid, hq_slug = slug,
                         hq_key = hu_key u, hq_updated_at = now\<rparr>) (\<lambda>changed.
                       if changed then push_entry env user slug else Ok None) d)))"

section \<open>Reads\<close>

text \<open>The condition the reads share: the binding of the map is verified and current.\<close>

definition binding_usable :: "wf_env \<Rightarrow> string \<Rightarrow> 'z wf_db_scheme \<Rightarrow> bool" where
  "binding_usable env map_uid d =
     (case bind_join map_uid d of None \<Rightarrow> False | Some (b, s) \<Rightarrow> is_verified b s \<and> is_current env b s)"

definition worn_slug :: "uuid \<Rightarrow> string \<Rightarrow> 'z wf_db_scheme \<Rightarrow> string" where
  "worn_slug user map_uid d =
     (case List.find (\<lambda>e. is_worn_by user map_uid e \<and> hat_still_there (hats_on_map d) e) (hat_equipped d) of
        None \<Rightarrow> [] | Some e \<Rightarrow> hq_slug e)"

definition hat_item :: "uuid \<Rightarrow> 'z wf_db_scheme \<Rightarrow> hat_on_map \<Rightarrow> hat_mine_item" where
  "hat_item user d h =
     \<lparr>hmi_slug = hm_slug h, hmi_name = hm_name h, hmi_key = trim (hm_key h),
      hmi_unlocked_at = map_option (\<lambda>u. unix_seconds (hu_unlocked_at u))
        (List.find (\<lambda>u. hu_key u = hm_key h \<and> hu_user_id u = user) (hat_unlocks d))\<rparr>"

definition get_hats_mine ::
    "wf_env \<Rightarrow> string \<Rightarrow> uuid \<Rightarrow> 'z wf_db_scheme \<Rightarrow> (string \<times> hat_mine_item list) option" where
  "get_hats_mine env map_uid user d =
     (if verified_binding_spec_id env map_uid d = None then None
      else Some (if binding_usable env map_uid d then worn_slug user map_uid d else [],
                 map (hat_item user d) (sort_key (\<lambda>h. we_collate env (hm_slug h))
                   (filter (\<lambda>h. hm_map_uid h = map_uid \<and> binding_usable env map_uid d) (hats_on_map d)))))"

definition worn_entry :: "wf_env \<Rightarrow> 'z wf_db_scheme \<Rightarrow> hat_equipped_row \<Rightarrow> hat_on_map_player option" where
  "worn_entry env d e =
     (if (\<exists>u\<in>set (hat_unlocks d). hu_user_id u = hq_user_id e \<and> hu_key u = hq_key e) \<and>
         hat_still_there (hats_on_map d) e \<and> hq_slug e \<noteq> []
      then map_option (\<lambda>u. \<lparr>hom_wsid = we_show_uuid env (hq_user_id e), hom_name = ur_display_name u,
                            hom_slug = hq_slug e\<rparr>) (find_user (hq_user_id e) d)
      else None)"

text \<open>Players seen on the map in the last two minutes.\<close>

definition seen_recently :: "nat \<Rightarrow> hat_equipped_row \<Rightarrow> 'z wf_db_scheme \<Rightarrow> bool" where
  "seen_recently now e d \<longleftrightarrow>
     (\<exists>h\<in>set (curr_heights d). hh_user_id h = hq_user_id e \<and> hh_map_uid h = hq_map_uid e \<and>
        int (hh_updated_at h) > int now - 120 * 1000000)"

definition get_hats_on_map :: "wf_env \<Rightarrow> nat \<Rightarrow> string \<Rightarrow> 'z wf_db_scheme \<Rightarrow> hat_on_map_player list" where
  "get_hats_on_map env now map_uid d =
     (if \<not> binding_usable env map_uid d then []
      else sort_key (\<lambda>p. (we_collate env (hom_name p), we_collate env (hom_slug p)))
        (List.map_filter (worn_entry env d)
          (filter (\<lambda>e. hq_map_uid e = map_uid \<and> seen_recently now e d) (hat_equipped d))))"

definition equipped_push_entry :: "wf_env \<Rightarrow> uuid \<Rightarrow> string \<Rightarrow> 'z wf_db_scheme \<Rightarrow> hat_on_map_player option" where
  "equipped_push_entry env user map_uid d =
     (if \<not> binding_usable env map_uid d then None
      else Option.bind (List.find (is_worn_by user map_uid) (hat_equipped d)) (worn_entry env d))"

section \<open>What is worn is there and is owned\<close>

definition hats_inv :: "'z wf_db_scheme \<Rightarrow> bool" where
  "hats_inv d \<longleftrightarrow>
     distinct (map (\<lambda>e. (hq_user_id e, hq_map_uid e)) (hat_equipped d)) \<and>
     (\<forall>e\<in>set (hat_equipped d). hat_still_there (hats_on_map d) e \<and>
        already_unlocked (hq_user_id e) (hq_key e) d)"

text \<open>Actions that leave the three hat tables alone, or only take equipment away.\<close>

definition hats_shrink :: "'z wf_db_scheme \<Rightarrow> 'z wf_db_scheme \<Rightarrow> bool" where
  "hats_shrink d d' \<longleftrightarrow> hat_unlocks d' = hat_unlocks d \<and>
     (\<exists>P. hat_equipped d' = filter P (hat_equipped d)) \<and>
     (\<forall>e\<in>set (hat_equipped d'). hat_still_there (hats_on_map d) e \<longrightarrow> hat_still_there (hats_on_map d') e)"

lemma hats_shrink_refl [simp]: "hats_shrink d d"
  unfolding hats_shrink_def by (auto intro: exI [of _ "\<lambda>_. True"])

lemma hats_shrink_trans:
  assumes "hats_shrink d d1" and "hats_shrink d1 d2"
  shows "hats_shrink d d2"
proof -
  obtain P where P: "hat_equipped d1 = filter P (hat_equipped d)" using assms(1) by (auto simp: hats_shrink_def)
  obtain Q where Q: "hat_equipped d2 = filter Q (hat_equipped d1)" using assms(2) by (auto simp: hats_shrink_def)
  have "hat_equipped d2 = filter (\<lambda>e. P e \<and> Q e) (hat_equipped d)" by (simp add: P Q)
  moreover have "hat_still_there (hats_on_map d2) e"
    if "e \<in> set (hat_equipped d2)" "hat_still_there (hats_on_map d) e" for e
  proof -
    have "e \<in> set (hat_equipped d1)" using that(1) by (simp add: Q)
    then show ?thesis using that assms by (simp add: hats_shrink_def)
  qed
  moreover have "hat_unlocks d2 = hat_unlocks d" using assms by (simp add: hats_shrink_def)
  ultimately show ?thesis unfolding hats_shrink_def by blast
qed

lemma hats_shrink_same:
  "hat_unlocks d' = hat_unlocks d \<Longrightarrow> hat_equipped d' = hat_equipped d \<Longrightarrow> hats_on_map d' = hats_on_map d \<Longrightarrow>
   hats_shrink d d'"
  unfolding hats_shrink_def by (auto intro: exI [of _ "\<lambda>_. True"])

lemma already_unlocked_cong: "hat_unlocks d' = hat_unlocks d \<Longrightarrow> already_unlocked u k d' = already_unlocked u k d"
  by (simp add: already_unlocked_def)

lemma hats_shrink_inv: "hats_shrink d d' \<Longrightarrow> hats_inv d \<Longrightarrow> hats_inv d'"
  unfolding hats_inv_def hats_shrink_def already_unlocked_def by (auto simp: distinct_map_filter_rows)

text \<open>\<open>shrinks\<close> is closed under the ways the operations are put together.\<close>

definition shrinks :: "('z wf_db_scheme, 'e, 'a) db_action \<Rightarrow> bool" where
  "shrinks f \<longleftrightarrow> (\<forall>d. hats_shrink d (snd (f d)))"

lemma shrinks_and_then: "shrinks f \<Longrightarrow> (\<And>a. shrinks (g a)) \<Longrightarrow> shrinks (and_then f g)"
  unfolding shrinks_def and_then_def
  by (auto split: prod.splits sum.splits) (metis hats_shrink_trans snd_conv)+

lemma shrinks_basic: "shrinks (Ok a)" "shrinks (Err e)" "shrinks (fetch q)"
  by (simp_all add: shrinks_def)

lemma shrinks_db: "shrinks f \<Longrightarrow> shrinks (db f)"
  by (auto simp: shrinks_def db_def map_err_def split: prod.splits sum.splits) (metis snd_conv)+

lemma shrinks_map_err: "shrinks f \<Longrightarrow> shrinks (map_err h f)"
  by (auto simp: shrinks_def map_err_def split: prod.splits sum.splits) (metis snd_conv)+

lemma shrinks_in_tx: "shrinks f \<Longrightarrow> shrinks (in_tx f)"
  by (auto simp: shrinks_def in_tx_def split: prod.splits sum.splits) (metis snd_conv)+

lemma shrinks_bind_hats: "shrinks (bind_hats_in_tx env m i)"
proof -
  have "hat_still_there (filter (\<lambda>r. hm_map_uid r \<noteq> m) (hats_on_map d) @ rows) e"
    if "hat_still_there (hats_on_map d) e" "hq_map_uid e \<noteq> m" for e d rows
    using that by (auto simp: hat_still_there_def)
  then show ?thesis by (auto simp: shrinks_def bind_hats_in_tx_def Let_def hats_shrink_def)
qed

lemma shrinks_purge: "shrinks (purge_map_equipment_in_tx env m)"
  by (auto simp: shrinks_def purge_map_equipment_in_tx_def hats_shrink_def)

lemma shrinks_tables:
  "shrinks (replace_games_in_tx i u n gs)" "shrinks (replace_collectibles_in_tx i u n cs)"
  "shrinks (replace_hats_in_tx i u n hs)" "shrinks (bind_games_in_tx env m i)"
  "shrinks (bind_collectibles_in_tx env m i)" "shrinks (stamp_binding env m i s)"
  "shrinks (insert_first_bind t m i r)" "shrinks (promote_unverified t m i r)"
  "shrinks (upsert_comment_bind t m i o1)" "shrinks (upsert_spec_row t u n j th)"
  "shrinks (delete_spec u n)" "shrinks (get_spec u n)"
  by (auto simp: shrinks_def replace_games_in_tx_def replace_collectibles_in_tx_def replace_hats_in_tx_def
      bind_games_in_tx_def bind_collectibles_in_tx_def stamp_binding_def insert_first_bind_def
      promote_unverified_def upsert_comment_bind_def upsert_spec_row_def delete_spec_def get_spec_def Let_def
      split: option.splits sum.splits intro!: hats_shrink_same)

lemmas shrinks_rules = shrinks_and_then shrinks_basic shrinks_db shrinks_bind_hats shrinks_purge shrinks_tables

lemma shrinks_binds:
  "shrinks (commit_authoritative_bind env t p r m i)" "shrinks (commit_comment_bind env t m i)"
proof -
  have mat: "shrinks (materialize env m i s gs cs hs)" for s gs cs hs
    unfolding materialize_def by (intro shrinks_rules)
  have purge: "shrinks (if b then db (purge_map_equipment_in_tx env m) else Ok [])" for b
    by (simp add: shrinks_rules)
  have "shrinks (check_winner m i)" by (simp add: check_winner_def shrinks_rules)
  then have a: "shrinks (write_authoritative_bind env t r m i s l)" for s l
    unfolding write_authoritative_bind_def
    by (auto split: sum.split intro!: shrinks_rules mat purge)
  have c: "shrinks (write_comment_bind env t m i s l)" for s l
    unfolding write_comment_bind_def
    by (auto split: sum.split intro!: shrinks_rules mat purge)
  show "shrinks (commit_authoritative_bind env t p r m i)"
    unfolding commit_authoritative_bind_def Let_def
    by (rule shrinks_in_tx) (use a in \<open>auto simp: shrinks_def split: option.split\<close>)
  show "shrinks (commit_comment_bind env t m i)"
    unfolding commit_comment_bind_def Let_def
    by (rule shrinks_in_tx) (use c in \<open>auto simp: shrinks_def split: option.split\<close>)
qed

lemma shrinks_save: "shrinks (upsert_spec_and_catalogs t u n j)"
  unfolding upsert_spec_and_catalogs_def Let_def
  by (auto split: sum.split intro!: shrinks_map_err shrinks_in_tx shrinks_rules)

lemma shrinks_comment: "shrinks (bind_from_resolved_comment env t m u n)"
  unfolding bind_from_resolved_comment_def by (intro shrinks_rules shrinks_binds)

lemma shrinksD: "shrinks f \<Longrightarrow> hats_shrink d (snd (f d))"
  by (simp add: shrinks_def)

lemma binding_step_shrinks: "binding_step env d d' \<Longrightarrow> hats_shrink d d'"
  by (induction rule: binding_step.induct)
     (simp_all add: shrinksD shrinks_save shrinks_tables shrinks_binds shrinks_comment)

section \<open>Runs\<close>

text \<open>
  The steps on hats: everything that saves specs or binds maps, an unlock (its transaction, with
  whatever check went before) and an equip.
\<close>

inductive hat_step :: "wf_env \<Rightarrow> 'z wf_db_scheme \<Rightarrow> 'z wf_db_scheme \<Rightarrow> bool" for env where
  bind: "binding_step env d d' \<Longrightarrow> hat_step env d d'"
| unlock: "hat_step env d (snd (hat_unlock_commit env t user m slug i row d))"
| equip: "hat_step env d (snd (report_equip env t user m slug d))"

inductive hat_reach :: "wf_env \<Rightarrow> 'z wf_db_scheme \<Rightarrow> 'z wf_db_scheme \<Rightarrow> bool" for env d where
  here: "hat_reach env d d"
| step: "hat_reach env d d1 \<Longrightarrow> hat_step env d1 d2 \<Longrightarrow> hat_reach env d d2"

lemma unlock_commit_outcome:
  assumes "hat_unlock_commit env t user m slug i row d = (r, d')"
  shows "(d' = d \<and> r \<noteq> Inr True) \<or>
    (r = Inr True \<and> lock_materialized_spec env m i d \<and> find_hat m slug d = Some row \<and>
     (d' = d \<and> already_unlocked user (hx_key row) d \<or>
      d' = d\<lparr>hat_unlocks := hat_unlocks d @ [\<lparr>hu_user_id = user, hu_key = hx_key row, hu_map_uid = m,
         hu_slug = slug, hu_unlocked_at = t\<rparr>]\<rparr>))"
proof (cases "lock_materialized_row env m i slug d")
  case None
  then show ?thesis using assms by (auto simp: hat_unlock_commit_def in_tx_def)
next
  case (Some locked)
  then have lock: "lock_materialized_spec env m i d" "find_hat m slug d = Some locked"
    by (auto simp: lock_materialized_row_def split: if_splits)
  show ?thesis
  proof (cases "locked = row")
    case True
    then show ?thesis using assms lock Some
      by (auto simp: hat_unlock_commit_def in_tx_def and_then_def insert_unlock_def split: if_splits)
  next
    case False
    then show ?thesis using assms Some by (auto simp: hat_unlock_commit_def in_tx_def)
  qed
qed

lemma find_unlock_owned:
  "find_unlock env user m slug d = Some u \<Longrightarrow>
   already_unlocked user (hu_key u) d \<and>
   (\<exists>h\<in>set (hats_on_map d). hm_map_uid h = m \<and> hm_slug h = slug \<and> hm_key h = hu_key u)"
  unfolding find_unlock_def already_unlocked_def by (drule find_Some_in) auto

lemma upsert_equipped_False: "upsert_equipped r d = (Inr False, d') \<Longrightarrow> d' = d"
  by (auto simp: upsert_equipped_def split: option.splits if_splits)

text \<open>What an equip does to the worn hats.\<close>

lemma report_equip_outcome:
  assumes "report_equip env t user m slug d = (r, d')"
  shows "(d' = d \<and> (\<exists>e. r = Inl e) \<or> d' = d \<and> r = Inr None) \<or> (\<exists>p. r = Inr (Some p)) \<and>
    (slug = [] \<and> list_ex (is_worn_by user m) (hat_equipped d) \<and>
     d' = d\<lparr>hat_equipped := filter (\<lambda>e. \<not> is_worn_by user m e) (hat_equipped d)\<rparr> \<or>
     (\<exists>u b. slug \<noteq> [] \<and> find_bind m d = Some b \<and> lock_materialized_spec env m (lb_spec_id b) d \<and>
       find_unlock env user m slug d = Some u \<and>
       upsert_equipped \<lparr>hq_user_id = user, hq_map_uid = m, hq_slug = slug, hq_key = hu_key u,
         hq_updated_at = t\<rparr> d = (Inr True, d')))"
  using assms unfolding report_equip_def
  by (cases "slug = []")
     (auto simp: in_tx_def and_then_def push_entry_def split: option.splits if_splits prod.splits sum.splits
      dest: upsert_equipped_False)

lemma upsert_equipped_Inr:
  assumes "upsert_equipped r d = (Inr True, d')"
  shows "(\<forall>e\<in>set (hat_equipped d). \<not> is_worn_by (hq_user_id r) (hq_map_uid r) e) \<and>
      d' = d\<lparr>hat_equipped := hat_equipped d @ [r]\<rparr> \<or>
    (\<exists>e\<in>set (hat_equipped d). is_worn_by (hq_user_id r) (hq_map_uid r) e \<and> (hq_slug e \<noteq> hq_slug r \<or> hq_key e \<noteq> hq_key r)) \<and>
      d' = d\<lparr>hat_equipped := upd_where (is_worn_by (hq_user_id r) (hq_map_uid r)) (\<lambda>_. r) (hat_equipped d)\<rparr>"
  using assms unfolding upsert_equipped_def
  by (auto simp: find_None_iff split: option.splits if_splits dest!: find_Some_in)

lemma upsert_equipped_inv:
  assumes inv: "hats_inv d" and up: "upsert_equipped r d = (Inr True, d')"
    and there: "hat_still_there (hats_on_map d) r" "already_unlocked (hq_user_id r) (hq_key r) d"
  shows "hats_inv d'"
  using upsert_equipped_Inr [OF up]
proof (elim disjE conjE)
  assume "\<forall>e\<in>set (hat_equipped d). \<not> is_worn_by (hq_user_id r) (hq_map_uid r) e"
    and "d' = d\<lparr>hat_equipped := hat_equipped d @ [r]\<rparr>"
  then show ?thesis using inv there
    by (auto simp: hats_inv_def is_worn_by_def already_unlocked_def)
next
  assume "d' = d\<lparr>hat_equipped := upd_where (is_worn_by (hq_user_id r) (hq_map_uid r)) (\<lambda>_. r) (hat_equipped d)\<rparr>"
  then show ?thesis using inv there
    by (auto simp: hats_inv_def set_upd_where already_unlocked_def is_worn_by_def intro!: distinct_map_upd_where)
qed

lemma report_equip_inv:
  assumes inv: "hats_inv d"
  shows "hats_inv (snd (report_equip env t user m slug d))"
proof (cases "report_equip env t user m slug d")
  case (Pair r d')
  from report_equip_outcome [OF this] show ?thesis
  proof (elim disjE conjE exE)
    fix u b
    assume u: "find_unlock env user m slug d = Some u"
      and up: "upsert_equipped \<lparr>hq_user_id = user, hq_map_uid = m, hq_slug = slug, hq_key = hu_key u,
         hq_updated_at = t\<rparr> d = (Inr True, d')"
    have "hats_inv d'"
      using find_unlock_owned [OF u] by (intro upsert_equipped_inv [OF inv up]) (auto simp: hat_still_there_def)
    then show ?thesis by (simp add: Pair)
  qed (use inv Pair in \<open>auto simp: hats_inv_def distinct_map_filter_rows already_unlocked_def\<close>)
qed

lemma unlock_commit_inv:
  "hats_inv d \<Longrightarrow> hats_inv (snd (hat_unlock_commit env t user m slug i row d))"
  using unlock_commit_outcome [of env t user m slug i row d "fst (hat_unlock_commit env t user m slug i row d)"
      "snd (hat_unlock_commit env t user m slug i row d)"]
  by (auto simp: hats_inv_def already_unlocked_def)

lemma hat_step_inv: "hat_step env d d' \<Longrightarrow> hats_inv d \<Longrightarrow> hats_inv d'"
  by (induction rule: hat_step.induct)
     (auto intro: hats_shrink_inv binding_step_shrinks unlock_commit_inv report_equip_inv)

lemma hat_step_unlocks: "hat_step env d d' \<Longrightarrow> already_unlocked u k d \<Longrightarrow> already_unlocked u k d'"
proof (induction rule: hat_step.induct)
  case (bind d d')
  then show ?case using binding_step_shrinks [OF bind(1)] by (simp add: hats_shrink_def already_unlocked_def)
next
  case (unlock d t user m slug i row)
  then show ?case
    using unlock_commit_outcome [of env t user m slug i row d "fst (hat_unlock_commit env t user m slug i row d)"
        "snd (hat_unlock_commit env t user m slug i row d)"] by (auto simp: already_unlocked_def)
next
  case (equip d t user m slug)
  then show ?case
    using report_equip_outcome [of env t user m slug d "fst (report_equip env t user m slug d)"
        "snd (report_equip env t user m slug d)"]
    by (auto simp: already_unlocked_def dest!: upsert_equipped_Inr)
qed

section \<open>Properties\<close>

definition sample_verifier :: "string \<Rightarrow> record_verifier" where
  "sample_verifier proven = \<lparr>rv_official = (\<lambda>u m. Inr (m = proven)), rv_recent = (\<lambda>u m. Inr (m = proven)),
     rv_allow = (\<lambda>u m s. True)\<rparr>"

definition sample_hat :: hat_target where
  "sample_hat = \<lparr>hx_key = ''pac:h:MMMMMMMMMM'', hx_finish_this_map = True, hx_record_uids = []\<rparr>"

definition sample_unlock :: hat_unlock_row where
  "sample_unlock = \<lparr>hu_user_id = 7, hu_key = ''pac:h:MMMMMMMMMM'', hu_map_uid = sample_map, hu_slug = ''cap'',
     hu_unlocked_at = 20\<rparr>"

definition unlocked_db :: wf_db where
  "unlocked_db = bound_db\<lparr>hat_unlocks := [sample_unlock]\<rparr>"

definition worn_db :: wf_db where
  "worn_db = unlocked_db\<lparr>hat_equipped := [\<lparr>hq_user_id = 7, hq_map_uid = sample_map, hq_slug = ''cap'',
     hq_key = ''pac:h:MMMMMMMMMM'', hq_updated_at = 21\<rparr>]\<rparr>"

lemma sample_unlock_check:
  "hat_unlock_check sample_env (sample_verifier sample_map) 7 sample_map ''cap'' 1 bound_db = Validated sample_hat"
  by code_simp

lemma unlocked_db_run:
  "hat_unlock_commit sample_env 20 7 sample_map ''cap'' 1 sample_hat bound_db = (Inr True, unlocked_db)"
  by code_simp

lemma worn_db_run:
  "report_equip sample_env 21 7 sample_map ''cap'' unlocked_db =
     (Inr (Some \<lparr>hom_wsid = ''uuuuuuu'', hom_name = ''ann'', hom_slug = ''cap''\<rparr>), worn_db)"
  by code_simp

lemma worn_db_reach: "hat_reach sample_env bound_db worn_db"
proof -
  have "hat_step sample_env bound_db unlocked_db"
    using hat_step.unlock [of sample_env bound_db 20 7 sample_map "''cap''" 1 sample_hat]
    by (simp add: unlocked_db_run)
  moreover have "hat_step sample_env unlocked_db worn_db"
    using hat_step.equip [of sample_env unlocked_db 21 7 sample_map "''cap''"] by (simp add: worn_db_run)
  ultimately show ?thesis by (blast intro: hat_reach.intros)
qed

text \<open>
  C3. A hat is granted on proof only.  Whatever happens between the check and the transaction,
  which run at different times: when the grant succeeds, the hat has a condition at all, every
  condition of it was confirmed for this player, the map's binding is still current at the time of
  the grant, the hat on it is still the one that was checked, and the only write is this unlock.
\<close>

theorem hat_granted_on_proof:
  assumes check: "hat_unlock_check env v user m slug i d0 = Validated row"
    and commit: "hat_unlock_commit env t user m slug i row d1 = (Inr True, d2)"
  shows "(hx_finish_this_map row \<or> hx_record_uids row \<noteq> []) \<and>
    (hx_finish_this_map row \<longrightarrow> rv_recent v user m = Inr True) \<and>
    (\<forall>uid\<in>set (hx_record_uids row). rv_official v user uid = Inr True) \<and> rv_allow v user m slug \<and>
    lock_materialized_spec env m i d1 \<and> find_hat m slug d1 = Some row \<and>
    already_unlocked user (hx_key row) d2 \<and>
    (d2 = d1 \<or> d2 = d1\<lparr>hat_unlocks := hat_unlocks d1 @ [\<lparr>hu_user_id = user, hu_key = hx_key row,
       hu_map_uid = m, hu_slug = slug, hu_unlocked_at = t\<rparr>]\<rparr>)"
proof -
  have val: "validate_hat_unlock v user m row" and allow: "rv_allow v user m slug"
    using check by (auto simp: hat_unlock_check_def split: option.splits if_splits)
  have "(hx_finish_this_map row \<or> hx_record_uids row \<noteq> []) \<and>
      (hx_finish_this_map row \<longrightarrow> rv_recent v user m = Inr True) \<and>
      (\<forall>uid\<in>set (hx_record_uids row). rv_official v user uid = Inr True)"
    using val by (auto simp: validate_hat_unlock_def validate_iff list_all_iff split: if_splits)
  moreover have "already_unlocked user (hx_key row) d2"
    using unlock_commit_outcome [OF commit] by (auto simp: already_unlocked_def)
  ultimately show ?thesis using unlock_commit_outcome [OF commit] allow by auto
qed

theorem hat_granted_on_proof_witness:
  "already_unlocked 7 ''pac:h:MMMMMMMMMM'' unlocked_db \<and> lock_materialized_spec sample_env sample_map 1 bound_db"
  using hat_granted_on_proof [OF sample_unlock_check unlocked_db_run] by (simp add: sample_hat_def)

text \<open>
  C12. Through every interleaving of spec saves, binds, unlocks and equips, a player wears at most one
  hat on a map, only hats that are on that map now, and only hats they have unlocked; and an
  unlock, once granted, is never lost.
\<close>

theorem worn_hats_are_owned:
  assumes "hat_reach env d d'"
  shows "(hats_inv d \<longrightarrow> hats_inv d') \<and> (\<forall>u k. already_unlocked u k d \<longrightarrow> already_unlocked u k d')"
  using assms by (induction rule: hat_reach.induct) (auto intro: hat_step_inv hat_step_unlocks)

theorem worn_hats_are_owned_witness:
  "hats_inv bound_db \<and> hats_inv worn_db \<and> list_ex (is_worn_by 7 sample_map) (hat_equipped worn_db)"
proof -
  have "hats_inv bound_db" by (simp add: hats_inv_def bound_db_def saved_db_def sample_db_def)
  moreover have "list_ex (is_worn_by 7 sample_map) (hat_equipped worn_db)" by code_simp
  ultimately show ?thesis using worn_hats_are_owned [OF worn_db_reach] by blast
qed

lemma equip_frame:
  "find_bind m (d\<lparr>hat_equipped := q\<rparr>) = find_bind m d"
  "lock_materialized_spec env m i (d\<lparr>hat_equipped := q\<rparr>) = lock_materialized_spec env m i d"
  "find_unlock env user m slug (d\<lparr>hat_equipped := q\<rparr>) = find_unlock env user m slug d"
proof -
  show "lock_materialized_spec env m i (d\<lparr>hat_equipped := q\<rparr>) = lock_materialized_spec env m i d"
    by (rule bind_reads_cong(4)) simp_all
qed (simp_all add: find_bind_def find_unlock_def)

lemma upsert_equipped_False_iff:
  "upsert_equipped r d = (Inr False, d') \<longleftrightarrow> d' = d \<and>
     (\<exists>e. List.find (is_worn_by (hq_user_id r) (hq_map_uid r)) (hat_equipped d) = Some e \<and>
        hq_slug e = hq_slug r \<and> hq_key e = hq_key r)"
  by (auto simp: upsert_equipped_def split: option.splits)

lemma report_equip_None_again:
  assumes "report_equip env t user m slug d = (Inr None, d)"
  shows "report_equip env t' user m slug d = (Inr None, d)"
proof (cases "slug = []")
  case True
  then show ?thesis using assms unfolding report_equip_def in_tx_Inr_iff by simp
next
  case False
  show ?thesis
  proof (cases "\<exists>b u. find_bind m d = Some b \<and> lock_materialized_spec env m (lb_spec_id b) d \<and>
      find_unlock env user m slug d = Some u")
    case True
    then obtain b u where b: "find_bind m d = Some b" "lock_materialized_spec env m (lb_spec_id b) d"
      "find_unlock env user m slug d = Some u" by blast
    have "upsert_equipped \<lparr>hq_user_id = user, hq_map_uid = m, hq_slug = slug, hq_key = hu_key u,
        hq_updated_at = t\<rparr> d = (Inr False, d)"
      using assms False b unfolding report_equip_def in_tx_Inr_iff
      by (auto simp: and_then_Inr push_entry_def upsert_equipped_False_iff split: if_splits option.splits)
    then show ?thesis
      using False b unfolding report_equip_def in_tx_Inr_iff
      by (auto simp: and_then_Inr upsert_equipped_False_iff)
  next
    case no: False
    then show ?thesis
      using False unfolding report_equip_def in_tx_Inr_iff by (auto split: option.splits)
  qed
qed

lemma find_first_in: "x \<in> set xs \<Longrightarrow> P x \<Longrightarrow> \<exists>y. List.find P xs = Some y"
  by (induction xs) auto

lemma upsert_equipped_True:
  assumes "upsert_equipped r d = (Inr True, d')"
  shows "d' = d\<lparr>hat_equipped := hat_equipped d'\<rparr> \<and> hat_equipped d' \<noteq> hat_equipped d \<and>
    List.find (is_worn_by (hq_user_id r) (hq_map_uid r)) (hat_equipped d') = Some r"
  using upsert_equipped_Inr [OF assms]
proof (elim disjE conjE)
  let ?P = "is_worn_by (hq_user_id r) (hq_map_uid r)"
  have Pr: "?P r" by (simp add: is_worn_by_def)
  { assume none: "\<forall>e\<in>set (hat_equipped d). \<not> ?P e" and d': "d' = d\<lparr>hat_equipped := hat_equipped d @ [r]\<rparr>"
    have "List.find ?P xs = None \<Longrightarrow> List.find ?P (xs @ [r]) = Some r" for xs
      using Pr by (induction xs) (auto split: if_splits)
    then show ?thesis using none by (simp add: d' find_None_iff) }
  { assume old: "\<exists>e\<in>set (hat_equipped d). ?P e \<and> (hq_slug e \<noteq> hq_slug r \<or> hq_key e \<noteq> hq_key r)"
      and d': "d' = d\<lparr>hat_equipped := upd_where ?P (\<lambda>_. r) (hat_equipped d)\<rparr>"
    obtain e where e: "e \<in> set (hat_equipped d)" "?P e" "e \<noteq> r" using old by auto
    then have "e \<notin> set (hat_equipped d')" by (auto simp: d' set_upd_where)
    then have "hat_equipped d' \<noteq> hat_equipped d" using e(1) by metis
    moreover have "\<exists>x\<in>set xs. ?P x \<Longrightarrow> List.find ?P (upd_where ?P (\<lambda>_. r) xs) = Some r" for xs
      using Pr by (induction xs) auto
    ultimately show ?thesis using e(1,2) by (auto simp: d') }
qed

text \<open>
  An equip that succeeds broadcasts an entry exactly when it changed something, and repeating
  it right away, at whatever time, is accepted without a second change or broadcast.
\<close>

theorem equip_announces_changes:
  assumes "report_equip env t user m slug d = (Inr r, d')"
  shows "(r = None \<longleftrightarrow> d' = d) \<and> report_equip env t' user m slug d' = (Inr None, d')"
proof -
  from report_equip_outcome [OF assms] show ?thesis
  proof (elim disjE conjE exE)
    assume "d' = d" "Inr r = (Inr None :: db_error + hat_on_map_player option)"
    then show ?thesis using report_equip_None_again assms by simp
  next
    fix p assume "Inr r = (Inr (Some p) :: db_error + hat_on_map_player option)" "slug = []"
      and worn: "list_ex (is_worn_by user m) (hat_equipped d)"
      and d': "d' = d\<lparr>hat_equipped := filter (\<lambda>e. \<not> is_worn_by user m e) (hat_equipped d)\<rparr>"
    have "hat_equipped d' \<noteq> hat_equipped d"
      using worn by (auto simp: d' filter_id_conv list_ex_iff)
    moreover have "\<not> list_ex (is_worn_by user m) (hat_equipped d')" by (simp add: d' list_ex_iff)
    ultimately show ?thesis
      using \<open>slug = []\<close> \<open>Inr r = _\<close> by (auto simp: report_equip_def in_tx_def)
  next
    fix p u b
    assume r: "Inr r = (Inr (Some p) :: db_error + hat_on_map_player option)" and slug: "slug \<noteq> []"
      and b: "find_bind m d = Some b" "lock_materialized_spec env m (lb_spec_id b) d"
      and u: "find_unlock env user m slug d = Some u"
      and up: "upsert_equipped \<lparr>hq_user_id = user, hq_map_uid = m, hq_slug = slug, hq_key = hu_key u,
         hq_updated_at = t\<rparr> d = (Inr True, d')"
    from upsert_equipped_True [OF up]
    have d': "d' = d\<lparr>hat_equipped := hat_equipped d'\<rparr>" "hat_equipped d' \<noteq> hat_equipped d"
      and found: "\<exists>e. List.find (is_worn_by user m) (hat_equipped d') = Some e \<and> hq_slug e = slug \<and>
        hq_key e = hu_key u"
      by auto
    have "lock_materialized_spec env m (lb_spec_id b) d'" "find_bind m d' = Some b"
        "find_unlock env user m slug d' = Some u"
      using b u d'(1) by (metis equip_frame)+
    then have "report_equip env t' user m slug d' = (Inr None, d')"
      using slug found by (auto simp: report_equip_def in_tx_def and_then_def upsert_equipped_def)
    then show ?thesis using d'(2) r by auto
  qed simp
qed

theorem equip_announces_changes_witness:
  "report_equip sample_env 99 7 sample_map ''cap'' worn_db = (Inr None, worn_db) \<and> worn_db \<noteq> unlocked_db"
  using equip_announces_changes [OF worn_db_run, of 99] by auto

end
