(* ===== verification/Rate_Limits.thy ===== *)
theory Rate_Limits
  imports Collections
begin

text \<open>
  The limiters that protect the database and the Nadeo services: the fixed-window admission of
  the two cached verifiers of \<open>src/nadeo.rs\<close>, the throttle of unlock validations, the hat
  equip limiter of \<open>src/queries/hats.rs\<close>, and the debounce of comment lookups of
  \<open>src/server2.rs\<close>.  Every operation takes the current instant; LRU caches are used through
  \<^const>\<open>lru_put\<close> and the other operations of their interface.
\<close>

section \<open>Fixed windows\<close>

record admission_window =
  aw_started :: nat
  aw_count :: nat

record admission_cfg =
  ac_window :: nat
  ac_global_limit :: nat
  ac_account_limit :: nat

record 'c admission =
  ad_global :: admission_window
  ad_accounts :: 'c

definition admission_new :: "nat \<Rightarrow> 'c \<Rightarrow> 'c admission" where
  "admission_new now c = \<lparr>ad_global = \<lparr>aw_started = now, aw_count = 0\<rparr>, ad_accounts = c\<rparr>"

definition roll_window :: "nat \<Rightarrow> nat \<Rightarrow> admission_window \<Rightarrow> admission_window" where
  "roll_window W now w =
     (if W \<le> now - aw_started w then \<lparr>aw_started = now, aw_count = 0\<rparr> else w)"

text \<open>\<open>admit_at\<close>, the same code in both verifiers.\<close>

definition admit_at ::
    "('c, 'k, admission_window, 'z) lru_ops_scheme \<Rightarrow> admission_cfg \<Rightarrow> 'k \<Rightarrow> nat \<Rightarrow>
     'c admission \<Rightarrow> bool \<times> 'c admission" where
  "admit_at ops cfg account now s =
     (let global = roll_window (ac_window cfg) now (ad_global s)
      in if ac_global_limit cfg \<le> aw_count global then (False, s\<lparr>ad_global := global\<rparr>)
         else
           let (found, accounts) = lru_get ops (ad_accounts s) account
           in case found of
                Some window \<Rightarrow>
                  let w = roll_window (ac_window cfg) now window
                  in if ac_account_limit cfg \<le> aw_count w
                     then (False, \<lparr>ad_global = global, ad_accounts = lru_put ops accounts account w\<rparr>)
                     else (True, \<lparr>ad_global = global\<lparr>aw_count := aw_count global + 1\<rparr>,
                       ad_accounts = lru_put ops accounts account (w\<lparr>aw_count := aw_count w + 1\<rparr>)\<rparr>)
              | None \<Rightarrow>
                  (True, \<lparr>ad_global = global\<lparr>aw_count := aw_count global + 1\<rparr>,
                    ad_accounts =
                      lru_put ops accounts account \<lparr>aw_started = now, aw_count = 1\<rparr>\<rparr>))"

section \<open>Unlock validation throttle\<close>

definition allow_unlock_validation_at ::
    "('c, 'k, nat, 'z) lru_ops_scheme \<Rightarrow> nat \<Rightarrow> 'k \<Rightarrow> nat \<Rightarrow> 'c \<Rightarrow> bool \<times> 'c" where
  "allow_unlock_validation_at ops throttle key now attempts =
     (if (case lru_peek ops attempts key of None \<Rightarrow> False | Some previous \<Rightarrow> now - previous < throttle)
      then (False, attempts)
      else (True, lru_put ops attempts key now))"

section \<open>Hat equip limiter\<close>

datatype hat_equip_rate_verdict = Allowed | PerUser | Global

record hat_equip_cfg =
  he_per_user_interval :: nat
  he_global_window :: nat
  he_global_limit :: nat

record 'c hat_equip_rate_state =
  hr_attempts :: 'c
  hr_global_started :: nat
  hr_global_count :: nat

definition hat_equip_limiter_new ::
    "(nat \<Rightarrow> 'c) \<Rightarrow> nat \<Rightarrow> nat \<Rightarrow> nat \<Rightarrow> nat \<Rightarrow> nat \<Rightarrow> hat_equip_cfg \<times> 'c hat_equip_rate_state" where
  "hat_equip_limiter_new new capacity interval window limit now =
     (\<lparr>he_per_user_interval = interval, he_global_window = window, he_global_limit = max limit 1\<rparr>,
      \<lparr>hr_attempts = new (max capacity 1), hr_global_started = now, hr_global_count = 0\<rparr>)"

definition hat_equip_check_at ::
    "('c, 'k, nat, 'z) lru_ops_scheme \<Rightarrow> hat_equip_cfg \<Rightarrow> 'k \<Rightarrow> nat \<Rightarrow>
     'c hat_equip_rate_state \<Rightarrow> hat_equip_rate_verdict \<times> 'c hat_equip_rate_state" where
  "hat_equip_check_at ops cfg user now s =
     (if (case lru_peek ops (hr_attempts s) user of
            None \<Rightarrow> False | Some previous \<Rightarrow> now - previous < he_per_user_interval cfg)
      then (PerUser, s)
      else
        let s1 = (if he_global_window cfg \<le> now - hr_global_started s
                  then s\<lparr>hr_global_started := now, hr_global_count := 0\<rparr> else s)
        in if he_global_limit cfg \<le> hr_global_count s1 then (Global, s1)
           else (Allowed, s1\<lparr>hr_attempts := lru_put ops (hr_attempts s1) user now,
                            hr_global_count := hr_global_count s1 + 1\<rparr>))"

definition hat_equip_allow_at ::
    "('c, 'k, nat, 'z) lru_ops_scheme \<Rightarrow> hat_equip_cfg \<Rightarrow> 'k \<Rightarrow> nat \<Rightarrow>
     'c hat_equip_rate_state \<Rightarrow> bool \<times> 'c hat_equip_rate_state" where
  "hat_equip_allow_at ops cfg user now s =
     (let (v, s') = hat_equip_check_at ops cfg user now s in (v = Allowed, s'))"

section \<open>Debounce of comment lookups\<close>

record comment_bind_state =
  cb_next_attempt :: nat
  cb_attempts :: nat

definition secs :: "nat \<Rightarrow> nat" where
  "secs n = n * 1000000000"

definition comment_bind_backoff :: "nat \<Rightarrow> nat" where
  "comment_bind_backoff attempts =
     (if attempts = 0 then secs (5 * 60) else if attempts = 1 then secs (15 * 60) else secs (60 * 60))"

datatype comment_bind_admission = Skip | Schedule

text \<open>\<open>attempts\<close> is a \<open>u8\<close>, incremented with saturation.\<close>

definition comment_bind_prune ::
    "('k, comment_bind_state) hash_map \<Rightarrow> nat \<Rightarrow> nat \<Rightarrow> ('k, comment_bind_state) hash_map" where
  "comment_bind_prune state now cap =
     (if cap \<le> length state then
        (let live = hm_retain (\<lambda>_ e. now < cb_next_attempt e) state
         in if cap \<le> length live then [] else live)
      else state)"

definition comment_bind_admit ::
    "('k, comment_bind_state) hash_map \<Rightarrow> 'k \<Rightarrow> nat \<Rightarrow> nat \<Rightarrow>
     comment_bind_admission \<times> ('k, comment_bind_state) hash_map" where
  "comment_bind_admit state uid now cap =
     (let state1 = comment_bind_prune state now cap;
          entry = map_of state1 uid
      in if (case entry of None \<Rightarrow> False | Some e \<Rightarrow> now < cb_next_attempt e) then (Skip, state1)
         else
           let attempts = (case entry of None \<Rightarrow> 0 | Some e \<Rightarrow> min 255 (cb_attempts e + 1))
           in (Schedule, AList.update uid
                 \<lparr>cb_next_attempt = now + comment_bind_backoff attempts, cb_attempts = attempts\<rparr>
                 state1))"

definition comment_bind_reschedule ::
    "'k \<Rightarrow> nat \<Rightarrow> bool \<Rightarrow> nat \<Rightarrow> ('k, comment_bind_state) hash_map \<Rightarrow>
     ('k, comment_bind_state) hash_map" where
  "comment_bind_reschedule uid delay reset_attempts now state =
     (case map_of state uid of
        Some e \<Rightarrow>
          AList.update uid
            \<lparr>cb_next_attempt = now + delay,
             cb_attempts = (if reset_attempts then 0 else cb_attempts e)\<rparr> state
      | None \<Rightarrow>
          AList.update uid \<lparr>cb_next_attempt = now + delay, cb_attempts = 0\<rparr> state)"

section \<open>Runs of a limiter\<close>

fun run_limiter :: "('k \<Rightarrow> nat \<Rightarrow> 's \<Rightarrow> bool \<times> 's) \<Rightarrow> 's \<Rightarrow> ('k \<times> nat) list \<Rightarrow> bool list \<times> 's" where
  "run_limiter step s [] = ([], s)"
| "run_limiter step s ((k, t) # rs) =
     (let (b, s1) = step k t s; (bs, s2) = run_limiter step s1 rs in (b # bs, s2))"

fun admitted_times :: "('k \<Rightarrow> nat \<Rightarrow> 's \<Rightarrow> bool \<times> 's) \<Rightarrow> 's \<Rightarrow> ('k \<times> nat) list \<Rightarrow> nat list" where
  "admitted_times step s [] = []"
| "admitted_times step s ((k, t) # rs) =
     (if fst (step k t s) then [t] else []) @ admitted_times step (snd (step k t s)) rs"

definition in_span :: "nat \<Rightarrow> nat \<Rightarrow> nat list \<Rightarrow> nat" where
  "in_span a n ts = length (filter (\<lambda>t. a \<le> t \<and> t < a + n) ts)"

lemma in_span_simps [simp]:
  "in_span a n [] = 0"
  "in_span a n (t # ts) = (if a \<le> t \<and> t < a + n then 1 else 0) + in_span a n ts"
  by (simp_all add: in_span_def)

lemma admitted_times_subset: "set (admitted_times step s rs) \<subseteq> snd ` set rs"
  by (induction step s rs rule: admitted_times.induct) (auto split: if_splits)

text \<open>
  The law two limiters share: the window in force at \<open>t\<close> is the current one or a new one, an
  admission needs room in it and takes one place, a refusal takes none.
\<close>

locale fixed_window =
  fixes step :: "'k \<Rightarrow> nat \<Rightarrow> 's \<Rightarrow> bool \<times> 's"
    and started :: "'s \<Rightarrow> nat" and used :: "'s \<Rightarrow> nat" and W :: nat and L :: nat
  assumes admit: "fst (step k t s) \<Longrightarrow>
      (if W \<le> t - started s
       then 0 < L \<and> started (snd (step k t s)) = t \<and> used (snd (step k t s)) = 1
       else used s < L \<and> started (snd (step k t s)) = started s \<and>
            used (snd (step k t s)) = used s + 1)"
    and refuse: "\<not> fst (step k t s) \<Longrightarrow>
      (started (snd (step k t s)) = started s \<and> used (snd (step k t s)) = used s) \<or>
      (W \<le> t - started s \<and> started (snd (step k t s)) = t \<and> used (snd (step k t s)) = 0)"
begin

lemma used_le: "used s \<le> L \<Longrightarrow> used (snd (step k t s)) \<le> L"
  using admit [of k t s] refuse [of k t s]
  by (cases "fst (step k t s)") (auto split: if_splits)

lemma current_window:
  "0 < W \<Longrightarrow> sorted (map snd rs) \<Longrightarrow> used s \<le> L \<Longrightarrow> e \<le> started s + W \<Longrightarrow>
   in_span a n (filter (\<lambda>t. t < e) (admitted_times step s rs)) \<le> L - used s"
proof (induction rs arbitrary: s)
  case Nil
  then show ?case by simp
next
  case (Cons r rs)
  obtain k t where r: "r = (k, t)" by (cases r)
  let ?s = "snd (step k t s)"
  have so: "sorted (map snd rs)" "\<forall>x\<in>snd ` set rs. t \<le> x"
    using Cons.prems(2) r by auto
  have later: "\<forall>x\<in>set (admitted_times step ?s rs). t \<le> x"
    using so(2) admitted_times_subset [of step ?s rs] by blast
  show ?case
  proof (cases "W \<le> t - started s")
    case True
    then have "e \<le> t" using Cons.prems(1,4) by simp
    then have "filter (\<lambda>t. t < e) (admitted_times step ?s rs) = []"
      using later by (force simp: filter_empty_conv)
    then show ?thesis using \<open>e \<le> t\<close> r by simp
  next
    case False
    then have st: "started ?s = started s"
      using admit [of k t s] refuse [of k t s] by (cases "fst (step k t s)") auto
    then have "in_span a n (filter (\<lambda>t. t < e) (admitted_times step ?s rs)) \<le> L - used ?s"
      using Cons.prems so(1) by (intro Cons.IH used_le) simp_all
    then show ?thesis
      using r False admit [of k t s] refuse [of k t s]
      by (cases "fst (step k t s)") auto
  qed
qed

text \<open>
  Any interval as long as the window meets at most two windows, so at most twice the limit
  is admitted in it.
\<close>

lemma burst_used:
  "0 < W \<Longrightarrow> sorted (map snd rs) \<Longrightarrow> used s \<le> L \<Longrightarrow>
   in_span a W (admitted_times step s rs) \<le> 2 * L - (if a < started s + W then used s else 0)"
proof (induction rs arbitrary: s)
  case Nil
  then show ?case by simp
next
  case (Cons r rs)
  obtain k t where r: "r = (k, t)" by (cases r)
  let ?s = "snd (step k t s)" and ?rest = "admitted_times step (snd (step k t s)) rs"
  have so: "sorted (map snd rs)" "\<forall>x\<in>snd ` set rs. t \<le> x"
    using Cons.prems(2) r by auto
  have le: "used ?s \<le> L" by (rule used_le [OF Cons.prems(3)])
  have ih: "in_span a W ?rest \<le> 2 * L - (if a < started ?s + W then used ?s else 0)"
    by (rule Cons.IH [OF Cons.prems(1) so(1) le])
  show ?case
  proof (cases "W \<le> t - started s \<and> started ?s = t \<and> a < started s + W")
    case False
    then show ?thesis
      using ih r Cons.prems(1,3) admit [of k t s] refuse [of k t s]
      by (cases "fst (step k t s)") (auto split: if_splits)
  next
    case True
    have "in_span a W ?rest = in_span a W (filter (\<lambda>x. x < t + W) ?rest)"
      using True Cons.prems(1) unfolding in_span_def filter_filter
      by (intro arg_cong [of _ _ length] filter_cong) auto
    also have "\<dots> \<le> L - used ?s"
      using True Cons.prems(1) so(1) le by (intro current_window) simp_all
    finally show ?thesis
      using True r Cons.prems(1,3) admit [of k t s] refuse [of k t s]
      by (cases "fst (step k t s)") (auto split: if_splits)
  qed
qed

lemma burst:
  "sorted (map snd rs) \<Longrightarrow> used s \<le> L \<Longrightarrow> in_span a W (admitted_times step s rs) \<le> 2 * L"
  using burst_used [of rs s a] by (cases "W = 0") (auto simp: in_span_def split: if_splits)

end

interpretation admission: fixed_window "admit_at ops cfg"
    "\<lambda>s. aw_started (ad_global s)" "\<lambda>s. aw_count (ad_global s)"
    "ac_window cfg" "ac_global_limit cfg"
  for ops cfg
  by unfold_locales
     (auto simp: admit_at_def roll_window_def Let_def split: if_splits option.splits prod.splits)

interpretation hat_window: fixed_window "hat_equip_allow_at ops cfg"
    hr_global_started hr_global_count "he_global_window cfg" "he_global_limit cfg"
  for ops cfg
  by unfold_locales
     (auto simp: hat_equip_allow_at_def hat_equip_check_at_def Let_def
       split: if_splits option.splits prod.splits)

section \<open>Spacing per key\<close>

text \<open>
  The law of the two limiters that stamp a key in an LRU cache: an admission finds no recent
  stamp of its key and writes one, a refusal leaves the cache alone.
\<close>

locale key_spacing =
  fixes check :: "'k \<Rightarrow> nat \<Rightarrow> 's \<Rightarrow> bool \<times> 's"
    and cache :: "'s \<Rightarrow> 'c" and ops :: "('c, 'k, nat, 'z) lru_ops_scheme" and gap :: nat
  assumes grant: "fst (check k t s) \<Longrightarrow> cache (snd (check k t s)) = lru_put ops (cache s) k t"
    and deny: "\<not> fst (check k t s) \<Longrightarrow> cache (snd (check k t s)) = cache s"
    and recent: "lru_peek ops (cache s) k = Some p \<Longrightarrow> t - p < gap \<Longrightarrow> \<not> fst (check k t s)"
begin

lemma cache_step:
  "cache (snd (check k t s)) = (if fst (check k t s) then lru_put ops (cache s) k t else cache s)"
  using grant deny by simp

lemma ok_step:
  "lru_contract ops ok \<Longrightarrow> ok (cache s) \<Longrightarrow>
   ok (cache (snd (check k t s))) \<and> lru_cap ops (cache (snd (check k t s))) = lru_cap ops (cache s)"
  by (simp add: cache_step lru_put_ok lru_put_cap)

lemma stamp_survives:
  assumes c: "lru_contract ops ok" and U: "finite U" "u \<notin> U" and n: "card U < cap"
  shows "ok (cache s) \<Longrightarrow> lru_cap ops (cache s) = cap \<Longrightarrow>
    lru_behind U u v (lru_iter ops (cache s)) \<Longrightarrow> v0 \<le> v \<Longrightarrow>
    fst ` set rs \<subseteq> insert u U \<Longrightarrow> \<forall>r\<in>set rs. v0 \<le> snd r \<Longrightarrow>
    (\<exists>w\<ge>v0. lru_behind U u w (lru_iter ops (cache (snd (run_limiter check s rs)))) \<and>
       ok (cache (snd (run_limiter check s rs))))"
proof (induction rs arbitrary: s v)
  case Nil
  then show ?case by auto
next
  case (Cons r rs)
  obtain k t where r: "r = (k, t)" by (cases r)
  let ?s = "snd (check k t s)"
  have ok: "ok (cache ?s)" "lru_cap ops (cache ?s) = cap"
    using ok_step [OF c Cons.prems(1)] Cons.prems(2) by auto
  have "\<exists>w\<ge>v0. lru_behind U u w (lru_iter ops (cache ?s))"
  proof (cases "fst (check k t s) \<and> k = u")
    case True
    then show ?thesis
      using lru_behind_put_same [OF c Cons.prems(1), of U u t] Cons.prems(6) r
      by (auto simp: cache_step)
  next
    case False
    then have "lru_behind U u v (lru_iter ops (cache ?s))"
      using lru_behind_put [OF c Cons.prems(1,3) U(1) _ U(2), of k t] Cons.prems(2,3,5) r n
      by (auto simp: cache_step)
    with Cons.prems(4) show ?thesis by blast
  qed
  then obtain w where w: "v0 \<le> w" "lru_behind U u w (lru_iter ops (cache ?s))"
    by blast
  have "snd (run_limiter check s (r # rs)) = snd (run_limiter check ?s rs)"
    by (simp add: r Let_def split: prod.splits)
  with Cons.IH [OF ok w(2,1)] Cons.prems(5,6) show ?case by simp
qed

text \<open>
  After a key was admitted at \<open>t\<close>, it is refused until \<open>t + gap\<close>, as long as fewer other
  keys than the cache holds were seen in between.
\<close>

lemma refused_until:
  assumes c: "lru_contract ops ok" "ok (cache s)" and g: "fst (check u t s)"
    and rs: "card (fst ` set rs - {u}) < lru_cap ops (cache s)" "\<forall>r\<in>set rs. t \<le> snd r"
    and now: "t \<le> now" "now < t + gap"
  shows "\<not> fst (check u now (snd (run_limiter check (snd (check u t s)) rs)))"
proof -
  let ?s = "snd (check u t s)" and ?U = "fst ` set rs - {u}"
  have b: "lru_behind ?U u t (lru_iter ops (cache ?s))"
    using lru_behind_put_same [OF c] g by (simp add: cache_step)
  have ok: "ok (cache ?s)" "lru_cap ops (cache ?s) = lru_cap ops (cache s)"
    using ok_step [OF c] by auto
  obtain w where w: "t \<le> w"
      "lru_behind ?U u w (lru_iter ops (cache (snd (run_limiter check ?s rs))))"
      "ok (cache (snd (run_limiter check ?s rs)))"
    using stamp_survives [OF c(1) _ _ rs(1) ok b order_refl] rs(2) by auto
  then have "lru_peek ops (cache (snd (run_limiter check ?s rs))) u = Some w"
    using lru_behind_lookup [OF w(2)] by (simp add: lru_peek_eq [OF c(1)])
  moreover have "now - w < gap" using w(1) now by linarith
  ultimately show ?thesis by (rule recent)
qed

end

interpretation hat_spacing: key_spacing "hat_equip_allow_at ops cfg" hr_attempts ops
    "he_per_user_interval cfg"
  for ops cfg
  by unfold_locales
     (auto simp: hat_equip_allow_at_def hat_equip_check_at_def Let_def
       split: if_splits option.splits prod.splits)

interpretation unlock_spacing: key_spacing "allow_unlock_validation_at ops throttle" "\<lambda>c. c" ops
    throttle
  for ops throttle
  by unfold_locales
     (auto simp: allow_unlock_validation_at_def split: if_splits option.splits)

section \<open>The comment debounce\<close>

lemma prune_roomy: "length state < cap \<Longrightarrow> comment_bind_prune state now cap = state"
  by (simp add: comment_bind_prune_def)

lemma length_prune: "length (comment_bind_prune state now cap) < max cap 1"
  by (auto simp: comment_bind_prune_def Let_def)

lemma wf_prune: "wf_map state \<Longrightarrow> wf_map (comment_bind_prune state now cap)"
  by (simp add: comment_bind_prune_def Let_def)

lemma admit_roomy:
  "length state < cap \<Longrightarrow> comment_bind_admit state uid now cap =
     (let entry = map_of state uid in
      if (case entry of None \<Rightarrow> False | Some e \<Rightarrow> now < cb_next_attempt e) then (Skip, state)
      else
        let attempts = (case entry of None \<Rightarrow> 0 | Some e \<Rightarrow> min 255 (cb_attempts e + 1))
        in (Schedule, AList.update uid
              \<lparr>cb_next_attempt = now + comment_bind_backoff attempts, cb_attempts = attempts\<rparr>
              state))"
  by (simp add: comment_bind_admit_def prune_roomy Let_def)

lemma wf_admit: "wf_map state \<Longrightarrow> wf_map (snd (comment_bind_admit state uid now cap))"
  by (simp add: comment_bind_admit_def Let_def wf_prune)

lemma keys_update: "fst ` set (AList.update k v m) = insert k (fst ` set m)"
  by (metis dom_map_of_conv_image_fst dom_fun_upd map_of_update option.distinct(1))

lemma length_wf_map: "wf_map m \<Longrightarrow> length m = card (fst ` set m)"
  using distinct_card [of "map fst m"] by (simp add: wf_map_def)

lemma roomy: "wf_map m \<Longrightarrow> fst ` set m \<subseteq> K \<Longrightarrow> finite K \<Longrightarrow> card K < cap \<Longrightarrow> length m < cap"
  using card_mono [of K "fst ` set m"] by (simp add: length_wf_map)

lemma keys_admit_roomy:
  "length state < cap \<Longrightarrow>
   fst ` set (snd (comment_bind_admit state uid now cap)) \<subseteq> insert uid (fst ` set state)"
  by (auto simp: admit_roomy keys_update Let_def split: option.splits)

lemma admits_keep_entry:
  assumes K: "finite K" "card K < cap"
  shows "wf_map s \<Longrightarrow> fst ` set s \<subseteq> K \<Longrightarrow> map_of s uid = Some e \<Longrightarrow> fst ` set rs \<subseteq> K \<Longrightarrow>
     \<forall>r\<in>set rs. snd r < cb_next_attempt e \<Longrightarrow>
     (let s' = fold (\<lambda>(u, t) s. snd (comment_bind_admit s u t cap)) rs s
      in map_of s' uid = Some e \<and> length s' < cap)"
proof (induction rs arbitrary: s)
  case Nil
  then show ?case using roomy [OF _ _ K] by (simp add: Let_def)
next
  case (Cons r rs)
  obtain u t where r: "r = (u, t)" by (cases r)
  let ?s = "snd (comment_bind_admit s u t cap)"
  have len: "length s < cap" by (rule roomy [OF Cons.prems(1,2) K])
  have "fst ` set ?s \<subseteq> K"
    using keys_admit_roomy [OF len, of u t] Cons.prems(2,4) r by auto
  moreover have "map_of ?s uid = Some e"
    using Cons.prems(3,5) r by (cases "u = uid") (auto simp: admit_roomy [OF len] Let_def split: option.splits)
  moreover have "wf_map ?s" by (rule wf_admit [OF Cons.prems(1)])
  ultimately show ?case
    using Cons.IH [of ?s] Cons.prems(4,5) r by simp
qed

section \<open>Properties\<close>

text \<open>
  C34. Whatever accounts ask, and however the account cache evicts, the lookups admitted in any
  interval as long as the admission window are at most twice the global limit.
\<close>

theorem nadeo_admission_burst:
  assumes "sorted (map snd requests)"
  shows "in_span a (ac_window cfg)
      (admitted_times (admit_at ops cfg) (admission_new now accounts) requests)
    \<le> 2 * ac_global_limit cfg"
  using assms by (intro admission.burst) (simp_all add: admission_new_def)

theorem nadeo_admission_burst_witness:
  "in_span 3 10 (admitted_times
      (admit_at list_lru \<lparr>ac_window = 10, ac_global_limit = 1, ac_account_limit = 1\<rparr>)
      (admission_new 0 (4, [])) [(7::nat, 3), (8, 5), (8, 12)]) \<le> 2"
  using nadeo_admission_burst [of "[(7::nat, 3), (8, 5), (8, 12)]" 3
      "\<lparr>ac_window = 10, ac_global_limit = 1, ac_account_limit = 1\<rparr>" list_lru 0 "(4, [])"]
  by simp

text \<open>
  A player whose hat change was allowed is refused for the per-user interval, as long as
  fewer other players than the limiter's capacity were seen in between.
\<close>

theorem hat_equip_spacing:
  assumes "lru_contract ops ok" and "ok (hr_attempts s)"
    and "fst (hat_equip_allow_at ops cfg user t s)"
    and "card (fst ` set others - {user}) < lru_cap ops (hr_attempts s)"
    and "\<forall>r\<in>set others. t \<le> snd r"
    and "t \<le> now" and "now < t + he_per_user_interval cfg"
  shows "\<not> fst (hat_equip_allow_at ops cfg user now (snd (run_limiter (hat_equip_allow_at ops cfg)
      (snd (hat_equip_allow_at ops cfg user t s)) others)))"
  using assms by (rule hat_spacing.refused_until)

theorem hat_equip_spacing_witness:
  "\<not> fst (hat_equip_allow_at list_lru
      \<lparr>he_per_user_interval = 250, he_global_window = 1000, he_global_limit = 9\<rparr> (1::nat) 300
      (snd (run_limiter (hat_equip_allow_at list_lru
        \<lparr>he_per_user_interval = 250, he_global_window = 1000, he_global_limit = 9\<rparr>)
        (snd (hat_equip_allow_at list_lru
          \<lparr>he_per_user_interval = 250, he_global_window = 1000, he_global_limit = 9\<rparr> 1 100
          \<lparr>hr_attempts = (2, []), hr_global_started = 0, hr_global_count = 0\<rparr>)) [(5, 200)])))"
proof (rule hat_equip_spacing [OF list_lru_contract])
  show "list_lru_ok (hr_attempts
      \<lparr>hr_attempts = (2, []) :: (nat, nat) list_lru_cache, hr_global_started = 0, hr_global_count = 0\<rparr>)"
    by (simp add: list_lru_ok_def)
  show "fst (hat_equip_allow_at list_lru
          \<lparr>he_per_user_interval = 250, he_global_window = 1000, he_global_limit = 9\<rparr> (1::nat) 100
          \<lparr>hr_attempts = (2, []), hr_global_started = 0, hr_global_count = 0\<rparr>)"
    by (simp add: hat_equip_allow_at_def hat_equip_check_at_def list_lru_def Let_def)
qed (simp_all add: list_lru_def)

text \<open>
  After a comment lookup of a map is scheduled, further observations of that map are
  skipped until the backoff has passed (5 minutes, then 15, then 60), as long as fewer maps
  than the cap are tracked.
\<close>

theorem comment_bind_debounce:
  assumes "wf_map state" and "fst (comment_bind_admit state uid now cap) = Schedule"
    and "card (insert uid (fst ` set state \<union> fst ` set others)) < cap"
    and "until = now + comment_bind_backoff
      (case map_of state uid of None \<Rightarrow> 0 | Some e \<Rightarrow> min 255 (cb_attempts e + 1))"
    and "\<forall>r\<in>set others. snd r < until" and "t < until"
  shows "fst (comment_bind_admit
      (fold (\<lambda>(u, t) s. snd (comment_bind_admit s u t cap)) others
        (snd (comment_bind_admit state uid now cap))) uid t cap) = Skip"
proof -
  let ?K = "insert uid (fst ` set state \<union> fst ` set others)"
  let ?s = "snd (comment_bind_admit state uid now cap)"
  have K: "finite ?K" by simp
  have len: "length state < cap" by (rule roomy [OF assms(1) _ K assms(3)]) blast
  obtain e where e: "map_of ?s uid = Some e" "cb_next_attempt e = until"
    using assms(2,4) by (auto simp: admit_roomy [OF len] Let_def split: option.splits if_splits)
  have "let s' = fold (\<lambda>(u, t) s. snd (comment_bind_admit s u t cap)) others ?s
      in map_of s' uid = Some e \<and> length s' < cap"
    using keys_admit_roomy [OF len, of uid now] assms(5) e
    by (intro admits_keep_entry [OF K assms(3) wf_admit [OF assms(1)]]) auto
  then show ?thesis
    using e(2) assms(6) by (simp add: Let_def admit_roomy)
qed

theorem comment_bind_debounce_witness:
  "fst (comment_bind_admit
      (fold (\<lambda>(u, t) s. snd (comment_bind_admit s u t 8192)) [(2, 90)]
        (snd (comment_bind_admit [] (1::nat) 0 8192))) 1 299000000000 8192) = Skip"
  by (rule comment_bind_debounce [of "[]" 1 0 8192 "[(2, 90)]" "secs 300"])
     (simp_all add: comment_bind_admit_def comment_bind_prune_def comment_bind_backoff_def secs_def Let_def)

text \<open>
The tracked state stays bounded whatever map ids clients report, from any starting
  state.
\<close>

theorem comment_bind_admit_bounded:
  "length (snd (comment_bind_admit state uid now cap)) \<le> max cap 1"
proof -
  have "length (AList.update uid v (comment_bind_prune state now cap)) \<le> max cap 1" for v
    using length_prune [of state now cap]
      length_update_le [of uid v "comment_bind_prune state now cap"] by linarith
  then show ?thesis
    using length_prune [of state now cap]
    by (simp add: comment_bind_admit_def Let_def less_imp_le)
qed

end
