(* ===== verification/Moderation.thy ===== *)
theory Moderation
  imports Binding
begin

text \<open>
  Who may moderate a map and what moderators do to its players: \<open>src/queries/moderation.rs\<close>.
  A map is moderated by its author, by delegates the author or a super-mod names, and by the
  super-mods of the platform.  A ban hides a player's entries on one map; a player who was ever
  banned there stays marked unofficial unless the ban is lifted with the mark.
\<close>

section \<open>Tables\<close>

record map_meta =
  mm_map_uid :: string
  mm_author_id :: uuid
  mm_map_name :: "string option"
  mm_thumbnail_url :: "string option"
  mm_fetched_at :: nat
  mm_updated_at :: nat

record super_mod_row =
  sm_user_id :: uuid
  sm_granted_by :: "uuid option"
  sm_created_at :: nat

record delegate_row =
  md_map_uid :: string
  md_user_id :: uuid
  md_granted_by :: uuid
  md_created_at :: nat

record map_ban =
  mb_map_uid :: string
  mb_user_id :: uuid
  mb_private_reason :: string
  mb_public_message :: string
  mb_created_by :: uuid
  mb_created_at :: nat
  mb_expires_at :: "nat option"
  mb_lifted_at :: "nat option"
  mb_lifted_by :: "uuid option"

record unofficial_row =
  mu_map_uid :: string
  mu_user_id :: uuid
  mu_source :: string
  mu_updated_at :: nat
  mu_updated_by :: "uuid option"

record web_session_row =
  ws_session_id :: uuid
  ws_user_id :: uuid
  ws_display_name :: string
  ws_created_at :: nat
  ws_expires_at :: nat

record audit_event =
  ev_id :: nat
  ev_at :: nat
  ev_actor_id :: uuid
  ev_action :: string
  ev_map_uid :: "string option"
  ev_target_user_id :: "uuid option"
  ev_detail :: json

text \<open>\<open>oauth_states\<close> are the states with their expiry.\<close>

record mod_db = wf_db +
  map_metas :: "map_meta list"
  super_mods :: "super_mod_row list"
  map_delegates :: "delegate_row list"
  map_bans :: "map_ban list"
  map_unofficial :: "unofficial_row list"
  web_sessions :: "web_session_row list"
  oauth_states :: "(string \<times> nat) list"
  audit_events :: "audit_event list"
  audit_seq :: nat

definition text_opt_col :: "string option \<Rightarrow> db_error + string option" where
  "text_opt_col s = (case s of None \<Rightarrow> Inr None | Some t \<Rightarrow> bind_res (text_col t) (\<lambda>t. Inr (Some t)))"

text \<open>\<open>INSERT ... ON CONFLICT DO UPDATE\<close> that sets every column.\<close>

definition upsert_by :: "('a \<Rightarrow> bool) \<Rightarrow> 'a \<Rightarrow> 'a list \<Rightarrow> 'a list" where
  "upsert_by P new rows = (if list_ex P rows then upd_where P (\<lambda>_. new) rows else rows @ [new])"

lemma upsert_by_distinct:
  assumes "distinct (map k rows)" and "\<And>x. P x \<longleftrightarrow> k x = k new"
  shows "distinct (map k (upsert_by P new rows))"
proof -
  have "map k (upd_where P (\<lambda>_. new) rows) = map k rows" by (rule map_upd_where) (simp add: assms(2))
  then show ?thesis using assms by (auto simp: upsert_by_def list_ex_iff)
qed

lemma in_upsert_by: "x \<in> set (upsert_by P new rows) \<Longrightarrow> x = new \<or> x \<in> set rows"
  by (auto simp: upsert_by_def set_upd_where split: if_splits)

lemma new_in_upsert_by: "new \<in> set (upsert_by P new rows)"
  by (auto simp: upsert_by_def set_upd_where list_ex_iff)

lemma old_in_upsert_by: "x \<in> set rows \<Longrightarrow> \<not> P x \<Longrightarrow> x \<in> set (upsert_by P new rows)"
  by (auto simp: upsert_by_def set_upd_where)

text \<open>A query with a text parameter, which must be free of NUL.\<close>

definition fetch_by_text :: "string \<Rightarrow> ('d \<Rightarrow> 'a) \<Rightarrow> ('d, db_error, 'a) db_action" where
  "fetch_by_text s q = fetch (\<lambda>d. bind_res (text_col s) (\<lambda>_. Inr (q d)))"

section \<open>Roles\<close>

definition find_meta :: "string \<Rightarrow> 'z mod_db_scheme \<Rightarrow> map_meta option" where
  "find_meta uid d = List.find (\<lambda>m. mm_map_uid m = uid) (map_metas d)"

definition upsert_map_meta ::
    "nat \<Rightarrow> string \<Rightarrow> uuid \<Rightarrow> string option \<Rightarrow> string option \<Rightarrow>
     ('z mod_db_scheme, db_error, map_meta) db_action" where
  "upsert_map_meta now map_uid author name thumbnail d =
     (case bind_res (varchar_col 27 map_uid) (\<lambda>u. bind_res (text_opt_col name) (\<lambda>n.
             bind_res (text_opt_col thumbnail) (\<lambda>t. Inr (u, n, t)))) of
        Inl e \<Rightarrow> (Inl e, d)
      | Inr (u, n, t) \<Rightarrow>
          let new = \<lparr>mm_map_uid = u, mm_author_id = author, mm_map_name = n, mm_thumbnail_url = t,
                mm_fetched_at = now, mm_updated_at = now\<rparr>
          in (Inr new, d\<lparr>map_metas := upsert_by (\<lambda>m. mm_map_uid m = u) new (map_metas d)\<rparr>))"

definition get_map_meta :: "string \<Rightarrow> ('z mod_db_scheme, db_error, map_meta option) db_action" where
  "get_map_meta map_uid = fetch_by_text map_uid (find_meta map_uid)"

definition super_mod :: "uuid \<Rightarrow> 'z mod_db_scheme \<Rightarrow> bool" where
  "super_mod user d \<longleftrightarrow> list_ex (\<lambda>s. sm_user_id s = user) (super_mods d)"

definition delegate_of :: "string \<Rightarrow> uuid \<Rightarrow> 'z mod_db_scheme \<Rightarrow> bool" where
  "delegate_of map_uid user d \<longleftrightarrow> list_ex (\<lambda>g. md_map_uid g = map_uid \<and> md_user_id g = user) (map_delegates d)"

definition author_of :: "string \<Rightarrow> uuid \<Rightarrow> 'z mod_db_scheme \<Rightarrow> bool" where
  "author_of map_uid user d \<longleftrightarrow> list_ex (\<lambda>m. mm_map_uid m = map_uid \<and> mm_author_id m = user) (map_metas d)"

definition is_super_mod :: "uuid \<Rightarrow> ('z mod_db_scheme, db_error, bool) db_action" where
  "is_super_mod user = fetch (\<lambda>d. Inr (super_mod user d))"

definition is_map_delegate :: "string \<Rightarrow> uuid \<Rightarrow> ('z mod_db_scheme, db_error, bool) db_action" where
  "is_map_delegate map_uid user = fetch_by_text map_uid (delegate_of map_uid user)"

definition is_map_author :: "string \<Rightarrow> uuid \<Rightarrow> ('z mod_db_scheme, db_error, bool) db_action" where
  "is_map_author map_uid user = fetch_by_text map_uid (author_of map_uid user)"

definition can_moderate_map :: "string \<Rightarrow> uuid \<Rightarrow> ('z mod_db_scheme, db_error, bool) db_action" where
  "can_moderate_map map_uid user =
     and_then (is_super_mod user) (\<lambda>b. if b then Ok True else
     and_then (is_map_author map_uid user) (\<lambda>b. if b then Ok True else
     is_map_delegate map_uid user))"

definition is_protected_from_map_ban :: "string \<Rightarrow> uuid \<Rightarrow> ('z mod_db_scheme, db_error, bool) db_action" where
  "is_protected_from_map_ban map_uid target =
     and_then (is_super_mod target) (\<lambda>b. if b then Ok True else
     and_then (is_map_author map_uid target) (\<lambda>b. if b then Ok True else
     is_map_delegate map_uid target))"

definition get_user_display_name :: "uuid \<Rightarrow> ('z mod_db_scheme, db_error, string option) db_action" where
  "get_user_display_name user = fetch (\<lambda>d. Inr (map_option ur_display_name (find_user user d)))"

definition find_user_id_by_display_name :: "string \<Rightarrow> ('z mod_db_scheme, db_error, uuid option) db_action" where
  "find_user_id_by_display_name name =
     fetch_by_text name (\<lambda>d. map_option ur_id (List.find (\<lambda>u. ur_display_name u = name) (users d)))"

definition add_delegate :: "nat \<Rightarrow> string \<Rightarrow> uuid \<Rightarrow> uuid \<Rightarrow> ('z mod_db_scheme, db_error, unit) db_action" where
  "add_delegate now map_uid user granted_by d =
     (case varchar_col 27 map_uid of
        Inl e \<Rightarrow> (Inl e, d)
      | Inr u \<Rightarrow>
          if delegate_of u user d then (Inr (), d)
          else if \<not> has_user user d then (Inl (ForeignKeyViolation ''map_delegates_user_id_fkey''), d)
          else if \<not> has_user granted_by d then (Inl (ForeignKeyViolation ''map_delegates_granted_by_fkey''), d)
          else (Inr (), d\<lparr>map_delegates := map_delegates d @
                 [\<lparr>md_map_uid = u, md_user_id = user, md_granted_by = granted_by, md_created_at = now\<rparr>]\<rparr>))"

definition remove_delegate :: "string \<Rightarrow> uuid \<Rightarrow> ('z mod_db_scheme, db_error, unit) db_action" where
  "remove_delegate map_uid user d =
     (case text_col map_uid of
        Inl e \<Rightarrow> (Inl e, d)
      | Inr _ \<Rightarrow> (Inr (), d\<lparr>map_delegates :=
          filter (\<lambda>g. \<not> (md_map_uid g = map_uid \<and> md_user_id g = user)) (map_delegates d)\<rparr>))"

text \<open>\<open>ORDER BY\<close> on a time; equal times keep the order of the table.\<close>

definition list_delegates :: "string \<Rightarrow> ('z mod_db_scheme, db_error, (delegate_row \<times> string option) list) db_action" where
  "list_delegates map_uid = fetch_by_text map_uid (\<lambda>d.
     map (\<lambda>g. (g, map_option ur_display_name (find_user (md_user_id g) d)))
       (sort_key md_created_at (filter (\<lambda>g. md_map_uid g = map_uid) (map_delegates d))))"

definition add_super_mod :: "nat \<Rightarrow> uuid \<Rightarrow> uuid \<Rightarrow> ('z mod_db_scheme, db_error, unit) db_action" where
  "add_super_mod now user granted_by d =
     (if super_mod user d then (Inr (), d)
      else if \<not> has_user user d then (Inl (ForeignKeyViolation ''super_mods_user_id_fkey''), d)
      else if \<not> has_user granted_by d then (Inl (ForeignKeyViolation ''super_mods_granted_by_fkey''), d)
      else (Inr (), d\<lparr>super_mods := super_mods d @
             [\<lparr>sm_user_id = user, sm_granted_by = Some granted_by, sm_created_at = now\<rparr>]\<rparr>))"

definition count_super_mods :: "('z mod_db_scheme, db_error, nat) db_action" where
  "count_super_mods = fetch (\<lambda>d. Inr (length (super_mods d)))"

definition remove_super_mod :: "uuid \<Rightarrow> ('z mod_db_scheme, db_error, bool) db_action" where
  "remove_super_mod user d =
     (Inr (length (filter (\<lambda>s. sm_user_id s = user) (super_mods d)) = 1),
      d\<lparr>super_mods := filter (\<lambda>s. sm_user_id s \<noteq> user) (super_mods d)\<rparr>)"

definition list_super_mods :: "wf_env \<Rightarrow> ('z mod_db_scheme, db_error, (uuid \<times> string) list) db_action" where
  "list_super_mods env = fetch (\<lambda>d. Inr (sort_key (\<lambda>(_, name). we_collate env name)
     (List.map_filter (\<lambda>s. map_option (\<lambda>u. (sm_user_id s, ur_display_name u)) (find_user (sm_user_id s) d))
        (super_mods d))))"

section \<open>Bans\<close>

definition ban_active :: "nat \<Rightarrow> map_ban \<Rightarrow> bool" where
  "ban_active now b \<longleftrightarrow> mb_lifted_at b = None \<and>
     (case mb_expires_at b of None \<Rightarrow> True | Some t \<Rightarrow> now < t)"

definition is_ban_of :: "string \<Rightarrow> uuid \<Rightarrow> map_ban \<Rightarrow> bool" where
  "is_ban_of map_uid user b \<longleftrightarrow> mb_map_uid b = map_uid \<and> mb_user_id b = user"

definition is_mark_of :: "string \<Rightarrow> uuid \<Rightarrow> unofficial_row \<Rightarrow> bool" where
  "is_mark_of map_uid user r \<longleftrightarrow> mu_map_uid r = map_uid \<and> mu_user_id r = user"

text \<open>Newest first; equal times keep the order of the table.\<close>

definition list_active_bans :: "nat \<Rightarrow> string \<Rightarrow> ('z mod_db_scheme, db_error, map_ban list) db_action" where
  "list_active_bans now map_uid = fetch_by_text map_uid (\<lambda>d.
     sort_key (\<lambda>b. - int (mb_created_at b)) (filter (\<lambda>b. mb_map_uid b = map_uid \<and> ban_active now b) (map_bans d)))"

definition active_ban :: "nat \<Rightarrow> string \<Rightarrow> uuid \<Rightarrow> 'z mod_db_scheme \<Rightarrow> map_ban option" where
  "active_ban now map_uid user d = List.find (\<lambda>b. is_ban_of map_uid user b \<and> ban_active now b) (map_bans d)"

definition get_active_ban :: "nat \<Rightarrow> string \<Rightarrow> uuid \<Rightarrow> ('z mod_db_scheme, db_error, map_ban option) db_action" where
  "get_active_ban now map_uid user = fetch_by_text map_uid (active_ban now map_uid user)"

definition is_unofficial :: "string \<Rightarrow> uuid \<Rightarrow> ('z mod_db_scheme, db_error, bool) db_action" where
  "is_unofficial map_uid user = fetch_by_text map_uid (\<lambda>d. list_ex (is_mark_of map_uid user) (map_unofficial d))"

record map_ban_status =
  bs_banned :: bool
  bs_public_message :: "string option"
  bs_unofficial :: bool

definition get_ban_status :: "nat \<Rightarrow> string \<Rightarrow> uuid \<Rightarrow> ('z mod_db_scheme, db_error, map_ban_status) db_action" where
  "get_ban_status now map_uid user =
     and_then (get_active_ban now map_uid user) (\<lambda>ban.
     and_then (is_unofficial map_uid user) (\<lambda>unofficial.
     Ok \<lparr>bs_banned = (ban \<noteq> None), bs_public_message = map_option mb_public_message ban,
         bs_unofficial = unofficial\<rparr>))"

definition upsert_ban :: "map_ban \<Rightarrow> ('z mod_db_scheme, db_error, unit) db_action" where
  "upsert_ban new d =
     (if \<not> has_user (mb_user_id new) d then (Inl (ForeignKeyViolation ''map_bans_user_id_fkey''), d)
      else if \<not> has_user (mb_created_by new) d then (Inl (ForeignKeyViolation ''map_bans_created_by_fkey''), d)
      else (Inr (), d\<lparr>map_bans := upsert_by (is_ban_of (mb_map_uid new) (mb_user_id new)) new (map_bans d)\<rparr>))"

definition upsert_mark :: "unofficial_row \<Rightarrow> ('z mod_db_scheme, db_error, unit) db_action" where
  "upsert_mark new d = (Inr (), d\<lparr>map_unofficial :=
     upsert_by (is_mark_of (mu_map_uid new) (mu_user_id new)) new (map_unofficial d)\<rparr>)"

definition apply_map_ban ::
    "nat \<Rightarrow> string \<Rightarrow> uuid \<Rightarrow> uuid \<Rightarrow> string \<Rightarrow> string \<Rightarrow> nat option \<Rightarrow>
     ('z mod_db_scheme, db_error, unit) db_action" where
  "apply_map_ban now map_uid user created_by private_reason public_message expires_at =
     in_tx (and_then
       (fetch (\<lambda>_. bind_res (varchar_col 27 map_uid) (\<lambda>u. bind_res (text_col private_reason) (\<lambda>r.
          bind_res (text_col public_message) (\<lambda>m. Inr (u, r, m))))))
       (\<lambda>(u, r, m).
          and_then (upsert_ban \<lparr>mb_map_uid = u, mb_user_id = user, mb_private_reason = r,
              mb_public_message = m, mb_created_by = created_by, mb_created_at = now,
              mb_expires_at = expires_at, mb_lifted_at = None, mb_lifted_by = None\<rparr>) (\<lambda>_.
          upsert_mark \<lparr>mu_map_uid = u, mu_user_id = user, mu_source = ''ban'', mu_updated_at = now,
              mu_updated_by = Some created_by\<rparr>)))"

definition lift_map_ban ::
    "nat \<Rightarrow> string \<Rightarrow> uuid \<Rightarrow> uuid \<Rightarrow> bool \<Rightarrow> ('z mod_db_scheme, db_error, bool) db_action" where
  "lift_map_ban now map_uid user lifted_by keep_unofficial =
     in_tx (\<lambda>d.
       (case text_col map_uid of
          Inl e \<Rightarrow> (Inl e, d)
        | Inr _ \<Rightarrow>
            let hit = (\<lambda>b. is_ban_of map_uid user b \<and> ban_active now b);
                lifted = (length (filter hit (map_bans d)) = 1)
            in if filter hit (map_bans d) \<noteq> [] \<and> \<not> has_user lifted_by d
               then (Inl (ForeignKeyViolation ''map_bans_lifted_by_fkey''), d)
               else
                 let d1 = d\<lparr>map_bans := upd_where hit
                       (\<lambda>b. b\<lparr>mb_lifted_at := Some now, mb_lifted_by := Some lifted_by\<rparr>) (map_bans d)\<rparr>
                 in (Inr lifted,
                     if lifted \<and> \<not> keep_unofficial
                     then d1\<lparr>map_unofficial := filter (\<lambda>r. \<not> is_mark_of map_uid user r) (map_unofficial d1)\<rparr>
                     else d1)))"

section \<open>Users, sessions and the audit trail\<close>

definition ensure_user :: "nat \<Rightarrow> uuid \<Rightarrow> string \<Rightarrow> ('z mod_db_scheme, db_error, unit) db_action" where
  "ensure_user now user name d =
     (case varchar_col 75 name of
        Inl e \<Rightarrow> (Inl e, d)
      | Inr n \<Rightarrow>
          if has_user user d
          then (Inr (), d\<lparr>users := upd_where (\<lambda>r. ur_id r = user)
                 (\<lambda>r. r\<lparr>ur_display_name := n, ur_last_login_ts := now\<rparr>) (users d)\<rparr>)
          else (Inr (), d\<lparr>users := users d @ [\<lparr>ur_id = user, ur_display_name = n,
                 ur_created_ts = now, ur_last_login_ts = now\<rparr>]\<rparr>))"

definition ensure_user_reference ::
    "nat \<Rightarrow> uuid \<Rightarrow> string option \<Rightarrow> ('z mod_db_scheme, db_error, unit) db_action" where
  "ensure_user_reference now user name d =
     (case varchar_col 75 (case name of None \<Rightarrow> ''unknown'' | Some n \<Rightarrow> n) of
        Inl e \<Rightarrow> (Inl e, d)
      | Inr n \<Rightarrow>
          if has_user user d then (Inr (), d)
          else (Inr (), d\<lparr>users := users d @ [\<lparr>ur_id = user, ur_display_name = n,
                 ur_created_ts = now, ur_last_login_ts = now\<rparr>]\<rparr>))"

definition create_web_session ::
    "nat \<Rightarrow> uuid \<Rightarrow> uuid \<Rightarrow> string \<Rightarrow> nat \<Rightarrow> ('z mod_db_scheme, db_error, unit) db_action" where
  "create_web_session now session_id user name expires_at d =
     (case text_col name of
        Inl e \<Rightarrow> (Inl e, d)
      | Inr n \<Rightarrow>
          if session_id \<in> ws_session_id ` set (web_sessions d)
          then (Inl (UniqueViolation ''web_sessions_pkey''), d)
          else if \<not> has_user user d then (Inl (ForeignKeyViolation ''web_sessions_user_id_fkey''), d)
          else (Inr (), d\<lparr>web_sessions := web_sessions d @ [\<lparr>ws_session_id = session_id, ws_user_id = user,
                 ws_display_name = n, ws_created_at = now, ws_expires_at = expires_at\<rparr>]\<rparr>))"

definition live_session :: "nat \<Rightarrow> uuid \<Rightarrow> 'z mod_db_scheme \<Rightarrow> web_session_row option" where
  "live_session now session_id d =
     List.find (\<lambda>s. ws_session_id s = session_id \<and> now < ws_expires_at s) (web_sessions d)"

definition get_web_session :: "nat \<Rightarrow> uuid \<Rightarrow> ('z mod_db_scheme, db_error, (uuid \<times> string) option) db_action" where
  "get_web_session now session_id =
     fetch (\<lambda>d. Inr (map_option (\<lambda>s. (ws_user_id s, ws_display_name s)) (live_session now session_id d)))"

definition delete_web_session :: "uuid \<Rightarrow> ('z mod_db_scheme, db_error, unit) db_action" where
  "delete_web_session session_id =
     execute (\<lambda>d. d\<lparr>web_sessions := filter (\<lambda>s. ws_session_id s \<noteq> session_id) (web_sessions d)\<rparr>)"

definition save_oauth_state :: "string \<Rightarrow> nat \<Rightarrow> ('z mod_db_scheme, db_error, unit) db_action" where
  "save_oauth_state state expires_at d =
     (case text_col state of
        Inl e \<Rightarrow> (Inl e, d)
      | Inr s \<Rightarrow>
          if s \<in> fst ` set (oauth_states d) then (Inl (UniqueViolation ''oauth_states_pkey''), d)
          else (Inr (), d\<lparr>oauth_states := oauth_states d @ [(s, expires_at)]\<rparr>))"

definition take_oauth_state :: "nat \<Rightarrow> string \<Rightarrow> ('z mod_db_scheme, db_error, bool) db_action" where
  "take_oauth_state now state d =
     (case text_col state of
        Inl e \<Rightarrow> (Inl e, d)
      | Inr _ \<Rightarrow>
          (Inr (list_ex (\<lambda>(s, t). s = state \<and> now < t) (oauth_states d)),
           d\<lparr>oauth_states := filter (\<lambda>(s, t). \<not> (s = state \<and> now < t)) (oauth_states d)\<rparr>))"

text \<open>The id comes from a sequence, which a failing insert uses up as well.\<close>

definition insert_audit_event ::
    "nat \<Rightarrow> uuid \<Rightarrow> string \<Rightarrow> string option \<Rightarrow> uuid option \<Rightarrow> json \<Rightarrow>
     ('z mod_db_scheme, db_error, unit) db_action" where
  "insert_audit_event now actor action map_uid target detail d =
     (case bind_res (text_col action) (\<lambda>a. bind_res
             (case map_uid of None \<Rightarrow> Inr None | Some m \<Rightarrow> bind_res (varchar_col 27 m) (\<lambda>m. Inr (Some m)))
             (\<lambda>m. if json_has_nul detail then Inl InvalidText else Inr (a, m))) of
        Inl e \<Rightarrow> (Inl e, d)
      | Inr (a, m) \<Rightarrow>
          let d1 = d\<lparr>audit_seq := audit_seq d + 1\<rparr>
          in if \<not> has_user actor d then (Inl (ForeignKeyViolation ''mod_audit_events_actor_id_fkey''), d1)
             else if \<not> (case target of None \<Rightarrow> True | Some t \<Rightarrow> has_user t d)
             then (Inl (ForeignKeyViolation ''mod_audit_events_target_user_id_fkey''), d1)
             else (Inr (), d1\<lparr>audit_events := audit_events d @ [\<lparr>ev_id = audit_seq d, ev_at = now,
                    ev_actor_id = actor, ev_action = a, ev_map_uid = m, ev_target_user_id = target,
                    ev_detail = detail\<rparr>]\<rparr>))"

definition list_maps_by_author :: "wf_env \<Rightarrow> uuid \<Rightarrow> ('z mod_db_scheme, db_error, map_meta list) db_action" where
  "list_maps_by_author env author = fetch (\<lambda>d. Inr (sort_key
     (\<lambda>m. we_collate env (case mm_map_name m of None \<Rightarrow> mm_map_uid m | Some n \<Rightarrow> n))
     (filter (\<lambda>m. mm_author_id m = author) (map_metas d))))"

definition list_delegated_maps ::
    "wf_env \<Rightarrow> uuid \<Rightarrow> ('z mod_db_scheme, db_error, (map_meta \<times> delegate_row) list) db_action" where
  "list_delegated_maps env user = fetch (\<lambda>d. Inr (sort_key
     (\<lambda>(m, _). we_collate env (case mm_map_name m of None \<Rightarrow> mm_map_uid m | Some n \<Rightarrow> n))
     (List.map_filter (\<lambda>g. map_option (\<lambda>m. (m, g)) (find_meta (md_map_uid g) d))
        (filter (\<lambda>g. md_user_id g = user) (map_delegates d)))))"

section \<open>Lists for the super-mods\<close>

text \<open>\<open>ilike pattern text\<close> is the database's case-insensitive match.\<close>

definition user_name :: "uuid \<Rightarrow> 'z core_db_scheme \<Rightarrow> string option" where
  "user_name user d = map_option ur_display_name (find_user user d)"

definition map_name_of :: "string \<Rightarrow> 'z mod_db_scheme \<Rightarrow> string option" where
  "map_name_of map_uid d = Option.bind (find_meta map_uid d) mm_map_name"

definition search_map_meta ::
    "(string \<Rightarrow> string \<Rightarrow> bool) \<Rightarrow> wf_env \<Rightarrow> string \<Rightarrow> nat \<Rightarrow> ('z mod_db_scheme, db_error, map_meta list) db_action" where
  "search_map_meta ilike env q n =
     (let pat = (if trim q = [] then ''%'' else ''%'' @ trim q @ ''%'')
      in fetch_by_text pat (\<lambda>d. take n (sort_key (\<lambda>m. - int (mm_updated_at m))
           (filter (\<lambda>m. ilike pat (mm_map_uid m) \<or> ilike pat (case mm_map_name m of None \<Rightarrow> [] | Some x \<Rightarrow> x) \<or>
              ilike pat (we_show_uuid env (mm_author_id m))) (map_metas d)))))"

record super_ban_row =
  sb_map_uid :: string
  sb_map_name :: "string option"
  sb_user_id :: uuid
  sb_display_name :: "string option"
  sb_private_reason :: string
  sb_public_message :: string
  sb_created_by :: uuid
  sb_created_by_name :: "string option"
  sb_created_at :: nat
  sb_expires_at :: "nat option"

definition list_active_bans_global :: "nat \<Rightarrow> nat \<Rightarrow> ('z mod_db_scheme, db_error, super_ban_row list) db_action" where
  "list_active_bans_global now n = fetch (\<lambda>d. Inr (map
     (\<lambda>b. \<lparr>sb_map_uid = mb_map_uid b, sb_map_name = map_name_of (mb_map_uid b) d, sb_user_id = mb_user_id b,
        sb_display_name = user_name (mb_user_id b) d, sb_private_reason = mb_private_reason b,
        sb_public_message = mb_public_message b, sb_created_by = mb_created_by b,
        sb_created_by_name = user_name (mb_created_by b) d, sb_created_at = mb_created_at b,
        sb_expires_at = mb_expires_at b\<rparr>)
     (take n (sort_key (\<lambda>b. - int (mb_created_at b)) (filter (ban_active now) (map_bans d))))))"

record map_admin_author =
  aa_author_id :: uuid
  aa_display_name :: "string option"
  aa_map_count :: nat

text \<open>By count, most first, then by name with the unnamed ones last.\<close>

definition list_map_admin_authors :: "wf_env \<Rightarrow> ('z mod_db_scheme, db_error, map_admin_author list) db_action" where
  "list_map_admin_authors env = fetch (\<lambda>d. Inr
     (sort_key (\<lambda>a. - int (aa_map_count a))
     (sort_key (\<lambda>a. case aa_display_name a of None \<Rightarrow> [1] | Some n \<Rightarrow> 0 # we_collate env n)
     (map (\<lambda>u. \<lparr>aa_author_id = u, aa_display_name = user_name u d,
         aa_map_count = length (filter (\<lambda>m. mm_author_id m = u) (map_metas d))\<rparr>)
       (remdups (map mm_author_id (map_metas d)))))))"

record map_admin_delegate =
  da_map_uid :: string
  da_map_name :: "string option"
  da_user_id :: uuid
  da_display_name :: "string option"
  da_granted_by :: uuid
  da_granted_by_name :: "string option"
  da_created_at :: nat

definition list_map_admin_delegates :: "('z mod_db_scheme, db_error, map_admin_delegate list) db_action" where
  "list_map_admin_delegates = fetch (\<lambda>d. Inr (map
     (\<lambda>g. \<lparr>da_map_uid = md_map_uid g, da_map_name = map_name_of (md_map_uid g) d, da_user_id = md_user_id g,
        da_display_name = user_name (md_user_id g) d, da_granted_by = md_granted_by g,
        da_granted_by_name = user_name (md_granted_by g) d, da_created_at = md_created_at g\<rparr>)
     (sort_key (\<lambda>g. - int (md_created_at g)) (map_delegates d))))"

record super_user_info =
  su_user_id :: uuid
  su_display_name :: string
  su_is_super_mod :: bool
  su_authored_maps :: nat
  su_active_bans :: nat
  su_delegate_seats :: nat

definition super_user_of :: "nat \<Rightarrow> 'z mod_db_scheme \<Rightarrow> user_row \<Rightarrow> super_user_info" where
  "super_user_of now d u =
     \<lparr>su_user_id = ur_id u, su_display_name = ur_display_name u, su_is_super_mod = super_mod (ur_id u) d,
      su_authored_maps = length (filter (\<lambda>m. mm_author_id m = ur_id u) (map_metas d)),
      su_active_bans = length (filter (\<lambda>b. mb_user_id b = ur_id u \<and> ban_active now b) (map_bans d)),
      su_delegate_seats = length (filter (\<lambda>g. md_user_id g = ur_id u) (map_delegates d))\<rparr>"

definition get_super_user_info :: "nat \<Rightarrow> uuid \<Rightarrow> ('z mod_db_scheme, db_error, super_user_info option) db_action" where
  "get_super_user_info now user = fetch (\<lambda>d. Inr (map_option (super_user_of now d) (find_user user d)))"

definition search_users ::
    "(string \<Rightarrow> string \<Rightarrow> bool) \<Rightarrow> wf_env \<Rightarrow> nat \<Rightarrow> string \<Rightarrow> nat \<Rightarrow>
     ('z mod_db_scheme, db_error, super_user_info list) db_action" where
  "search_users ilike env now q n =
     (let pat = ''%'' @ trim q @ ''%''
      in fetch_by_text pat (\<lambda>d. map (super_user_of now d) (take n (sort_key (\<lambda>u. we_collate env (ur_display_name u))
           (filter (\<lambda>u. ilike pat (ur_display_name u) \<or> ilike pat (we_show_uuid env (ur_id u))) (users d))))))"

definition list_super_mods_detailed :: "wf_env \<Rightarrow> ('z mod_db_scheme, db_error, (super_mod_row \<times> string) list) db_action" where
  "list_super_mods_detailed env = fetch (\<lambda>d. Inr (sort_key (\<lambda>(_, name). we_collate env name)
     (List.map_filter (\<lambda>s. map_option (\<lambda>name. (s, name)) (user_name (sm_user_id s) d)) (super_mods d))))"

text \<open>An event with the names of its actor and target, where they have one.\<close>

definition shown_name :: "string option \<Rightarrow> string option" where
  "shown_name n = (if n = Some [] then None else n)"

definition list_audit_events ::
    "nat \<Rightarrow> ('z mod_db_scheme, db_error, (audit_event \<times> string option \<times> string option) list) db_action" where
  "list_audit_events n = fetch (\<lambda>d. Inr (map
     (\<lambda>e. (e, shown_name (user_name (ev_actor_id e) d),
        shown_name (Option.bind (ev_target_user_id e) (\<lambda>t. user_name t d))))
     (take n (sort_key (\<lambda>e. - int (ev_at e)) (audit_events d)))))"

end
