(* ===== verification/Floats.thy ===== *)
theory Floats
  imports Rust_Std "HOL-Library.Multiset"
begin

text \<open>
  Floating-point values in the database and rows in the order of one: PostgreSQL orders
  \<open>DOUBLE PRECISION\<close> with NaN above everything else, Rust's comparisons are false on NaN.
  Arithmetic is exact arithmetic rounded to the nearest double, which is a parameter; the database
  reports a result that overflows.  \<open>order_desc\<close> is \<open>ORDER BY ... DESC\<close>, \<open>rank_in\<close> is
  \<open>rank() OVER (ORDER BY ... DESC)\<close>.
\<close>

section \<open>Order\<close>

fun f32_class :: "f32 \<Rightarrow> nat" where
  "f32_class (Inf neg) = (if neg then 0 else 2)"
| "f32_class (Fin q) = 1"
| "f32_class NaN = 3"

instantiation f32 :: linorder
begin

definition less_eq_f32 :: "f32 \<Rightarrow> f32 \<Rightarrow> bool" where
  "less_eq_f32 a b \<longleftrightarrow> f32_class a < f32_class b \<or> (f32_class a = f32_class b \<and> f32_value a \<le> f32_value b)"

definition less_f32 :: "f32 \<Rightarrow> f32 \<Rightarrow> bool" where
  "less_f32 a b \<longleftrightarrow> f32_class a < f32_class b \<or> (f32_class a = f32_class b \<and> f32_value a < f32_value b)"

instance
proof
  fix a b c :: f32
  show "a < b \<longleftrightarrow> a \<le> b \<and> \<not> b \<le> a" by (auto simp: less_eq_f32_def less_f32_def)
  show "a \<le> a" by (simp add: less_eq_f32_def)
  show "a \<le> b \<Longrightarrow> b \<le> c \<Longrightarrow> a \<le> c" by (auto simp: less_eq_f32_def)
  show "a \<le> b \<or> b \<le> a" by (auto simp: less_eq_f32_def)
  show "a \<le> b \<Longrightarrow> b \<le> a \<Longrightarrow> a = b"
    by (cases a; cases b) (auto simp: less_eq_f32_def split: if_splits)
qed

end

lemma Fin_le [simp]: "Fin p \<le> Fin q \<longleftrightarrow> p \<le> q" "Fin p < Fin q \<longleftrightarrow> p < q"
  by (simp_all add: less_eq_f32_def less_f32_def)

definition rust_lt :: "f64 \<Rightarrow> f64 \<Rightarrow> bool" where
  "rust_lt a b \<longleftrightarrow> a \<noteq> NaN \<and> b \<noteq> NaN \<and> a < b"

section \<open>Arithmetic\<close>

text \<open>
  \<open>fe_round\<close> rounds an exact result to a double (an infinity when it is out of range),
  \<open>fe_narrow\<close> narrows a double to a single, \<open>fe_sqrt\<close> is the square root.
\<close>

record float_env =
  fe_round :: "rat \<Rightarrow> f64"
  fe_narrow :: "f64 \<Rightarrow> f32"
  fe_sqrt :: "f64 \<Rightarrow> f64"

fun fl_neg :: "f64 \<Rightarrow> f64" where
  "fl_neg (Fin q) = Fin (- q)"
| "fl_neg (Inf n) = Inf (\<not> n)"
| "fl_neg NaN = NaN"

fun fl_add :: "float_env \<Rightarrow> f64 \<Rightarrow> f64 \<Rightarrow> f64" where
  "fl_add env (Fin p) (Fin q) = fe_round env (p + q)"
| "fl_add env NaN b = NaN"
| "fl_add env a NaN = NaN"
| "fl_add env (Inf m) (Inf n) = (if m = n then Inf m else NaN)"
| "fl_add env (Inf m) (Fin q) = Inf m"
| "fl_add env (Fin p) (Inf n) = Inf n"

definition fl_sub :: "float_env \<Rightarrow> f64 \<Rightarrow> f64 \<Rightarrow> f64" where
  "fl_sub env a b = fl_add env a (fl_neg b)"

text \<open>The sign of a zero is not kept: an infinity times zero and a zero divisor give NaN.\<close>

fun fl_mul :: "float_env \<Rightarrow> f64 \<Rightarrow> f64 \<Rightarrow> f64" where
  "fl_mul env (Fin p) (Fin q) = fe_round env (p * q)"
| "fl_mul env NaN b = NaN"
| "fl_mul env a NaN = NaN"
| "fl_mul env (Inf m) (Inf n) = Inf (m \<noteq> n)"
| "fl_mul env (Inf m) (Fin q) = (if q = 0 then NaN else Inf (m \<noteq> (q < 0)))"
| "fl_mul env (Fin p) (Inf n) = (if p = 0 then NaN else Inf (n \<noteq> (p < 0)))"

fun fl_div :: "float_env \<Rightarrow> f64 \<Rightarrow> f64 \<Rightarrow> f64" where
  "fl_div env (Fin p) (Fin q) = (if q = 0 then NaN else fe_round env (p / q))"
| "fl_div env NaN b = NaN"
| "fl_div env a NaN = NaN"
| "fl_div env (Inf m) (Inf n) = NaN"
| "fl_div env (Inf m) (Fin q) = (if q = 0 then NaN else Inf (m \<noteq> (q < 0)))"
| "fl_div env (Fin p) (Inf n) = Fin 0"

text \<open>\<open>f64::round\<close>: to the nearest integer, halves away from zero.\<close>

fun fl_round :: "f64 \<Rightarrow> f64" where
  "fl_round (Fin q) = Fin (of_int (if 0 \<le> q then \<lfloor>q + 1 / 2\<rfloor> else - \<lfloor>- q + 1 / 2\<rfloor>))"
| "fl_round a = a"

section \<open>Rows in descending order\<close>

text \<open>Ties keep the order of the table.\<close>

definition order_desc :: "('a \<Rightarrow> 'k::linorder) \<Rightarrow> 'a list \<Rightarrow> 'a list" where
  "order_desc key rows = rev (sort_key key (rev rows))"

definition rank_in :: "('a \<Rightarrow> 'k::linorder) \<Rightarrow> 'a list \<Rightarrow> 'a \<Rightarrow> nat" where
  "rank_in key rows x = 1 + length (filter (\<lambda>y. key x < key y) rows)"

lemma set_order_desc [simp]: "set (order_desc key rows) = set rows"
  by (simp add: order_desc_def)

lemma length_order_desc [simp]: "length (order_desc key rows) = length rows"
  by (simp add: order_desc_def)

lemma mset_order_desc: "mset (order_desc key rows) = mset rows"
  by (simp add: order_desc_def)

lemma distinct_order_desc: "distinct (map k (order_desc key rows)) \<longleftrightarrow> distinct (map k rows)"
  by (metis mset_order_desc mset_eq_imp_distinct_iff mset_map)

lemma order_desc_sorted: "sorted_wrt (\<lambda>x y. key y \<le> key x) (order_desc key rows)"
proof -
  have "sorted (map key (sort_key key (rev rows)))" by simp
  then show ?thesis by (simp add: order_desc_def sorted_wrt_rev sorted_map)
qed

text \<open>The rank of a row is one more than the number of rows that come before it with a better key.\<close>

lemma rank_order_desc: "rank_in key (order_desc key rows) x = rank_in key rows x"
  by (metis mset_order_desc mset_filter rank_in_def size_mset)

lemma rank_antimono: "key x \<le> key y \<Longrightarrow> rank_in key rows y \<le> rank_in key rows x"
proof -
  assume le: "key x \<le> key y"
  have "length (filter (\<lambda>z. key y < key z) rows) \<le> length (filter (\<lambda>z. key x < key z) rows)"
    using le by (induction rows) auto
  then show ?thesis by (simp add: rank_in_def)
qed

lemma rank_le_position:
  assumes "i < length rows"
  shows "rank_in key rows (order_desc key rows ! i) \<le> i + 1"
proof -
  let ?s = "order_desc key rows" and ?k = "key (order_desc key rows ! i)"
  have sorted: "sorted_wrt (\<lambda>x y. key y \<le> key x) ?s" by (rule order_desc_sorted)
  have "filter (\<lambda>z. ?k < key z) (drop i ?s) = []"
  proof (clarsimp simp: filter_empty_conv in_set_conv_nth not_less)
    fix j assume "j < length rows - i"
    then show "key (?s ! (i + j)) \<le> ?k"
      using sorted_wrt_nth_less [OF sorted, of i "i + j"] by (cases j) simp_all
  qed
  then have "length (filter (\<lambda>z. ?k < key z) ?s) = length (filter (\<lambda>z. ?k < key z) (take i ?s))"
    by (metis append_take_drop_id append_Nil2 filter_append)
  also have "\<dots> \<le> i" using length_filter_le [of _ "take i ?s"] by (simp add: le_trans)
  finally have "rank_in key ?s (?s ! i) \<le> i + 1" by (simp add: rank_in_def)
  then show ?thesis by (simp only: rank_order_desc)
qed

text \<open>Cutting an ordered list into pages of \<open>n\<close> and putting them together again.\<close>

definition page_of :: "nat \<Rightarrow> nat \<Rightarrow> 'a list \<Rightarrow> 'a list" where
  "page_of n p xs = take n (drop (n * p) xs)"

lemma pages_take: "concat (map (\<lambda>p. page_of n p xs) [0..<k]) = take (n * k) xs"
proof (induction k)
  case (Suc k)
  have "n * Suc k = n * k + n" by simp
  then show ?case using Suc by (simp only: upt_Suc_append map_append concat_append take_add) (simp add: page_of_def)
qed simp

lemma pages_cover: "length xs \<le> n * k \<Longrightarrow> concat (map (\<lambda>p. page_of n p xs) [0..<k]) = xs"
  by (simp add: pages_take)

end
