(* ===== verification/Leaderboard_Db.thy ===== *)
theory Leaderboard_Db
  imports Moderation Floats
begin

text \<open>
  Heights, statistics and settings of players: the tables behind \<open>src/queries/custom_maps.rs\<close>,
  \<open>src/queries/stats.rs\<close>, \<open>src/queries/user_settings.rs\<close> and the list of maps in
  \<open>src/queries/listed_maps.rs\<close>, with the queries that read and write them.  \<open>donations.rs\<close> has its tables here as well.  The views
  \<open>ranked_lb_view\<close> and \<open>ranked_stats\<close> and the two triggers are those of \<open>migrations/\<close>.

  A query on a view gives the rows in the order of its window function.  A value of a colour
  column has three components.  \<open>le_bigint\<close> is the database's cast of the text of a JSON value to
  \<open>BIGINT\<close>.
\<close>

section \<open>Tables\<close>

type_synonym vec3 = "f64 \<times> f64 \<times> f64"

record lb_env =
  le_wf :: wf_env
  le_float :: float_env
  le_parse_uuid :: "string \<Rightarrow> string + uuid"
  le_bigint :: "json \<Rightarrow> db_error + int"

record lb_row =
  ll_user_id :: uuid
  ll_height :: f64
  ll_update_count :: int
  ll_ts :: nat

record lb_archive_row =
  la_user_id :: uuid
  la_height :: f64
  la_rank_at_time :: int
  la_ts :: nat

record map_lb_row =
  ml_map_uid :: string
  ml_user_id :: uuid
  ml_height :: f64
  ml_pos :: vec3
  ml_race_time :: int
  ml_updated_at :: nat
  ml_update_count :: int

record stats_row =
  su_user_id :: uuid
  su_seconds_spent_in_map :: int
  su_nb_jumps :: int
  su_nb_falls :: int
  su_nb_floors_fallen :: int
  su_last_pb_set_ts :: "nat option"
  su_total_dist_fallen :: f64
  su_pb_height :: f64
  su_pb_floor :: int
  su_nb_resets :: int
  su_ggs_triggered :: int
  su_title_gags_triggered :: int
  su_title_gags_special_triggered :: int
  su_bye_byes_triggered :: int
  su_monument_triggers :: json
  su_reached_floor_count :: json
  su_floor_voice_lines_played :: json
  su_extra :: json
  su_update_count :: int
  su_ts :: nat

record stats_archive_row =
  sa_stats :: stats_row
  sa_rank_at_time :: int
  sa_ts :: nat

record vehicle_state_row =
  vs_session :: uuid
  vs_is_official :: bool
  vs_pos :: vec3
  vs_rotq :: "f64 \<times> f64 \<times> f64 \<times> f64"
  vs_vel :: vec3
  vs_ts :: nat

record race_time_row =
  rt_session :: uuid
  rt_race_time :: int
  rt_ts :: nat

record fall_row =
  fa_id :: nat
  fa_session :: uuid
  fa_user_id :: uuid
  fa_start_floor :: int
  fa_start_pos :: vec3
  fa_start_speed :: f64
  fa_start_time :: int
  fa_end :: "(int \<times> vec3 \<times> int) option"
  fa_ts :: nat

record map_stats_row =
  cs_user_id :: uuid
  cs_map_uid :: string
  cs_stats :: json
  cs_updated_at :: nat

record setting_row =
  se_user_id :: uuid
  se_value :: json
  se_updated_at :: nat

record listed_map_row =
  li_map_uid :: string
  li_listed :: bool
  li_became_listed :: nat

record map_event_row =
  me_event_map :: string
  me_event_type :: string
  me_has_happened :: bool

record server_count_row =
  sc_server_id :: string
  sc_player_count :: int
  sc_updated_at :: nat

record donation_row =
  do_id :: int
  do_auth_provider :: string
  do_user_name :: string
  do_display_name :: string
  do_comment :: string
  do_amount :: rat
  do_avatar :: "string option"
  do_donated_at :: int

record lb_db = mod_db +
  leaderboard :: "lb_row list"
  leaderboard_archive :: "lb_archive_row list"
  map_leaderboard :: "map_lb_row list"
  user_stats :: "stats_row list"
  stats_archive :: "stats_archive_row list"
  colors :: "(uuid \<times> rat \<times> rat \<times> rat) list"
  twitch_usernames :: "(uuid \<times> string) list"
  vehicle_states :: "vehicle_state_row list"
  respawns :: "race_time_row list"
  finishes :: "race_time_row list"
  falls :: "fall_row list"
  falls_seq :: nat
  custom_map_stats :: "map_stats_row list"
  profile_settings :: "setting_row list"
  user_preferences :: "setting_row list"
  listed_maps :: "listed_map_row list"
  map_events :: "map_event_row list"
  cached_json :: "(string \<times> json) list"
  server_player_counts :: "server_count_row list"
  server_connected_stats :: "int list"
  active_players_stats :: "int list"
  donations :: "donation_row list"
  user_dono_totals :: "(string \<times> rat) list"
  gfm_donations :: "rat list"

definition color_of :: "uuid \<Rightarrow> 'z lb_db_scheme \<Rightarrow> (rat \<times> rat \<times> rat) option" where
  "color_of user d = map_of (colors d) user"

definition display_name_of :: "uuid \<Rightarrow> 'z core_db_scheme \<Rightarrow> string option" where
  "display_name_of user d = map_option ur_display_name (find_user user d)"

section \<open>Live heights\<close>

text \<open>
  The arithmetic of the database: a result that overflows is an error.  \<open>update_afk_and_velocity\<close>
  is the trigger on \<open>map_curr_heights\<close>: the velocity since the last report, and how many reports
  in a row did not move the player by more than one.
\<close>

definition pg_checked :: "f64 list \<Rightarrow> f64 \<Rightarrow> db_error + f64" where
  "pg_checked args r = (case r of Inf n \<Rightarrow> if list_all f32_is_finite args then Inl OutOfRange else Inr r | _ \<Rightarrow> Inr r)"

definition pg_sub :: "float_env \<Rightarrow> f64 \<Rightarrow> f64 \<Rightarrow> db_error + f64" where
  "pg_sub env a b = pg_checked [a, b] (fl_sub env a b)"

definition pg_add :: "float_env \<Rightarrow> f64 \<Rightarrow> f64 \<Rightarrow> db_error + f64" where
  "pg_add env a b = pg_checked [a, b] (fl_add env a b)"

definition pg_div :: "float_env \<Rightarrow> f64 \<Rightarrow> f64 \<Rightarrow> db_error + f64" where
  "pg_div env a b = pg_checked [a, b] (fl_div env a b)"

definition pg_square :: "float_env \<Rightarrow> f64 \<Rightarrow> db_error + f64" where
  "pg_square env a = pg_checked [a] (fl_mul env a a)"

definition distance :: "float_env \<Rightarrow> vec3 \<Rightarrow> vec3 \<Rightarrow> db_error + f64" where
  "distance env p q =
     (case (p, q) of ((px, py, pz), (qx, qy, qz)) \<Rightarrow>
        bind_res (bind_res (pg_sub env qx px) (pg_square env)) (\<lambda>x.
        bind_res (bind_res (pg_sub env qy py) (pg_square env)) (\<lambda>y.
        bind_res (bind_res (pg_sub env qz pz) (pg_square env)) (\<lambda>z.
        bind_res (bind_res (pg_add env x y) (\<lambda>s. pg_add env s z)) (\<lambda>s. Inr (fe_sqrt env s))))))"

definition velocity_between :: "float_env \<Rightarrow> vec3 \<Rightarrow> vec3 \<Rightarrow> f64 \<Rightarrow> db_error + vec3" where
  "velocity_between env p q dt =
     (if dt \<le> Fin 0 then Inr (Fin 0, Fin 0, Fin 0)
      else case (p, q) of ((px, py, pz), (qx, qy, qz)) \<Rightarrow>
        bind_res (bind_res (pg_sub env qx px) (\<lambda>x. pg_div env x dt)) (\<lambda>x.
        bind_res (bind_res (pg_sub env qy py) (\<lambda>y. pg_div env y dt)) (\<lambda>y.
        bind_res (bind_res (pg_sub env qz pz) (\<lambda>z. pg_div env z dt)) (\<lambda>z. Inr (x, y, z)))))"

definition i32_succ :: "int \<Rightarrow> db_error + int" where
  "i32_succ n = (if n = i32_max then Inl OutOfRange else Inr (n + 1))"

definition update_afk_and_velocity ::
    "float_env \<Rightarrow> nat \<Rightarrow> curr_height_row \<Rightarrow> curr_height_row \<Rightarrow> db_error + curr_height_row" where
  "update_afk_and_velocity env now old new =
     (let dt = fe_round env (of_int (int now - int (hh_updated_at old)) / 1000000)
      in bind_res (velocity_between env (hh_pos old) (hh_pos new) dt) (\<lambda>v.
         bind_res (pg_checked [dt] (fe_narrow env dt)) (\<lambda>dt32.
         bind_res (distance env (hh_pos old) (hh_pos new)) (\<lambda>dist.
         bind_res (if dist \<le> Fin 1 then i32_succ (hh_afk_update_count old) else Inr 0) (\<lambda>afk.
         Inr (new\<lparr>hh_velocity := v, hh_dt := dt32, hh_afk_update_count := afk\<rparr>))))))"

definition is_height_of :: "string \<Rightarrow> uuid \<Rightarrow> curr_height_row \<Rightarrow> bool" where
  "is_height_of uid user r \<longleftrightarrow> hh_map_uid r = uid \<and> hh_user_id r = user"

definition height_at :: "vec3 \<Rightarrow> f64" where
  "height_at pos = fst (snd pos)"

definition upsert_map_curr_height ::
    "float_env \<Rightarrow> nat \<Rightarrow> string \<Rightarrow> uuid \<Rightarrow> vec3 \<Rightarrow> int \<Rightarrow> ('z wf_db_scheme, db_error, unit) db_action" where
  "upsert_map_curr_height env now map_uid user pos race_time d =
     (if length map_uid \<noteq> 27 then (Inl RowNotFound, d)
      else case varchar_col 27 map_uid of
        Inl e \<Rightarrow> (Inl e, d)
      | Inr uid \<Rightarrow>
          (case List.find (is_height_of uid user) (curr_heights d) of
             None \<Rightarrow>
               if \<not> has_user user d then (Inl (ForeignKeyViolation ''map_curr_heights_user_id_fkey''), d)
               else (Inr (), d\<lparr>curr_heights := curr_heights d @
                 [\<lparr>hh_user_id = user, hh_map_uid = uid, hh_height = height_at pos, hh_pos = pos,
                   hh_race_time = race_time, hh_updated_at = now, hh_update_count = 0,
                   hh_afk_update_count = 0, hh_velocity = (Fin 0, Fin 0, Fin 0), hh_dt = Fin 1\<rparr>]\<rparr>)
           | Some old \<Rightarrow>
               (case bind_res (i32_succ (hh_update_count old)) (\<lambda>n.
                       update_afk_and_velocity env now old
                         (old\<lparr>hh_height := height_at pos, hh_pos := pos, hh_race_time := race_time,
                              hh_updated_at := now, hh_update_count := n\<rparr>)) of
                  Inl e \<Rightarrow> (Inl e, d)
                | Inr new \<Rightarrow>
                    (Inr (), d\<lparr>curr_heights := upd_where (is_height_of uid user) (\<lambda>_. new) (curr_heights d)\<rparr>))))"

section \<open>What the public sees\<close>

text \<open>
  The \<open>LEFT JOIN\<close>s that every public query has: a row is hidden when its player is shadow-banned,
  or has a ban on the map that is neither lifted nor expired.
\<close>

definition hidden :: "nat \<Rightarrow> string \<Rightarrow> uuid \<Rightarrow> 'z mod_db_scheme \<Rightarrow> bool" where
  "hidden now uid user d \<longleftrightarrow> user \<in> set (shadow_bans d) \<or> active_ban now uid user d \<noteq> None"

definition public_rows :: "nat \<Rightarrow> string \<Rightarrow> 'z lb_db_scheme \<Rightarrow> map_lb_row list" where
  "public_rows now uid d =
     filter (\<lambda>m. ml_map_uid m = uid \<and> \<not> hidden now uid (ml_user_id m) d) (map_leaderboard d)"

definition LIVE_WINDOW :: nat where "LIVE_WINDOW = 120 * 1000000"
definition AFK_LIMIT :: int where "AFK_LIMIT = 360"

definition is_live :: "nat \<Rightarrow> curr_height_row \<Rightarrow> bool" where
  "is_live now m \<longleftrightarrow> hh_afk_update_count m < AFK_LIMIT \<and> int (hh_updated_at m) > int now - int LIVE_WINDOW"

definition live_rows :: "nat \<Rightarrow> string \<Rightarrow> 'z mod_db_scheme \<Rightarrow> curr_height_row list" where
  "live_rows now uid d =
     filter (\<lambda>m. hh_map_uid m = uid \<and> is_live now m \<and> \<not> hidden now uid (hh_user_id m) d) (curr_heights d)"

text \<open>The count over all maps leaves out shadow-banned players only.\<close>

definition get_nb_playing_live :: "nat \<Rightarrow> 'z mod_db_scheme \<Rightarrow> nat" where
  "get_nb_playing_live now d =
     length (filter (\<lambda>m. is_live now m \<and> hh_user_id m \<notin> set (shadow_bans d)) (curr_heights d))"

definition get_map_nb_playing_live :: "nat \<Rightarrow> string \<Rightarrow> ('z mod_db_scheme, db_error, nat) db_action" where
  "get_map_nb_playing_live now map_uid = fetch_by_text map_uid (\<lambda>d. length (live_rows now map_uid d))"

definition get_map_leaderboard_len :: "nat \<Rightarrow> string \<Rightarrow> ('z lb_db_scheme, db_error, nat) db_action" where
  "get_map_leaderboard_len now map_uid =
     (if 30 < length map_uid then Err RowNotFound
      else fetch_by_text map_uid (\<lambda>d. length (public_rows now map_uid d)))"

definition get_map_overview_player_counts ::
    "nat \<Rightarrow> string \<Rightarrow> ('z lb_db_scheme, db_error, nat \<times> nat) db_action" where
  "get_map_overview_player_counts now map_uid =
     and_then (get_map_leaderboard_len now map_uid) (\<lambda>n.
     and_then (get_map_nb_playing_live now map_uid) (\<lambda>live. Ok (n, live)))"

text \<open>
  A row as an entry.  The colour is joined without being optional in the query's type, so
  decoding a row of a player without one fails, and the whole query with it.
\<close>

definition joined :: "uuid \<Rightarrow> 'z lb_db_scheme \<Rightarrow> db_error + string \<times> (rat \<times> rat \<times> rat)" where
  "joined user d =
     (case (display_name_of user d, color_of user d) of
        (Some name, Some color) \<Rightarrow> Inr (name, color)
      | _ \<Rightarrow> Inl ColumnDecode)"

definition map_lb_entry ::
    "wf_env \<Rightarrow> map_lb_row list \<Rightarrow> 'z lb_db_scheme \<Rightarrow> map_lb_row \<Rightarrow> db_error + leaderboard_entry2" where
  "map_lb_entry env rows d m =
     bind_res (joined (ml_user_id m) d) (\<lambda>(name, color). Inr
       \<lparr>le2_rank = nat (as_u32 (int (rank_in ml_height rows m))), le2_wsid = we_show_uuid env (ml_user_id m),
        le2_pos = ml_pos m, le2_ts = unix_seconds (ml_updated_at m), le2_name = name,
        le2_update_count = ml_update_count m, le2_color = color, le2_race_time = ml_race_time m\<rparr>)"

definition limit_offset :: "int \<Rightarrow> int \<Rightarrow> 'a list \<Rightarrow> db_error + 'a list" where
  "limit_offset limit offset rows =
     (if limit < 0 \<or> offset < 0 then Inl InvalidRowCount else Inr (take (nat limit) (drop (nat offset) rows)))"

fun map_res :: "('a \<Rightarrow> 'e + 'b) \<Rightarrow> 'a list \<Rightarrow> 'e + 'b list" where
  "map_res f [] = Inr []"
| "map_res f (x # xs) = bind_res (f x) (\<lambda>y. bind_res (map_res f xs) (\<lambda>ys. Inr (y # ys)))"

definition map_leaderboard_rows ::
    "wf_env \<Rightarrow> nat \<Rightarrow> string \<Rightarrow> int \<Rightarrow> int \<Rightarrow> 'z lb_db_scheme \<Rightarrow> db_error + leaderboard_entry2 list" where
  "map_leaderboard_rows env now map_uid start stop d =
     (let rows = public_rows now map_uid d
      in bind_res (limit_offset (as_i64 (stop - start)) start (order_desc ml_height rows))
           (map_res (map_lb_entry env rows d)))"

definition get_map_leaderboard ::
    "wf_env \<Rightarrow> nat \<Rightarrow> string \<Rightarrow> int \<Rightarrow> int \<Rightarrow> ('z lb_db_scheme, db_error, leaderboard_entry2 list) db_action" where
  "get_map_leaderboard env now map_uid start stop =
     (if 30 < length map_uid then Err RowNotFound
      else fetch (\<lambda>d. bind_res (text_col map_uid) (\<lambda>_. map_leaderboard_rows env now map_uid start stop d)))"

text \<open>The page number is multiplied as a \<open>u32\<close>.\<close>

definition get_map_leaderboard_page ::
    "wf_env \<Rightarrow> nat \<Rightarrow> string \<Rightarrow> nat \<Rightarrow> ('z lb_db_scheme, db_error, leaderboard_entry2 list) db_action" where
  "get_map_leaderboard_page env now map_uid page =
     (let start = as_u32 (int page * 100)
      in get_map_leaderboard env now map_uid start (start + 100))"

text \<open>The standing of one player: their own row counts even when they are banned from the map.\<close>

definition standing_rows :: "nat \<Rightarrow> string \<Rightarrow> uuid \<Rightarrow> 'z lb_db_scheme \<Rightarrow> map_lb_row list" where
  "standing_rows now uid user d =
     filter (\<lambda>m. ml_map_uid m = uid \<and> ml_user_id m \<notin> set (shadow_bans d) \<and>
        (active_ban now uid (ml_user_id m) d = None \<or> ml_user_id m = user)) (map_leaderboard d)"

definition get_map_rank_entry ::
    "wf_env \<Rightarrow> nat \<Rightarrow> string \<Rightarrow> uuid \<Rightarrow> ('z lb_db_scheme, db_error, leaderboard_entry2 option) db_action" where
  "get_map_rank_entry env now map_uid user = fetch (\<lambda>d.
     bind_res (text_col map_uid) (\<lambda>_.
       let rows = standing_rows now map_uid user d
       in case List.find (\<lambda>m. ml_user_id m = user) rows of
            None \<Rightarrow> Inr None
          | Some m \<Rightarrow> bind_res (map_lb_entry env rows d m) (\<lambda>e. Inr (Some (e\<lparr>le2_update_count := 0\<rparr>)))))"

record player_at_height =
  ph_display_name :: string
  ph_user_id :: string
  ph_height :: f64
  ph_ts :: int
  ph_rank :: int
  ph_color :: "(rat \<times> rat \<times> rat) option"
  ph_pos :: "vec3 option"
  ph_vel :: "vec3 option"
  ph_afk_count :: int
  ph_update_count :: int
  ph_dt :: f32

definition round_v3 :: "float_env \<Rightarrow> vec3 \<Rightarrow> nat \<Rightarrow> vec3" where
  "round_v3 env v precision =
     (let factor = fe_round env (10 ^ precision); r = (\<lambda>x. fl_div env (fl_round (fl_mul env x factor)) factor)
      in case v of (x, y, z) \<Rightarrow> (r x, r y, r z))"

definition live_entry ::
    "lb_env \<Rightarrow> 'z lb_db_scheme \<Rightarrow> nat \<Rightarrow> curr_height_row \<Rightarrow> db_error + player_at_height" where
  "live_entry env d i m =
     bind_res (joined (hh_user_id m) d) (\<lambda>(name, color). Inr
       \<lparr>ph_display_name = name, ph_user_id = we_show_uuid (le_wf env) (hh_user_id m), ph_height = hh_height m,
        ph_ts = int (hh_updated_at m div 1000000), ph_rank = int i + 1, ph_color = Some color,
        ph_pos = Some (hh_pos m), ph_vel = Some (round_v3 (le_float env) (hh_velocity m) 3),
        ph_afk_count = hh_afk_update_count m, ph_update_count = hh_update_count m, ph_dt = hh_dt m\<rparr>)"

definition bad_live_uid :: "string \<Rightarrow> bool" where
  "bad_live_uid uid \<longleftrightarrow> \<not> (20 \<le> length uid \<and> length uid < 30)"

definition get_map_live_heights ::
    "lb_env \<Rightarrow> nat \<Rightarrow> string \<Rightarrow> ('z lb_db_scheme, db_error, player_at_height list) db_action" where
  "get_map_live_heights env now map_uid =
     (if bad_live_uid map_uid then Err RowNotFound
      else fetch (\<lambda>d. bind_res (text_col map_uid) (\<lambda>_.
        map_res (\<lambda>(i, m). live_entry env d i m)
          (enumerate 0 (order_desc hh_height (live_rows now map_uid d))))))"

definition live_lb_entry ::
    "wf_env \<Rightarrow> curr_height_row list \<Rightarrow> 'z lb_db_scheme \<Rightarrow> curr_height_row \<Rightarrow> db_error + leaderboard_entry2" where
  "live_lb_entry env rows d m =
     bind_res (joined (hh_user_id m) d) (\<lambda>(name, color). Inr
       \<lparr>le2_rank = nat (as_u32 (int (rank_in hh_height rows m))), le2_wsid = we_show_uuid env (hh_user_id m),
        le2_pos = hh_pos m, le2_ts = unix_seconds (hh_updated_at m), le2_name = name,
        le2_update_count = hh_update_count m, le2_color = color, le2_race_time = hh_race_time m\<rparr>)"

definition get_map_live_heights_top_n ::
    "wf_env \<Rightarrow> nat \<Rightarrow> string \<Rightarrow> nat \<Rightarrow> ('z lb_db_scheme, db_error, leaderboard_entry2 list) db_action" where
  "get_map_live_heights_top_n env now map_uid n =
     (if bad_live_uid map_uid then Err RowNotFound
      else fetch (\<lambda>d. bind_res (text_col map_uid) (\<lambda>_.
        let rows = live_rows now map_uid d
        in map_res (live_lb_entry env rows d) (take n (order_desc hh_height rows)))))"

end
