(* ===== verification/Sample_Tables.thy ===== *)
theory Sample_Tables
  imports Leaderboard_Db Sample_World
begin

text \<open>The database of a witness with the other tables empty.\<close>

definition with_tables :: "wf_db \<Rightarrow> lb_db" where
  "with_tables d = mod_db.extend (wf_db.extend d
     \<lparr>map_metas = [], super_mods = [], map_delegates = [], map_bans = [], map_unofficial = [],
      web_sessions = [], oauth_states = [], audit_events = [], audit_seq = 1\<rparr>)
     \<lparr>leaderboard = [], leaderboard_archive = [], map_leaderboard = [], user_stats = [], stats_archive = [],
      colors = [], twitch_usernames = [], vehicle_states = [], respawns = [], finishes = [], falls = [],
      falls_seq = 1, custom_map_stats = [], profile_settings = [], user_preferences = [], listed_maps = [],
      map_events = [], cached_json = [], server_player_counts = [], server_connected_stats = [],
      active_players_stats = [], donations = [], user_dono_totals = [], gfm_donations = []\<rparr>"

end
