(* ===== verification/Presence.thy ===== *)
theory Presence
  imports Hats Rate_Limits Sample_Tables
begin

text \<open>
  Who is told what about the hats on a map: the connection's tracked map, the pushes when a
  player enters or leaves one, binds reported in game, and the delivery of map-scoped messages
  by the player manager (\<open>src/server2.rs\<close>).

  One connection is modelled with the state it shares with the others: the database, the queue
  to the player manager, the debounce table of comment lookups, and the detached tasks.
\<close>

section \<open>State\<close>

text \<open>\<open>ToPlayerMgr\<close> of \<open>src/router.rs\<close>.\<close>

datatype to_player_mgr =
    RecheckRecords
  | MgrAuthFailed
  | SocketError
  | NewTop3
  | Broadcast response
  | BroadcastToMap string response

datatype spawned_task = WayfinderBind uuid string int | CommentBind string

record wf_world = lb_db +
  mgr_queue :: "to_player_mgr list"
  tracked_map :: "string option"
  client_open :: bool
  client_queue :: "response list"
  comment_states :: "(string, comment_bind_state) hash_map"
  spawned :: "spawned_task list"

text \<open>The two channels: the manager's never fails a sender, the client's does once it is closed.\<close>

definition send_mgr :: "to_player_mgr \<Rightarrow> ('z wf_world_scheme, 'e, unit) db_action" where
  "send_mgr msg = execute (\<lambda>w. w\<lparr>mgr_queue := mgr_queue w @ [msg]\<rparr>)"

definition send_client :: "response \<Rightarrow> ('z wf_world_scheme, api_error, unit) db_action" where
  "send_client r w = (if client_open w then (Inr (), w\<lparr>client_queue := client_queue w @ [r]\<rparr>) else (Inl SendErr, w))"

section \<open>Delivery\<close>

record player_delivery =
  pd_closed :: bool
  pd_inbox :: "response list"
  pd_map :: "string option"

definition delivery_matches_map :: "string option \<Rightarrow> string \<Rightarrow> bool" where
  "delivery_matches_map current target \<longleftrightarrow> current = Some target"

definition deliver_player_mgr_message :: "player_delivery list \<Rightarrow> to_player_mgr \<Rightarrow> player_delivery list" where
  "deliver_player_mgr_message players msg =
     (let live = filter (\<lambda>p. \<not> pd_closed p) players
      in case msg of
           Broadcast r \<Rightarrow> map (\<lambda>p. p\<lparr>pd_inbox := pd_inbox p @ [r]\<rparr>) live
         | BroadcastToMap m r \<Rightarrow>
             map (\<lambda>p. if delivery_matches_map (pd_map p) m then p\<lparr>pd_inbox := pd_inbox p @ [r]\<rparr> else p) live
         | _ \<Rightarrow> live)"

section \<open>The tracked map\<close>

text \<open>\<open>we_md5\<close> is the digest in hexadecimal.\<close>

definition obfuscated_map_uid :: "wf_env \<Rightarrow> string \<Rightarrow> string" where
  "obfuscated_map_uid env map_uid = take 30 (we_md5 env map_uid)"

definition eq_ignore_ascii_case :: "string \<Rightarrow> string \<Rightarrow> bool" where
  "eq_ignore_ascii_case a b \<longleftrightarrow> map ascii_lower a = map ascii_lower b"

definition context_uid_refers_to_map :: "wf_env \<Rightarrow> string option \<Rightarrow> string \<Rightarrow> bool" where
  "context_uid_refers_to_map env context_uid tracked_map_uid =
     (case context_uid of
        Some uid \<Rightarrow> uid = tracked_map_uid \<or> eq_ignore_ascii_case uid (obfuscated_map_uid env tracked_map_uid)
      | None \<Rightarrow> False)"

definition update_last_map :: "string option \<Rightarrow> string option \<Rightarrow> bool \<times> string option" where
  "update_last_map previous current = (if previous = current then (False, previous) else (True, current))"

definition hats_update :: "string \<Rightarrow> hat_on_map_player list \<Rightarrow> to_player_mgr" where
  "hats_update m hats = BroadcastToMap m (RHatsOnMapUpdate m hats)"

definition broadcast_hat_context_transition ::
    "wf_env \<Rightarrow> uuid \<Rightarrow> string \<Rightarrow> string option \<Rightarrow> string option \<Rightarrow>
     ('z wf_world_scheme, db_error, unit) db_action" where
  "broadcast_hat_context_transition env user display_name previous current =
     (if previous = current then Ok ()
      else
        and_then
          (case previous of
             Some m \<Rightarrow>
               if length m = 27
               then send_mgr (hats_update m [\<lparr>hom_wsid = we_show_uuid env user, hom_name = display_name, hom_slug = []\<rparr>])
               else Ok ()
           | None \<Rightarrow> Ok ()) (\<lambda>_.
        case current of
          Some m \<Rightarrow>
            if length m = 27
            then and_then (fetch (\<lambda>w. Inr (equipped_push_entry env user m w))) (\<lambda>entry.
              case entry of Some e \<Rightarrow> send_mgr (hats_update m [e]) | None \<Rightarrow> Ok ())
            else Ok ()
        | None \<Rightarrow> Ok ()))"

definition set_wayfinder_map ::
    "wf_env \<Rightarrow> uuid \<Rightarrow> string \<Rightarrow> string option \<Rightarrow>
     ('z wf_world_scheme, db_error, string option) db_action" where
  "set_wayfinder_map env user display_name next_map w =
     (if tracked_map w = next_map then Ok (tracked_map w) w
      else and_then (broadcast_hat_context_transition env user display_name (tracked_map w) next_map)
             (\<lambda>_. Ok next_map) (w\<lparr>tracked_map := next_map\<rparr>))"

text \<open>\<open>configured\<close> says whether the server has Nadeo credentials; \<open>inst\<close> is the clock reading.\<close>

definition observe_map_for_comment_bind ::
    "bool \<Rightarrow> nat \<Rightarrow> string \<Rightarrow> ('z wf_world_scheme, 'e, unit) db_action" where
  "observe_map_for_comment_bind configured inst map_uid w =
     (if map_uid = DD2_MAP_UID \<or> length map_uid \<noteq> 27 then Ok () w
      else if \<not> configured then Ok () w
      else
        (case comment_bind_admit (comment_states w) map_uid inst 8192 of
           (Skip, st) \<Rightarrow> Ok () (w\<lparr>comment_states := st\<rparr>)
         | (Schedule, st) \<Rightarrow> Ok () (w\<lparr>comment_states := st, spawned := spawned w @ [CommentBind map_uid]\<rparr>)))"

definition adopt_wayfinder_map ::
    "wf_env \<Rightarrow> bool \<Rightarrow> nat \<Rightarrow> uuid \<Rightarrow> string \<Rightarrow> string \<Rightarrow>
     ('z wf_world_scheme, db_error, string option) db_action" where
  "adopt_wayfinder_map env configured inst user display_name uid =
     (if length uid \<noteq> 27 then fetch (\<lambda>w. Inr (tracked_map w))
      else and_then (observe_map_for_comment_bind configured inst uid) (\<lambda>_.
        set_wayfinder_map env user display_name (Some uid)))"

definition adopt_wayfinder_map_or_tracked ::
    "wf_env \<Rightarrow> bool \<Rightarrow> nat \<Rightarrow> uuid \<Rightarrow> string \<Rightarrow> string \<Rightarrow>
     'z wf_world_scheme \<Rightarrow> string option \<times> 'z wf_world_scheme" where
  "adopt_wayfinder_map_or_tracked env configured inst user display_name uid w =
     (case adopt_wayfinder_map env configured inst user display_name uid w of
        (Inr current, w1) \<Rightarrow> (current, w1)
      | (Inl _, w1) \<Rightarrow> (tracked_map w1, w1))"

definition apply_context_map_change ::
    "wf_env \<Rightarrow> uuid \<Rightarrow> string \<Rightarrow> string option \<Rightarrow>
     ('z wf_world_scheme, db_error, string option) db_action" where
  "apply_context_map_change env user display_name context_uid w =
     (case tracked_map w of
        Some m \<Rightarrow>
          if context_uid_refers_to_map env context_uid m then Ok (Some m) w
          else set_wayfinder_map env user display_name None w
      | None \<Rightarrow> set_wayfinder_map env user display_name None w)"

section \<open>Binds reported in game\<close>

definition tell_removed_wearers ::
    "string \<Rightarrow> hat_on_map_player list \<Rightarrow> ('z wf_world_scheme, 'e, unit) db_action" where
  "tell_removed_wearers m wearers = (if wearers = [] then Ok () else send_mgr (hats_update m wearers))"

text \<open>\<open>fmt\<close> is the message of a bind error.\<close>

definition report_minigame_map_with_verifier ::
    "wf_env \<Rightarrow> nat \<Rightarrow> (bind_spec_error \<Rightarrow> string) \<Rightarrow> (uuid \<Rightarrow> string \<Rightarrow> string + uuid) \<Rightarrow> uuid \<Rightarrow> string \<Rightarrow> int \<Rightarrow>
     ('z wf_world_scheme, api_error, unit) db_action" where
  "report_minigame_map_with_verifier env now fmt verifier user map_uid spec_id =
     (if length map_uid \<noteq> 27 then Ok ()
      else if spec_id \<le> 0 then Ok ()
      else
        and_then (map_err (\<lambda>e. StrErr (fmt e)) (fetch (prepare_authoritative_bind verifier user map_uid spec_id))) (\<lambda>prepared.
        and_then (map_err (\<lambda>e. StrErr (fmt e)) (commit_authoritative_bind env now prepared user map_uid spec_id)) (\<lambda>r.
          tell_removed_wearers map_uid (ab_removed_hat_wearers r))))"

text \<open>A bind that has to ask Nadeo runs as a detached task.\<close>

definition report_minigame_map_deferring ::
    "wf_env \<Rightarrow> nat \<Rightarrow> (bind_spec_error \<Rightarrow> string) \<Rightarrow> (uuid \<Rightarrow> string \<Rightarrow> string + uuid) \<Rightarrow> uuid \<Rightarrow> string \<Rightarrow> int \<Rightarrow>
     ('z wf_world_scheme, api_error, unit) db_action" where
  "report_minigame_map_deferring env now fmt verifier user map_uid spec_id w =
     (if length map_uid \<noteq> 27 \<or> spec_id \<le> 0 then Ok () w
      else if bind_requires_author_verification user map_uid spec_id w
      then Ok () (w\<lparr>spawned := spawned w @ [WayfinderBind user map_uid spec_id]\<rparr>)
      else report_minigame_map_with_verifier env now fmt verifier user map_uid spec_id w)"

text \<open>The detached task of a comment lookup.\<close>

definition comment_bind_task ::
    "wf_env \<Rightarrow> nat \<Rightarrow> nat \<Rightarrow> (bind_spec_error \<Rightarrow> string) \<Rightarrow> (string \<Rightarrow> uuid option) \<Rightarrow>
     string + published_comment \<Rightarrow> string \<Rightarrow> ('z wf_world_scheme, 'e, unit) db_action" where
  "comment_bind_task env now inst fmt parse_uuid fetched map_uid w =
     (let ((outcome, removed), w1) = try_comment_bind env now fmt parse_uuid fetched map_uid w;
          reschedule = execute (\<lambda>w. w\<lparr>comment_states :=
            comment_bind_reschedule map_uid (secs (60 * 60)) True inst (comment_states w)\<rparr>)
      in (case outcome of
            Bound _ _ _ \<Rightarrow> and_then (tell_removed_wearers map_uid removed) (\<lambda>_. reschedule)
          | NotOnNadeo \<Rightarrow> Ok ()
          | NoComment \<Rightarrow> reschedule
          | NoDppUrl \<Rightarrow> reschedule
          | CommentSpecNotFound \<Rightarrow> reschedule
          | OffNadeo _ \<Rightarrow> Ok ()) w1)"

section \<open>Equipping\<close>

definition too_fast_msg :: string where
  "too_fast_msg = ''Hat change was too fast - try again in a moment.''"

definition report_hat_equip ::
    "wf_env \<Rightarrow> nat \<Rightarrow> hat_equip_rate_verdict \<Rightarrow> uuid \<Rightarrow> string option \<Rightarrow> string \<Rightarrow> string \<Rightarrow>
     ('z wf_world_scheme, api_error, unit) db_action" where
  "report_hat_equip env now verdict user current map_uid slug =
     (if length map_uid \<noteq> 27 \<or> \<not> delivery_matches_map current map_uid then Ok ()
      else
        (case verdict of
           PerUser \<Rightarrow> send_client (RNonFatalErrorMsg 2 too_fast_msg)
         | Global \<Rightarrow> Ok ()
         | Allowed \<Rightarrow>
             and_then (map_err SqlxErr (report_equip env now user map_uid slug)) (\<lambda>entry.
             case entry of
               None \<Rightarrow> Ok ()
             | Some e \<Rightarrow> send_mgr (hats_update map_uid [e]))))"

text \<open>With the limiter it asks, and which it charges only past the first guard.\<close>

definition report_hat_equip_limited ::
    "('c, uuid, nat, 'y) lru_ops_scheme \<Rightarrow> hat_equip_cfg \<Rightarrow> wf_env \<Rightarrow> nat \<Rightarrow> nat \<Rightarrow> uuid \<Rightarrow> string option \<Rightarrow>
     string \<Rightarrow> string \<Rightarrow> 'c hat_equip_rate_state \<Rightarrow> 'z wf_world_scheme \<Rightarrow>
     (api_error + unit) \<times> 'c hat_equip_rate_state \<times> 'z wf_world_scheme" where
  "report_hat_equip_limited ops cfg env now inst user current map_uid slug limiter w =
     (if length map_uid \<noteq> 27 \<or> \<not> delivery_matches_map current map_uid then (Inr (), limiter, w)
      else
        let (verdict, limiter1) = hat_equip_check_at ops cfg user inst limiter;
            (r, w1) = report_hat_equip env now verdict user current map_uid slug w
        in (r, limiter1, w1))"

section \<open>What the other clients were last told\<close>

text \<open>
  The slugs a stretch of the manager's queue announces for a player on a map, in order; the empty
  slug takes the hat off.
\<close>

fun told :: "string \<Rightarrow> string \<Rightarrow> to_player_mgr \<Rightarrow> string list" where
  "told wsid m (BroadcastToMap m' (RHatsOnMapUpdate u hats)) =
     (if m' = m then map hom_slug (filter (\<lambda>h. hom_wsid h = wsid) hats) else [])"
| "told wsid m _ = []"

definition announced :: "string \<Rightarrow> string \<Rightarrow> to_player_mgr list \<Rightarrow> string list" where
  "announced wsid m q = concat (map (told wsid m) q)"

definition bare :: "string list \<Rightarrow> bool" where
  "bare slugs \<longleftrightarrow> slugs = [] \<or> last slugs = []"

definition no_ghosts :: "wf_env \<Rightarrow> uuid \<Rightarrow> 'z wf_world_scheme \<Rightarrow> bool" where
  "no_ghosts env user w \<longleftrightarrow>
     (\<forall>m. tracked_map w = Some m \<longrightarrow> length m = 27) \<and>
     (\<forall>m. tracked_map w \<noteq> Some m \<longrightarrow> bare (announced (we_show_uuid env user) m (mgr_queue w)))"

lemma announced_append [simp]: "announced s m (q @ q') = announced s m q @ announced s m q'"
  by (simp add: announced_def)

lemma announced_update [simp]:
  "announced s m [hats_update m' hats] =
     (if m' = m then map hom_slug (filter (\<lambda>h. hom_wsid h = s) hats) else [])"
  by (simp add: announced_def hats_update_def)

lemma bare_append_bare: "bare xs \<Longrightarrow> \<forall>y\<in>set ys. y = [] \<Longrightarrow> bare (xs @ ys)"
  by (cases ys rule: rev_cases) (auto simp: bare_def)

lemma bare_cons [simp]: "bare (xs @ [[]])"
  by (simp add: bare_def)

lemma send_mgr_run [simp]: "send_mgr msg w = (Inr (), w\<lparr>mgr_queue := mgr_queue w @ [msg]\<rparr>)"
  by (simp add: send_mgr_def)

text \<open>Actions that neither move the player nor announce a hat for anyone.\<close>

definition unannounced :: "('z wf_world_scheme, 'e, 'a) db_action \<Rightarrow> bool" where
  "unannounced f \<longleftrightarrow> (\<forall>w. tracked_map (snd (f w)) = tracked_map w \<and>
     (\<exists>q. mgr_queue (snd (f w)) = mgr_queue w @ q \<and> (\<forall>s m. \<forall>x\<in>set (announced s m q). x = [])))"

lemma unannouncedI:
  "(\<And>w. tracked_map (snd (f w)) = tracked_map w) \<Longrightarrow>
   (\<And>w. \<exists>q. mgr_queue (snd (f w)) = mgr_queue w @ q \<and> (\<forall>s m. \<forall>x\<in>set (announced s m q). x = [])) \<Longrightarrow>
   unannounced f"
  by (simp add: unannounced_def)

lemma unannounced_same:
  "(\<And>w. tracked_map (snd (f w)) = tracked_map w \<and> mgr_queue (snd (f w)) = mgr_queue w) \<Longrightarrow> unannounced f"
  by (rule unannouncedI) (auto simp: announced_def intro: exI [of _ "[]"])

lemma unannounced_keeps: "unannounced f \<Longrightarrow> no_ghosts env user w \<Longrightarrow> no_ghosts env user (snd (f w))"
  unfolding unannounced_def no_ghosts_def by (metis announced_append bare_append_bare)

lemma unannounced_and_then:
  assumes f: "unannounced f" and g: "\<And>w a w1. f w = (Inr a, w1) \<Longrightarrow> unannounced (g a)"
  shows "unannounced (and_then f g)"
proof -
  have "tracked_map (snd (and_then f g w)) = tracked_map w \<and>
     (\<exists>q. mgr_queue (snd (and_then f g w)) = mgr_queue w @ q \<and> (\<forall>s m. \<forall>x\<in>set (announced s m q). x = []))" for w
  proof (cases "f w")
    case (Pair r w1)
    have f1: "tracked_map w1 = tracked_map w" "\<exists>q. mgr_queue w1 = mgr_queue w @ q \<and>
        (\<forall>s m. \<forall>x\<in>set (announced s m q). x = [])"
      using f Pair by (metis unannounced_def snd_conv)+
    then obtain q where q: "mgr_queue w1 = mgr_queue w @ q" "\<forall>s m. \<forall>x\<in>set (announced s m q). x = []" by blast
    show ?thesis
    proof (cases r)
      case (Inl e)
      then show ?thesis using Pair f1 by (simp add: and_then_def)
    next
      case (Inr a)
      obtain q2 where "tracked_map (snd (g a w1)) = tracked_map w1" "mgr_queue (snd (g a w1)) = mgr_queue w1 @ q2"
        "\<forall>s m. \<forall>x\<in>set (announced s m q2). x = []"
        using g [OF Pair [unfolded Inr]] unfolding unannounced_def by blast
      then show ?thesis
        using Pair Inr f1 q by (intro conjI exI [of _ "q @ q2"]) (auto simp: and_then_def)
    qed
  qed
  then show ?thesis by (auto simp: unannounced_def)
qed

lemma unannounced_if: "unannounced f \<Longrightarrow> unannounced g \<Longrightarrow> unannounced (if b then f else g)"
  by simp

lemma unannounced_map_err: "unannounced f \<Longrightarrow> unannounced (map_err h f)"
proof -
  have "snd (map_err h f w) = snd (f w)" for w
    by (simp add: map_err_def split: prod.split sum.split)
  then show "unannounced f \<Longrightarrow> unannounced (map_err h f)" by (simp add: unannounced_def)
qed

lemma unannounced_tell: "\<forall>h\<in>set wearers. hom_slug h = [] \<Longrightarrow> unannounced (tell_removed_wearers m wearers)"
  unfolding tell_removed_wearers_def
  by (rule unannouncedI)
     (auto simp: announced_def intro!: exI [of _ "if wearers = [] then [] else [hats_update m wearers]"]
       simp: hats_update_def)

text \<open>The operations on the tables touch neither.\<close>

definition quiet :: "('z wf_world_scheme, 'e, 'a) db_action \<Rightarrow> bool" where
  "quiet f \<longleftrightarrow> (\<forall>c q. keeps (\<lambda>w. tracked_map w = c \<and> mgr_queue w = q) f)"

lemma quiet_unannounced: "quiet f \<Longrightarrow> unannounced f"
  by (rule unannounced_same) (simp add: quiet_def keeps_def)

lemma quietI: "(\<And>c q. keeps (\<lambda>w. tracked_map w = c \<and> mgr_queue w = q) f) \<Longrightarrow> quiet f"
  by (simp add: quiet_def)

lemma quietD: "quiet f \<Longrightarrow> keeps (\<lambda>w. tracked_map w = c \<and> mgr_queue w = q) f"
  by (simp add: quiet_def)

lemma quiet_tables:
  "quiet (replace_games_in_tx i u n gs)" "quiet (replace_collectibles_in_tx i u n cs)"
  "quiet (replace_hats_in_tx i u n hs)" "quiet (bind_games_in_tx env m i)"
  "quiet (bind_collectibles_in_tx env m i)" "quiet (bind_hats_in_tx env m i)" "quiet (stamp_binding env m i s)"
  "quiet (insert_first_bind t m i r)" "quiet (promote_unverified t m i r)"
  "quiet (upsert_comment_bind t m i o1)" "quiet (purge_map_equipment_in_tx env m)"
  "quiet (upsert_equipped e)"
  by (auto simp: quiet_def keeps_def replace_games_in_tx_def replace_collectibles_in_tx_def replace_hats_in_tx_def
      bind_games_in_tx_def bind_collectibles_in_tx_def bind_hats_in_tx_def stamp_binding_def insert_first_bind_def
      promote_unverified_def upsert_comment_bind_def purge_map_equipment_in_tx_def upsert_equipped_def Let_def
      split: option.splits sum.splits)

lemma quiet_basic: "quiet (Ok a)" "quiet (Err e)" "quiet (fetch g)"
  by (intro quietI keeps_rules)+

lemma quiet_and_then: "quiet f \<Longrightarrow> (\<And>a. quiet (g a)) \<Longrightarrow> quiet (and_then f g)"
  by (intro quietI keeps_and_then) (simp_all add: quietD)

lemma quiet_map_err: "quiet f \<Longrightarrow> quiet (map_err h f)"
  by (intro quietI keeps_map_err) (simp add: quietD)

lemma quiet_in_tx: "quiet f \<Longrightarrow> quiet (in_tx f)"
  by (intro quietI keeps_in_tx) (simp add: quietD)

lemma quiet_pointwise: "(\<And>w. \<exists>g. f w = g w \<and> quiet g) \<Longrightarrow> quiet f"
  unfolding quiet_def keeps_def by metis

lemma quiet_option: "quiet f \<Longrightarrow> (\<And>x. quiet (g x)) \<Longrightarrow> quiet (case y of None \<Rightarrow> f | Some x \<Rightarrow> g x)"
  by (cases y) simp_all

lemma quiet_sum: "(\<And>e. quiet (f e)) \<Longrightarrow> (\<And>x. quiet (g x)) \<Longrightarrow> quiet (case y of Inl e \<Rightarrow> f e | Inr x \<Rightarrow> g x)"
  by (cases y) simp_all

lemma quiet_prod: "(\<And>a b. quiet (f a b)) \<Longrightarrow> quiet (case y of (a, b) \<Rightarrow> f a b)"
  by (cases y) simp_all

lemma quiet_if: "quiet f \<Longrightarrow> quiet g \<Longrightarrow> quiet (if b then f else g)"
  by simp

lemmas quiet_rules = quiet_basic quiet_and_then quiet_map_err quiet_in_tx quiet_option quiet_sum quiet_prod
  quiet_if quiet_tables

lemma quiet_materialize: "quiet (materialize env m i s gs cs hs)"
  unfolding materialize_def by (intro quiet_rules)

lemma quiet_writes:
  "quiet (write_authoritative_bind env t r m i s l)" "quiet (write_comment_bind env t m i s l)"
  unfolding write_authoritative_bind_def write_comment_bind_def check_winner_def db_def
  by (intro quiet_rules quiet_materialize)+

lemma quiet_run: "quiet f \<Longrightarrow> tracked_map (snd (f w)) = tracked_map w \<and> mgr_queue (snd (f w)) = mgr_queue w"
  by (simp add: quiet_def keeps_def)

lemmas write_frames = quiet_writes [THEN quiet_run]

lemma quiet_binds:
  "quiet (commit_authoritative_bind env t p r m i)" "quiet (commit_comment_bind env t m i)"
  unfolding commit_authoritative_bind_def commit_comment_bind_def Let_def
  by (rule quiet_in_tx; auto simp: quiet_def keeps_def write_frames split: option.split prod.split)+

lemma quiet_report_equip: "quiet (report_equip env t u m slug)"
  unfolding report_equip_def push_entry_def
  by (rule quiet_in_tx)
     (auto simp: quiet_def keeps_def and_then_def upsert_equipped_def split: option.splits prod.splits sum.splits)

section \<open>Whose hats a bind removes\<close>

lemma wearer_entries_bare: "h \<in> set (wearer_entries env d rows) \<Longrightarrow> hom_slug h = []"
  by (auto simp: wearer_entries_def split: option.splits)

lemma materialize_wearers:
  "materialize env m i s gs cs hs d = (Inr r, d') \<Longrightarrow> h \<in> set (hb_removed_wearers r) \<Longrightarrow> hom_slug h = []"
  by (auto simp: materialize_def and_then_Inr bind_hats_in_tx_def Let_def wearer_entries_bare)

lemma purge_wearers:
  "(if b then db (purge_map_equipment_in_tx env m) else Ok []) d = (Inr r, d') \<Longrightarrow> h \<in> set r \<Longrightarrow> hom_slug h = []"
  by (auto simp: db_def map_err_Inr_iff purge_map_equipment_in_tx_def wearer_entries_bare split: if_splits)

lemma write_wearers:
  "write_authoritative_bind env t u m i s l d = (Inr r, d') \<Longrightarrow> h \<in> set (ab_removed_hat_wearers r) \<Longrightarrow> hom_slug h = []"
  "write_comment_bind env t m i s l d = (Inr r2, d') \<Longrightarrow> h \<in> set (ab_removed_hat_wearers r2) \<Longrightarrow> hom_slug h = []"
  unfolding write_authoritative_bind_def write_comment_bind_def
  by (auto split: sum.splits simp: and_then_Inr)
     ((erule (1) purge_wearers | auto simp: db_def map_err_Inr_iff dest: materialize_wearers)+)

lemma commit_wearers:
  "commit_authoritative_bind env t p u m i d = (Inr r, d') \<Longrightarrow> h \<in> set (ab_removed_hat_wearers r) \<Longrightarrow> hom_slug h = []"
  "commit_comment_bind env t m i d = (Inr r2, d') \<Longrightarrow> h \<in> set (ab_removed_hat_wearers r2) \<Longrightarrow> hom_slug h = []"
  unfolding commit_authoritative_bind_def commit_comment_bind_def Let_def in_tx_Inr_iff
  by (auto split: option.splits if_splits prod.splits dest: write_wearers)

section \<open>Runs\<close>

text \<open>
  The steps around one connected player: their own requests, handled one after the other; binds
  by anyone, in game or by comment; and whatever else happens to the shared state, as long as
  nobody else speaks for this player.
\<close>

inductive presence_step :: "wf_env \<Rightarrow> uuid \<Rightarrow> 'z wf_world_scheme \<Rightarrow> 'z wf_world_scheme \<Rightarrow> bool" for env user where
  adopt: "presence_step env user w (snd (adopt_wayfinder_map env configured inst user name uid w))"
| context_report: "presence_step env user w (snd (apply_context_map_change env user name ctx w))"
| equip: "presence_step env user w (snd (report_hat_equip env t verdict user (tracked_map w) m slug w))"
| report_map: "presence_step env user w (snd (report_minigame_map_deferring env t fmt verifier reporter m i w))"
| bind_task: "presence_step env user w (snd (report_minigame_map_with_verifier env t fmt verifier reporter m i w))"
| comment_task: "presence_step env user w (snd (comment_bind_task env t inst fmt parse_uuid fetched m w :: (api_error + unit) \<times> _))"
| others: "tracked_map w' = tracked_map w \<Longrightarrow> mgr_queue w' = mgr_queue w @ q \<Longrightarrow>
    \<forall>m. announced (we_show_uuid env user) m q = [] \<Longrightarrow> presence_step env user w w'"

inductive presence_reach :: "wf_env \<Rightarrow> uuid \<Rightarrow> 'z wf_world_scheme \<Rightarrow> 'z wf_world_scheme \<Rightarrow> bool" for env user w where
  here: "presence_reach env user w w"
| step: "presence_reach env user w w1 \<Longrightarrow> presence_step env user w1 w2 \<Longrightarrow> presence_reach env user w w2"

definition leave_push :: "wf_env \<Rightarrow> uuid \<Rightarrow> string \<Rightarrow> string option \<Rightarrow> to_player_mgr list" where
  "leave_push env user name previous = (case previous of None \<Rightarrow> [] | Some m \<Rightarrow>
     if length m = 27
     then [hats_update m [\<lparr>hom_wsid = we_show_uuid env user, hom_name = name, hom_slug = []\<rparr>]] else [])"

lemma broadcast_run:
  assumes "previous \<noteq> current"
  shows "\<exists>es. broadcast_hat_context_transition env user name previous current w =
    (Inr (), w\<lparr>mgr_queue := mgr_queue w @ leave_push env user name previous @
      (case current of None \<Rightarrow> [] | Some m \<Rightarrow> map (\<lambda>e. hats_update m [e]) es)\<rparr>)"
proof -
  let ?w1 = "w\<lparr>mgr_queue := mgr_queue w @ leave_push env user name previous\<rparr>"
  have left: "(case previous of Some m \<Rightarrow>
      if length m = 27
      then send_mgr (hats_update m [\<lparr>hom_wsid = we_show_uuid env user, hom_name = name, hom_slug = []\<rparr>])
      else Ok () | None \<Rightarrow> Ok ()) w = (Inr () :: db_error + unit, ?w1)"
    by (simp add: leave_push_def split: option.split)
  show ?thesis
  proof (cases "\<exists>m e. current = Some m \<and> length m = 27 \<and> equipped_push_entry env user m ?w1 = Some e")
    case True
    then obtain m e where "current = Some m" "length m = 27" "equipped_push_entry env user m ?w1 = Some e" by blast
    then show ?thesis using assms left
      by (intro exI [of _ "[e]"]) (simp add: broadcast_hat_context_transition_def and_then_def)
  next
    case False
    then show ?thesis using assms left
      by (intro exI [of _ "[]"]) (auto simp: broadcast_hat_context_transition_def and_then_def split: option.split)
  qed
qed

lemma set_wayfinder_map_ghosts:
  assumes inv: "no_ghosts env user w" and len: "\<And>m. next_map = Some m \<Longrightarrow> length m = 27"
  shows "no_ghosts env user (snd (set_wayfinder_map env user name next_map w))"
proof (cases "tracked_map w = next_map")
  case False
  let ?w1 = "w\<lparr>tracked_map := next_map\<rparr>"
  obtain es where "broadcast_hat_context_transition env user name (tracked_map w) next_map ?w1 =
    (Inr (), ?w1\<lparr>mgr_queue := mgr_queue ?w1 @ leave_push env user name (tracked_map w) @
      (case next_map of None \<Rightarrow> [] | Some m \<Rightarrow> map (\<lambda>e. hats_update m [e]) es)\<rparr>)"
    using broadcast_run [OF False, of env user name ?w1] by blast
  then have run: "snd (set_wayfinder_map env user name next_map w) =
      ?w1\<lparr>mgr_queue := mgr_queue w @ leave_push env user name (tracked_map w) @
        (case next_map of None \<Rightarrow> [] | Some m \<Rightarrow> map (\<lambda>e. hats_update m [e]) es)\<rparr>"
    using False by (simp add: set_wayfinder_map_def and_then_def)
  have joins: "announced s m (map (\<lambda>e. hats_update m' [e]) es) = []" if "m' \<noteq> m" for s m m'
    using that by (induction es) (simp_all add: announced_def hats_update_def)
  have leaves: "bare (announced (we_show_uuid env user) m (mgr_queue w @ leave_push env user name (tracked_map w)))" for m
    using inv by (auto simp: no_ghosts_def leave_push_def announced_def [of _ _ "[]"] split: option.splits)
  show ?thesis
    unfolding run using len leaves joins
    by (auto simp: no_ghosts_def announced_def [of _ _ "[]"] split: option.split)
qed (simp add: set_wayfinder_map_def inv)

lemma observe_frame:
  "fst (observe_map_for_comment_bind configured inst uid w) = Inr () \<and>
   tracked_map (snd (observe_map_for_comment_bind configured inst uid w)) = tracked_map w \<and>
   mgr_queue (snd (observe_map_for_comment_bind configured inst uid w)) = mgr_queue w"
  by (simp add: observe_map_for_comment_bind_def split: prod.split comment_bind_admission.split)

lemma adopt_ghosts:
  assumes "no_ghosts env user w"
  shows "no_ghosts env user (snd (adopt_wayfinder_map env configured inst user name uid w))"
proof (cases "length uid = 27")
  case True
  obtain w1 where w1: "(observe_map_for_comment_bind configured inst uid :: (_, db_error, _) db_action) w = (Inr (), w1)"
      "tracked_map w1 = tracked_map w" "mgr_queue w1 = mgr_queue w"
    using observe_frame [of configured inst uid w] by (metis prod.collapse)
  then have "no_ghosts env user w1" using assms by (simp add: no_ghosts_def)
  then have "no_ghosts env user (snd (set_wayfinder_map env user name (Some uid) w1))"
    by (rule set_wayfinder_map_ghosts) (simp add: True)
  then show ?thesis using True w1 by (simp add: adopt_wayfinder_map_def and_then_def)
qed (simp add: adopt_wayfinder_map_def assms)

lemma context_ghosts:
  "no_ghosts env user w \<Longrightarrow> no_ghosts env user (snd (apply_context_map_change env user name ctx w))"
  by (auto simp: apply_context_map_change_def intro!: set_wayfinder_map_ghosts split: option.split)

lemma equip_ghosts:
  assumes "no_ghosts env user w"
  shows "no_ghosts env user (snd (report_hat_equip env t verdict user (tracked_map w) m slug w))"
proof (cases "length m = 27 \<and> tracked_map w = Some m \<and> verdict = Allowed")
  case True
  obtain r w1 where run: "report_equip env t user m slug w = (r, w1)" by fastforce
  have same: "tracked_map w1 = tracked_map w" "mgr_queue w1 = mgr_queue w"
    using quiet_run [OF quiet_report_equip, of env t user m slug w] run by simp_all
  show ?thesis
    using True run same assms
    by (auto simp: report_hat_equip_def delivery_matches_map_def no_ghosts_def and_then_def map_err_def
        split: sum.split option.split)
next
  case False
  then show ?thesis
    using assms by (auto simp: report_hat_equip_def delivery_matches_map_def send_client_def no_ghosts_def
        split: hat_equip_rate_verdict.splits)
qed

lemma bind_unannounced: "unannounced (report_minigame_map_with_verifier env t fmt verifier reporter m i)"
  unfolding report_minigame_map_with_verifier_def
  by (intro unannounced_if unannounced_and_then unannounced_tell unannounced_map_err quiet_unannounced
      quiet_basic quiet_binds)
     (auto simp: map_err_Inr_iff dest: commit_wearers)

lemma unannounced_run:
  "unannounced f \<Longrightarrow> tracked_map (snd (f w)) = tracked_map w \<and>
     (\<exists>q. mgr_queue (snd (f w)) = mgr_queue w @ q \<and> (\<forall>s m. \<forall>x\<in>set (announced s m q). x = []))"
  by (simp add: unannounced_def)

lemma deferring_unannounced:
  "tracked_map (snd (report_minigame_map_deferring env t fmt verifier reporter m i w)) = tracked_map w \<and>
   (\<exists>q. mgr_queue (snd (report_minigame_map_deferring env t fmt verifier reporter m i w)) = mgr_queue w @ q \<and>
      (\<forall>s m. \<forall>x\<in>set (announced s m q). x = []))"
  using unannounced_run [OF bind_unannounced, of env t fmt verifier reporter m i w]
  by (auto simp: report_minigame_map_deferring_def announced_def intro: exI [of _ "[]"])

lemma comment_unannounced:
  "tracked_map (snd (comment_bind_task env t inst fmt pu fetched m w)) = tracked_map w \<and>
   (\<exists>q. mgr_queue (snd (comment_bind_task env t inst fmt pu fetched m w)) = mgr_queue w @ q \<and>
      (\<forall>s m. \<forall>x\<in>set (announced s m q). x = []))"
proof (cases "try_comment_bind env t fmt pu fetched m w")
  case (Pair r w1)
  have frame: "tracked_map (snd (bind_from_resolved_comment env t m u n w)) = tracked_map w \<and>
      mgr_queue (snd (bind_from_resolved_comment env t m u n w)) = mgr_queue w" for u n
    by (rule quiet_run) (simp add: bind_from_resolved_comment_def quiet_rules quiet_binds)
  have w1: "tracked_map w1 = tracked_map w" "mgr_queue w1 = mgr_queue w"
    using Pair frame by (auto simp: try_comment_bind_def split: sum.splits published_comment.splits option.splits
        prod.splits bind_spec_error.splits) (metis snd_conv)+
  have bare: "\<forall>h\<in>set (snd r). hom_slug h = []"
    using Pair by (auto simp: try_comment_bind_def bind_from_resolved_comment_def and_then_def
        split: sum.splits published_comment.splits option.splits prod.splits bind_spec_error.splits
        dest: commit_wearers)
  show ?thesis
    using Pair w1 bare
    by (cases r; cases "fst r")
       (auto simp: comment_bind_task_def and_then_def tell_removed_wearers_def announced_def hats_update_def
         intro: exI [of _ "[]"])
qed

lemma no_ghosts_extend:
  "no_ghosts env user w \<Longrightarrow> tracked_map w' = tracked_map w \<and>
     (\<exists>q. mgr_queue w' = mgr_queue w @ q \<and> (\<forall>s m. \<forall>x\<in>set (announced s m q). x = [])) \<Longrightarrow>
   no_ghosts env user w'"
  unfolding no_ghosts_def by (metis announced_append bare_append_bare)

lemma presence_step_ghosts: "presence_step env user w w' \<Longrightarrow> no_ghosts env user w \<Longrightarrow> no_ghosts env user w'"
proof (induction rule: presence_step.induct)
  case (adopt w configured inst name uid)
  then show ?case by (rule adopt_ghosts)
next
  case (context_report w name ctx)
  then show ?case by (rule context_ghosts)
next
  case (equip w t verdict m slug)
  then show ?case by (rule equip_ghosts)
next
  case (report_map w t fmt verifier reporter m i)
  then show ?case by (rule no_ghosts_extend) (rule deferring_unannounced)
next
  case (bind_task w t fmt verifier reporter m i)
  then show ?case by (rule no_ghosts_extend) (rule unannounced_run [OF bind_unannounced])
next
  case (comment_task w t inst fmt parse_uuid fetched m)
  then show ?case by (rule no_ghosts_extend) (rule comment_unannounced)
next
  case (others w' w q)
  then show ?case by (simp add: no_ghosts_def)
qed

section \<open>Properties\<close>

definition sample_world :: wf_world where
  "sample_world = lb_db.extend (with_tables worn_db) \<lparr>mgr_queue = [], tracked_map = None, client_open = True, client_queue = [],
     comment_states = [], spawned = []\<rparr>"

definition joined_world :: wf_world where
  "joined_world = snd (adopt_wayfinder_map sample_env False 0 7 ''ann'' sample_map sample_world)"

definition left_world :: wf_world where
  "left_world = snd (apply_context_map_change sample_env 7 ''ann'' (Some ''elsewhere'') joined_world)"

text \<open>
  C11. No ghosts: whatever the connection requests, whichever binds happen, and however other
  players act, the last thing the other clients heard about this player's hat on any map other
  than the tracked one is that it came off.
\<close>

theorem no_hat_left_behind:
  assumes "presence_reach env user w w'" and "no_ghosts env user w" and "tracked_map w' \<noteq> Some m"
  shows "announced (we_show_uuid env user) m (mgr_queue w') = [] \<or>
    last (announced (we_show_uuid env user) m (mgr_queue w')) = []"
proof -
  have "no_ghosts env user w'"
    using assms(1,2) by (induction rule: presence_reach.induct) (auto intro: presence_step_ghosts)
  then show ?thesis using assms(3) by (simp add: no_ghosts_def bare_def)
qed

theorem no_hat_left_behind_witness:
  "announced ''uuuuuuu'' sample_map (mgr_queue joined_world) = [''cap''] \<and>
   announced ''uuuuuuu'' sample_map (mgr_queue left_world) = [''cap'', []] \<and> last [''cap'', []] = []"
proof -
  have "presence_step sample_env 7 sample_world joined_world"
    unfolding joined_world_def by (rule presence_step.adopt)
  moreover have "presence_step sample_env 7 joined_world left_world"
    unfolding left_world_def by (rule presence_step.context_report)
  ultimately have reach: "presence_reach sample_env 7 sample_world left_world"
    by (blast intro: presence_reach.intros)
  have start: "no_ghosts sample_env 7 sample_world"
    by (simp add: no_ghosts_def sample_world_def lb_db.defs announced_def bare_def)
  have gone: "tracked_map left_world \<noteq> Some sample_map" by code_simp
  have user: "we_show_uuid sample_env 7 = ''uuuuuuu''" by code_simp
  have joined: "announced ''uuuuuuu'' sample_map (mgr_queue joined_world) = [''cap'']" by code_simp
  have left: "announced ''uuuuuuu'' sample_map (mgr_queue left_world) = [''cap'', []]" by code_simp
  show ?thesis using no_hat_left_behind [OF reach start gone] joined left user by simp
qed

end
