(* ===== verification/Hat_Session.thy ===== *)
theory Hat_Session
  imports Presence
begin

text \<open>
  Hat unlocks over one connection (\<open>src/server2.rs\<close>).  The plugin reports an unlock (84) and
  asks for its hats (213) back to back, and persists whatever the answer says.  The proof of an
  unlock takes lookups at Nadeo and runs as a detached task, so an answer for the map is withheld
  while any task of the map is pending, and given by the task that finishes last.

  An answer takes three queries before it is put on the queue, and the tasks and the read loop wait at
  each, so between any two of them other tasks and requests go on.
\<close>

section \<open>Answers owed\<close>

definition MAX_PENDING_HAT_UNLOCKS :: nat where "MAX_PENDING_HAT_UNLOCKS = 16"

definition MAX_CONCURRENT_HAT_VALIDATIONS :: nat where "MAX_CONCURRENT_HAT_VALIDATIONS = 2"

type_synonym owed_set = "(string \<times> string) list"

definition begin_pending :: "string \<Rightarrow> string \<Rightarrow> owed_set \<Rightarrow> owed_set option" where
  "begin_pending map_uid slug entries =
     (if MAX_PENDING_HAT_UNLOCKS \<le> length entries \<or> (map_uid, slug) \<in> set entries then None
      else Some ((map_uid, slug) # entries))"

definition any_for_map :: "owed_set \<Rightarrow> string \<Rightarrow> bool" where
  "any_for_map entries map_uid \<longleftrightarrow> list_ex (\<lambda>p. fst p = map_uid) entries"

text \<open>\<open>remove\<close> also says whether the map has no entry left; \<open>release\<close> does it once.\<close>

definition remove_pending :: "string \<times> string \<Rightarrow> owed_set \<Rightarrow> bool \<times> owed_set" where
  "remove_pending key entries =
     (let rest = removeAll key entries in (\<not> any_for_map rest (fst key), rest))"

definition release_pending :: "(string \<times> string) option \<Rightarrow> owed_set \<Rightarrow> bool \<times> owed_set" where
  "release_pending key entries =
     (case key of Some k \<Rightarrow> remove_pending k entries | None \<Rightarrow> (False, entries))"

section \<open>The connection\<close>

text \<open>
  A validation waits for one of the connection's permits, checks, commits, gives the permit
  back, and finishes.
\<close>

datatype validation_phase = Queued | Running | Checked unlock_phase | Settled

record hat_validation =
  hv_map :: string
  hv_slug :: string
  hv_spec :: int
  hv_phase :: validation_phase

text \<open>
  An answer on its way, of the read loop (\<open>ha_inline\<close>) or of the task that found the map drained: what
  it waits for next, with what it has read.
\<close>

datatype answer_step =
    AskBinding
  | AskWorn
  | AskItems string
  | ToSend string "hat_mine_item list"

record hats_answer =
  ha_map :: string
  ha_inline :: bool
  ha_step :: answer_step

record hat_session = wf_world +
  owed :: owed_set
  validations :: "hat_validation list"
  hats_answers :: "hats_answer list"

definition reserve_unlock :: "string \<Rightarrow> string \<Rightarrow> int \<Rightarrow> 'z hat_session_scheme \<Rightarrow> 'z hat_session_scheme" where
  "reserve_unlock map_uid slug bound_spec_id s =
     (case begin_pending map_uid slug (owed s) of
        None \<Rightarrow> s
      | Some entries \<Rightarrow> s\<lparr>owed := entries, validations := validations s @
          [\<lparr>hv_map = map_uid, hv_slug = slug, hv_spec = bound_spec_id, hv_phase = Queued\<rparr>]\<rparr>)"

definition report_hat_unlock ::
    "wf_env \<Rightarrow> string \<Rightarrow> string \<Rightarrow> int \<Rightarrow> ('z hat_session_scheme, api_error, unit) db_action" where
  "report_hat_unlock env map_uid slug spec_id s =
     (if length map_uid \<noteq> 27 \<or> spec_id \<le> 0 \<or> slug = [] then Ok () s
      else
        (case resolve_bound_spec env map_uid spec_id s of
           None \<Rightarrow> Ok () s
         | Some i \<Rightarrow> Ok () (reserve_unlock map_uid slug i s)))"

text \<open>The list as a handler that is not interrupted, which is how \<open>Connection\<close> serves the request.\<close>

definition push_hats_mine :: "wf_env \<Rightarrow> string \<Rightarrow> uuid \<Rightarrow> ('z wf_world_scheme, api_error, unit) db_action" where
  "push_hats_mine env map_uid user =
     and_then (fetch (\<lambda>w. Inr (get_hats_mine env map_uid user w))) (\<lambda>r.
       case r of None \<Rightarrow> Ok () | Some (equipped, items) \<Rightarrow> send_client (RHatsMine map_uid equipped items))"

definition send_hats_mine ::
    "wf_env \<Rightarrow> string option \<Rightarrow> string \<Rightarrow> uuid \<Rightarrow> ('z hat_session_scheme, api_error, unit) db_action" where
  "send_hats_mine env current map_uid user s =
     (if \<not> delivery_matches_map current map_uid then Ok () s
      else if any_for_map (owed s) map_uid then Ok () s
      else push_hats_mine env map_uid user s)"

text \<open>The three queries of the list, each on the tables as it finds them.\<close>

definition mine_worn :: "wf_env \<Rightarrow> uuid \<Rightarrow> string \<Rightarrow> 'z wf_db_scheme \<Rightarrow> string" where
  "mine_worn env user map_uid d = (if binding_usable env map_uid d then worn_slug user map_uid d else [])"

definition mine_items :: "wf_env \<Rightarrow> uuid \<Rightarrow> string \<Rightarrow> 'z wf_db_scheme \<Rightarrow> hat_mine_item list" where
  "mine_items env user map_uid d =
     map (hat_item user d) (sort_key (\<lambda>h. we_collate env (hm_slug h))
       (filter (\<lambda>h. hm_map_uid h = map_uid \<and> binding_usable env map_uid d) (hats_on_map d)))"

definition answer_turn ::
    "wf_env \<Rightarrow> uuid \<Rightarrow> hats_answer \<Rightarrow> 'z hat_session_scheme \<Rightarrow> hats_answer list \<times> 'z hat_session_scheme" where
  "answer_turn env user a s =
     (case ha_step a of
        AskBinding \<Rightarrow> (if verified_binding_spec_id env (ha_map a) s = None then [] else [a\<lparr>ha_step := AskWorn\<rparr>], s)
      | AskWorn \<Rightarrow> ([a\<lparr>ha_step := AskItems (mine_worn env user (ha_map a) s)\<rparr>], s)
      | AskItems e \<Rightarrow> ([a\<lparr>ha_step := ToSend e (mine_items env user (ha_map a) s)\<rparr>], s)
      | ToSend e items \<Rightarrow> ([], snd (send_client (RHatsMine (ha_map a) e items) s)))"

text \<open>The read loop waits for its own answer before it takes the next request.\<close>

definition busy :: "'z hat_session_scheme \<Rightarrow> bool" where
  "busy s \<longleftrightarrow> list_ex ha_inline (hats_answers s)"

definition ask_hats_mine :: "string option \<Rightarrow> string \<Rightarrow> 'z hat_session_scheme \<Rightarrow> 'z hat_session_scheme" where
  "ask_hats_mine current map_uid s =
     (if \<not> delivery_matches_map current map_uid then s
      else if any_for_map (owed s) map_uid then s
      else s\<lparr>hats_answers := hats_answers s @ [\<lparr>ha_map = map_uid, ha_inline = True, ha_step = AskBinding\<rparr>]\<rparr>)"

definition send_hats_on_map ::
    "wf_env \<Rightarrow> nat \<Rightarrow> string option \<Rightarrow> string \<Rightarrow> ('z wf_world_scheme, api_error, unit) db_action" where
  "send_hats_on_map env now current map_uid =
     (if \<not> delivery_matches_map current map_uid then Ok ()
      else and_then (fetch (\<lambda>w. Inr (get_hats_on_map env now map_uid w))) (\<lambda>hats.
        send_client (RHatsOnMap map_uid hats)))"

section \<open>The detached tasks\<close>

definition hv_key :: "hat_validation \<Rightarrow> string \<times> string" where
  "hv_key v = (hv_map v, hv_slug v)"

definition holds_permit :: "hat_validation \<Rightarrow> bool" where
  "holds_permit v \<longleftrightarrow> (case hv_phase v of Running \<Rightarrow> True | Checked _ \<Rightarrow> True | _ \<Rightarrow> False)"

definition permit_free :: "hat_validation list \<Rightarrow> bool" where
  "permit_free vs \<longleftrightarrow> length (filter holds_permit vs) < MAX_CONCURRENT_HAT_VALIDATIONS"

text \<open>One step of a task: the new phase, with the effect on the database.\<close>

definition run_validation ::
    "wf_env \<Rightarrow> nat \<Rightarrow> record_verifier \<Rightarrow> uuid \<Rightarrow> hat_validation \<Rightarrow> 'z hat_session_scheme \<Rightarrow>
     validation_phase \<times> 'z hat_session_scheme" where
  "run_validation env now verifier user v s =
     (case hv_phase v of
        Queued \<Rightarrow> (if permit_free (validations s) then Running else Queued, s)
      | Running \<Rightarrow> (Checked (hat_unlock_check env verifier user (hv_map v) (hv_slug v) (hv_spec v) s), s)
      | Checked (Answer b) \<Rightarrow> (Settled, s)
      | Checked (Validated row) \<Rightarrow>
          (Settled, snd (hat_unlock_commit env now user (hv_map v) (hv_slug v) (hv_spec v) row s))
      | Settled \<Rightarrow> (Settled, s))"

text \<open>The end of a task: its entry is released, and the last one of a map goes on to answer.\<close>

definition finish_validation :: "hat_validation \<Rightarrow> 'z hat_session_scheme \<Rightarrow> 'z hat_session_scheme" where
  "finish_validation v s =
     (let (drained, entries) = release_pending (Some (hv_key v)) (owed s);
          s1 = s\<lparr>owed := entries\<rparr>
      in if drained
         then s1\<lparr>hats_answers := hats_answers s @ [\<lparr>ha_map = hv_map v, ha_inline = False, ha_step = AskBinding\<rparr>]\<rparr>
         else s1)"

text \<open>
  The steps of the tasks.  A task whose validation panics or fails goes straight to its end.
\<close>

inductive task_step :: "wf_env \<Rightarrow> uuid \<Rightarrow> 'z hat_session_scheme \<Rightarrow> 'z hat_session_scheme \<Rightarrow> bool" for env user where
  run: "validations s = xs @ v # ys \<Longrightarrow> run_validation env now verifier user v s = (phase, s1) \<Longrightarrow>
    phase \<noteq> hv_phase v \<Longrightarrow>
    task_step env user s (s1\<lparr>validations := xs @ v\<lparr>hv_phase := phase\<rparr> # ys\<rparr>)"
| panics: "validations s = xs @ v # ys \<Longrightarrow> holds_permit v \<Longrightarrow>
    task_step env user s (s\<lparr>validations := xs @ v\<lparr>hv_phase := Settled\<rparr> # ys\<rparr>)"
| finish: "validations s = xs @ v # ys \<Longrightarrow> hv_phase v = Settled \<Longrightarrow>
    task_step env user s ((finish_validation v s)\<lparr>validations := xs @ ys\<rparr>)"
| answer: "hats_answers s = xs @ a # ys \<Longrightarrow> answer_turn env user a s = (rest, s1) \<Longrightarrow>
    task_step env user s (s1\<lparr>hats_answers := xs @ rest @ ys\<rparr>)"

fun is_hats_mine :: "response \<Rightarrow> bool" where
  "is_hats_mine (RHatsMine _ _ _) = True"
| "is_hats_mine _ = False"

text \<open>
  The steps of the connection: the two requests, of an unlock whose binding an earlier query has
  resolved to \<open>i\<close> and of the hats with the map tracked at the time; the tasks; and whatever leaves
  this state alone: other requests and other connections, with any effect on the database.
\<close>

inductive session_step :: "wf_env \<Rightarrow> uuid \<Rightarrow> 'z hat_session_scheme \<Rightarrow> 'z hat_session_scheme \<Rightarrow> bool" for env user where
  report: "\<not> busy s \<Longrightarrow> session_step env user s (reserve_unlock m slug i s)"
| ask: "\<not> busy s \<Longrightarrow> session_step env user s (ask_hats_mine current m s)"
| task: "task_step env user s s1 \<Longrightarrow> session_step env user s s1"
| others: "owed s1 = owed s \<Longrightarrow> validations s1 = validations s \<Longrightarrow> hats_answers s1 = hats_answers s \<Longrightarrow>
    client_queue s1 = client_queue s @ q \<Longrightarrow> \<not> list_ex is_hats_mine q \<Longrightarrow> session_step env user s s1"

text \<open>A run, as the states it goes through.\<close>

definition session_run :: "wf_env \<Rightarrow> uuid \<Rightarrow> 'z hat_session_scheme list \<Rightarrow> bool" where
  "session_run env user tr \<longleftrightarrow> successively (session_step env user) tr"

text \<open>What the step from one state to the next put on the client's queue.\<close>

definition newly_sent :: "'z hat_session_scheme \<Rightarrow> 'z hat_session_scheme \<Rightarrow> response set" where
  "newly_sent s s' = set (drop (length (client_queue s)) (client_queue s'))"

section \<open>Invariant\<close>

text \<open>The entries owed are those of the tasks, each once, and at most two tasks hold a permit.\<close>

definition session_inv :: "'z hat_session_scheme \<Rightarrow> bool" where
  "session_inv s \<longleftrightarrow>
     distinct (map hv_key (validations s)) \<and> distinct (owed s) \<and>
     set (owed s) = hv_key ` set (validations s) \<and>
     length (owed s) \<le> MAX_PENDING_HAT_UNLOCKS \<and>
     length (filter holds_permit (validations s)) \<le> MAX_CONCURRENT_HAT_VALIDATIONS"

lemma any_for_map_iff: "any_for_map entries m \<longleftrightarrow> m \<in> fst ` set entries"
  by (force simp: any_for_map_def list_ex_iff)

lemma hv_key_phase [simp]: "hv_key (v\<lparr>hv_phase := p\<rparr>) = hv_key v"
  by (simp add: hv_key_def)

lemma session_inv_cong: "owed s1 = owed s \<Longrightarrow> validations s1 = validations s \<Longrightarrow> session_inv s1 = session_inv s"
  by (simp add: session_inv_def)

lemma reserve_inv: "session_inv s \<Longrightarrow> session_inv (reserve_unlock m slug i s)"
  unfolding reserve_unlock_def begin_pending_def
  by (auto simp: session_inv_def hv_key_def holds_permit_def split: option.split)

lemma run_validation_frame:
  assumes "run_validation env now verifier user v s = (phase, s1)"
  shows "owed s1 = owed s \<and> validations s1 = validations s \<and> hats_answers s1 = hats_answers s \<and>
    client_queue s1 = client_queue s"
proof -
  let ?I = "\<lambda>x. owed x = owed s \<and> validations x = validations s \<and> hats_answers x = hats_answers s \<and>
    client_queue x = client_queue s"
  have "keeps ?I (hat_unlock_commit env now user (hv_map v) (hv_slug v) (hv_spec v) row)" for row
    unfolding hat_unlock_commit_def
    by (rule keeps_in_tx)
       (auto simp: keeps_def and_then_def insert_unlock_def split: option.split prod.split sum.split)
  then show ?thesis
    using assms by (auto simp: run_validation_def keeps_def
        split: validation_phase.splits unlock_phase.splits if_splits)
qed

lemma permits_run:
  assumes "run_validation env now verifier user v s = (phase, s1)" "phase \<noteq> hv_phase v"
    "validations s = xs @ v # ys" "length (filter holds_permit (validations s)) \<le> MAX_CONCURRENT_HAT_VALIDATIONS"
  shows "length (filter holds_permit (xs @ v\<lparr>hv_phase := phase\<rparr> # ys)) \<le> MAX_CONCURRENT_HAT_VALIDATIONS"
  using assms
  by (auto simp: run_validation_def holds_permit_def permit_free_def
      split: validation_phase.splits unlock_phase.splits if_splits)

lemma finish_frame:
  "owed (finish_validation v s) = removeAll (hv_key v) (owed s)"
  "client_queue (finish_validation v s) = client_queue s"
  "hats_answers (finish_validation v s) =
     (if any_for_map (removeAll (hv_key v) (owed s)) (hv_map v) then hats_answers s
      else hats_answers s @ [\<lparr>ha_map = hv_map v, ha_inline = False, ha_step = AskBinding\<rparr>])"
  by (simp_all add: finish_validation_def release_pending_def remove_pending_def Let_def hv_key_def)

lemma finish_inv:
  assumes inv: "session_inv s" and vs: "validations s = xs @ v # ys" and v: "hv_phase v = Settled"
  shows "session_inv ((finish_validation v s)\<lparr>validations := xs @ ys\<rparr>)"
proof -
  have bound: "length (removeAll (hv_key v) (owed s)) \<le> MAX_PENDING_HAT_UNLOCKS"
    by (rule le_trans [OF length_removeAll_less_eq]) (use inv in \<open>simp add: session_inv_def\<close>)
  have permits: "length (filter holds_permit (xs @ ys)) \<le> MAX_CONCURRENT_HAT_VALIDATIONS"
    using inv vs v by (simp add: session_inv_def holds_permit_def)
  have keys: "distinct (map hv_key (xs @ v # ys))" and dist: "distinct (owed s)"
    and those: "set (owed s) = hv_key ` set (xs @ v # ys)"
    using inv vs by (simp_all add: session_inv_def)
  have "distinct (map hv_key (xs @ ys))" using keys by simp
  moreover have "distinct (removeAll (hv_key v) (owed s))" using dist by (rule distinct_removeAll)
  moreover have "set (removeAll (hv_key v) (owed s)) = hv_key ` set (xs @ ys)"
    unfolding set_removeAll those using keys by auto
  ultimately show ?thesis
    unfolding session_inv_def using bound permits by (simp add: finish_frame)
qed

lemma answer_turn_frame:
  assumes "answer_turn env user a s = (rest, s1)"
  shows "owed s1 = owed s \<and> validations s1 = validations s \<and> hats_answers s1 = hats_answers s"
  using assms by (auto simp: answer_turn_def send_client_def split: answer_step.splits)

lemma task_step_inv: "task_step env user s s' \<Longrightarrow> session_inv s \<Longrightarrow> session_inv s'"
proof (induction rule: task_step.induct)
  case (run s xs v ys now verifier phase s1)
  note frame = run_validation_frame [OF run(2)]
  show ?case
    using run(1,4) permits_run [OF run(2,3,1)] frame by (auto simp: session_inv_def)
next
  case (panics s xs v ys)
  then show ?case by (auto simp: session_inv_def holds_permit_def)
next
  case (finish s xs v ys)
  then show ?case by (intro finish_inv)
next
  case (answer s xs a ys rest s1)
  then show ?case using answer_turn_frame [OF answer(2)] session_inv_cong [of "s1\<lparr>hats_answers := xs @ rest @ ys\<rparr>" s]
    by simp
qed

lemma session_step_inv: "session_step env user s s' \<Longrightarrow> session_inv s \<Longrightarrow> session_inv s'"
proof (induction rule: session_step.induct)
  case (report s m slug i)
  then show ?case by (intro reserve_inv)
next
  case (ask s current m)
  then show ?case by (simp add: ask_hats_mine_def session_inv_def)
next
  case (task s s1)
  then show ?case by (auto intro: task_step_inv)
next
  case (others s1 s q)
  then show ?case using session_inv_cong [of s1 s] by simp
qed

lemma session_run_step: "session_run env user tr \<Longrightarrow> Suc k < length tr \<Longrightarrow> session_step env user (tr ! k) (tr ! Suc k)"
  by (simp add: session_run_def successively_conv_nth)

lemma session_run_inv: "session_run env user tr \<Longrightarrow> session_inv (tr ! 0) \<Longrightarrow> k < length tr \<Longrightarrow> session_inv (tr ! k)"
  by (induction k) (auto intro: session_step_inv session_run_step)

section \<open>What is sent and where it comes from\<close>

lemma get_hats_mine_parts:
  "get_hats_mine env m user d = (if verified_binding_spec_id env m d = None then None
     else Some (mine_worn env user m d, mine_items env user m d))"
  by (simp add: get_hats_mine_def mine_worn_def mine_items_def)

text \<open>Undisturbed, the turns of an answer are what the handler does in one go.\<close>

fun answer_through :: "wf_env \<Rightarrow> uuid \<Rightarrow> nat \<Rightarrow> hats_answer list \<Rightarrow> 'z hat_session_scheme \<Rightarrow> 'z hat_session_scheme" where
  "answer_through env user n [] s = s"
| "answer_through env user 0 (a # as) s = s"
| "answer_through env user (Suc n) (a # as) s = (case answer_turn env user a s of (rest, s1) \<Rightarrow> answer_through env user n rest s1)"

lemma push_hats_mine_turns:
  "snd (push_hats_mine env m user s) =
     answer_through env user 4 [\<lparr>ha_map = m, ha_inline = True, ha_step = AskBinding\<rparr>] s"
  by (simp add: push_hats_mine_def and_then_def get_hats_mine_parts answer_turn_def numeral_eq_Suc)

text \<open>A list goes to the client only from an answer that has read all of it.\<close>

lemma task_step_sends:
  assumes "task_step env user s s'" "RHatsMine m e its \<in> newly_sent s s'"
  shows "\<exists>a\<in>set (hats_answers s). ha_map a = m \<and> ha_step a = ToSend e its"
  using assms
proof (cases rule: task_step.cases)
  case (run xs v ys now verifier phase s1)
  then show ?thesis using assms(2) run_validation_frame [OF run(3)] by (simp add: newly_sent_def)
next
  case (panics xs v ys)
  then show ?thesis using assms(2) by (simp add: newly_sent_def)
next
  case (finish xs v ys)
  then show ?thesis using assms(2) by (simp add: newly_sent_def finish_frame)
next
  case (answer xs a ys rest s1)
  then show ?thesis using assms(2)
    by (auto simp: newly_sent_def answer_turn_def send_client_def split: answer_step.splits if_splits)
qed

lemma session_step_sends:
  assumes "session_step env user s s'" "RHatsMine m e its \<in> newly_sent s s'"
  shows "\<exists>a\<in>set (hats_answers s). ha_map a = m \<and> ha_step a = ToSend e its"
  using assms
proof (cases rule: session_step.cases)
  case (report m' slug i)
  then show ?thesis using assms(2) by (auto simp: newly_sent_def reserve_unlock_def split: option.splits)
next
  case (ask current m')
  then show ?thesis using assms(2) by (auto simp: newly_sent_def ask_hats_mine_def split: if_splits)
next
  case task
  then show ?thesis using task_step_sends assms(2) by blast
next
  case (others q)
  then show ?thesis using assms(2) by (fastforce simp: newly_sent_def list_ex_iff)
qed

text \<open>
  An answer is one of before, or begun when nothing was owed for the map, or the next turn of one.
\<close>

lemma session_step_answers:
  assumes "session_step env user s s'" "a \<in> set (hats_answers s')"
  shows "a \<in> set (hats_answers s) \<or>
    (ha_step a = AskBinding \<and> \<not> any_for_map (owed s') (ha_map a)) \<or>
    (\<exists>b\<in>set (hats_answers s). a \<in> set (fst (answer_turn env user b s)))"
  using assms
proof (cases rule: session_step.cases)
  case (report m' slug i)
  then show ?thesis using assms(2) by (auto simp: reserve_unlock_def split: option.splits)
next
  case (ask current m')
  then show ?thesis using assms(2) by (auto simp: ask_hats_mine_def split: if_splits)
next
  case (others q)
  then show ?thesis using assms(2) by simp
next
  case task
  then show ?thesis
  proof (cases rule: task_step.cases)
    case (run xs v ys now verifier phase s1)
    then show ?thesis using assms(2) run_validation_frame [OF run(3)] by simp
  next
    case (panics xs v ys)
    then show ?thesis using assms(2) by simp
  next
    case (finish xs v ys)
    then show ?thesis using assms(2) by (auto simp: finish_frame split: if_splits)
  next
    case (answer xs b ys rest s1)
    then show ?thesis using assms(2) answer_turn_frame [OF answer(3)] by auto
  qed
qed

text \<open>
  Where an answer in state \<open>j\<close> of a run comes from, if there was none in state \<open>i\<close>: a state \<open>d\<close> in
  which nothing was owed for its map, and the states in which its queries ran, in this order.
\<close>

fun reads_since ::
    "wf_env \<Rightarrow> uuid \<Rightarrow> string \<Rightarrow> 'z hat_session_scheme list \<Rightarrow> nat \<Rightarrow> nat \<Rightarrow> answer_step \<Rightarrow> bool" where
  "reads_since env user m tr d j AskBinding \<longleftrightarrow> d \<le> j"
| "reads_since env user m tr d j AskWorn \<longleftrightarrow> (\<exists>b<j. d \<le> b \<and> verified_binding_spec_id env m (tr ! b) \<noteq> None)"
| "reads_since env user m tr d j (AskItems e) \<longleftrightarrow> (\<exists>w<j. e = mine_worn env user m (tr ! w) \<and>
     (\<exists>b\<le>w. d \<le> b \<and> verified_binding_spec_id env m (tr ! b) \<noteq> None))"
| "reads_since env user m tr d j (ToSend e its) \<longleftrightarrow> (\<exists>t<j. its = mine_items env user m (tr ! t) \<and>
     (\<exists>w\<le>t. e = mine_worn env user m (tr ! w) \<and>
     (\<exists>b\<le>w. d \<le> b \<and> verified_binding_spec_id env m (tr ! b) \<noteq> None)))"

definition answer_origin :: "wf_env \<Rightarrow> uuid \<Rightarrow> 'z hat_session_scheme list \<Rightarrow> nat \<Rightarrow> nat \<Rightarrow> hats_answer \<Rightarrow> bool" where
  "answer_origin env user tr i j a \<longleftrightarrow>
     (\<exists>d. i < d \<and> d \<le> j \<and> \<not> any_for_map (owed (tr ! d)) (ha_map a) \<and>
       reads_since env user (ha_map a) tr d j (ha_step a))"

lemma reads_since_later: "reads_since env user m tr d j p \<Longrightarrow> reads_since env user m tr d (Suc j) p"
  by (cases p) (auto intro: less_SucI)

lemma answer_origin_later: "answer_origin env user tr i j a \<Longrightarrow> answer_origin env user tr i (Suc j) a"
  unfolding answer_origin_def using reads_since_later le_SucI by blast

lemma answer_turn_map: "a \<in> set (fst (answer_turn env user b s)) \<Longrightarrow> ha_map a = ha_map b"
  by (auto simp: answer_turn_def split: answer_step.splits if_splits)

lemma reads_since_turn:
  assumes "reads_since env user (ha_map b) tr d j (ha_step b)" "a \<in> set (fst (answer_turn env user b (tr ! j)))"
  shows "reads_since env user (ha_map b) tr d (Suc j) (ha_step a)"
proof (cases "ha_step b")
  case AskBinding
  then show ?thesis using assms by (auto simp: answer_turn_def split: if_splits)
next
  case AskWorn
  then obtain b0 where "b0 < j" "d \<le> b0" "verified_binding_spec_id env (ha_map b) (tr ! b0) \<noteq> None"
    using assms(1) by auto
  moreover have "ha_step a = AskItems (mine_worn env user (ha_map b) (tr ! j))"
    using assms(2) AskWorn by (simp add: answer_turn_def)
  ultimately show ?thesis using less_imp_le by fastforce
next
  case (AskItems e)
  then obtain w where "w < j" "e = mine_worn env user (ha_map b) (tr ! w)"
    "\<exists>b0\<le>w. d \<le> b0 \<and> verified_binding_spec_id env (ha_map b) (tr ! b0) \<noteq> None"
    using assms(1) by auto
  moreover have "ha_step a = ToSend e (mine_items env user (ha_map b) (tr ! j))"
    using assms(2) AskItems by (simp add: answer_turn_def)
  moreover have "w \<le> j" "j < Suc j" using \<open>w < j\<close> by simp_all
  ultimately show ?thesis by (simp only: reads_since.simps) blast
next
  case (ToSend e its)
  then show ?thesis using assms(2) by (simp add: answer_turn_def)
qed

lemma run_answers_origin:
  assumes run: "session_run env user tr" and none: "\<forall>a\<in>set (hats_answers (tr ! i)). ha_map a \<noteq> m"
    and a: "a \<in> set (hats_answers (tr ! j))" "ha_map a = m" and j: "i \<le> j" "j < length tr"
  shows "answer_origin env user tr i j a"
  using j(1) j(2) a
proof (induction j arbitrary: a rule: dec_induct)
  case base
  then show ?case using none by simp
next
  case (step j)
  have step1: "session_step env user (tr ! j) (tr ! Suc j)" using session_run_step [OF run step.prems(1)] .
  have j: "j < length tr" using step.prems(1) by simp
  from session_step_answers [OF step1 step.prems(2)] show ?case
  proof (elim disjE conjE bexE)
    assume "a \<in> set (hats_answers (tr ! j))"
    then show ?thesis using step.IH [OF j _ step.prems(3)] answer_origin_later by blast
  next
    assume "ha_step a = AskBinding" "\<not> any_for_map (owed (tr ! Suc j)) (ha_map a)"
    then show ?thesis unfolding answer_origin_def using step.hyps(1) by (intro exI [of _ "Suc j"]) simp
  next
    fix b assume b: "b \<in> set (hats_answers (tr ! j))" "a \<in> set (fst (answer_turn env user b (tr ! j)))"
    have map: "ha_map a = ha_map b" by (rule answer_turn_map [OF b(2)])
    have "answer_origin env user tr i j b" using step.IH [OF j b(1)] map step.prems(3) by simp
    then obtain d where "i < d" "d \<le> j" "\<not> any_for_map (owed (tr ! d)) (ha_map b)"
      "reads_since env user (ha_map b) tr d j (ha_step b)"
      unfolding answer_origin_def by blast
    then show ?thesis unfolding answer_origin_def map using reads_since_turn [OF _ b(2)] le_SucI by blast
  qed
qed

text \<open>
  C6. The list of hats that follows a reported unlock shows what was decided: once an unlock is
  pending and no older list for the map is on its way, a list goes to the client only after a
  moment at which nothing was pending for the map, and its binding, its worn hat and its items were
  read from the database after that moment, in this order.  In particular nothing is sent for the map
  while the unlock is pending.
\<close>

theorem hats_mine_waits:
  assumes run: "session_run env user tr" and k: "i \<le> k" "Suc k < length tr"
    and pending: "any_for_map (owed (tr ! i)) m" and none: "\<forall>a\<in>set (hats_answers (tr ! i)). ha_map a \<noteq> m"
    and sent: "RHatsMine m e its \<in> newly_sent (tr ! k) (tr ! Suc k)"
  shows "\<exists>d b w t. i < d \<and> d \<le> b \<and> b \<le> w \<and> w \<le> t \<and> t < k \<and> \<not> any_for_map (owed (tr ! d)) m \<and>
    verified_binding_spec_id env m (tr ! b) \<noteq> None \<and>
    e = mine_worn env user m (tr ! w) \<and> its = mine_items env user m (tr ! t)"
proof -
  obtain a where a: "a \<in> set (hats_answers (tr ! k))" "ha_map a = m" "ha_step a = ToSend e its"
    using session_step_sends [OF session_run_step [OF run k(2)] sent] by blast
  have "answer_origin env user tr i k a" using run_answers_origin [OF run none a(1,2)] k by simp
  then show ?thesis unfolding answer_origin_def a(2,3) reads_since.simps by blast
qed

section \<open>Every withheld answer comes\<close>

definition phase_work :: "validation_phase \<Rightarrow> nat" where
  "phase_work p = (case p of Queued \<Rightarrow> 8 | Running \<Rightarrow> 7 | Checked _ \<Rightarrow> 6 | Settled \<Rightarrow> 5)"

definition answer_work :: "answer_step \<Rightarrow> nat" where
  "answer_work p = (case p of AskBinding \<Rightarrow> 4 | AskWorn \<Rightarrow> 3 | AskItems _ \<Rightarrow> 2 | ToSend _ _ \<Rightarrow> 1)"

definition work :: "'z hat_session_scheme \<Rightarrow> nat" where
  "work s = sum_list (map (\<lambda>v. phase_work (hv_phase v)) (validations s)) +
     sum_list (map (\<lambda>a. answer_work (ha_step a)) (hats_answers s))"

definition all_done :: "'z hat_session_scheme \<Rightarrow> bool" where
  "all_done s \<longleftrightarrow> validations s = [] \<and> hats_answers s = []"

lemma task_step_work: "task_step env user s s' \<Longrightarrow> work s' < work s"
proof (induction rule: task_step.induct)
  case (run s xs v ys now verifier phase s1)
  then have "phase_work phase < phase_work (hv_phase v)"
    by (auto simp: run_validation_def phase_work_def split: validation_phase.splits unlock_phase.splits if_splits)
  then show ?case using run(1) run_validation_frame [OF run(2)] by (simp add: work_def)
next
  case (panics s xs v ys)
  then show ?case by (auto simp: work_def holds_permit_def phase_work_def split: validation_phase.splits)
next
  case (finish s xs v ys)
  then show ?case by (simp add: work_def phase_work_def answer_work_def finish_frame)
next
  case (answer s xs a ys rest s1)
  then have "sum_list (map (\<lambda>a. answer_work (ha_step a)) rest) < answer_work (ha_step a)"
    by (auto simp: answer_turn_def answer_work_def split: answer_step.splits if_splits)
  then show ?case using answer(1) answer_turn_frame [OF answer(2)] by (simp add: work_def)
qed

lemma task_step_exists:
  assumes "\<not> all_done s"
  shows "\<exists>s'. task_step env user s s'"
proof (cases "hats_answers s")
  case (Cons a as)
  obtain rest s1 where turn: "answer_turn env user a s = (rest, s1)" by fastforce
  show ?thesis using task_step.answer [of s "[]" a as, OF _ turn] Cons by fastforce
next
  case Nil
  then have vs0: "validations s \<noteq> []" using assms by (simp add: all_done_def)
  show ?thesis
  proof (cases "\<exists>v\<in>set (validations s). hv_phase v \<noteq> Queued")
    case True
    then obtain xs v ys where vs: "validations s = xs @ v # ys" and v: "hv_phase v \<noteq> Queued"
      by (meson split_list)
    then show ?thesis
    proof (cases "hv_phase v = Settled")
      case True
      then show ?thesis using task_step.finish [OF vs] by blast
    next
      case False
      obtain p s1 where run: "run_validation env 0 undefined user v s = (p, s1)" by fastforce
      then have "p \<noteq> hv_phase v" using v False
        by (auto simp: run_validation_def split: validation_phase.splits unlock_phase.splits)
      then show ?thesis using task_step.run [OF vs run] by blast
    qed
  next
    case False
    then obtain v ys where vs: "validations s = [] @ v # ys" and v: "hv_phase v = Queued"
      using vs0 by (cases "validations s") auto
    have "filter holds_permit (validations s) = []"
      using False by (auto simp: filter_empty_conv holds_permit_def)
    then have "permit_free (validations s)" by (simp add: permit_free_def MAX_CONCURRENT_HAT_VALIDATIONS_def)
    then have run: "run_validation env now verifier user v s = (Running, s)" for now verifier
      using v by (simp add: run_validation_def)
    show ?thesis using task_step.run [OF vs run] v by fastforce
  qed
qed

lemma tasks_drain: "\<exists>n s'. n \<le> work s \<and> (task_step env user ^^ n) s s' \<and> all_done s'"
proof (induction "work s" arbitrary: s rule: less_induct)
  case less
  show ?case
  proof (cases "all_done s")
    case True
    then show ?thesis by (intro exI [of _ 0]) auto
  next
    case False
    then obtain s1 where s1: "task_step env user s s1" using task_step_exists by blast
    from less [OF task_step_work [OF s1]] obtain n s' where n: "n \<le> work s1" "(task_step env user ^^ n) s1 s'" "all_done s'"
      by blast
    have "(task_step env user ^^ Suc n) s s'" using relpowp_Suc_I2 [OF s1 n(2)] .
    moreover have "Suc n \<le> work s" using n(1) task_step_work [OF s1] by simp
    ultimately show ?thesis using n(3) by blast
  qed
qed

text \<open>When the last entry of a map goes, an answer for the map is on its way.\<close>

lemma drained_answers:
  assumes "session_step env user s s'" "any_for_map (owed s) m" "\<not> any_for_map (owed s') m"
  shows "\<exists>a\<in>set (hats_answers s'). ha_map a = m"
  using assms(1)
proof (cases rule: session_step.cases)
  case (report m' slug i)
  then show ?thesis using assms(2,3)
    by (auto simp: reserve_unlock_def begin_pending_def any_for_map_def split: option.splits if_splits)
next
  case (ask current m')
  then show ?thesis using assms(2,3) by (auto simp: ask_hats_mine_def split: if_splits)
next
  case (others q)
  then show ?thesis using assms(2,3) by simp
next
  case task
  then show ?thesis
  proof (cases rule: task_step.cases)
    case (run xs v ys now verifier phase s1)
    then show ?thesis using assms(2,3) run_validation_frame [OF run(3)] by simp
  next
    case (panics xs v ys)
    then show ?thesis using assms(2,3) by simp
  next
    case (answer xs a ys rest s1)
    then show ?thesis using assms(2,3) answer_turn_frame [OF answer(3)] by simp
  next
    case (finish xs v ys)
    have "hv_map v = m"
      using assms(2,3) finish by (force simp: finish_frame any_for_map_iff hv_key_def)
    then show ?thesis using assms(3) finish by (simp add: finish_frame)
  qed
qed

text \<open>An answer for a map stays on its way until it is sent.\<close>

lemma answer_goes_on:
  assumes "session_step env user s s'" "a \<in> set (hats_answers s)" "ha_map a = m"
    and ok: "client_open s" "verified_binding_spec_id env m s \<noteq> None"
  shows "(\<exists>b\<in>set (hats_answers s'). ha_map b = m) \<or> (\<exists>e its. RHatsMine m e its \<in> newly_sent s s')"
  using assms(1)
proof (cases rule: session_step.cases)
  case (report m' slug i)
  then show ?thesis using assms(2,3) by (auto simp: reserve_unlock_def split: option.splits)
next
  case (ask current m')
  then show ?thesis using assms(2,3) by (auto simp: ask_hats_mine_def)
next
  case (others q)
  then show ?thesis using assms(2,3) by auto
next
  case task
  then show ?thesis
  proof (cases rule: task_step.cases)
    case (run xs v ys now verifier phase s1)
    then show ?thesis using assms(2,3) run_validation_frame [OF run(3)] by auto
  next
    case (panics xs v ys)
    then show ?thesis using assms(2,3) by auto
  next
    case (finish xs v ys)
    then show ?thesis using assms(2,3) by (auto simp: finish_frame)
  next
    case (answer xs b ys rest s1)
    show ?thesis
    proof (cases "a = b")
      case False
      then show ?thesis using assms(2,3) answer by auto
    next
      case True
      then show ?thesis using answer assms(3) ok
        by (cases "ha_step b") (auto simp: answer_turn_def newly_sent_def send_client_def)
    qed
  qed
qed

lemma answer_is_sent:
  assumes run: "session_run env user tr" and j: "j < length tr"
    and a: "\<exists>a\<in>set (hats_answers (tr ! j)). ha_map a = m"
    and ok: "\<forall>k<length tr. j \<le> k \<longrightarrow> client_open (tr ! k) \<and> verified_binding_spec_id env m (tr ! k) \<noteq> None"
    and fin: "\<forall>a\<in>set (hats_answers (last tr)). ha_map a \<noteq> m"
  shows "\<exists>k\<ge>j. Suc k < length tr \<and> (\<exists>e its. RHatsMine m e its \<in> newly_sent (tr ! k) (tr ! Suc k))"
  using j a ok
proof (induction "length tr - j" arbitrary: j rule: less_induct)
  case less
  have "j \<noteq> length tr - 1"
    using less.prems(2) fin less.prems(1) by (auto simp: last_conv_nth simp flip: length_greater_0_conv)
  then have later: "Suc j < length tr" using less.prems(1) by simp
  obtain a where "a \<in> set (hats_answers (tr ! j))" "ha_map a = m" using less.prems(2) by blast
  from answer_goes_on [OF session_run_step [OF run later] this] less.prems(1,3) consider
    (on) "\<exists>b\<in>set (hats_answers (tr ! Suc j)). ha_map b = m" |
    (sent) "\<exists>e its. RHatsMine m e its \<in> newly_sent (tr ! j) (tr ! Suc j)"
    by blast
  then show ?case
  proof cases
    case on
    have "\<exists>k\<ge>Suc j. Suc k < length tr \<and> (\<exists>e its. RHatsMine m e its \<in> newly_sent (tr ! k) (tr ! Suc k))"
      using less.prems(3) later by (intro less.hyps [OF _ later on]) auto
    then show ?thesis using Suc_leD by blast
  next
    case sent
    then show ?thesis using later by blast
  qed
qed

lemma first_index: "P (n::nat) \<Longrightarrow> \<exists>l. P l \<and> (\<forall>j. P j \<longrightarrow> l \<le> j)"
  by (rule exI [of _ "LEAST l. P l"]) (simp add: LeastI Least_le)

text \<open>
  C7. No 213 is forgotten: where a 213 is withheld, the list of the map has been put on the client's
  queue by the time nothing is pending for the map and no answer to it is on its way, if meanwhile
  the client stays connected and the binding verified.  And it comes to that: every step of the
  tasks lessens their work, one is possible as long as any is left, and left to themselves they are
  done within that many steps.
\<close>

theorem withheld_answers_come:
  fixes tr :: "'z hat_session_scheme list"
  assumes run: "session_run env user tr" and i: "i < length tr" and pending: "any_for_map (owed (tr ! i)) m"
    and ok: "\<forall>k<length tr. i \<le> k \<longrightarrow> client_open (tr ! k) \<and> verified_binding_spec_id env m (tr ! k) \<noteq> None"
    and fin: "\<not> any_for_map (owed (last tr)) m" "\<forall>a\<in>set (hats_answers (last tr)). ha_map a \<noteq> m"
  shows "ask_hats_mine current m (tr ! i) = tr ! i \<and>
    (\<exists>k\<ge>i. Suc k < length tr \<and> (\<exists>e its. RHatsMine m e its \<in> newly_sent (tr ! k) (tr ! Suc k))) \<and>
    (\<forall>s s'. task_step env user s s' \<longrightarrow> work s' < work s) \<and>
    (\<forall>s :: 'z hat_session_scheme. \<not> all_done s \<longrightarrow> (\<exists>s'. task_step env user s s')) \<and>
    (\<exists>n s'. n \<le> work (tr ! i) \<and> (task_step env user ^^ n) (tr ! i) s' \<and> all_done s')"
proof -
  let ?sent = "\<lambda>k. \<exists>e its. RHatsMine m e its \<in> newly_sent (tr ! k) (tr ! Suc k)"
  let ?drained = "\<lambda>j. i \<le> j \<and> j < length tr \<and> \<not> any_for_map (owed (tr ! j)) m"
  have "?drained (length tr - 1)" using i fin(1) by (auto simp: last_conv_nth simp flip: length_greater_0_conv)
  then obtain l where first: "?drained l" and least: "\<And>j. ?drained j \<Longrightarrow> l \<le> j"
    using first_index [of ?drained] by blast
  have "i \<noteq> l" using first pending by auto
  then have "i < l" using first by simp
  then obtain j where j: "l = Suc j" "i \<le> j" by (cases l) auto
  have still: "any_for_map (owed (tr ! j)) m"
  proof (rule ccontr)
    assume "\<not> any_for_map (owed (tr ! j)) m"
    then have "?drained j" using first j by simp
    then show False using least [of j] j(1) by simp
  qed
  have "\<exists>a\<in>set (hats_answers (tr ! Suc j)). ha_map a = m"
    using drained_answers [OF session_run_step [OF run] still] first j by simp
  moreover have "Suc j < length tr" using first j by simp
  ultimately have "\<exists>k\<ge>Suc j. Suc k < length tr \<and> ?sent k"
    using ok j(2) by (intro answer_is_sent [OF run _ _ _ fin(2)]) auto
  then have "\<exists>k\<ge>i. Suc k < length tr \<and> ?sent k" using j(2) by (meson Suc_leD le_trans)
  moreover have "ask_hats_mine current m (tr ! i) = tr ! i" using pending by (simp add: ask_hats_mine_def)
  ultimately show ?thesis using task_step_work task_step_exists tasks_drain by blast
qed

section \<open>Concrete runs\<close>

datatype sample_move = Reserve string | RunFirst | FinishFirst | AnswerFirst

fun may_move :: "sample_move \<Rightarrow> hat_session \<Rightarrow> bool" where
  "may_move (Reserve slug) s \<longleftrightarrow> \<not> busy s"
| "may_move RunFirst s \<longleftrightarrow> (case validations s of [] \<Rightarrow> False | v # vs \<Rightarrow>
     fst (run_validation sample_env 20 (sample_verifier sample_map) 7 v s) \<noteq> hv_phase v)"
| "may_move FinishFirst s \<longleftrightarrow> (case validations s of [] \<Rightarrow> False | v # vs \<Rightarrow> hv_phase v = Settled)"
| "may_move AnswerFirst s \<longleftrightarrow> hats_answers s \<noteq> []"

fun do_move :: "sample_move \<Rightarrow> hat_session \<Rightarrow> hat_session" where
  "do_move (Reserve slug) s = reserve_unlock sample_map slug 1 s"
| "do_move RunFirst s = (case validations s of [] \<Rightarrow> s | v # vs \<Rightarrow>
     (case run_validation sample_env 20 (sample_verifier sample_map) 7 v s of
        (p, s1) \<Rightarrow> s1\<lparr>validations := v\<lparr>hv_phase := p\<rparr> # vs\<rparr>))"
| "do_move FinishFirst s = (case validations s of [] \<Rightarrow> s | v # vs \<Rightarrow> (finish_validation v s)\<lparr>validations := vs\<rparr>)"
| "do_move AnswerFirst s = (case hats_answers s of [] \<Rightarrow> s | a # as \<Rightarrow>
     (case answer_turn sample_env 7 a s of (rest, s1) \<Rightarrow> s1\<lparr>hats_answers := rest @ as\<rparr>))"

lemma move_step:
  assumes "may_move mv s"
  shows "session_step sample_env 7 s (do_move mv s)"
proof (cases mv)
  case (Reserve slug)
  then show ?thesis using assms session_step.report [of s] by simp
next
  case RunFirst
  then obtain v vs p s1 where "validations s = [] @ v # vs" "p \<noteq> hv_phase v"
    "run_validation sample_env 20 (sample_verifier sample_map) 7 v s = (p, s1)"
    using assms by (auto split: list.splits) (metis fst_conv prod.exhaust)
  then show ?thesis using RunFirst session_step.task [OF task_step.run] by fastforce
next
  case FinishFirst
  then obtain v vs where "validations s = [] @ v # vs" "hv_phase v = Settled" using assms by (auto split: list.splits)
  then show ?thesis using FinishFirst session_step.task [OF task_step.finish] by fastforce
next
  case AnswerFirst
  then obtain a as rest s1 where "hats_answers s = [] @ a # as" "answer_turn sample_env 7 a s = (rest, s1)"
    using assms by (cases "hats_answers s") (auto, metis prod.exhaust)
  then show ?thesis using AnswerFirst session_step.task [OF task_step.answer] by fastforce
qed

fun states :: "sample_move list \<Rightarrow> hat_session \<Rightarrow> hat_session list" where
  "states [] s = [s]"
| "states (mv # mvs) s = s # states mvs (do_move mv s)"

fun moves_ok :: "sample_move list \<Rightarrow> hat_session \<Rightarrow> bool" where
  "moves_ok [] s \<longleftrightarrow> True"
| "moves_ok (mv # mvs) s \<longleftrightarrow> may_move mv s \<and> moves_ok mvs (do_move mv s)"

lemma states_run: "moves_ok mvs s \<Longrightarrow> session_run sample_env 7 (states mvs s)"
proof (induction mvs s rule: states.induct)
  case (2 mv mvs s)
  have "hd (states mvs (do_move mv s)) = do_move mv s" by (cases mvs) simp_all
  then show ?case using 2 move_step [of mv s]
    by (auto simp: session_run_def successively_Cons)
qed (simp add: session_run_def)

definition bound_session :: hat_session where
  "bound_session = wf_world.extend (lb_db.extend (with_tables bound_db) \<lparr>mgr_queue = [], tracked_map = Some sample_map,
     client_open = True, client_queue = [], comment_states = [], spawned = []\<rparr>)
     \<lparr>owed = [], validations = [], hats_answers = []\<rparr>"

text \<open>
  The player reports the unlock of the hat; the validation runs, its end finds the map drained, and
  the list it reads and sends has the hat unlocked.
\<close>

definition answered_run :: "hat_session list" where
  "answered_run = states [Reserve ''cap'', RunFirst, RunFirst, RunFirst, FinishFirst,
     AnswerFirst, AnswerFirst, AnswerFirst, AnswerFirst] bound_session"

definition unlocked_cap :: hat_mine_item where
  "unlocked_cap = \<lparr>hmi_slug = ''cap'', hmi_name = ''cap'', hmi_key = ''pac:h:MMMMMMMMMM'', hmi_unlocked_at = Some 0\<rparr>"

lemma bound_session_inv: "session_inv bound_session"
  by (simp add: session_inv_def bound_session_def wf_world.defs)

lemma answered_run: "session_run sample_env 7 answered_run"
  unfolding answered_run_def by (rule states_run) code_simp

lemma answered_run_states:
  "length answered_run = 10" "any_for_map (owed (answered_run ! 1)) sample_map" "hats_answers (answered_run ! 1) = []"
  "newly_sent (answered_run ! 8) (answered_run ! 9) = {RHatsMine sample_map [] [unlocked_cap]}"
  "owed (last answered_run) = []" "hats_answers (last answered_run) = []"
  "list_all (\<lambda>s. client_open s \<and> verified_binding_spec_id sample_env sample_map s \<noteq> None) answered_run"
  by code_simp+

theorem hats_mine_waits_witness:
  "\<exists>d b w t. 1 < d \<and> d \<le> b \<and> b \<le> w \<and> w \<le> t \<and> t < 8 \<and> \<not> any_for_map (owed (answered_run ! d)) sample_map \<and>
    verified_binding_spec_id sample_env sample_map (answered_run ! b) \<noteq> None \<and>
    [] = mine_worn sample_env 7 sample_map (answered_run ! w) \<and>
    [unlocked_cap] = mine_items sample_env 7 sample_map (answered_run ! t)"
  by (rule hats_mine_waits [OF answered_run]) (simp_all add: answered_run_states del: One_nat_def)

theorem withheld_answers_come_witness:
  "\<exists>k\<ge>1. Suc k < length answered_run \<and>
     (\<exists>e its. RHatsMine sample_map e its \<in> newly_sent (answered_run ! k) (answered_run ! Suc k))"
proof -
  have ok: "\<forall>k<length answered_run. 1 \<le> k \<longrightarrow> client_open (answered_run ! k) \<and>
      verified_binding_spec_id sample_env sample_map (answered_run ! k) \<noteq> None"
    using answered_run_states(7) by (simp add: list_all_length)
  have "1 < length answered_run" "\<not> any_for_map (owed (last answered_run)) sample_map"
    "\<forall>a\<in>set (hats_answers (last answered_run)). ha_map a \<noteq> sample_map"
    by (simp_all add: answered_run_states any_for_map_def)
  from withheld_answers_come [OF answered_run this(1) answered_run_states(2) ok this(2,3), of None]
  show ?thesis by blast
qed

text \<open>
  Between the release of the last entry and the sending of the list the connection takes requests: an
  unlock that is reported then is still pending when the list is sent, which shows its hat as locked.
\<close>

definition late_run :: "hat_session list" where
  "late_run = states [Reserve ''cap'', RunFirst, RunFirst, RunFirst, FinishFirst,
     AnswerFirst, AnswerFirst, AnswerFirst, Reserve ''bow'', AnswerFirst] bound_session"

lemma hats_mine_race:
  "session_run sample_env 7 late_run" "any_for_map (owed (late_run ! 9)) sample_map"
  "any_for_map (owed (late_run ! 10)) sample_map"
  "RHatsMine sample_map [] [unlocked_cap] \<in> newly_sent (late_run ! 9) (late_run ! 10)"
  unfolding late_run_def by (rule states_run, code_simp) code_simp+

end
