(* ===== verification/Map_Locks.thy ===== *)
theory Map_Locks
  imports Collections "HOL-Library.Multiset"
begin

text \<open>
  One lock per map for the operations that change who wears what: \<open>WayfinderMapOperationLocks\<close>
  in \<open>src/server2.rs\<close>.  The registry holds weak references, so a lock lives as long as some
  operation holds a handle to it.
\<close>

section \<open>The registry\<close>

text \<open>
  Locks are numbered as they are made.  An operation in flight is its map, the lock it was given
  and whether it has entered; it holds its handle until it ends.
\<close>

record map_operation =
  mo_map :: string
  mo_lock :: nat
  mo_inside :: bool

record lock_world =
  lw_locks :: "(string, nat) hash_map"
  lw_ops :: "map_operation list"
  lw_next :: nat

definition strong_count :: "nat \<Rightarrow> map_operation list \<Rightarrow> nat" where
  "strong_count lock ops = length (filter (\<lambda>p. mo_lock p = lock) ops)"

definition for_map :: "string \<Rightarrow> lock_world \<Rightarrow> nat \<times> lock_world" where
  "for_map map_uid w =
     (let live = hm_retain (\<lambda>_ lock. 0 < strong_count lock (lw_ops w)) (lw_locks w)
      in case map_of live map_uid of
           Some lock \<Rightarrow> (lock, w\<lparr>lw_locks := live\<rparr>)
         | None \<Rightarrow> (lw_next w, w\<lparr>lw_locks := AList.update map_uid (lw_next w) live, lw_next := lw_next w + 1\<rparr>))"

section \<open>Operations\<close>

definition start_operation :: "string \<Rightarrow> lock_world \<Rightarrow> lock_world" where
  "start_operation map_uid w =
     (let (lock, w1) = for_map map_uid w
      in w1\<lparr>lw_ops := \<lparr>mo_map = map_uid, mo_lock = lock, mo_inside = False\<rparr> # lw_ops w1\<rparr>)"

inductive lock_step :: "lock_world \<Rightarrow> lock_world \<Rightarrow> bool" where
  start: "lock_step w (start_operation m w)"
| enter: "lw_ops w = xs @ p # ys \<Longrightarrow> \<not> mo_inside p \<Longrightarrow>
    \<forall>q\<in>set (xs @ ys). mo_inside q \<longrightarrow> mo_lock q \<noteq> mo_lock p \<Longrightarrow>
    lock_step w (w\<lparr>lw_ops := xs @ p\<lparr>mo_inside := True\<rparr> # ys\<rparr>)"
| finish: "lw_ops w = xs @ p # ys \<Longrightarrow> lock_step w (w\<lparr>lw_ops := xs @ ys\<rparr>)"

inductive lock_reach :: "lock_world \<Rightarrow> bool" where
  here: "lock_reach \<lparr>lw_locks = [], lw_ops = [], lw_next = 0\<rparr>"
| step: "lock_reach w \<Longrightarrow> lock_step w w' \<Longrightarrow> lock_reach w'"

section \<open>Exclusion\<close>

text \<open>
  Every operation in flight has the lock that is registered for its map, so the operations of a
  map share one lock, and distinct maps never share one.
\<close>

definition lock_inv :: "lock_world \<Rightarrow> bool" where
  "lock_inv w \<longleftrightarrow> wf_map (lw_locks w) \<and>
     (\<forall>p\<in>set (lw_ops w). map_of (lw_locks w) (mo_map p) = Some (mo_lock p)) \<and>
     (\<forall>m k. map_of (lw_locks w) m = Some k \<longrightarrow> k < lw_next w) \<and>
     (\<forall>m m' k. map_of (lw_locks w) m = Some k \<longrightarrow> map_of (lw_locks w) m' = Some k \<longrightarrow> m = m') \<and>
     (\<forall>k. length (filter (\<lambda>p. mo_lock p = k \<and> mo_inside p) (lw_ops w)) \<le> 1)"

lemma lock_owner:
  "lock_inv w \<Longrightarrow> map_of (lw_locks w) m = Some k \<Longrightarrow> map_of (lw_locks w) m' = Some k \<Longrightarrow> m = m'"
  unfolding lock_inv_def by blast

lemma strong_count_pos: "0 < strong_count k ops \<longleftrightarrow> (\<exists>p\<in>set ops. mo_lock p = k)"
  by (auto simp: strong_count_def filter_empty_conv)

text \<open>What \<open>for_map\<close> gives: the lock every operation on the map holds, or a new one.\<close>

lemma for_map_live:
  assumes inv: "lock_inv w"
  defines "live \<equiv> hm_retain (\<lambda>_ k. 0 < strong_count k (lw_ops w)) (lw_locks w)"
  shows "wf_map live" and "\<And>p. p \<in> set (lw_ops w) \<Longrightarrow> map_of live (mo_map p) = Some (mo_lock p)"
    and "\<And>m k. map_of live m = Some k \<Longrightarrow> map_of (lw_locks w) m = Some k \<and> (\<exists>p\<in>set (lw_ops w). mo_lock p = k)"
proof -
  have wf: "wf_map (lw_locks w)" using inv by (simp add: lock_inv_def)
  show "wf_map live" using wf by (simp add: live_def)
  show "map_of live (mo_map p) = Some (mo_lock p)" if "p \<in> set (lw_ops w)" for p
  proof -
    have "map_of (lw_locks w) (mo_map p) = Some (mo_lock p)" using inv that by (simp add: lock_inv_def)
    moreover have "0 < strong_count (mo_lock p) (lw_ops w)" using that by (auto simp: strong_count_pos)
    ultimately show ?thesis by (simp add: live_def map_of_retain [OF wf])
  qed
  show "map_of (lw_locks w) m = Some k \<and> (\<exists>p\<in>set (lw_ops w). mo_lock p = k)" if "map_of live m = Some k" for m k
    using that by (auto simp: live_def map_of_retain [OF wf] strong_count_pos split: option.splits if_splits)
qed

lemma start_operation_inv:
  assumes inv: "lock_inv w"
  shows "lock_inv (start_operation m w)"
proof -
  define live where "live = hm_retain (\<lambda>_ k. 0 < strong_count k (lw_ops w)) (lw_locks w)"
  note live = for_map_live [OF inv, folded live_def]
  have below: "k < lw_next w" if "map_of live m' = Some k" for m' k
    using inv live(3) [OF that] by (auto simp: lock_inv_def)
  have inj: "x = y" if "map_of live x = Some k" "map_of live y = Some k" for x y k
    using lock_owner [OF inv] live(3) that by blast
  have one: "length (filter (\<lambda>p. mo_lock p = k \<and> mo_inside p) (lw_ops w)) \<le> 1" for k
    using inv by (simp add: lock_inv_def)
  show ?thesis
  proof (cases "map_of live m")
    case None
    let ?f = "(map_of live)(m \<mapsto> lw_next w)"
    let ?op = "\<lparr>mo_map = m, mo_lock = lw_next w, mo_inside = False\<rparr>"
    have start: "start_operation m w = w\<lparr>lw_locks := AList.update m (lw_next w) live,
        lw_next := lw_next w + 1, lw_ops := ?op # lw_ops w\<rparr>"
      using None by (simp add: start_operation_def for_map_def live_def Let_def)
    have "wf_map (AList.update m (lw_next w) live)" using live(1) by (rule wf_map_update)
    moreover have "\<forall>p\<in>set (?op # lw_ops w). ?f (mo_map p) = Some (mo_lock p)" using live(2) None by auto
    moreover have "\<forall>m' k. ?f m' = Some k \<longrightarrow> k < lw_next w + 1"
      by (metis below fun_upd_apply less_SucI Suc_eq_plus1 lessI option.inject)
    moreover have "\<forall>x y k. ?f x = Some k \<longrightarrow> ?f y = Some k \<longrightarrow> x = y"
      by (metis below inj fun_upd_apply less_irrefl option.inject)
    moreover have "\<forall>k. length (filter (\<lambda>p. mo_lock p = k \<and> mo_inside p) (?op # lw_ops w)) \<le> 1"
      using one by simp
    ultimately show ?thesis unfolding lock_inv_def start by (simp del: fun_upd_apply)
  next
    case (Some k)
    then have "start_operation m w = w\<lparr>lw_locks := live,
        lw_ops := \<lparr>mo_map = m, mo_lock = k, mo_inside = False\<rparr> # lw_ops w\<rparr>"
      by (simp add: start_operation_def for_map_def live_def Let_def)
    then show ?thesis using live one below inj Some by (auto simp: lock_inv_def)
  qed
qed

lemma lock_step_inv: "lock_step w w' \<Longrightarrow> lock_inv w \<Longrightarrow> lock_inv w'"
proof (induction rule: lock_step.induct)
  case (start w m)
  then show ?case by (rule start_operation_inv)
next
  case (enter w xs p ys)
  have none: "filter (\<lambda>q. mo_lock q = mo_lock p \<and> mo_inside q) (xs @ ys) = []"
    using enter(3) by (auto simp: filter_empty_conv)
  show ?case using enter(1,2,4) none by (auto simp: lock_inv_def)
next
  case (finish w xs p ys)
  have "length (filter Q (xs @ ys)) \<le> length (filter Q (xs @ p # ys))" for Q by simp
  then show ?case using finish unfolding lock_inv_def
    by (metis (no_types, lifting) Un_iff insertCI le_trans list.simps(15) lock_world.select_convs lock_world.surjective
        lock_world.update_convs(2) set_append)
qed

lemma lock_reach_inv: "lock_reach w \<Longrightarrow> lock_inv w"
proof (induction rule: lock_reach.induct)
  case here
  show ?case by (simp add: lock_inv_def)
next
  case (step w w')
  then show ?case by (blast intro: lock_step_inv)
qed

section \<open>One mutex per map\<close>

text \<open>The abstract service: maps are entered one operation at a time, independently of each other.\<close>

inductive mutex_step :: "string multiset \<Rightarrow> string multiset \<Rightarrow> bool" where
  idle: "mutex_step B B"
| acquire: "m \<notin># B \<Longrightarrow> mutex_step B (add_mset m B)"
| release: "mutex_step (add_mset m B) B"

definition busy :: "lock_world \<Rightarrow> string multiset" where
  "busy w = image_mset mo_map (mset (filter mo_inside (lw_ops w)))"

lemma busy_iff: "m \<in># busy w \<longleftrightarrow> (\<exists>p\<in>set (lw_ops w). mo_inside p \<and> mo_map p = m)"
  by (auto simp: busy_def)

lemma same_map_same_lock:
  "lock_inv w \<Longrightarrow> p \<in> set (lw_ops w) \<Longrightarrow> q \<in> set (lw_ops w) \<Longrightarrow> mo_lock p = mo_lock q \<longleftrightarrow> mo_map p = mo_map q"
proof -
  assume inv: "lock_inv w" and pq: "p \<in> set (lw_ops w)" "q \<in> set (lw_ops w)"
  then have "map_of (lw_locks w) (mo_map p) = Some (mo_lock p)" "map_of (lw_locks w) (mo_map q) = Some (mo_lock q)"
    by (simp_all add: lock_inv_def)
  then show ?thesis using lock_owner [OF inv] by auto
qed

lemma start_operation_ops:
  "\<exists>k. lw_ops (start_operation m w) = \<lparr>mo_map = m, mo_lock = k, mo_inside = False\<rparr> # lw_ops w"
  by (simp add: start_operation_def for_map_def Let_def split: prod.split option.split)

lemma start_operation_size: "lock_inv w \<Longrightarrow> length (lw_locks (start_operation m w)) \<le> Suc (length (lw_ops w))"
proof -
  assume inv: "lock_inv w"
  define live where "live = hm_retain (\<lambda>_ k. 0 < strong_count k (lw_ops w)) (lw_locks w)"
  note live = for_map_live [OF inv, folded live_def]
  have "fst ` set live \<subseteq> mo_map ` set (lw_ops w)"
  proof
    fix x assume "x \<in> fst ` set live"
    then obtain k where k: "map_of live x = Some k" using live(1) by (auto simp: wf_map_def)
    then obtain p where p: "map_of (lw_locks w) x = Some k" "p \<in> set (lw_ops w)" "mo_lock p = k"
      using live(3) by blast
    then have "map_of (lw_locks w) (mo_map p) = Some k" using inv by (simp add: lock_inv_def)
    then have "mo_map p = x" using lock_owner [OF inv _ p(1)] by blast
    then show "x \<in> mo_map ` set (lw_ops w)" using p(2) by blast
  qed
  then have "card (fst ` set live) \<le> length (lw_ops w)"
    by (meson List.finite_set card_length card_mono finite_imageI le_trans surj_card_le)
  moreover have "card (fst ` set live) = length live"
    using live(1) by (metis distinct_card length_map list.set_map wf_map_def)
  ultimately have "length live \<le> length (lw_ops w)" by simp
  moreover have "length (AList.update m k live) \<le> Suc (length live)" for k by (rule length_update_le)
  ultimately show ?thesis
    by (auto simp: start_operation_def for_map_def live_def [symmetric] Let_def split: option.split)
       (meson le_trans not_less_eq_eq)
qed

lemma lock_step_busy:
  assumes inv: "lock_inv w" and step: "lock_step w w'"
  shows "mutex_step (busy w) (busy w')"
  using step inv
proof (induction rule: lock_step.induct)
  case (start w m)
  obtain k where "lw_ops (start_operation m w) = \<lparr>mo_map = m, mo_lock = k, mo_inside = False\<rparr> # lw_ops w"
    using start_operation_ops by blast
  then have "busy (start_operation m w) = busy w" by (simp add: busy_def)
  then show ?case by (simp add: mutex_step.idle)
next
  case (enter w xs p ys)
  have "mo_map p \<notin># busy w"
  proof
    assume "mo_map p \<in># busy w"
    then obtain q where q: "q \<in> set (lw_ops w)" "mo_inside q" "mo_map q = mo_map p" by (auto simp: busy_iff)
    then have "q \<in> set (xs @ ys)" using enter(1,2) by auto
    moreover have "mo_lock q = mo_lock p" using same_map_same_lock [OF enter(4) q(1), of p] q(3) enter(1) by simp
    ultimately show False using enter(3) q(2) by blast
  qed
  moreover have "busy (w\<lparr>lw_ops := xs @ p\<lparr>mo_inside := True\<rparr> # ys\<rparr>) = add_mset (mo_map p) (busy w)"
    using enter(1,2) by (simp add: busy_def)
  ultimately show ?case by (simp add: mutex_step.acquire)
next
  case (finish w xs p ys)
  then have "busy w = (if mo_inside p then add_mset (mo_map p) (busy (w\<lparr>lw_ops := xs @ ys\<rparr>))
      else busy (w\<lparr>lw_ops := xs @ ys\<rparr>))"
    by (simp add: busy_def)
  then show ?case using mutex_step.release mutex_step.idle by (metis (full_types))
qed

text \<open>
  C14. The registry of weak locks is one mutex per map: every step of operations that look their
  lock up, wait for it, enter and end is a step of the abstract service, which never lets two
  operations into one map; an operation waiting on a free map can enter, whatever happens on other
  maps; and the registry keeps no more entries than there are operations in flight.
\<close>

theorem map_locks_refine_mutex:
  assumes "lock_reach w"
  shows "(\<forall>w'. lock_step w w' \<longrightarrow> mutex_step (busy w) (busy w')) \<and>
    (\<forall>p\<in>set (lw_ops w). \<not> mo_inside p \<longrightarrow> mo_map p \<notin># busy w \<longrightarrow>
      (\<exists>w'. lock_step w w' \<and> busy w' = add_mset (mo_map p) (busy w))) \<and>
    (\<forall>m. length (lw_locks (start_operation m w)) \<le> length (lw_ops (start_operation m w)))"
proof (intro conjI allI ballI impI)
  have inv: "lock_inv w" using assms by (rule lock_reach_inv)
  show "mutex_step (busy w) (busy w')" if "lock_step w w'" for w'
    using lock_step_busy [OF inv that] .
  show "\<exists>w'. lock_step w w' \<and> busy w' = add_mset (mo_map p) (busy w)"
    if p: "p \<in> set (lw_ops w)" "\<not> mo_inside p" "mo_map p \<notin># busy w" for p
  proof -
    obtain xs ys where split: "lw_ops w = xs @ p # ys" using p(1) by (meson split_list)
    have "\<forall>q\<in>set (xs @ ys). mo_inside q \<longrightarrow> mo_lock q \<noteq> mo_lock p"
      using p same_map_same_lock [OF inv _ p(1)] split by (auto simp: busy_iff)
    from lock_step.enter [OF split p(2) this] show ?thesis
      using split p(2) by (intro exI [of _ "w\<lparr>lw_ops := xs @ p\<lparr>mo_inside := True\<rparr> # ys\<rparr>"]) (simp add: busy_def)
  qed
  show "length (lw_locks (start_operation m w)) \<le> length (lw_ops (start_operation m w))" for m
    using start_operation_size [OF inv, of m] start_operation_ops [of m w] by auto
qed

definition two_waiting :: lock_world where
  "two_waiting = start_operation ''b'' (start_operation ''a'' (start_operation ''a'' \<lparr>lw_locks = [], lw_ops = [], lw_next = 0\<rparr>))"

theorem map_locks_refine_mutex_witness:
  "lw_locks two_waiting = [(''a'', 0), (''b'', 1)] \<and> length (lw_ops two_waiting) = 3 \<and>
   (\<exists>w'. lock_step two_waiting w' \<and> busy w' = {#''b''#})"
proof -
  have reach: "lock_reach two_waiting"
    unfolding two_waiting_def by (intro lock_reach.step [OF _ lock_step.start] lock_reach.here)
  have ops: "lw_ops two_waiting = [\<lparr>mo_map = ''b'', mo_lock = 1, mo_inside = False\<rparr>,
      \<lparr>mo_map = ''a'', mo_lock = 0, mo_inside = False\<rparr>, \<lparr>mo_map = ''a'', mo_lock = 0, mo_inside = False\<rparr>]"
    by code_simp
  have locks: "lw_locks two_waiting = [(''a'', 0), (''b'', 1)]" by code_simp
  have "busy two_waiting = {#}" by (simp add: busy_def ops)
  then show ?thesis using map_locks_refine_mutex [OF reach] ops locks by fastforce
qed

end
