(* ===== verification/Spec_Tasks.thy ===== *)
theory Spec_Tasks
  imports Presence
begin

text \<open>
  The editor's requests on specs (\<open>src/server2.rs\<close>): saving, deleting and listing.  A spec can be
  changed for a day after its creation, and a spec a map is bound to cannot be deleted.  Each
  request carries a task id and is answered with one task response.
\<close>

section \<open>Answers\<close>

definition send_spec_task_result ::
    "nat \<Rightarrow> string + unit \<Rightarrow> ('z wf_world_scheme, api_error, unit) db_action" where
  "send_spec_task_result request_id outcome =
     (let error = (case outcome of Inr _ \<Rightarrow> None | Inl e \<Rightarrow> Some e)
      in send_client (RTaskResponse request_id (error = None) error))"

text \<open>The raw error goes to the log only.\<close>

definition spec_task_internal_error :: "string \<Rightarrow> 'e \<Rightarrow> string" where
  "spec_task_internal_error action _ = ''Server error while '' @ action @ '' the spec''"

text \<open>A day, in microseconds.\<close>

definition a_day :: int where "a_day = 24 * 60 * 60 * 1000000"

section \<open>Saving\<close>

text \<open>\<open>fmt\<close> is the message of a catalog validation error.\<close>

definition upsert_custom_map_aux_spec ::
    "(catalog_validation_error \<Rightarrow> string) \<Rightarrow> nat \<Rightarrow> uuid \<Rightarrow> string \<Rightarrow> json \<Rightarrow>
     ('z wf_db_scheme, string, unit) db_action" where
  "upsert_custom_map_aux_spec fmt now user name_id spec =
     (if \<not> is_object spec \<or> spec = JObj [] then Err ''Invalid spec: must be a non-empty object''
      else
        and_then (map_err (spec_task_internal_error ''saving'') (get_spec user name_id)) (\<lambda>existing.
          if (case existing of None \<Rightarrow> False | Some s \<Rightarrow> int (sx_created_at s) < int now - a_day)
          then Err ''Spec can no longer be modified''
          else
            and_then (map_err (\<lambda>e. case e of UpsertValidation v \<Rightarrow> fmt v
                                | UpsertDatabase _ \<Rightarrow> spec_task_internal_error ''saving'' e)
                       (upsert_spec_and_catalogs now user name_id spec)) (\<lambda>_. Ok ())))"

definition report_custom_map_aux_spec ::
    "(catalog_validation_error \<Rightarrow> string) \<Rightarrow> nat \<Rightarrow> nat \<Rightarrow> uuid \<Rightarrow> string \<Rightarrow> json \<Rightarrow>
     ('z wf_world_scheme, api_error, unit) db_action" where
  "report_custom_map_aux_spec fmt now request_id user name_id spec =
     and_then (attempt (upsert_custom_map_aux_spec fmt now user name_id spec)) (send_spec_task_result request_id)"

section \<open>Deleting\<close>

definition delete_custom_map_aux_spec_inner ::
    "wf_env \<Rightarrow> nat \<Rightarrow> uuid \<Rightarrow> string \<Rightarrow> ('z wf_db_scheme, string, unit) db_action" where
  "delete_custom_map_aux_spec_inner env now user name_id =
     and_then (map_err (spec_task_internal_error ''deleting'') (get_spec user name_id)) (\<lambda>existing.
       if (case existing of None \<Rightarrow> False | Some s \<Rightarrow> int (sx_created_at s) < int now - a_day)
       then Err ''Spec can no longer be deleted''
       else
         and_then (fetch (\<lambda>d. Inr (bound_map_uid env user name_id d))) (\<lambda>bound_map.
         case bound_map of
           Some m \<Rightarrow> Err (''Spec is bound to map '' @ m @ '' and can no longer be deleted'')
         | None \<Rightarrow>
             and_then (map_err (spec_task_internal_error ''deleting'') (delete_spec user name_id)) (\<lambda>_.
             and_then (map_err (spec_task_internal_error ''deleting'') (delete_games_catalog user name_id)) (\<lambda>_.
             and_then (map_err (spec_task_internal_error ''deleting'') (delete_collectibles_catalog user name_id)) (\<lambda>_.
             map_err (spec_task_internal_error ''deleting'') (delete_hats_catalog user name_id))))))"

definition delete_custom_map_aux_spec ::
    "wf_env \<Rightarrow> nat \<Rightarrow> nat \<Rightarrow> uuid \<Rightarrow> string \<Rightarrow> ('z wf_world_scheme, api_error, unit) db_action" where
  "delete_custom_map_aux_spec env now request_id user name_id =
     and_then (attempt (delete_custom_map_aux_spec_inner env now user name_id)) (send_spec_task_result request_id)"

section \<open>Listing\<close>

definition spec_to_json :: "wf_env \<Rightarrow> aux_spec \<Rightarrow> json" where
  "spec_to_json env s =
     JObj [(''created_at'', json_of_int (int (sx_created_at s div 1000000))),
           (''hit_counter'', json_of_int (sx_hit_counter s)),
           (''id'', json_of_int (sx_id s)),
           (''name_id'', JStr (sx_name_id s)),
           (''spec'', sx_spec s),
           (''updated_at'', json_of_int (int (sx_updated_at s div 1000000))),
           (''user_id'', JStr (we_show_uuid env (sx_user_id s)))]"

definition list_custom_map_aux_spec ::
    "wf_env \<Rightarrow> nat \<Rightarrow> uuid \<Rightarrow> ('z wf_world_scheme, api_error, unit) db_action" where
  "list_custom_map_aux_spec env request_id user =
     and_then (fetch (\<lambda>w. Inr (list_specs user w))) (\<lambda>specs.
       send_client (RTaskResponseJson request_id (JArr (map (spec_to_json env) specs))))"

section \<open>What an edit may change\<close>












end
