(* ===== verification/Nadeo_Client.thy ===== *)
theory Nadeo_Client
  imports Framing Binding Rate_Limits
begin

text \<open>
  The client of the Nadeo services (\<open>src/nadeo.rs\<close>): which answers are retried, how the
  published comment of a map is dug out of its file, and when an account counts as having a
  record.  The HTTP transport is a parameter; so are the decoders of JSON bodies and HTTP dates.
\<close>

section \<open>Retries\<close>

text \<open>Durations are in nanoseconds.\<close>

definition millis :: "nat \<Rightarrow> nat" where "millis n = n * 1000000"

definition RETRY_ATTEMPTS :: nat where "RETRY_ATTEMPTS = 3"

definition MAX_RETRY_DELAY :: nat where "MAX_RETRY_DELAY = secs 2"

datatype retry_decision = NoRetry | RetryAfter nat | ExceedsBudget

record 'b http_response =
  hr_status :: nat
  hr_retry_after :: "string option"
  hr_body :: 'b

definition backoff :: "nat \<Rightarrow> nat" where
  "backoff tries = millis (200 * 2 ^ min tries 3)"

text \<open>\<open>http_date\<close> reads an HTTP date, as the time since the epoch.\<close>

definition retry_delay ::
    "(string \<Rightarrow> nat option) \<Rightarrow> nat \<Rightarrow> string option \<Rightarrow> nat \<Rightarrow> nat \<Rightarrow> retry_decision" where
  "retry_delay http_date status retry_after tries now =
     (if status \<noteq> 429 \<and> \<not> (500 \<le> status \<and> status < 600) then NoRetry
      else
        (let requested = Option.bind retry_after (\<lambda>value.
               case parse_u64 (trim value) of
                 Some n \<Rightarrow> Some (secs n)
               | None \<Rightarrow> map_option (\<lambda>moment. moment - now) (http_date value))
         in case requested of
              Some delay \<Rightarrow> if MAX_RETRY_DELAY < delay then ExceedsBudget else RetryAfter delay
            | None \<Rightarrow> RetryAfter (min (backoff tries) MAX_RETRY_DELAY)))"

text \<open>
  The loop over the attempts: the answer with the delays slept, or \<open>None\<close> where the code is
  marked unreachable.  \<open>request\<close> is what the transport returns at an attempt, \<open>clock\<close> the system
  time then.
\<close>

fun send_attempts ::
    "(string \<Rightarrow> nat option) \<Rightarrow> (nat \<Rightarrow> string + 'b http_response) \<Rightarrow> (nat \<Rightarrow> nat) \<Rightarrow> nat list \<Rightarrow>
     (string + 'b http_response) option \<times> nat list" where
  "send_attempts http_date request clock [] = (None, [])"
| "send_attempts http_date request clock (tries # rest) =
     (case request tries of
        Inr response \<Rightarrow>
          (case retry_delay http_date (hr_status response) (hr_retry_after response) tries (clock tries) of
             RetryAfter delay \<Rightarrow>
               if tries + 1 < RETRY_ATTEMPTS
               then (let (r, slept) = send_attempts http_date request clock rest in (r, delay # slept))
               else (Some (Inr response), [])
           | _ \<Rightarrow> (Some (Inr response), []))
      | Inl e \<Rightarrow>
          if tries + 1 < RETRY_ATTEMPTS
          then (let (r, slept) = send_attempts http_date request clock rest in (r, backoff tries # slept))
          else (Some (Inl e), []))"

definition send_with_retry ::
    "(string \<Rightarrow> nat option) \<Rightarrow> (nat \<Rightarrow> string + 'b http_response) \<Rightarrow> (nat \<Rightarrow> nat) \<Rightarrow>
     (string + 'b http_response) option \<times> nat list" where
  "send_with_retry http_date request clock = send_attempts http_date request clock [0..<RETRY_ATTEMPTS]"

section \<open>Tokens\<close>

definition TOKEN_MAX_AGE :: nat where "TOKEN_MAX_AGE = secs (50 * 60)"

record cached_token =
  tk_access :: string
  tk_refresh :: "string option"
  tk_obtained :: nat

definition fresh_token :: "nat \<Rightarrow> cached_token option \<Rightarrow> string option" where
  "fresh_token now cache =
     (case cache of
        Some t \<Rightarrow> if now - tk_obtained t < TOKEN_MAX_AGE then Some (tk_access t) else None
      | None \<Rightarrow> None)"

text \<open>Two looks, before and after the refresh gate, at \<open>now\<close> and \<open>later\<close>.\<close>

definition ensure_cached_token ::
    "nat \<Rightarrow> nat \<Rightarrow> string + cached_token \<Rightarrow> cached_token option \<Rightarrow> cached_token option \<Rightarrow>
     (string + string) \<times> cached_token option" where
  "ensure_cached_token now later fetched cache cache_at_gate =
     (case fresh_token now cache of
        Some access \<Rightarrow> (Inr access, cache)
      | None \<Rightarrow>
          (case fresh_token later cache_at_gate of
             Some access \<Rightarrow> (Inr access, cache_at_gate)
           | None \<Rightarrow>
               (case fetched of
                  Inl e \<Rightarrow> (Inl e, cache_at_gate)
                | Inr t \<Rightarrow> (Inr (tk_access t), Some t))))"

section \<open>The comment in a map file\<close>

text \<open>\<open>str::from_utf8\<close>: well-formed UTF-8.\<close>

definition cont8 :: "nat \<Rightarrow> bool" where
  "cont8 b \<longleftrightarrow> 128 \<le> b \<and> b < 192"

fun utf8_ok :: "nat list \<Rightarrow> bool" where
  "utf8_ok [] = True"
| "utf8_ok (b # bs) =
     (if b < 128 then utf8_ok bs
      else
        (case bs of
           [] \<Rightarrow> False
         | c # cs \<Rightarrow>
             if 194 \<le> b \<and> b < 224 then cont8 c \<and> utf8_ok cs
             else
               (case cs of
                  [] \<Rightarrow> False
                | d # ds \<Rightarrow>
                    if 224 \<le> b \<and> b < 240
                    then (if b = 224 then 160 \<le> c \<and> c < 192 else if b = 237 then 128 \<le> c \<and> c < 160 else cont8 c) \<and>
                      cont8 d \<and> utf8_ok ds
                    else
                      (case ds of
                         [] \<Rightarrow> False
                       | e # es \<Rightarrow>
                           240 \<le> b \<and> b < 245 \<and>
                           (if b = 240 then 144 \<le> c \<and> c < 192 else if b = 244 then 128 \<le> c \<and> c < 144 else cont8 c) \<and>
                           cont8 d \<and> cont8 e \<and> utf8_ok es))))"

definition str_bytes :: "string \<Rightarrow> u8 list" where
  "str_bytes s = map (\<lambda>c. of_nat (of_char c)) s"

definition bytes_str :: "u8 list \<Rightarrow> string" where
  "bytes_str bs = map (\<lambda>b. char_of (unat b)) bs"

definition from_utf8 :: "u8 list \<Rightarrow> string option" where
  "from_utf8 bs = (if utf8_ok (map unat bs) then Some (bytes_str bs) else None)"

definition CHUNK_THUMB_COMMENTS :: nat where "CHUNK_THUMB_COMMENTS = 0x03043007"
definition COMMENT_FETCH_WINDOW :: nat where "COMMENT_FETCH_WINDOW = 64 * 1024"
definition COMMENT_MAX_LEN :: nat where "COMMENT_MAX_LEN = 32 * 1024"

definition u32_at :: "u8 list \<Rightarrow> nat \<Rightarrow> nat" where
  "u32_at bs p = un_le32 (take 4 (drop p bs))"

definition chunk_entry :: "u8 list \<Rightarrow> nat \<Rightarrow> nat \<times> nat" where
  "chunk_entry head_bytes p = (u32_at head_bytes p, u32_at head_bytes (p + 4))"

definition chunk_ok :: "nat \<times> nat \<Rightarrow> bool" where
  "chunk_ok e \<longleftrightarrow> fst e div 65536 = 0x0304 \<and> snd e mod 2 ^ 31 \<le> 2 ^ 28"

definition table_at :: "u8 list \<Rightarrow> nat \<Rightarrow> (nat \<times> (nat \<times> nat) list) option" where
  "table_at head_bytes start =
     (let count = u32_at head_bytes start;
          table = start + 4
      in if \<not> (1 \<le> count \<and> count \<le> 64) then None
         else if length head_bytes < table + count * 8 then None
         else
           let entries = map (\<lambda>i. chunk_entry head_bytes (table + i * 8)) [0..<count]
           in if list_all chunk_ok entries then Some (table + count * 8, entries) else None)"

fun first_some :: "('a \<Rightarrow> 'b option) \<Rightarrow> 'a list \<Rightarrow> 'b option" where
  "first_some f [] = None"
| "first_some f (x # xs) = (case f x of Some y \<Rightarrow> Some y | None \<Rightarrow> first_some f xs)"

definition parse_header_chunk_table :: "u8 list \<Rightarrow> (nat \<times> (nat \<times> nat) list) option" where
  "parse_header_chunk_table head_bytes =
     first_some (table_at head_bytes) [8..<length head_bytes - 12]"

datatype extracted = Found string | Truncated | Missing

definition find_subslice :: "u8 list \<Rightarrow> u8 list \<Rightarrow> nat option" where
  "find_subslice haystack needle =
     (if needle = [] \<or> length haystack < length needle then None else find_sub haystack needle)"

definition open_tag :: "u8 list" where "open_tag = str_bytes ''<Comments>''"
definition close_tag :: "u8 list" where "close_tag = str_bytes ''</Comments>''"

text \<open>The loop over the two layouts: the length word once, or twice.\<close>

fun scan_layouts :: "u8 list \<Rightarrow> nat \<Rightarrow> nat list \<Rightarrow> bool \<Rightarrow> extracted" where
  "scan_layouts buf after [] truncated = (if truncated then Truncated else Missing)"
| "scan_layouts buf after (consumed # rest) truncated =
     (let len_at = after + consumed - 4
      in if length buf < len_at + 4 then scan_layouts buf after rest True
         else
           let len = u32_at buf len_at mod 2 ^ 31
           in if len = 0 \<or> COMMENT_MAX_LEN < len then scan_layouts buf after rest truncated
              else
                let start = after + consumed; stop = start + len
                in if length buf < stop then scan_layouts buf after rest True
                   else if take (length close_tag) (drop stop buf) \<noteq> close_tag then scan_layouts buf after rest truncated
                   else
                     (case from_utf8 (take len (drop start buf)) of
                        Some s \<Rightarrow> Found s
                      | None \<Rightarrow> scan_layouts buf after rest truncated))"

definition extract_comments :: "u8 list \<Rightarrow> extracted" where
  "extract_comments buf =
     (case find_subslice buf open_tag of
        None \<Rightarrow> Missing
      | Some marker \<Rightarrow> scan_layouts buf (marker + length open_tag) [4, 8] False)"

section \<open>The published comment\<close>

record live_map_info =
  li_uid :: string
  li_author :: string
  li_name :: "string option"
  li_thumbnail_url :: "string option"
  li_submitter :: "string option"
  li_download_url :: "string option"

text \<open>The walk over the chunks; \<open>download a b\<close> is a download of the bytes from \<open>a\<close> up to \<open>b\<close>.\<close>

fun comment_in_chunks ::
    "(nat \<Rightarrow> nat \<Rightarrow> string + u8 list) \<Rightarrow> nat \<Rightarrow> (nat \<times> nat) list \<Rightarrow> string + published_comment" where
  "comment_in_chunks download offset [] = Inr (Comment None)"
| "comment_in_chunks download offset ((i, raw_size) # chunks) =
     (let size = raw_size mod 2 ^ 31
      in if i = CHUNK_THUMB_COMMENTS then
           (if size = 0 then Inl ''thumbnail/comments chunk is empty''
            else
              let window = min size COMMENT_FETCH_WINDOW; start = offset + size - window
              in bind_res (download start (start + window)) (\<lambda>tail.
                 case extract_comments tail of
                   Found comment \<Rightarrow> Inr (Comment (Some comment))
                 | Truncated \<Rightarrow> Inl ''map comment longer than the fetch window''
                 | Missing \<Rightarrow> Inr (Comment None)))
         else comment_in_chunks download (offset + size) chunks)"

definition fetch_published_comment ::
    "string + live_map_info option \<Rightarrow> (string \<Rightarrow> nat \<Rightarrow> nat \<Rightarrow> string + u8 list) \<Rightarrow> string + published_comment" where
  "fetch_published_comment map_info fetch_range =
     bind_res map_info (\<lambda>info.
       case info of
         None \<Rightarrow> Inr CommentNotOnNadeo
       | Some info \<Rightarrow>
           (case li_download_url info of
              None \<Rightarrow> Inl ''map info has no downloadUrl''
            | Some url \<Rightarrow>
                bind_res (fetch_range url 0 192) (\<lambda>head_bytes.
                  case parse_header_chunk_table head_bytes of
                    None \<Rightarrow> Inl ''could not parse the GBX header chunk table''
                  | Some (data_start, chunks) \<Rightarrow> comment_in_chunks (fetch_range url) data_start chunks)))"

section \<open>Authors and records\<close>

definition verified_map_author :: "(string \<Rightarrow> string + uuid) \<Rightarrow> string \<Rightarrow> live_map_info \<Rightarrow> string + uuid" where
  "verified_map_author parse_uuid requested_uid info =
     (if li_uid info \<noteq> requested_uid
      then Inl (''Nadeo map info UID mismatch: requested '' @ requested_uid @ '', received '' @ li_uid info)
      else parse_uuid (li_author info))"

text \<open>\<open>send\<close> is the request for a map's information, with a token; \<open>decode\<close> reads its JSON.\<close>

definition get_map_info_optional ::
    "bool \<Rightarrow> string + string \<Rightarrow> (string \<Rightarrow> string \<Rightarrow> string + 'b http_response) \<Rightarrow>
     ('b \<Rightarrow> string + live_map_info) \<Rightarrow> (nat \<Rightarrow> string) \<Rightarrow> string \<Rightarrow> string + live_map_info option" where
  "get_map_info_optional configured token send decode show_status map_uid =
     (if \<not> configured then Inl ''nadeo not configured''
      else
        bind_res token (\<lambda>t.
        bind_res (send t map_uid) (\<lambda>resp.
          if hr_status resp = 404 then Inr None
          else if \<not> (200 \<le> hr_status resp \<and> hr_status resp < 300)
          then Inl (''map info status '' @ show_status (hr_status resp))
          else bind_res (decode (hr_body resp)) (\<lambda>info. Inr (Some info)))))"

definition get_map_info :: "(string \<Rightarrow> string + live_map_info option) \<Rightarrow> string \<Rightarrow> string + live_map_info" where
  "get_map_info map_info_optional map_uid =
     bind_res (map_info_optional map_uid) (\<lambda>info. ok_or ''Nadeo map not found'' info)"

definition author_id_for_uid ::
    "(string \<Rightarrow> string + uuid) \<Rightarrow> (string \<Rightarrow> string + live_map_info option) \<Rightarrow> string \<Rightarrow>
     string + uuid \<times> live_map_info" where
  "author_id_for_uid parse_uuid map_info_optional map_uid =
     bind_res (get_map_info map_info_optional map_uid) (\<lambda>info.
     bind_res (verified_map_author parse_uuid map_uid info) (\<lambda>author. Inr (author, info)))"

definition fetch_map_author ::
    "(string \<Rightarrow> string + uuid) \<Rightarrow> (string \<Rightarrow> string + live_map_info option) \<Rightarrow> string \<Rightarrow> string + uuid option" where
  "fetch_map_author parse_uuid map_info map_uid =
     bind_res (map_info map_uid) (\<lambda>info.
       case info of None \<Rightarrow> Inr None
       | Some info \<Rightarrow> bind_res (verified_map_author parse_uuid map_uid info) (\<lambda>author. Inr (Some author)))"

record core_map_info =
  ci_map_id :: string
  ci_map_uid :: string
  ci_map_type :: string
  ci_has_clones :: bool

record core_map_record =
  co_account_id :: string
  co_map_id :: string
  co_removed :: bool
  co_scope_type :: string

definition core_game_mode :: "core_map_info \<Rightarrow> string" where
  "core_game_mode m =
     (if ends_with (ci_map_type m) ''TM_Stunt'' then ''Stunt''
      else if ends_with (ci_map_type m) ''TM_Platform'' then ''Platform''
      else if ci_has_clones m then ''TimeAttackClone'' else ''TimeAttack'')"

definition records_contain_personal_best :: "core_map_record list \<Rightarrow> string \<Rightarrow> string \<Rightarrow> bool" where
  "records_contain_personal_best records account_id map_id =
     list_ex (\<lambda>r. co_account_id r = account_id \<and> co_map_id r = map_id \<and> \<not> co_removed r \<and>
       co_scope_type r = ''PersonalBest'') records"

text \<open>
  \<open>token\<close>, \<open>core_maps\<close> and \<open>map_records\<close> are the three requests, decoded; the last two with their
  query parameters.
\<close>

definition has_official_record_impl ::
    "bool \<Rightarrow> string + string \<Rightarrow> (string \<Rightarrow> string \<Rightarrow> string + core_map_info list) \<Rightarrow>
     (string \<Rightarrow> string \<Rightarrow> string \<Rightarrow> string \<Rightarrow> string + core_map_record list) \<Rightarrow> string \<Rightarrow> string \<Rightarrow> string + bool" where
  "has_official_record_impl configured token core_maps map_records account_id map_uid =
     (if length map_uid \<noteq> 27 then Inr False
      else if \<not> configured then Inl ''nadeo not configured''
      else
        bind_res token (\<lambda>t.
        bind_res (core_maps t map_uid) (\<lambda>maps.
        case List.find (\<lambda>m. ci_map_uid m = map_uid) maps of
          None \<Rightarrow> Inr False
        | Some m \<Rightarrow>
            bind_res (map_records t account_id (ci_map_id m) (core_game_mode m)) (\<lambda>records.
              Inr (records_contain_personal_best records account_id (ci_map_id m))))))"

section \<open>Properties\<close>

lemma retry_delay_bound: "retry_delay http_date status after tries now = RetryAfter d \<Longrightarrow> d \<le> MAX_RETRY_DELAY"
  by (auto simp: retry_delay_def Let_def split: if_splits option.splits)

lemma backoff_bound: "backoff tries \<le> MAX_RETRY_DELAY"
proof -
  have "(2::nat) ^ min tries 3 \<le> 2 ^ 3" by (rule power_increasing) simp_all
  then show ?thesis by (simp add: backoff_def millis_def MAX_RETRY_DELAY_def secs_def)
qed

text \<open>
  C31. A request to Nadeo always comes back: after at most three attempts, with the answer or the error
  of the last attempt made, having slept at most twice and four seconds in all; the statement
  after the loop is indeed unreachable.
\<close>

theorem send_with_retry_returns:
  "\<exists>slept. send_with_retry http_date request clock = (Some (request (length slept)), slept) \<and>
     length slept < RETRY_ATTEMPTS \<and> list_all (\<lambda>d. d \<le> MAX_RETRY_DELAY) slept \<and> sum_list slept \<le> secs 4"
proof -
  have loop: "\<exists>slept. send_attempts http_date request clock [n..<3] = (Some (request (n + length slept)), slept) \<and>
      n + length slept < 3 \<and> (\<forall>d\<in>set slept. d \<le> MAX_RETRY_DELAY)" if "n < 3" for n
    using that
  proof (induction "3 - n" arbitrary: n)
    case (Suc k)
    have split: "[n..<3] = n # [Suc n..<3]" using Suc.prems by (rule upt_conv_Cons)
    have again: "\<exists>slept. (let (r, slept) = send_attempts http_date request clock [Suc n..<3] in (r, d # slept)) =
        (Some (request (n + length slept)), slept) \<and> n + length slept < 3 \<and> (\<forall>d\<in>set slept. d \<le> MAX_RETRY_DELAY)"
      if "n + 1 < 3" "d \<le> MAX_RETRY_DELAY" for d
    proof -
      obtain slept where s: "send_attempts http_date request clock [Suc n..<3] = (Some (request (Suc n + length slept)), slept)"
        "Suc n + length slept < 3" "\<forall>d\<in>set slept. d \<le> MAX_RETRY_DELAY"
      proof -
        have "k = 3 - Suc n" using Suc.hyps(2) by simp
        then show thesis using Suc.hyps(1) [of "Suc n"] that(1) \<open>n + 1 < 3\<close> by (auto simp del: upt.simps)
      qed
      then show ?thesis using that(2) by (intro exI [of _ "d # slept"]) simp
    qed
    show ?case
      unfolding split using Suc.prems again backoff_bound retry_delay_bound
      by (auto simp: RETRY_ATTEMPTS_def split: sum.split retry_decision.split) 
  qed simp
  obtain slept where s: "send_attempts http_date request clock [0..<3] = (Some (request (length slept)), slept)"
    "length slept < 3" "\<forall>d\<in>set slept. d \<le> MAX_RETRY_DELAY"
    using loop [of 0] by auto
  have "sum_list slept \<le> length slept * MAX_RETRY_DELAY"
    using s(3) by (induction slept) auto
  also have "\<dots> \<le> 2 * MAX_RETRY_DELAY" using s(2) by (intro mult_right_mono) simp_all
  finally show ?thesis using s by (simp add: send_with_retry_def RETRY_ATTEMPTS_def MAX_RETRY_DELAY_def secs_def list_all_iff)
qed

lemma bytes_str_bytes [simp]: "bytes_str (str_bytes s) = s"
  by (induction s) (simp_all add: bytes_str_def str_bytes_def unat_of_nat)

lemma unat_str_bytes: "map unat (str_bytes s) = codes s"
  by (induction s) (simp_all add: str_bytes_def codes_def unat_of_nat)

lemma length_str_bytes [simp]: "length (str_bytes s) = length s"
  by (simp add: str_bytes_def)

lemma from_utf8_str: "utf8_ok (codes s) \<Longrightarrow> from_utf8 (str_bytes s) = Some s"
  by (simp add: from_utf8_def unat_str_bytes)

lemma u32_at_le32: "n < 2 ^ 32 \<Longrightarrow> length pre = p \<Longrightarrow> u32_at (pre @ le32 n @ post) p = n"
  by (simp add: u32_at_def un_le32_le32)

text \<open>The layout that fits is recognised, whatever was tried before.\<close>

lemma scan_layouts_fits:
  assumes buf: "buf = front @ le32 (length s) @ str_bytes s @ close_tag @ post"
    and at: "length front + 4 = after + consumed" and s: "0 < length s" "length s \<le> COMMENT_MAX_LEN" "utf8_ok (codes s)"
  shows "scan_layouts buf after (consumed # rest) truncated = Found s"
proof -
  have small: "length s < 2 ^ 31" using s(2) by (simp add: COMMENT_MAX_LEN_def)
  have len_at: "after + consumed - 4 = length front" using at by simp
  have len: "u32_at buf (after + consumed - 4) = length s"
    unfolding buf len_at using small by (intro u32_at_le32) simp_all
  have split: "buf = (front @ le32 (length s)) @ str_bytes s @ close_tag @ post" by (simp add: buf)
  have start: "drop (after + consumed) buf = str_bytes s @ close_tag @ post"
    unfolding split using at by simp
  have stop: "drop (after + consumed + length s) buf = close_tag @ post"
  proof -
    have "drop (after + consumed + length s) buf = drop (length s) (drop (after + consumed) buf)"
      by (simp only: drop_drop add.commute)
    then show ?thesis unfolding start by simp
  qed
  have size: "after + consumed + length s \<le> length buf" unfolding buf using at by simp
  show ?thesis
    using small s size len start stop from_utf8_str [OF s(3)]
    by (simp add: Let_def len_at) (simp add: at [symmetric])
qed

lemma scan_layouts_other:
  assumes "take (length close_tag) (drop (after + 4 + len) buf) \<noteq> close_tag" "u32_at buf after = len"
    "after + 4 + len \<le> length buf" "len \<le> COMMENT_MAX_LEN"
  shows "scan_layouts buf after (4 # rest) False = scan_layouts buf after rest False"
proof -
  have "len mod 2 ^ 31 = len" using assms(4) by (simp add: COMMENT_MAX_LEN_def)
  then show ?thesis using assms by (subst scan_layouts.simps(2)) (simp add: Let_def add.commute)
qed

text \<open>A length word written twice cannot be mistaken for the single one.\<close>

lemma double_not_single:
  assumes "length front = 4 + n" shows "take (length close_tag) (drop n (front @ close_tag @ post)) \<noteq> close_tag"
proof
  assume eq: "take (length close_tag) (drop n (front @ close_tag @ post)) = close_tag"
  have "take (length close_tag) (drop n (front @ close_tag @ post)) ! 4 = close_tag ! 0"
    using assms by (simp add: nth_append) (simp add: close_tag_def)
  then have "close_tag ! 4 = close_tag ! 0" unfolding eq .
  then show False by (simp add: close_tag_def str_bytes_def)
qed

text \<open>
  C30. The comment found in a map file is the comment the file holds: wherever the first
  \<open>Comments\<close> element is, whether its length is written once or twice and whatever follows, a
  comment in UTF-8 of between 1 and 32768 bytes is read back as it is.
\<close>

theorem published_comment_read_back:
  assumes buf: "buf = pre @ open_tag @ header @ str_bytes s @ close_tag @ post"
    and first_tag: "find_sub buf open_tag = Some (length pre)"
    and header: "header = le32 (length s) \<or> header = le32 (length s) @ le32 (length s)"
    and s: "0 < length s" "length s \<le> COMMENT_MAX_LEN" "utf8_ok (codes s)"
  shows "extract_comments buf = Found s"
proof -
  let ?after = "length pre + length open_tag"
  have found: "extract_comments buf = scan_layouts buf ?after [4, 8] False"
    using first_tag by (simp add: extract_comments_def find_subslice_def) (simp add: buf open_tag_def str_bytes_def)
  show ?thesis
    using header
  proof
    assume "header = le32 (length s)"
    then show ?thesis
      unfolding found using s by (intro scan_layouts_fits [where front = "pre @ open_tag" and post = post]) (simp_all add: buf)
  next
    assume twice: "header = le32 (length s) @ le32 (length s)"
    have rest: "scan_layouts buf ?after [8] False = Found s"
      using s twice by (intro scan_layouts_fits [where front = "pre @ open_tag @ le32 (length s)" and post = post])
        (simp_all add: buf)
    have len: "u32_at buf ?after = length s"
      using s(2) u32_at_le32 [of "length s" "pre @ open_tag" ?after "le32 (length s) @ str_bytes s @ close_tag @ post"]
      by (simp add: buf twice COMMENT_MAX_LEN_def)
    have other: "take (length close_tag) (drop (?after + 4 + length s) buf) \<noteq> close_tag"
    proof -
      have "drop (?after + 4 + length s) buf = drop (length s) ((le32 (length s) @ str_bytes s) @ close_tag @ post)"
        unfolding buf twice by (simp add: drop_append)
      then show ?thesis using double_not_single [of "le32 (length s) @ str_bytes s" "length s" post] by simp
    qed
    have size: "?after + 4 + length s \<le> length buf" by (simp add: buf twice)
    show ?thesis unfolding found scan_layouts_other [OF other len size s(2)] by (rule rest)
  qed
qed

theorem published_comment_read_back_witness:
  "extract_comments (open_tag @ (le32 2 @ le32 2) @ str_bytes ''ok'' @ close_tag @ []) = Found ''ok''"
proof (rule published_comment_read_back [where pre = "[]" and header = "le32 2 @ le32 2" and post = "[]"])
  show "find_sub (open_tag @ (le32 2 @ le32 2) @ str_bytes ''ok'' @ close_tag @ []) open_tag = Some (length ([] :: u8 list))"
    by (simp add: open_tag_def str_bytes_def)
  show "utf8_ok (codes ''ok'')" by code_simp
qed (simp_all add: COMMENT_MAX_LEN_def numeral_2_eq_2)

end
