(* ===== verification/Moderation_Http.thy ===== *)
theory Moderation_Http
  imports Moderation Nadeo_Client
begin

text \<open>
  The moderation interface: \<open>src/moderation_http.rs\<close>.  A browser logs in through Trackmania's OAuth
  service and gets a session cookie; every request names its user by that cookie.  A handler is an
  action whose error is the reply it returns early.

  Parameters, in \<open>mod_env\<close>: parsing and printing of UUIDs, times and errors, the database's
  \<open>ILIKE\<close>, the lookups at Nadeo and the two requests to the OAuth service.  Times are in
  microseconds; instants before 1970 count as 0.
\<close>

section \<open>Replies\<close>

record http_resp =
  hp_status :: nat
  hp_location :: "string option"
  hp_cookies :: "string list"
  hp_body :: "json option"

definition json_err :: "nat \<Rightarrow> string \<Rightarrow> http_resp" where
  "json_err status msg =
     \<lparr>hp_status = status, hp_location = None, hp_cookies = [], hp_body = Some (JObj [(''error'', JStr msg)])\<rparr>"

definition json_ok :: "json \<Rightarrow> http_resp" where
  "json_ok v = \<lparr>hp_status = 200, hp_location = None, hp_cookies = [], hp_body = Some v\<rparr>"

definition ok_true :: http_resp where
  "ok_true = json_ok (JObj [(''ok'', JBool True)])"

text \<open>The reply of a handler, early or at its end.\<close>

definition finish :: "('d, http_resp, http_resp) db_action \<Rightarrow> 'd \<Rightarrow> http_resp \<times> 'd" where
  "finish m d = (case m d of (Inl r, d1) \<Rightarrow> (r, d1) | (Inr r, d1) \<Rightarrow> (r, d1))"

record tm_oauth_config =
  oc_client_id :: string
  oc_client_secret :: string
  oc_redirect_uri :: string

record tm_user =
  tu_account_id :: string
  tu_display_name :: string

record mod_env =
  me_wf :: wf_env
  me_parse_uuid :: "string \<Rightarrow> string + uuid"
  me_show_error :: "db_error \<Rightarrow> string"
  me_fmt_bind_error :: "bind_spec_error \<Rightarrow> string"
  me_rfc3339 :: "string \<Rightarrow> nat option"
  me_naive_secs :: "string \<Rightarrow> nat option"
  me_naive_minutes :: "string \<Rightarrow> nat option"
  me_show_time :: "nat \<Rightarrow> string"
  me_ilike :: "string \<Rightarrow> string \<Rightarrow> bool"
  me_nadeo_configured :: bool
  me_map_info :: "string \<Rightarrow> string + live_map_info option"
  me_comment :: "string \<Rightarrow> string + published_comment"
  me_oauth :: "tm_oauth_config option"
  me_exchange_code :: "tm_oauth_config \<Rightarrow> string \<Rightarrow> string + string"
  me_fetch_user :: "string \<Rightarrow> string + tm_user"

record mod_server = mod_db +
  recheck_cooldowns :: "(uuid, nat) hash_map"

definition parsed_uuid :: "mod_env \<Rightarrow> string \<Rightarrow> uuid option" where
  "parsed_uuid env s = (case me_parse_uuid env s of Inl _ \<Rightarrow> None | Inr u \<Rightarrow> Some u)"

definition server_err :: "mod_env \<Rightarrow> ('d, db_error, 'a) db_action \<Rightarrow> ('d, http_resp, 'a) db_action" where
  "server_err env = map_err (\<lambda>e. json_err 500 (me_show_error env e))"

text \<open>\<open>unwrap_or(false)\<close> on a query.\<close>

definition or_false :: "('d, db_error, bool) db_action \<Rightarrow> ('d, 'e, bool) db_action" where
  "or_false m = and_then (attempt m) (\<lambda>r. Ok (case r of Inl _ \<Rightarrow> False | Inr b \<Rightarrow> b))"

definition days :: "nat \<Rightarrow> nat" where "days n = n * 24 * 60 * 60 * 1000000"
definition minutes :: "nat \<Rightarrow> nat" where "minutes n = n * 60 * 1000000"

section \<open>JSON of the rows\<close>

definition opt_str :: "string option \<Rightarrow> json" where
  "opt_str s = (case s of None \<Rightarrow> JNull | Some t \<Rightarrow> JStr t)"

definition uuid_json :: "mod_env \<Rightarrow> uuid \<Rightarrow> json" where
  "uuid_json env u = JStr (we_show_uuid (me_wf env) u)"

definition time_json :: "mod_env \<Rightarrow> nat \<Rightarrow> json" where
  "time_json env t = JStr (me_show_time env t)"

definition opt_time :: "mod_env \<Rightarrow> nat option \<Rightarrow> json" where
  "opt_time env t = (case t of None \<Rightarrow> JNull | Some x \<Rightarrow> time_json env x)"

definition opt_uuid :: "mod_env \<Rightarrow> uuid option \<Rightarrow> json" where
  "opt_uuid env u = (case u of None \<Rightarrow> JNull | Some x \<Rightarrow> uuid_json env x)"

definition meta_fields :: "mod_env \<Rightarrow> map_meta \<Rightarrow> (string \<times> json) list" where
  "meta_fields env m =
     [(''map_uid'', JStr (mm_map_uid m)), (''author_id'', uuid_json env (mm_author_id m)),
      (''map_name'', opt_str (mm_map_name m)), (''thumbnail_url'', opt_str (mm_thumbnail_url m)),
      (''fetched_at'', time_json env (mm_fetched_at m)), (''updated_at'', time_json env (mm_updated_at m))]"

definition ban_json :: "mod_env \<Rightarrow> map_ban \<Rightarrow> json" where
  "ban_json env b = JObj
     [(''map_uid'', JStr (mb_map_uid b)), (''user_id'', uuid_json env (mb_user_id b)),
      (''private_reason'', JStr (mb_private_reason b)), (''public_message'', JStr (mb_public_message b)),
      (''created_by'', uuid_json env (mb_created_by b)), (''created_at'', time_json env (mb_created_at b)),
      (''expires_at'', opt_time env (mb_expires_at b)), (''lifted_at'', opt_time env (mb_lifted_at b)),
      (''lifted_by'', opt_uuid env (mb_lifted_by b))]"

definition delegate_json :: "mod_env \<Rightarrow> delegate_row \<times> string option \<Rightarrow> json" where
  "delegate_json env = (\<lambda>(g, name). JObj
     [(''map_uid'', JStr (md_map_uid g)), (''user_id'', uuid_json env (md_user_id g)),
      (''granted_by'', uuid_json env (md_granted_by g)), (''created_at'', time_json env (md_created_at g)),
      (''display_name'', opt_str name)])"

definition delegated_map_json :: "mod_env \<Rightarrow> map_meta \<times> delegate_row \<Rightarrow> json" where
  "delegated_map_json env = (\<lambda>(m, g). JObj (meta_fields env m @
     [(''granted_by'', uuid_json env (md_granted_by g)), (''created_at'', time_json env (md_created_at g))]))"

section \<open>Who is asking\<close>

definition SESSION_COOKIE :: string where "SESSION_COOKIE = ''dd2_session''"
definition OAUTH_STATE_COOKIE :: string where "OAUTH_STATE_COOKIE = ''dd2_oauth_state''"

definition split_once :: "char \<Rightarrow> string \<Rightarrow> (string \<times> string) option" where
  "split_once c s =
     (if c \<in> set s then Some (takeWhile (\<lambda>x. x \<noteq> c) s, tl (dropWhile (\<lambda>x. x \<noteq> c) s)) else None)"

definition cookie_value :: "string \<Rightarrow> string \<Rightarrow> string option" where
  "cookie_value header name =
     first_some (\<lambda>part.
       case split_once (CHR ''='') (trim part) of
         None \<Rightarrow> None
       | Some (cookie_name, value) \<Rightarrow> if cookie_name = name then Some value else None)
     (split_on (CHR '';'') header)"

definition web_session_user ::
    "mod_env \<Rightarrow> nat \<Rightarrow> string option \<Rightarrow> 'z mod_db_scheme \<Rightarrow> (uuid \<times> string) option" where
  "web_session_user env now cookie d =
     Option.bind cookie (\<lambda>header.
     Option.bind (cookie_value header SESSION_COOKIE) (\<lambda>sid.
     Option.bind (parsed_uuid env sid) (\<lambda>sid.
       case fst (get_web_session now sid d) of Inl _ \<Rightarrow> None | Inr u \<Rightarrow> u)))"

definition secure_cookie_suffix :: "tm_oauth_config \<Rightarrow> string" where
  "secure_cookie_suffix oauth = (if starts_with (oc_redirect_uri oauth) ''https://'' then ''; Secure'' else [])"

definition parse_ban_expires_at :: "mod_env \<Rightarrow> nat \<Rightarrow> string option \<Rightarrow> string + nat option" where
  "parse_ban_expires_at env now raw =
     (case raw of
        None \<Rightarrow> Inr None
      | Some r \<Rightarrow>
          let s = trim r
          in if s = [] then Inr None
             else
               (case or_else (me_rfc3339 env s) (or_else (me_naive_secs env s) (me_naive_minutes env s)) of
                  None \<Rightarrow> Inl (''invalid expires_at: '' @ s)
                | Some parsed \<Rightarrow>
                    if parsed \<le> now then Inl ''expires_at must be in the future'' else Inr (Some parsed)))"

definition refresh_map_meta :: "mod_env \<Rightarrow> nat \<Rightarrow> string \<Rightarrow> ('z mod_db_scheme, string, map_meta) db_action" where
  "refresh_map_meta env now map_uid =
     (if \<not> me_nadeo_configured env
      then and_then (map_err (me_show_error env) (get_map_meta map_uid)) (\<lambda>m.
             case m of Some m \<Rightarrow> Ok m | None \<Rightarrow> Err ''map meta missing and Nadeo client not configured'')
      else
        (case author_id_for_uid (me_parse_uuid env) (me_map_info env) map_uid of
           Inl e \<Rightarrow> Err e
         | Inr (author, info) \<Rightarrow>
             map_err (me_show_error env)
               (upsert_map_meta now map_uid author (li_name info) (li_thumbnail_url info))))"

definition ensure_map_meta :: "mod_env \<Rightarrow> nat \<Rightarrow> string \<Rightarrow> ('z mod_db_scheme, string, map_meta) db_action" where
  "ensure_map_meta env now map_uid =
     and_then (map_err (me_show_error env) (get_map_meta map_uid)) (\<lambda>found.
       case found of
         Some m \<Rightarrow>
           if int now - int (days 7) < int (mm_fetched_at m) then Ok m
           else refresh_map_meta env now map_uid
       | None \<Rightarrow> refresh_map_meta env now map_uid)"

definition require_session :: "mod_env \<Rightarrow> nat \<Rightarrow> string option \<Rightarrow> ('z mod_db_scheme, http_resp, uuid \<times> string) db_action" where
  "require_session env now cookie = fetch (\<lambda>d. ok_or (json_err 401 ''not logged in'') (web_session_user env now cookie d))"

definition require_moderator ::
    "mod_env \<Rightarrow> nat \<Rightarrow> string \<Rightarrow> string option \<Rightarrow> ('z mod_db_scheme, http_resp, uuid) db_action" where
  "require_moderator env now map_uid cookie =
     and_then (require_session env now cookie) (\<lambda>(user, _).
     and_then (attempt (ensure_map_meta env now map_uid)) (\<lambda>_.
     and_then (server_err env (can_moderate_map map_uid user)) (\<lambda>ok.
       if ok then Ok user else Err (json_err 403 ''not a moderator for this map''))))"

definition require_super_mod :: "mod_env \<Rightarrow> nat \<Rightarrow> string option \<Rightarrow> ('z mod_db_scheme, http_resp, uuid) db_action" where
  "require_super_mod env now cookie =
     and_then (require_session env now cookie) (\<lambda>(user, _).
     and_then (server_err env (is_super_mod user)) (\<lambda>ok.
       if ok then Ok user else Err (json_err 403 ''super-mod only'')))"

text \<open>
  The target of a request, by its id or by its display name; the three handlers that take one
  differ in the text for an unknown name only.
\<close>

record target_body =
  tb_user_id :: "string option"
  tb_display_name :: "string option"

definition resolve_target :: "mod_env \<Rightarrow> string \<Rightarrow> target_body \<Rightarrow> ('z mod_db_scheme, http_resp, uuid) db_action" where
  "resolve_target env unknown body =
     (case tb_user_id body of
        Some i \<Rightarrow>
          (case parsed_uuid env i of Some u \<Rightarrow> Ok u | None \<Rightarrow> Err (json_err 400 ''invalid user_id''))
      | None \<Rightarrow>
          (case tb_display_name body of
             Some name \<Rightarrow>
               and_then (server_err env (find_user_id_by_display_name name)) (\<lambda>found.
                 case found of Some u \<Rightarrow> Ok u | None \<Rightarrow> Err (json_err 404 unknown))
           | None \<Rightarrow> Err (json_err 400 ''user_id or display_name required'')))"

text \<open>The trail is written after the change; its own failure is ignored.\<close>

definition audited ::
    "nat \<Rightarrow> uuid \<Rightarrow> string \<Rightarrow> string option \<Rightarrow> uuid \<Rightarrow> json \<Rightarrow> ('z mod_db_scheme, http_resp, http_resp) db_action" where
  "audited now actor action map_uid target detail =
     and_then (attempt (insert_audit_event now actor action map_uid (Some target) detail)) (\<lambda>_. Ok ok_true)"

section \<open>Bans and delegates\<close>

record create_ban_body =
  cb_target :: target_body
  cb_private_reason :: string
  cb_public_message :: string
  cb_expires_at :: "string option"

definition handle_list_bans :: "mod_env \<Rightarrow> nat \<Rightarrow> string option \<Rightarrow> string \<Rightarrow> 'z mod_db_scheme \<Rightarrow> http_resp \<times> 'z mod_db_scheme" where
  "handle_list_bans env now cookie map_uid = finish (
     and_then (require_moderator env now map_uid cookie) (\<lambda>_.
     and_then (server_err env (list_active_bans now map_uid)) (\<lambda>bans.
     Ok (json_ok (JArr (map (ban_json env) bans))))))"

definition handle_create_ban ::
    "mod_env \<Rightarrow> nat \<Rightarrow> string option \<Rightarrow> string \<Rightarrow> create_ban_body \<Rightarrow> 'z mod_db_scheme \<Rightarrow> http_resp \<times> 'z mod_db_scheme" where
  "handle_create_ban env now cookie map_uid body = finish (
     and_then (require_moderator env now map_uid cookie) (\<lambda>actor.
     if trim (cb_private_reason body) = [] \<or> trim (cb_public_message body) = []
     then Err (json_err 400 ''private_reason and public_message required'')
     else
       (case parse_ban_expires_at env now (cb_expires_at body) of
          Inl e \<Rightarrow> Err (json_err 400 e)
        | Inr expires_at \<Rightarrow>
            and_then (resolve_target env ''user not found by display name'' (cb_target body)) (\<lambda>target.
            and_then (server_err env (is_protected_from_map_ban map_uid target)) (\<lambda>protected.
            if protected then Err (json_err 403 ''cannot Map-Ban Map Author, Super-mod, or Map Delegate'')
            else
              and_then (server_err env (ensure_user_reference now target (tb_display_name (cb_target body)))) (\<lambda>_.
              and_then (server_err env (apply_map_ban now map_uid target actor (trim (cb_private_reason body))
                  (trim (cb_public_message body)) expires_at)) (\<lambda>_.
              audited now actor ''ban.create'' (Some map_uid) target
                (JObj [(''private_reason'', JStr (trim (cb_private_reason body))),
                   (''public_message'', JStr (trim (cb_public_message body))),
                   (''expires_at'', opt_time env expires_at)]))))))))"

definition handle_lift_ban ::
    "mod_env \<Rightarrow> nat \<Rightarrow> string option \<Rightarrow> string \<Rightarrow> string \<Rightarrow> bool \<Rightarrow> 'z mod_db_scheme \<Rightarrow> http_resp \<times> 'z mod_db_scheme" where
  "handle_lift_ban env now cookie map_uid user_id keep_unofficial = finish (
     and_then (require_moderator env now map_uid cookie) (\<lambda>actor.
     case parsed_uuid env user_id of
       None \<Rightarrow> Err (json_err 400 ''invalid user_id'')
     | Some target \<Rightarrow>
         and_then (server_err env (lift_map_ban now map_uid target actor keep_unofficial)) (\<lambda>lifted.
         if lifted
         then audited now actor ''ban.lift'' (Some map_uid) target
                (JObj [(''keep_unofficial'', JBool keep_unofficial)])
         else Err (json_err 404 ''no active Map Ban''))))"

definition handle_list_delegates :: "mod_env \<Rightarrow> nat \<Rightarrow> string option \<Rightarrow> string \<Rightarrow> 'z mod_db_scheme \<Rightarrow> http_resp \<times> 'z mod_db_scheme" where
  "handle_list_delegates env now cookie map_uid = finish (
     and_then (require_moderator env now map_uid cookie) (\<lambda>_.
     and_then (server_err env (list_delegates map_uid)) (\<lambda>ds.
     Ok (json_ok (JArr (map (delegate_json env) ds))))))"

text \<open>A delegate moderates the map, but only its author and the super-mods choose delegates.\<close>

definition require_owner ::
    "mod_env \<Rightarrow> nat \<Rightarrow> string \<Rightarrow> string option \<Rightarrow> string \<Rightarrow> ('z mod_db_scheme, http_resp, uuid) db_action" where
  "require_owner env now map_uid cookie refusal =
     and_then (require_moderator env now map_uid cookie) (\<lambda>actor.
     and_then (or_false (is_super_mod actor)) (\<lambda>is_sm.
     and_then (or_false (is_map_author map_uid actor)) (\<lambda>is_author.
       if \<not> is_sm \<and> \<not> is_author then Err (json_err 403 refusal) else Ok actor)))"

definition handle_add_delegate ::
    "mod_env \<Rightarrow> nat \<Rightarrow> string option \<Rightarrow> string \<Rightarrow> target_body \<Rightarrow> 'z mod_db_scheme \<Rightarrow> http_resp \<times> 'z mod_db_scheme" where
  "handle_add_delegate env now cookie map_uid body = finish (
     and_then (require_owner env now map_uid cookie ''only Map Author or Super-mod can add Delegates'') (\<lambda>actor.
     and_then (resolve_target env ''user not found'' body) (\<lambda>target.
     and_then (server_err env (get_active_ban now map_uid target)) (\<lambda>ban.
       if ban \<noteq> None then Err (json_err 409 ''lift the active Map Ban before adding this Delegate'')
       else
         and_then (server_err env (ensure_user_reference now target (tb_display_name body))) (\<lambda>_.
         and_then (server_err env (add_delegate now map_uid target actor)) (\<lambda>_.
         audited now actor ''delegate.add'' (Some map_uid) target (JObj [])))))))"

definition handle_remove_delegate ::
    "mod_env \<Rightarrow> nat \<Rightarrow> string option \<Rightarrow> string \<Rightarrow> string \<Rightarrow> 'z mod_db_scheme \<Rightarrow> http_resp \<times> 'z mod_db_scheme" where
  "handle_remove_delegate env now cookie map_uid user_id = finish (
     and_then (require_owner env now map_uid cookie ''only Map Author or Super-mod can remove Delegates'') (\<lambda>actor.
     case parsed_uuid env user_id of
       None \<Rightarrow> Err (json_err 400 ''invalid user_id'')
     | Some target \<Rightarrow>
         and_then (server_err env (remove_delegate map_uid target)) (\<lambda>_.
         audited now actor ''delegate.remove'' (Some map_uid) target (JObj []))))"

section \<open>Super-mods\<close>

definition handle_add_super_mod ::
    "mod_env \<Rightarrow> nat \<Rightarrow> string option \<Rightarrow> target_body \<Rightarrow> 'z mod_db_scheme \<Rightarrow> http_resp \<times> 'z mod_db_scheme" where
  "handle_add_super_mod env now cookie body = finish (
     and_then (require_super_mod env now cookie) (\<lambda>actor.
     and_then (resolve_target env ''user not found'' body) (\<lambda>target.
     and_then (server_err env (ensure_user_reference now target (tb_display_name body))) (\<lambda>_.
     and_then (server_err env (add_super_mod now target actor)) (\<lambda>_.
     audited now actor ''super_mod.add'' None target (JObj []))))))"

text \<open>
  The removal of a super-mod: the checks, with the count of those there are, and the removal are
  statements of their own.
\<close>

definition remove_super_mod_check ::
    "mod_env \<Rightarrow> nat \<Rightarrow> string option \<Rightarrow> string \<Rightarrow> ('z mod_db_scheme, http_resp, uuid \<times> uuid) db_action" where
  "remove_super_mod_check env now cookie user_id =
     and_then (require_super_mod env now cookie) (\<lambda>actor.
     case parsed_uuid env user_id of
       None \<Rightarrow> Err (json_err 400 ''invalid user_id'')
     | Some target \<Rightarrow>
         and_then (server_err env count_super_mods) (\<lambda>count.
           if count \<le> 1 then Err (json_err 409 ''cannot remove the last Super-mod'') else Ok (actor, target)))"

definition remove_super_mod_commit ::
    "mod_env \<Rightarrow> nat \<Rightarrow> uuid \<times> uuid \<Rightarrow> ('z mod_db_scheme, http_resp, http_resp) db_action" where
  "remove_super_mod_commit env now = (\<lambda>(actor, target).
     and_then (server_err env (remove_super_mod target)) (\<lambda>removed.
       if removed then audited now actor ''super_mod.remove'' None target (JObj [])
       else Err (json_err 404 ''not a Super-mod'')))"

definition handle_remove_super_mod ::
    "mod_env \<Rightarrow> nat \<Rightarrow> string option \<Rightarrow> string \<Rightarrow> 'z mod_db_scheme \<Rightarrow> http_resp \<times> 'z mod_db_scheme" where
  "handle_remove_super_mod env now cookie user_id = finish (
     and_then (remove_super_mod_check env now cookie user_id) (remove_super_mod_commit env now))"

end
