(* ===== verification/Moderation_Web.thy ===== *)
theory Moderation_Web
  imports Moderation_Http
begin

text \<open>
  The rest of the moderation interface, \<open>src/moderation_http.rs\<close> and \<open>src/tm_oauth.rs\<close>: logging in
  and out of the browser session, the pages of moderators and super-mods, the recheck of a map's
  comment, and the routes.  \<open>fresh\<close> is the random UUID a request draws, \<open>inst\<close> the monotonic clock.
\<close>

section \<open>Logging in\<close>

text \<open>\<open>urlencoding_encode\<close> works on characters, and writes the low byte of their code points.\<close>

fun code_points :: "nat list \<Rightarrow> nat list" where
  "code_points (b # c # d # e # bs) =
     (if b < 128 then b # code_points (c # d # e # bs)
      else if b < 224 then ((b - 192) * 64 + (c - 128)) # code_points (d # e # bs)
      else if b < 240 then ((b - 224) * 4096 + (c - 128) * 64 + (d - 128)) # code_points (e # bs)
      else ((b - 240) * 262144 + (c - 128) * 4096 + (d - 128) * 64 + (e - 128)) # code_points bs)"
| "code_points (b # c # d # bs) =
     (if b < 128 then b # code_points (c # d # bs)
      else if b < 224 then ((b - 192) * 64 + (c - 128)) # code_points (d # bs)
      else ((b - 224) * 4096 + (c - 128) * 64 + (d - 128)) # code_points bs)"
| "code_points (b # c # bs) =
     (if b < 128 then b # code_points (c # bs) else ((b - 192) * 64 + (c - 128)) # code_points bs)"
| "code_points bs = bs"

definition hex_digit :: "nat \<Rightarrow> char" where
  "hex_digit n = (if n < 10 then char_of (48 + n) else char_of (55 + n))"

definition unreserved :: "nat \<Rightarrow> bool" where
  "unreserved c \<longleftrightarrow> 65 \<le> c \<and> c \<le> 90 \<or> 97 \<le> c \<and> c \<le> 122 \<or> 48 \<le> c \<and> c \<le> 57 \<or> c \<in> {45, 95, 46, 126}"

definition urlencoding_encode :: "string \<Rightarrow> string" where
  "urlencoding_encode s = concat (map (\<lambda>c.
     if unreserved c then [char_of c]
     else [CHR ''%'', hex_digit (c mod 256 div 16), hex_digit (c mod 16)]) (code_points (codes s)))"

definition authorize_url :: "tm_oauth_config \<Rightarrow> string \<Rightarrow> string" where
  "authorize_url oauth state =
     ''https://api.trackmania.com/oauth/authorize?response_type=code&client_id='' @
     urlencoding_encode (oc_client_id oauth) @ ''&redirect_uri='' @ urlencoding_encode (oc_redirect_uri oauth) @
     ''&state='' @ urlencoding_encode state"

definition found_at :: "string \<Rightarrow> string list \<Rightarrow> http_resp" where
  "found_at url cookies = \<lparr>hp_status = 302, hp_location = Some url, hp_cookies = cookies, hp_body = None\<rparr>"

definition handle_oauth_start :: "mod_env \<Rightarrow> nat \<Rightarrow> uuid \<Rightarrow> 'z mod_db_scheme \<Rightarrow> http_resp \<times> 'z mod_db_scheme" where
  "handle_oauth_start env now fresh = finish (
     case me_oauth env of
       None \<Rightarrow> Err (json_err 503 ''TM OAuth not configured'')
     | Some oauth \<Rightarrow>
         let st = we_show_uuid (me_wf env) fresh
         in and_then (server_err env (save_oauth_state st (now + minutes 10))) (\<lambda>_.
              Ok (found_at (authorize_url oauth st)
                [OAUTH_STATE_COOKIE @ ''='' @ st @ ''; Path=/api/mod/oauth/callback; HttpOnly; SameSite=Lax; Max-Age=600'' @
                 secure_cookie_suffix oauth])))"

text \<open>A rejection is answered by the router of \<open>src/http.rs\<close>.\<close>

datatype warp_reply = RejectNotFound | Reply http_resp

definition oauth_login ::
    "mod_env \<Rightarrow> nat \<Rightarrow> uuid \<Rightarrow> tm_oauth_config \<Rightarrow> string option \<Rightarrow> string \<Rightarrow> string \<Rightarrow>
     ('z mod_db_scheme, http_resp, http_resp) db_action" where
  "oauth_login env now fresh oauth cookie code st =
     (if Option.bind cookie (\<lambda>header. cookie_value header OAUTH_STATE_COOKIE) \<noteq> Some st
      then Err (json_err 400 ''oauth state does not match browser'')
      else
        and_then (server_err env (take_oauth_state now st)) (\<lambda>taken.
        if \<not> taken then Err (json_err 400 ''invalid oauth state'')
        else
          (case bind_res (me_exchange_code env oauth code) (\<lambda>token.
                bind_res (me_fetch_user env token) (\<lambda>user.
                bind_res (me_parse_uuid env (tu_account_id user)) (\<lambda>user_id. Inr (user, user_id)))) of
             Inl e \<Rightarrow> Err (json_err 502 e)
           | Inr (user, user_id) \<Rightarrow>
               and_then (server_err env (ensure_user now user_id (tu_display_name user))) (\<lambda>_.
               and_then (server_err env (create_web_session now fresh user_id (tu_display_name user) (now + days 14))) (\<lambda>_.
               Ok (found_at ''/admin''
                 [SESSION_COOKIE @ ''='' @ we_show_uuid (me_wf env) fresh @
                    ''; Path=/; HttpOnly; SameSite=Lax; Max-Age=1209600'' @ secure_cookie_suffix oauth,
                  OAUTH_STATE_COOKIE @ ''=; Path=/api/mod/oauth/callback; HttpOnly; SameSite=Lax; Max-Age=0'' @
                    secure_cookie_suffix oauth]))))))"

definition handle_oauth_callback ::
    "mod_env \<Rightarrow> nat \<Rightarrow> uuid \<Rightarrow> string option \<Rightarrow> string option \<Rightarrow> string option \<Rightarrow> string option \<Rightarrow>
     'z mod_db_scheme \<Rightarrow> warp_reply \<times> 'z mod_db_scheme" where
  "handle_oauth_callback env now fresh cookie code state error d =
     (case error of
        Some e \<Rightarrow> (Reply (json_err 400 (''oauth error: '' @ e)), d)
      | None \<Rightarrow>
          (case me_oauth env of
             None \<Rightarrow> (Reply (json_err 503 ''TM OAuth not configured''), d)
           | Some oauth \<Rightarrow>
               (case (code, state) of
                  (Some code, Some st) \<Rightarrow>
                    (let (r, d1) = finish (oauth_login env now fresh oauth cookie code st) d in (Reply r, d1))
                | _ \<Rightarrow> (RejectNotFound, d))))"

definition handle_logout :: "mod_env \<Rightarrow> string option \<Rightarrow> 'z mod_db_scheme \<Rightarrow> http_resp \<times> 'z mod_db_scheme" where
  "handle_logout env cookie d =
     ((json_ok (JObj [(''ok'', JBool True)]))\<lparr>hp_cookies := [SESSION_COOKIE @ ''=; Path=/; HttpOnly; Max-Age=0'']\<rparr>,
      case Option.bind cookie (\<lambda>header.
             Option.bind (first_some (\<lambda>p. strip_prefix (SESSION_COOKIE @ ''='') (trim p)) (split_on (CHR '';'') header))
               (parsed_uuid env)) of
        None \<Rightarrow> d
      | Some sid \<Rightarrow> snd (delete_web_session sid d :: (db_error + unit) \<times> _))"

section \<open>Pages of users and moderators\<close>

definition handle_me :: "mod_env \<Rightarrow> nat \<Rightarrow> string option \<Rightarrow> 'z mod_db_scheme \<Rightarrow> http_resp \<times> 'z mod_db_scheme" where
  "handle_me env now cookie = finish (
     and_then (require_session env now cookie) (\<lambda>(user, name).
     and_then (or_false (is_super_mod user)) (\<lambda>is_sm.
     Ok (json_ok (JObj [(''wsid'', uuid_json env user), (''display_name'', JStr name), (''is_super_mod'', JBool is_sm)])))))"

definition handle_get_map :: "mod_env \<Rightarrow> nat \<Rightarrow> string option \<Rightarrow> string \<Rightarrow> 'z mod_db_scheme \<Rightarrow> http_resp \<times> 'z mod_db_scheme" where
  "handle_get_map env now cookie map_uid = finish (
     and_then (require_session env now cookie) (\<lambda>(user, _).
     and_then (map_err (json_err 502) (ensure_map_meta env now map_uid)) (\<lambda>meta.
     and_then (attempt (get_user_display_name (mm_author_id meta))) (\<lambda>author_name.
     and_then (or_false (is_super_mod user)) (\<lambda>is_sm.
     and_then (or_false (is_map_author map_uid user)) (\<lambda>is_author.
     and_then (or_false (is_map_delegate map_uid user)) (\<lambda>is_delegate.
     Ok (json_ok (JObj [(''meta'', JObj (meta_fields env meta)),
       (''author_display_name'', opt_str (case author_name of Inl _ \<Rightarrow> None | Inr n \<Rightarrow> n)),
       (''can_moderate'', JBool (is_sm \<or> is_author \<or> is_delegate)), (''is_author'', JBool is_author),
       (''is_delegate'', JBool is_delegate), (''is_super_mod'', JBool is_sm)])))))))))"

definition handle_my_maps :: "mod_env \<Rightarrow> nat \<Rightarrow> string option \<Rightarrow> 'z mod_db_scheme \<Rightarrow> http_resp \<times> 'z mod_db_scheme" where
  "handle_my_maps env now cookie = finish (
     and_then (require_session env now cookie) (\<lambda>(user, _).
     and_then (server_err env (list_maps_by_author (me_wf env) user)) (\<lambda>authored.
     and_then (server_err env (list_delegated_maps (me_wf env) user)) (\<lambda>delegated.
     Ok (json_ok (JObj [(''authored'', JArr (map (\<lambda>m. JObj (meta_fields env m)) authored)),
       (''delegated'', JArr (map (delegated_map_json env) delegated))]))))))"

section \<open>Pages of super-mods\<close>

definition clamp :: "int \<Rightarrow> int \<Rightarrow> int \<Rightarrow> int" where
  "clamp lo hi x = (if x < lo then lo else if hi < x then hi else x)"

definition super_ban_json :: "mod_env \<Rightarrow> super_ban_row \<Rightarrow> json" where
  "super_ban_json env b = JObj
     [(''map_uid'', JStr (sb_map_uid b)), (''map_name'', opt_str (sb_map_name b)),
      (''user_id'', uuid_json env (sb_user_id b)), (''display_name'', opt_str (sb_display_name b)),
      (''private_reason'', JStr (sb_private_reason b)), (''public_message'', JStr (sb_public_message b)),
      (''created_by'', uuid_json env (sb_created_by b)), (''created_by_name'', opt_str (sb_created_by_name b)),
      (''created_at'', time_json env (sb_created_at b)), (''expires_at'', opt_time env (sb_expires_at b))]"

definition super_user_json :: "mod_env \<Rightarrow> super_user_info \<Rightarrow> json" where
  "super_user_json env u = JObj
     [(''user_id'', uuid_json env (su_user_id u)), (''display_name'', JStr (su_display_name u)),
      (''is_super_mod'', JBool (su_is_super_mod u)), (''authored_maps'', JPos (su_authored_maps u)),
      (''active_bans'', JPos (su_active_bans u)), (''delegate_seats'', JPos (su_delegate_seats u))]"

definition map_admin_author_json :: "mod_env \<Rightarrow> map_admin_author \<Rightarrow> json" where
  "map_admin_author_json env a = JObj
     [(''author_id'', uuid_json env (aa_author_id a)), (''display_name'', opt_str (aa_display_name a)),
      (''map_count'', JPos (aa_map_count a))]"

definition map_admin_delegate_json :: "mod_env \<Rightarrow> map_admin_delegate \<Rightarrow> json" where
  "map_admin_delegate_json env a = JObj
     [(''map_uid'', JStr (da_map_uid a)), (''map_name'', opt_str (da_map_name a)),
      (''user_id'', uuid_json env (da_user_id a)), (''display_name'', opt_str (da_display_name a)),
      (''granted_by'', uuid_json env (da_granted_by a)), (''granted_by_name'', opt_str (da_granted_by_name a)),
      (''created_at'', time_json env (da_created_at a))]"

definition super_mod_json :: "mod_env \<Rightarrow> super_mod_row \<times> string \<Rightarrow> json" where
  "super_mod_json env = (\<lambda>(s, name). JObj
     [(''user_id'', uuid_json env (sm_user_id s)), (''display_name'', JStr name),
      (''granted_by'', opt_uuid env (sm_granted_by s)), (''created_at'', time_json env (sm_created_at s))])"

definition audit_event_json :: "mod_env \<Rightarrow> audit_event \<times> string option \<times> string option \<Rightarrow> json" where
  "audit_event_json env = (\<lambda>(e, actor, target). JObj
     [(''id'', JPos (ev_id e)), (''at'', time_json env (ev_at e)), (''actor_id'', uuid_json env (ev_actor_id e)),
      (''actor_name'', opt_str actor), (''action'', JStr (ev_action e)), (''map_uid'', opt_str (ev_map_uid e)),
      (''target_user_id'', opt_uuid env (ev_target_user_id e)), (''target_name'', opt_str target),
      (''detail'', ev_detail e)])"

definition super_page ::
    "mod_env \<Rightarrow> nat \<Rightarrow> string option \<Rightarrow> ('z mod_db_scheme, http_resp, json) db_action \<Rightarrow>
     'z mod_db_scheme \<Rightarrow> http_resp \<times> 'z mod_db_scheme" where
  "super_page env now cookie page = finish (
     and_then (require_super_mod env now cookie) (\<lambda>_. and_then page (\<lambda>v. Ok (json_ok v))))"

definition rows_page :: "mod_env \<Rightarrow> ('a \<Rightarrow> json) \<Rightarrow> ('d, db_error, 'a list) db_action \<Rightarrow> ('d, http_resp, json) db_action" where
  "rows_page env to_json q = and_then (server_err env q) (\<lambda>rows. Ok (JArr (map to_json rows)))"

definition handle_super_maps ::
    "mod_env \<Rightarrow> nat \<Rightarrow> string option \<Rightarrow> string \<Rightarrow> int \<Rightarrow> 'z mod_db_scheme \<Rightarrow> http_resp \<times> 'z mod_db_scheme" where
  "handle_super_maps env now cookie q n = super_page env now cookie (rows_page env (\<lambda>m. JObj (meta_fields env m))
     (search_map_meta (me_ilike env) (me_wf env) q (nat (clamp 1 500 n))))"

definition handle_super_users ::
    "mod_env \<Rightarrow> nat \<Rightarrow> string option \<Rightarrow> string \<Rightarrow> int \<Rightarrow> 'z mod_db_scheme \<Rightarrow> http_resp \<times> 'z mod_db_scheme" where
  "handle_super_users env now cookie q n = super_page env now cookie
     (if trim q = [] then Ok (JArr [])
      else
        (case parsed_uuid env (trim q) of
           Some uid \<Rightarrow>
             and_then (server_err env (get_super_user_info now uid)) (\<lambda>info.
               Ok (JArr (case info of None \<Rightarrow> [] | Some i \<Rightarrow> [super_user_json env i])))
         | None \<Rightarrow>
             rows_page env (super_user_json env)
               (search_users (me_ilike env) (me_wf env) now (trim q) (nat (clamp 1 100 n)))))"

definition handle_super_map_admins :: "mod_env \<Rightarrow> nat \<Rightarrow> string option \<Rightarrow> 'z mod_db_scheme \<Rightarrow> http_resp \<times> 'z mod_db_scheme" where
  "handle_super_map_admins env now cookie = super_page env now cookie
     (and_then (rows_page env (map_admin_author_json env) (list_map_admin_authors (me_wf env))) (\<lambda>authors.
      and_then (rows_page env (map_admin_delegate_json env) list_map_admin_delegates) (\<lambda>delegates.
      Ok (JObj [(''authors'', authors), (''delegates'', delegates)]))))"

definition handle_super_bans :: "mod_env \<Rightarrow> nat \<Rightarrow> string option \<Rightarrow> int \<Rightarrow> 'z mod_db_scheme \<Rightarrow> http_resp \<times> 'z mod_db_scheme" where
  "handle_super_bans env now cookie n = super_page env now cookie
     (rows_page env (super_ban_json env) (list_active_bans_global now (nat (clamp 1 500 n))))"

definition handle_super_audit :: "mod_env \<Rightarrow> nat \<Rightarrow> string option \<Rightarrow> int \<Rightarrow> 'z mod_db_scheme \<Rightarrow> http_resp \<times> 'z mod_db_scheme" where
  "handle_super_audit env now cookie n = super_page env now cookie
     (rows_page env (audit_event_json env) (list_audit_events (nat (clamp 1 500 n))))"

definition handle_list_super_mods :: "mod_env \<Rightarrow> nat \<Rightarrow> string option \<Rightarrow> 'z mod_db_scheme \<Rightarrow> http_resp \<times> 'z mod_db_scheme" where
  "handle_list_super_mods env now cookie = super_page env now cookie
     (rows_page env (super_mod_json env) (list_super_mods_detailed (me_wf env)))"

section \<open>Rechecking the comment of a map\<close>

definition RECHECK_BIND_COOLDOWN :: nat where "RECHECK_BIND_COOLDOWN = secs 10"

definition show_int :: "int \<Rightarrow> string" where
  "show_int i = (if i < 0 then CHR ''-'' # show_nat (nat (- i)) else show_nat (nat i))"

definition show_bool :: "bool \<Rightarrow> string" where
  "show_bool b = (if b then ''true'' else ''false'')"

fun show_outcome :: "comment_bind_outcome \<Rightarrow> string" where
  "show_outcome (Bound i m r) =
     ''bound spec '' @ show_int i @ '' (materialized: '' @ show_bool m @ '', replaced previous: '' @ show_bool r @ '')''"
| "show_outcome NotOnNadeo = ''map is not on Nadeo yet''"
| "show_outcome NoComment = ''map has no comment''"
| "show_outcome NoDppUrl = ''comment has no Dips++ url''"
| "show_outcome CommentSpecNotFound = ''comment url does not resolve to a spec''"
| "show_outcome (OffNadeo e) = ''Nadeo lookup failed: '' @ e"

definition recheck_resp :: "comment_bind_outcome \<Rightarrow> json" where
  "recheck_resp outcome = JObj (
     (''outcome'', JStr (show_outcome outcome)) #
     (case outcome of
        Bound i _ r \<Rightarrow> [(''bound'', JBool True), (''spec_id'', if i < 0 then JNeg i else JPos (nat i)),
          (''replaced_previous'', JBool r)]
      | _ \<Rightarrow> [(''bound'', JBool False), (''spec_id'', JNull), (''replaced_previous'', JNull)]))"

definition recheck_admit :: "nat \<Rightarrow> uuid \<Rightarrow> (uuid, nat) hash_map \<Rightarrow> (uuid, nat) hash_map option" where
  "recheck_admit inst user cooldowns =
     (if (case map_of cooldowns user of None \<Rightarrow> False | Some until \<Rightarrow> inst < until) then None
      else
        let c = AList.update user (inst + RECHECK_BIND_COOLDOWN) cooldowns
        in Some (if 8192 < length c then hm_retain (\<lambda>_ until. inst < until) c else c))"

definition handle_recheck_bind ::
    "mod_env \<Rightarrow> nat \<Rightarrow> nat \<Rightarrow> string option \<Rightarrow> string \<Rightarrow> 'z mod_server_scheme \<Rightarrow> http_resp \<times> 'z mod_server_scheme" where
  "handle_recheck_bind env now inst cookie map_uid s =
     (case web_session_user env now cookie s of
        None \<Rightarrow> (json_err 401 ''not logged in'', s)
      | Some (user, _) \<Rightarrow>
          (case recheck_admit inst user (recheck_cooldowns s) of
             None \<Rightarrow> (json_err 429 ''wait before rechecking again'', s)
           | Some c \<Rightarrow>
               let s1 = s\<lparr>recheck_cooldowns := c\<rparr>
               in if length map_uid \<noteq> 27 then (json_err 400 ''map uid must be 27 characters'', s1)
                  else if \<not> me_nadeo_configured env
                  then (json_err 502 ''Nadeo client not configured on this host'', s1)
                  else
                    (case try_comment_bind (me_wf env) now (me_fmt_bind_error env) (parsed_uuid env)
                            (me_comment env map_uid) map_uid s1 of
                       ((outcome, _), s2) \<Rightarrow> (json_ok (recheck_resp outcome), s2))))"

section \<open>The routes\<close>

datatype mod_request =
    OauthStart
  | OauthCallback "string option" "string option" "string option"
  | Logout
  | Me
  | MyMaps
  | GetMap string
  | ListBans string
  | CreateBan string create_ban_body
  | LiftBan string string bool
  | ListDelegates string
  | AddDelegate string target_body
  | RemoveDelegate string string
  | SuperMaps string int
  | SuperUsers string int
  | SuperMapAdmins
  | SuperBans int
  | SuperAudit int
  | ListSuperMods
  | AddSuperMod target_body
  | RemoveSuperMod string
  | RecheckBind string

definition replied :: "http_resp \<times> 'd \<Rightarrow> warp_reply \<times> 'd" where
  "replied = (\<lambda>(r, d). (Reply r, d))"

fun route ::
    "mod_env \<Rightarrow> nat \<Rightarrow> nat \<Rightarrow> uuid \<Rightarrow> string option \<Rightarrow> mod_request \<Rightarrow> 'z mod_server_scheme \<Rightarrow>
     warp_reply \<times> 'z mod_server_scheme" where
  "route env now inst fresh cookie OauthStart s = replied (handle_oauth_start env now fresh s)"
| "route env now inst fresh cookie (OauthCallback code state error) s =
     handle_oauth_callback env now fresh cookie code state error s"
| "route env now inst fresh cookie Logout s = replied (handle_logout env cookie s)"
| "route env now inst fresh cookie Me s = replied (handle_me env now cookie s)"
| "route env now inst fresh cookie MyMaps s = replied (handle_my_maps env now cookie s)"
| "route env now inst fresh cookie (GetMap m) s = replied (handle_get_map env now cookie m s)"
| "route env now inst fresh cookie (ListBans m) s = replied (handle_list_bans env now cookie m s)"
| "route env now inst fresh cookie (CreateBan m body) s = replied (handle_create_ban env now cookie m body s)"
| "route env now inst fresh cookie (LiftBan m u keep) s = replied (handle_lift_ban env now cookie m u keep s)"
| "route env now inst fresh cookie (ListDelegates m) s = replied (handle_list_delegates env now cookie m s)"
| "route env now inst fresh cookie (AddDelegate m body) s = replied (handle_add_delegate env now cookie m body s)"
| "route env now inst fresh cookie (RemoveDelegate m u) s = replied (handle_remove_delegate env now cookie m u s)"
| "route env now inst fresh cookie (SuperMaps q n) s = replied (handle_super_maps env now cookie q n s)"
| "route env now inst fresh cookie (SuperUsers q n) s = replied (handle_super_users env now cookie q n s)"
| "route env now inst fresh cookie SuperMapAdmins s = replied (handle_super_map_admins env now cookie s)"
| "route env now inst fresh cookie (SuperBans n) s = replied (handle_super_bans env now cookie n s)"
| "route env now inst fresh cookie (SuperAudit n) s = replied (handle_super_audit env now cookie n s)"
| "route env now inst fresh cookie ListSuperMods s = replied (handle_list_super_mods env now cookie s)"
| "route env now inst fresh cookie (AddSuperMod body) s = replied (handle_add_super_mod env now cookie body s)"
| "route env now inst fresh cookie (RemoveSuperMod u) s = replied (handle_remove_super_mod env now cookie u s)"
| "route env now inst fresh cookie (RecheckBind m) s = replied (handle_recheck_bind env now inst cookie m s)"

end
