(* ===== verification/Action_Wp.thy ===== *)
theory Action_Wp
  imports Sqlx
begin

text \<open>
  Weakest preconditions of database actions: \<open>wp m Q d\<close> says that \<open>m\<close>, run on \<open>d\<close>, ends with a
  result and a state that satisfy \<open>Q\<close>.  The rules follow the code; what is known of an operation
  is used through \<open>wp_mono\<close>.
\<close>

definition wp :: "('d, 'e, 'a) db_action \<Rightarrow> ('e + 'a \<Rightarrow> 'd \<Rightarrow> bool) \<Rightarrow> 'd \<Rightarrow> bool" where
  "wp m Q d \<longleftrightarrow> Q (fst (m d)) (snd (m d))"

named_theorems wp_simps \<open>weakest preconditions along the code\<close>

lemma wp_ok [wp_simps]: "wp (Ok a) Q d \<longleftrightarrow> Q (Inr a) d"
  by (simp add: wp_def)

lemma wp_err [wp_simps]: "wp (Err e) Q d \<longleftrightarrow> Q (Inl e) d"
  by (simp add: wp_def)

lemma wp_fetch [wp_simps]: "wp (fetch q) Q d \<longleftrightarrow> Q (q d) d"
  by (simp add: wp_def)

lemma wp_execute [wp_simps]: "wp (execute u) Q d \<longleftrightarrow> Q (Inr ()) (u d)"
  by (simp add: wp_def)

lemma wp_and_then [wp_simps]:
  "wp (and_then m f) Q d \<longleftrightarrow> wp m (\<lambda>r d1. case r of Inl e \<Rightarrow> Q (Inl e) d1 | Inr a \<Rightarrow> wp (f a) Q d1) d"
  by (simp add: wp_def and_then_def split: prod.split sum.split)

lemma wp_map_err [wp_simps]:
  "wp (map_err h m) Q d \<longleftrightarrow> wp m (\<lambda>r d1. case r of Inl e \<Rightarrow> Q (Inl (h e)) d1 | Inr a \<Rightarrow> Q (Inr a) d1) d"
  by (simp add: wp_def map_err_def split: prod.split sum.split)

lemma wp_attempt [wp_simps]: "wp (attempt m) Q d \<longleftrightarrow> wp m (\<lambda>r d1. Q (Inr r) d1) d"
  by (simp add: wp_def attempt_def split: prod.split)

lemma wp_in_tx [wp_simps]:
  "wp (in_tx m) Q d \<longleftrightarrow> wp m (\<lambda>r d1. case r of Inl e \<Rightarrow> Q (Inl e) d | Inr a \<Rightarrow> Q (Inr a) d1) d"
  by (simp add: wp_def in_tx_def split: prod.split sum.split)

lemma wp_if [wp_simps]: "wp (if b then m else n) Q d \<longleftrightarrow> (if b then wp m Q d else wp n Q d)"
  by simp

lemma wp_case_option:
  "wp (case x of None \<Rightarrow> m | Some a \<Rightarrow> f a) Q d \<longleftrightarrow> (case x of None \<Rightarrow> wp m Q d | Some a \<Rightarrow> wp (f a) Q d)"
  by (cases x) simp_all

lemma wp_case_sum:
  "wp (case x of Inl e \<Rightarrow> g e | Inr a \<Rightarrow> f a) Q d \<longleftrightarrow> (case x of Inl e \<Rightarrow> wp (g e) Q d | Inr a \<Rightarrow> wp (f a) Q d)"
  by (cases x) simp_all

lemma wp_case_prod: "wp (case x of (a, b) \<Rightarrow> f a b) Q d \<longleftrightarrow> (case x of (a, b) \<Rightarrow> wp (f a b) Q d)"
  by (cases x) simp

lemmas wp_case [wp_simps] = wp_case_option wp_case_sum wp_case_prod

lemma wp_mono: "wp m P d \<Longrightarrow> (\<And>r d'. P r d' \<Longrightarrow> Q r d') \<Longrightarrow> wp m Q d"
  by (simp add: wp_def)

lemma wp_conj: "wp m P d \<Longrightarrow> wp m Q d \<Longrightarrow> wp m (\<lambda>r d'. P r d' \<and> Q r d') d"
  by (simp add: wp_def)

lemma wpD: "wp m Q d \<Longrightarrow> m d = (r, d') \<Longrightarrow> Q r d'"
  by (simp add: wp_def)

lemma wp_keeps: "keeps I m \<Longrightarrow> I d \<Longrightarrow> wp m (\<lambda>_. I) d"
  by (simp add: wp_def keeps_def)

lemma keeps_wp: "(\<And>d. I d \<Longrightarrow> wp m (\<lambda>_. I) d) \<Longrightarrow> keeps I m"
  by (simp add: wp_def keeps_def)

text \<open>
  A frame: a reflexive and transitive relation between the states before and after, which an
  action stays in if its parts do.
\<close>

definition stays :: "('d \<Rightarrow> 'd \<Rightarrow> bool) \<Rightarrow> ('d, 'e, 'a) db_action \<Rightarrow> bool" where
  "stays R m \<longleftrightarrow> (\<forall>d. R d (snd (m d)))"

lemma staysI: "(\<And>d. R d (snd (m d))) \<Longrightarrow> stays R m"
  by (simp add: stays_def)

lemma staysD: "stays R m \<Longrightarrow> R d (snd (m d))"
  by (simp add: stays_def)

lemma stays_wp: "stays R m \<Longrightarrow> wp m (\<lambda>_. R d) d"
  by (simp add: wp_def stays_def)

locale frame =
  fixes R :: "'d \<Rightarrow> 'd \<Rightarrow> bool"
  assumes same: "R d d" and chain: "R d d1 \<Longrightarrow> R d1 d2 \<Longrightarrow> R d d2"
begin

lemma stays_ok: "stays R (Ok a)" by (rule staysI) (simp add: same)

lemma stays_err: "stays R (Err e)" by (rule staysI) (simp add: same)

lemma stays_fetch: "stays R (fetch q)" by (rule staysI) (simp add: same)

lemma stays_and_then: "stays R m \<Longrightarrow> (\<And>a. stays R (f a)) \<Longrightarrow> stays R (and_then m f)"
  by (auto simp: stays_def and_then_def split: prod.split sum.split) (metis chain snd_conv)+

lemma stays_in_tx: "stays R m \<Longrightarrow> stays R (in_tx m)"
  by (auto simp: stays_def in_tx_def same split: prod.split sum.split) (metis snd_conv)

lemma stays_map_err: "stays R m \<Longrightarrow> stays R (map_err h m)"
  by (auto simp: stays_def map_err_def split: prod.split sum.split) (metis snd_conv)+

lemma stays_attempt: "stays R m \<Longrightarrow> stays R (attempt m)"
  by (auto simp: stays_def attempt_def split: prod.split) (metis snd_conv)

lemma stays_if: "stays R m \<Longrightarrow> stays R n \<Longrightarrow> stays R (if b then m else n)"
  by simp

lemma stays_case_option: "stays R m \<Longrightarrow> (\<And>x. stays R (f x)) \<Longrightarrow> stays R (case y of None \<Rightarrow> m | Some x \<Rightarrow> f x)"
  by (cases y) simp_all

lemma stays_case_sum:
  "(\<And>e. stays R (g e)) \<Longrightarrow> (\<And>x. stays R (f x)) \<Longrightarrow> stays R (case y of Inl e \<Rightarrow> g e | Inr x \<Rightarrow> f x)"
  by (cases y) simp_all

lemma stays_case_prod: "(\<And>a b. stays R (f a b)) \<Longrightarrow> stays R (case y of (a, b) \<Rightarrow> f a b)"
  by (cases y) simp

lemmas stays_rules = stays_ok stays_err stays_fetch stays_and_then stays_in_tx stays_map_err
  stays_attempt stays_if stays_case_option stays_case_sum stays_case_prod

end

end
