(* ===== verification/Moderation_Properties.thy ===== *)
theory Moderation_Properties
  imports Moderation_Web Action_Wp
begin

text \<open>
  What the moderation interface guarantees: who can change what, what the trail records, what
  stays true of the tables whatever is requested, and what a browser login is worth.
\<close>

section \<open>Frames\<close>

text \<open>A calm step leaves the moderation tables alone; it may add users and map metadata.\<close>

definition calm :: "'z mod_db_scheme \<Rightarrow> 'z mod_db_scheme \<Rightarrow> bool" where
  "calm d d' \<longleftrightarrow> super_mods d' = super_mods d \<and> map_delegates d' = map_delegates d \<and> map_bans d' = map_bans d \<and>
     map_unofficial d' = map_unofficial d \<and> audit_events d' = audit_events d \<and> web_sessions d' = web_sessions d \<and>
     oauth_states d' = oauth_states d \<and> ur_id ` set (users d) \<subseteq> ur_id ` set (users d')"

interpretation calm: frame calm
  by unfold_locales (auto simp: calm_def)

lemma calm_users: "calm d d' \<Longrightarrow> has_user u d \<Longrightarrow> has_user u d'"
  by (auto simp: calm_def has_user_def)

lemma calm_roles: "calm d d' \<Longrightarrow> super_mod u d' = super_mod u d"
  "calm d d' \<Longrightarrow> delegate_of m u d' = delegate_of m u d"
  "calm d d' \<Longrightarrow> active_ban now m u d' = active_ban now m u d"
  by (simp_all add: calm_def super_mod_def delegate_of_def active_ban_def)

lemma calm_upsert_map_meta: "stays calm (upsert_map_meta now m a n t)"
  by (rule staysI) (auto simp: upsert_map_meta_def calm_def Let_def split: sum.split)

lemma calm_ensure_user_reference: "stays calm (ensure_user_reference now u n)"
  by (rule staysI) (auto simp: ensure_user_reference_def calm_def split: sum.split)

lemma fetch_by_text_stays: "R d d \<Longrightarrow> R d (snd (fetch_by_text s q d))"
  by (simp add: fetch_by_text_def)

lemma calm_fetch_by_text: "stays calm (fetch_by_text s q)"
  by (rule staysI) (rule fetch_by_text_stays, rule calm.same)

lemmas calm_intros = calm.stays_rules calm_upsert_map_meta calm_ensure_user_reference calm_fetch_by_text

lemma calm_ensure_map_meta: "stays calm (ensure_map_meta env now m)"
  unfolding ensure_map_meta_def refresh_map_meta_def get_map_meta_def by (intro calm_intros)

lemma calm_queries:
  "stays calm (is_super_mod u)" "stays calm (is_map_author m u)" "stays calm (is_map_delegate m u)"
  "stays calm (can_moderate_map m u)" "stays calm (is_protected_from_map_ban m u)"
  "stays calm (get_active_ban now m u)" "stays calm (find_user_id_by_display_name n)"
  "stays calm (require_session env now cookie)" "stays calm count_super_mods"
  unfolding is_super_mod_def is_map_author_def is_map_delegate_def can_moderate_map_def
    is_protected_from_map_ban_def get_active_ban_def find_user_id_by_display_name_def
    require_session_def count_super_mods_def
  by (intro calm_intros)+

lemma calm_require:
  "stays calm (require_moderator env now m cookie)" "stays calm (require_super_mod env now cookie)"
  "stays calm (require_owner env now m cookie refusal)" "stays calm (resolve_target env unknown body)"
  unfolding require_moderator_def require_super_mod_def require_owner_def resolve_target_def server_err_def or_false_def
  by (intro calm_intros calm_queries calm_ensure_map_meta)+

section \<open>Checks that passed\<close>

lemma can_moderate_map_True:
  "can_moderate_map m u d = (Inr True, d1) \<Longrightarrow> d1 = d \<and> (super_mod u d \<or> author_of m u d \<or> delegate_of m u d)"
  by (auto simp: can_moderate_map_def is_super_mod_def is_map_author_def is_map_delegate_def fetch_by_text_def
      res_iff split: if_splits)

lemma require_session_Inr:
  "require_session env now cookie d = (Inr (u, n), d1) \<longleftrightarrow> d1 = d \<and> web_session_user env now cookie d = Some (u, n)"
  by (auto simp: require_session_def res_iff)

lemma require_moderator_Inr:
  assumes "require_moderator env now m cookie d = (Inr actor, d1)"
  shows "calm d d1 \<and> (\<exists>name. web_session_user env now cookie d = Some (actor, name)) \<and>
    (super_mod actor d1 \<or> author_of m actor d1 \<or> delegate_of m actor d1)"
proof -
  have "calm d d1" using staysD [OF calm_require(1), of d env now m cookie] assms by simp
  then show ?thesis
    using assms
    by (auto simp: require_moderator_def require_session_Inr server_err_def res_iff split: if_splits
        dest!: can_moderate_map_True)
qed

lemma require_super_mod_Inr:
  assumes "require_super_mod env now cookie d = (Inr actor, d1)"
  shows "d1 = d \<and> (\<exists>name. web_session_user env now cookie d = Some (actor, name)) \<and> super_mod actor d"
  using assms by (auto simp: require_super_mod_def require_session_Inr server_err_def is_super_mod_def res_iff split: if_splits)

section \<open>The invariant of the tables\<close>

definition uid_fits :: "string \<Rightarrow> bool" where
  "uid_fits u \<longleftrightarrow> varchar_col 27 u = Inr u"

definition marked :: "string \<Rightarrow> uuid \<Rightarrow> 'z mod_db_scheme \<Rightarrow> bool" where
  "marked m u d \<longleftrightarrow> list_ex (is_mark_of m u) (map_unofficial d)"

definition metas_ok :: "'z mod_db_scheme \<Rightarrow> bool" where
  "metas_ok d \<longleftrightarrow> distinct (map mm_map_uid (map_metas d)) \<and> (\<forall>m\<in>set (map_metas d). uid_fits (mm_map_uid m))"

definition roles_ok :: "'z mod_db_scheme \<Rightarrow> bool" where
  "roles_ok d \<longleftrightarrow> distinct (map sm_user_id (super_mods d)) \<and> (\<forall>s\<in>set (super_mods d). has_user (sm_user_id s) d) \<and>
     distinct (map (\<lambda>g. (md_map_uid g, md_user_id g)) (map_delegates d)) \<and>
     (\<forall>g\<in>set (map_delegates d). uid_fits (md_map_uid g) \<and> has_user (md_user_id g) d)"

definition bans_ok :: "'z mod_db_scheme \<Rightarrow> bool" where
  "bans_ok d \<longleftrightarrow> distinct (map (\<lambda>b. (mb_map_uid b, mb_user_id b)) (map_bans d)) \<and>
     distinct (map (\<lambda>r. (mu_map_uid r, mu_user_id r)) (map_unofficial d)) \<and>
     (\<forall>b\<in>set (map_bans d). uid_fits (mb_map_uid b) \<and> has_user (mb_user_id b) d \<and>
        (mb_lifted_at b = None \<longrightarrow> marked (mb_map_uid b) (mb_user_id b) d))"

definition logins_ok :: "'z mod_db_scheme \<Rightarrow> bool" where
  "logins_ok d \<longleftrightarrow> distinct (map ws_session_id (web_sessions d)) \<and> (\<forall>s\<in>set (web_sessions d). has_user (ws_user_id s) d) \<and>
     distinct (map fst (oauth_states d))"

definition trail_ok :: "'z mod_db_scheme \<Rightarrow> bool" where
  "trail_ok d \<longleftrightarrow> distinct (map ev_id (audit_events d)) \<and> (\<forall>e\<in>set (audit_events d). ev_id e < audit_seq d)"

definition mod_inv :: "'z mod_db_scheme \<Rightarrow> bool" where
  "mod_inv d \<longleftrightarrow> metas_ok d \<and> roles_ok d \<and> bans_ok d \<and> logins_ok d \<and> trail_ok d"

lemmas inv_defs = metas_ok_def roles_ok_def bans_ok_def logins_ok_def trail_ok_def marked_def

lemma uid_fits_col: "varchar_col 27 m = Inr u \<Longrightarrow> uid_fits u"
proof -
  assume a: "varchar_col 27 m = Inr u"
  then have "char_count u \<le> 27" by (rule varchar_col_count)
  moreover have "CHR 0x00 \<notin> set u"
  proof -
    have "set (take_chars n s) \<subseteq> set s" for n s
      by (induction n s rule: take_chars.induct) (auto split: nat.splits)
    then show ?thesis using a by (auto simp: varchar_col_def split: if_splits)
  qed
  ultimately show ?thesis by (simp add: uid_fits_def varchar_col_short)
qed

lemma uid_fits_same: "uid_fits m \<Longrightarrow> varchar_col 27 m = Inr u \<Longrightarrow> u = m"
  by (simp add: uid_fits_def)

text \<open>One row per key: an upsert replaces it or adds it.\<close>

lemma has_user_frames [simp]:
  "has_user u (d\<lparr>map_metas := ms\<rparr>) = has_user u d" "has_user u (d\<lparr>super_mods := sm\<rparr>) = has_user u d"
  "has_user u (d\<lparr>map_delegates := dg\<rparr>) = has_user u d" "has_user u (d\<lparr>map_bans := bs\<rparr>) = has_user u d"
  "has_user u (d\<lparr>map_unofficial := un\<rparr>) = has_user u d" "has_user u (d\<lparr>web_sessions := ws\<rparr>) = has_user u d"
  "has_user u (d\<lparr>oauth_states := os\<rparr>) = has_user u d" "has_user u (d\<lparr>audit_seq := sq, audit_events := es\<rparr>) = has_user u d"
  "has_user u (d\<lparr>audit_seq := sq\<rparr>) = has_user u d"
  by (simp_all add: has_user_def)

lemma part_frames [simp]:
  "roles_ok (d\<lparr>map_metas := ms\<rparr>) = roles_ok d" "bans_ok (d\<lparr>map_metas := ms\<rparr>) = bans_ok d"
  "logins_ok (d\<lparr>map_metas := ms\<rparr>) = logins_ok d" "trail_ok (d\<lparr>map_metas := ms\<rparr>) = trail_ok d"
  "metas_ok (d\<lparr>super_mods := sm\<rparr>) = metas_ok d" "bans_ok (d\<lparr>super_mods := sm\<rparr>) = bans_ok d"
  "logins_ok (d\<lparr>super_mods := sm\<rparr>) = logins_ok d" "trail_ok (d\<lparr>super_mods := sm\<rparr>) = trail_ok d"
  "metas_ok (d\<lparr>map_delegates := dg\<rparr>) = metas_ok d" "bans_ok (d\<lparr>map_delegates := dg\<rparr>) = bans_ok d"
  "logins_ok (d\<lparr>map_delegates := dg\<rparr>) = logins_ok d" "trail_ok (d\<lparr>map_delegates := dg\<rparr>) = trail_ok d"
  "metas_ok (d\<lparr>map_bans := bs\<rparr>) = metas_ok d" "roles_ok (d\<lparr>map_bans := bs\<rparr>) = roles_ok d"
  "logins_ok (d\<lparr>map_bans := bs\<rparr>) = logins_ok d" "trail_ok (d\<lparr>map_bans := bs\<rparr>) = trail_ok d"
  "metas_ok (d\<lparr>map_unofficial := un\<rparr>) = metas_ok d" "roles_ok (d\<lparr>map_unofficial := un\<rparr>) = roles_ok d"
  "logins_ok (d\<lparr>map_unofficial := un\<rparr>) = logins_ok d" "trail_ok (d\<lparr>map_unofficial := un\<rparr>) = trail_ok d"
  "metas_ok (d\<lparr>web_sessions := ws\<rparr>) = metas_ok d" "roles_ok (d\<lparr>web_sessions := ws\<rparr>) = roles_ok d"
  "bans_ok (d\<lparr>web_sessions := ws\<rparr>) = bans_ok d" "trail_ok (d\<lparr>web_sessions := ws\<rparr>) = trail_ok d"
  "metas_ok (d\<lparr>oauth_states := os\<rparr>) = metas_ok d" "roles_ok (d\<lparr>oauth_states := os\<rparr>) = roles_ok d"
  "bans_ok (d\<lparr>oauth_states := os\<rparr>) = bans_ok d" "trail_ok (d\<lparr>oauth_states := os\<rparr>) = trail_ok d"
  "metas_ok (d\<lparr>audit_seq := sq, audit_events := es\<rparr>) = metas_ok d"
  "roles_ok (d\<lparr>audit_seq := sq, audit_events := es\<rparr>) = roles_ok d"
  "bans_ok (d\<lparr>audit_seq := sq, audit_events := es\<rparr>) = bans_ok d"
  "logins_ok (d\<lparr>audit_seq := sq, audit_events := es\<rparr>) = logins_ok d"
  "metas_ok (d\<lparr>audit_seq := sq\<rparr>) = metas_ok d" "roles_ok (d\<lparr>audit_seq := sq\<rparr>) = roles_ok d"
  "bans_ok (d\<lparr>audit_seq := sq\<rparr>) = bans_ok d" "logins_ok (d\<lparr>audit_seq := sq\<rparr>) = logins_ok d"
  by (simp_all add: inv_defs)

lemma mod_inv_users:
  "mod_inv d \<Longrightarrow> ur_id ` set (users d) \<subseteq> ur_id ` set us \<Longrightarrow> mod_inv (d\<lparr>users := us\<rparr>)"
  by (auto simp: mod_inv_def inv_defs has_user_def)

lemma upsert_map_meta_run:
  "\<exists>new. snd (upsert_map_meta now m a n t d) = d \<or> uid_fits (mm_map_uid new) \<and>
     snd (upsert_map_meta now m a n t d) =
       d\<lparr>map_metas := upsert_by (\<lambda>x. mm_map_uid x = mm_map_uid new) new (map_metas d)\<rparr>"
proof (cases "bind_res (varchar_col 27 m) (\<lambda>u. bind_res (text_opt_col n) (\<lambda>n. bind_res (text_opt_col t) (\<lambda>t. Inr (u, n, t))))")
  case (Inr r)
  obtain u n2 t2 where r: "r = (u, n2, t2)" by (metis prod.exhaust)
  have "uid_fits u" using Inr r by (auto simp: res_iff intro: uid_fits_col)
  then show ?thesis
    using Inr r
    by (intro exI [of _ "\<lparr>mm_map_uid = u, mm_author_id = a, mm_map_name = n2, mm_thumbnail_url = t2,
          mm_fetched_at = now, mm_updated_at = now\<rparr>"]) (simp add: upsert_map_meta_def Let_def)
qed (simp add: upsert_map_meta_def)

lemma metas_ok_upsert:
  "metas_ok d \<Longrightarrow> uid_fits (mm_map_uid new) \<Longrightarrow>
   metas_ok (d\<lparr>map_metas := upsert_by (\<lambda>x. mm_map_uid x = mm_map_uid new) new (map_metas d)\<rparr>)"
  by (auto simp: metas_ok_def intro: upsert_by_distinct dest: in_upsert_by)

lemma mod_inv_upsert_map_meta: "keeps mod_inv (upsert_map_meta now m a n t)"
proof (rule keepsI)
  fix d :: "'z mod_db_scheme" assume inv: "mod_inv d"
  show "mod_inv (snd (upsert_map_meta now m a n t d))"
    using upsert_map_meta_run [of now m a n t d] inv
    by (elim exE disjE conjE) (simp_all add: mod_inv_def metas_ok_upsert)
qed

lemma upd_users_ids:
  assumes "\<And>r. ur_id (f r) = ur_id r"
  shows "ur_id ` set (upd_where P f us) = ur_id ` set us"
proof -
  have "map ur_id (upd_where P f us) = map ur_id us" by (rule map_upd_where) (rule assms)
  then show ?thesis by (metis list.set_map)
qed

lemma mod_inv_ensure_user_reference: "keeps mod_inv (ensure_user_reference now u n)"
  unfolding ensure_user_reference_def
  by (rule keepsI) (auto split: sum.split intro!: mod_inv_users)

lemma mod_inv_ensure_user: "keeps mod_inv (ensure_user now u name)"
  unfolding ensure_user_def
  by (rule keepsI) (simp split: sum.split, intro conjI impI allI; rule mod_inv_users; auto simp: upd_users_ids)

lemma mod_inv_add_delegate: "keeps mod_inv (add_delegate now m u g)"
  by (rule keepsI)
     (auto simp: add_delegate_def mod_inv_def inv_defs has_user_def delegate_of_def list_ex_iff
       split: sum.split dest: uid_fits_col)

lemma mod_inv_remove_delegate: "keeps mod_inv (remove_delegate m u)"
  by (rule keepsI) (auto simp: remove_delegate_def mod_inv_def inv_defs has_user_def distinct_map_filter split: sum.split)

lemma mod_inv_super_mods: "keeps mod_inv (add_super_mod now u g)" "keeps mod_inv (remove_super_mod u)"
  by (rule keepsI, auto simp: add_super_mod_def remove_super_mod_def mod_inv_def inv_defs has_user_def super_mod_def
      list_ex_iff distinct_map_filter)+

lemma mod_inv_sessions:
  "keeps mod_inv (create_web_session now i u n t)" "keeps mod_inv (delete_web_session i)"
  "keeps mod_inv (save_oauth_state st t)" "keeps mod_inv (take_oauth_state now st)"
  by (rule keepsI, auto simp: create_web_session_def delete_web_session_def save_oauth_state_def take_oauth_state_def
      mod_inv_def inv_defs has_user_def distinct_map_filter split: sum.split)+

lemma mod_inv_insert_audit_event: "keeps mod_inv (insert_audit_event now a act m t det)"
  by (rule keepsI)
     (auto simp: insert_audit_event_def mod_inv_def inv_defs has_user_def Let_def split: sum.split option.split
       intro: less_SucI)

section \<open>Bans keep the invariant\<close>

lemma text_col_same: "text_col s = Inr t \<longleftrightarrow> t = s \<and> CHR 0x00 \<notin> set s"
  by (auto simp: text_col_def)

text \<open>What the transactions on bans do not touch.\<close>

definition bans_only :: "'z mod_db_scheme \<Rightarrow> 'z mod_db_scheme \<Rightarrow> bool" where
  "bans_only d d' \<longleftrightarrow> map_metas d' = map_metas d \<and> super_mods d' = super_mods d \<and> map_delegates d' = map_delegates d \<and>
     web_sessions d' = web_sessions d \<and> oauth_states d' = oauth_states d \<and> audit_events d' = audit_events d \<and>
     audit_seq d' = audit_seq d \<and> users d' = users d"

lemma bans_only_inv: "bans_only d d' \<Longrightarrow> mod_inv d \<Longrightarrow> bans_ok d' \<Longrightarrow> mod_inv d'"
  by (simp add: bans_only_def mod_inv_def metas_ok_def roles_ok_def logins_ok_def trail_ok_def has_user_def)

lemma bans_only_updates [simp]:
  "bans_only d (d1\<lparr>map_bans := bs\<rparr>) = bans_only d d1" "bans_only d (d1\<lparr>map_unofficial := us\<rparr>) = bans_only d d1"
  "bans_only d d"
  by (simp_all add: bans_only_def)

lemma upsert_ban_wp:
  "wp (upsert_ban new) Q d \<longleftrightarrow>
    (if \<not> has_user (mb_user_id new) d then Q (Inl (ForeignKeyViolation ''map_bans_user_id_fkey'')) d
     else if \<not> has_user (mb_created_by new) d then Q (Inl (ForeignKeyViolation ''map_bans_created_by_fkey'')) d
     else Q (Inr ()) (d\<lparr>map_bans := upsert_by (is_ban_of (mb_map_uid new) (mb_user_id new)) new (map_bans d)\<rparr>))"
  by (simp add: wp_def upsert_ban_def)

lemma upsert_mark_wp:
  "wp (upsert_mark new) Q d \<longleftrightarrow> Q (Inr ()) (d\<lparr>map_unofficial :=
     upsert_by (is_mark_of (mu_map_uid new) (mu_user_id new)) new (map_unofficial d)\<rparr>)"
  by (simp add: wp_def upsert_mark_def)

text \<open>What applying a ban does.\<close>

definition ban_applied ::
    "nat \<Rightarrow> string \<Rightarrow> uuid \<Rightarrow> uuid \<Rightarrow> string \<Rightarrow> string \<Rightarrow> nat option \<Rightarrow> 'z mod_db_scheme \<Rightarrow> string \<Rightarrow> 'z mod_db_scheme \<Rightarrow> bool" where
  "ban_applied now m user actor pr pm expires d uid d' \<longleftrightarrow>
     varchar_col 27 m = Inr uid \<and> CHR 0x00 \<notin> set pr \<and> CHR 0x00 \<notin> set pm \<and> has_user user d \<and> has_user actor d \<and> bans_only d d' \<and>
     map_bans d' = upsert_by (is_ban_of uid user) \<lparr>mb_map_uid = uid, mb_user_id = user, mb_private_reason = pr,
         mb_public_message = pm, mb_created_by = actor, mb_created_at = now, mb_expires_at = expires,
         mb_lifted_at = None, mb_lifted_by = None\<rparr> (map_bans d) \<and>
     map_unofficial d' = upsert_by (is_mark_of uid user) \<lparr>mu_map_uid = uid, mu_user_id = user,
         mu_source = ''ban'', mu_updated_at = now, mu_updated_by = Some actor\<rparr> (map_unofficial d)"

lemma apply_map_ban_wp:
  "wp (apply_map_ban now m user actor pr pm expires) (\<lambda>r d'. case r of Inl e \<Rightarrow> d' = d
      | Inr _ \<Rightarrow> \<exists>uid. ban_applied now m user actor pr pm expires d uid d') d"
proof (cases "varchar_col 27 m")
  case (Inl e)
  then show ?thesis by (simp add: apply_map_ban_def wp_simps)
next
  case (Inr uid)
  then show ?thesis
    by (simp add: apply_map_ban_def wp_simps upsert_ban_wp upsert_mark_wp text_col_def ban_applied_def)
qed

lemma marked_upsert:
  assumes un: "map_unofficial d' = upsert_by P new (map_unofficial d)"
    and "marked m u d \<or> is_mark_of m u new" "\<And>x. P x \<longleftrightarrow> is_mark_of (mu_map_uid new) (mu_user_id new) x"
  shows "marked m u d'"
proof (cases "is_mark_of m u new")
  case True
  then show ?thesis using new_in_upsert_by [of new P "map_unofficial d"] un by (auto simp: marked_def list_ex_iff)
next
  case False
  then obtain x where "x \<in> set (map_unofficial d)" "is_mark_of m u x" using assms(2) by (auto simp: marked_def list_ex_iff)
  moreover have "\<not> P x" using False calculation(2) assms(3) by (auto simp: is_mark_of_def)
  ultimately show ?thesis using old_in_upsert_by [of x "map_unofficial d" P new] un by (auto simp: marked_def list_ex_iff)
qed

lemma bans_ok_apply:
  assumes ok: "bans_ok d" and u: "uid_fits uid" "has_user user d" and us: "users d' = users d"
    and bans: "map_bans d' = upsert_by (is_ban_of uid user) b (map_bans d)"
    and marks: "map_unofficial d' = upsert_by (is_mark_of uid user) r (map_unofficial d)"
    and new: "mb_map_uid b = uid" "mb_user_id b = user" "mu_map_uid r = uid" "mu_user_id r = user"
  shows "bans_ok d'"
proof -
  have "uid_fits (mb_map_uid x) \<and> has_user (mb_user_id x) d' \<and>
      (mb_lifted_at x = None \<longrightarrow> marked (mb_map_uid x) (mb_user_id x) d')" if "x \<in> set (map_bans d')" for x
  proof -
    have "x = b \<or> x \<in> set (map_bans d)" using that unfolding bans by (rule in_upsert_by)
    then have "uid_fits (mb_map_uid x)" "has_user (mb_user_id x) d"
      "mb_lifted_at x = None \<Longrightarrow> marked (mb_map_uid x) (mb_user_id x) d \<or> is_mark_of (mb_map_uid x) (mb_user_id x) r"
      using ok u new by (auto simp: bans_ok_def is_mark_of_def)
    then show ?thesis using new us by (auto simp: has_user_def intro: marked_upsert [OF marks])
  qed
  moreover have "distinct (map (\<lambda>b. (mb_map_uid b, mb_user_id b)) (map_bans d'))"
    unfolding bans using ok new by (intro upsert_by_distinct) (auto simp: bans_ok_def is_ban_of_def)
  moreover have "distinct (map (\<lambda>r. (mu_map_uid r, mu_user_id r)) (map_unofficial d'))"
    unfolding marks using ok new by (intro upsert_by_distinct) (auto simp: bans_ok_def is_mark_of_def)
  ultimately show ?thesis by (simp add: bans_ok_def)
qed

lemma mod_inv_ban_applied:
  assumes inv: "mod_inv d" and ban: "ban_applied now m user actor pr pm expires d uid d'"
  shows "mod_inv d'"
proof -
  have "bans_ok d'"
    using inv ban uid_fits_col [of m uid]
    by (intro bans_ok_apply [of d uid user d' "\<lparr>mb_map_uid = uid, mb_user_id = user, mb_private_reason = pr,
         mb_public_message = pm, mb_created_by = actor, mb_created_at = now, mb_expires_at = expires,
         mb_lifted_at = None, mb_lifted_by = None\<rparr>" "\<lparr>mu_map_uid = uid, mu_user_id = user,
         mu_source = ''ban'', mu_updated_at = now, mu_updated_by = Some actor\<rparr>"])
       (simp_all add: mod_inv_def bans_only_def ban_applied_def)
  then show ?thesis using bans_only_inv ban inv unfolding ban_applied_def by blast
qed

lemma mod_inv_apply_map_ban: "keeps mod_inv (apply_map_ban now m user actor pr pm expires)"
  by (rule keeps_wp, rule wp_mono [OF apply_map_ban_wp]) (auto split: sum.splits intro: mod_inv_ban_applied)

definition ban_lifted ::
    "nat \<Rightarrow> string \<Rightarrow> uuid \<Rightarrow> uuid \<Rightarrow> bool \<Rightarrow> 'z mod_db_scheme \<Rightarrow> bool \<Rightarrow> 'z mod_db_scheme \<Rightarrow> bool" where
  "ban_lifted now m user actor keep d lifted d' \<longleftrightarrow>
     (lifted \<longleftrightarrow> length (filter (\<lambda>b. is_ban_of m user b \<and> ban_active now b) (map_bans d)) = 1) \<and> bans_only d d' \<and>
     map_bans d' = upd_where (\<lambda>b. is_ban_of m user b \<and> ban_active now b)
         (\<lambda>b. b\<lparr>mb_lifted_at := Some now, mb_lifted_by := Some actor\<rparr>) (map_bans d) \<and>
     map_unofficial d' = (if lifted \<and> \<not> keep then filter (\<lambda>r. \<not> is_mark_of m user r) (map_unofficial d)
         else map_unofficial d)"

lemma lift_map_ban_wp:
  "wp (lift_map_ban now m user actor keep) (\<lambda>r d'. case r of Inl e \<Rightarrow> d' = d
      | Inr lifted \<Rightarrow> ban_lifted now m user actor keep d lifted d') d"
proof (cases "text_col m")
  case (Inl e)
  then show ?thesis by (simp add: lift_map_ban_def wp_def in_tx_def)
next
  case (Inr x)
  then show ?thesis
    by (simp add: lift_map_ban_def wp_def in_tx_def Let_def ban_lifted_def)
qed
text \<open>There is at most one ban per player and map.\<close>

lemma bans_ok_lift:
  assumes ok: "bans_ok d"
    and lifted: "lifted \<longleftrightarrow> length (filter (\<lambda>b. is_ban_of m user b \<and> ban_active now b) (map_bans d)) = 1"
    and us: "users d' = users d"
    and bans: "map_bans d' = upd_where (\<lambda>b. is_ban_of m user b \<and> ban_active now b)
            (\<lambda>b. b\<lparr>mb_lifted_at := Some now, mb_lifted_by := Some actor\<rparr>) (map_bans d)"
    and marks: "map_unofficial d' = (if lifted \<and> \<not> keep then filter (\<lambda>r. \<not> is_mark_of m user r) (map_unofficial d)
            else map_unofficial d)"
  shows "bans_ok d'"
proof -
  let ?hit = "\<lambda>b. is_ban_of m user b \<and> ban_active now b"
  have keys: "map (\<lambda>b. (mb_map_uid b, mb_user_id b)) (map_bans d') = map (\<lambda>b. (mb_map_uid b, mb_user_id b)) (map_bans d)"
    unfolding bans by (rule map_upd_where) simp
  have standing: "x \<in> set (map_bans d) \<and> \<not> (is_ban_of m user x \<and> filter ?hit (map_bans d) \<noteq> [])"
    if "x \<in> set (map_bans d')" "mb_lifted_at x = None" for x
  proof -
    have x: "x \<in> set (map_bans d)" "\<not> ?hit x" using that by (auto simp: bans set_upd_where split: if_splits)
    have "\<not> is_ban_of m user x" if "b \<in> set (map_bans d)" "?hit b" for b
    proof
      assume "is_ban_of m user x"
      then have "(mb_map_uid x, mb_user_id x) = (mb_map_uid b, mb_user_id b)" using that by (simp add: is_ban_of_def)
      moreover have "inj_on (\<lambda>b. (mb_map_uid b, mb_user_id b)) (set (map_bans d))"
        using ok by (simp add: bans_ok_def distinct_map)
      ultimately have "x = b" using x(1) that(1) by (meson inj_onD)
      then show False using x(2) that(2) by simp
    qed
    then have "is_ban_of m user x \<Longrightarrow> filter ?hit (map_bans d) = []" unfolding filter_empty_conv by blast
    then show ?thesis using x(1) by blast
  qed
  have "marked (mb_map_uid x) (mb_user_id x) d'" if x: "x \<in> set (map_bans d')" "mb_lifted_at x = None" for x
  proof -
    have "marked (mb_map_uid x) (mb_user_id x) d" using standing [OF x] ok x(2) by (auto simp: bans_ok_def)
    moreover have "lifted \<longrightarrow> \<not> is_ban_of m user x" using standing [OF x] lifted by auto
    ultimately show ?thesis by (auto simp: marks marked_def list_ex_iff is_mark_of_def is_ban_of_def)
  qed
  moreover have "uid_fits (mb_map_uid x) \<and> has_user (mb_user_id x) d'" if "x \<in> set (map_bans d')" for x
    using that ok us by (auto simp: bans set_upd_where bans_ok_def has_user_def)
  moreover have "distinct (map (\<lambda>r. (mu_map_uid r, mu_user_id r)) (map_unofficial d'))"
    using ok by (simp add: marks bans_ok_def distinct_map_filter)
  ultimately show ?thesis using ok by (simp add: bans_ok_def keys)
qed

lemma mod_inv_ban_lifted:
  assumes inv: "mod_inv d" and lift: "ban_lifted now m user actor keep d lifted d'"
  shows "mod_inv d'"
proof -
  have "bans_ok d'"
    using inv lift by (intro bans_ok_lift [of d lifted m user now d' actor keep])
      (simp_all add: mod_inv_def bans_only_def ban_lifted_def)
  then show ?thesis using bans_only_inv lift inv unfolding ban_lifted_def by blast
qed

lemma mod_inv_lift_map_ban: "keeps mod_inv (lift_map_ban now m user actor keep)"
  by (rule keeps_wp, rule wp_mono [OF lift_map_ban_wp]) (auto split: sum.splits intro: mod_inv_ban_lifted)

end
