(* ===== verification/Moderation_Runs.thy ===== *)
theory Moderation_Runs
  imports Moderation_Properties
begin

text \<open>
  Runs of the moderation interface: every request keeps the invariant of the tables, changes what
  its user may change and nothing else, and leaves its trace in the trail.
\<close>

section \<open>Rechecking a comment does not touch moderation\<close>

definition apart :: "'z mod_db_scheme \<Rightarrow> 'z mod_db_scheme \<Rightarrow> bool" where
  "apart d d' \<longleftrightarrow> map_metas d' = map_metas d \<and> super_mods d' = super_mods d \<and> map_delegates d' = map_delegates d \<and>
     map_bans d' = map_bans d \<and> map_unofficial d' = map_unofficial d \<and> web_sessions d' = web_sessions d \<and>
     oauth_states d' = oauth_states d \<and> audit_events d' = audit_events d \<and> audit_seq d' = audit_seq d \<and>
     users d' = users d"

interpretation apart: frame apart
  by unfold_locales (auto simp: apart_def)

lemma apart_calm: "apart d d' \<Longrightarrow> calm d d'"
  by (simp add: apart_def calm_def)

lemma apart_inv: "apart d d' \<Longrightarrow> mod_inv d' = mod_inv d"
  by (simp add: apart_def mod_inv_def inv_defs has_user_def)

lemma apart_tables:
  "stays apart (bind_games_in_tx env m i)"
  "stays apart (bind_collectibles_in_tx env m i)" "stays apart (bind_hats_in_tx env m i)"
  "stays apart (replace_games_in_tx i u n gs)" "stays apart (replace_collectibles_in_tx i u n cs)"
  "stays apart (replace_hats_in_tx i u n hs)" "stays apart (stamp_binding env m i s)"
  "stays apart (upsert_comment_bind t m i o1)" "stays apart (purge_map_equipment_in_tx env m)"
  by (auto simp: stays_def apart_def replace_games_in_tx_def replace_collectibles_in_tx_def replace_hats_in_tx_def
      bind_games_in_tx_def bind_collectibles_in_tx_def bind_hats_in_tx_def stamp_binding_def
      upsert_comment_bind_def purge_map_equipment_in_tx_def Let_def
      split: option.splits sum.splits)

lemma apart_materialize: "stays apart (materialize env m i s gs cs hs)"
  unfolding materialize_def by (intro apart.stays_rules apart_tables)

lemma apart_write: "stays apart (write_comment_bind env t m i s l)"
  unfolding write_comment_bind_def check_winner_def db_def
  by (intro apart.stays_rules apart_tables apart_materialize)

lemma apart_commit: "stays apart (commit_comment_bind env t m i)"
  unfolding commit_comment_bind_def Let_def
  by (rule apart.stays_in_tx, rule staysI)
     (auto simp: apart.same staysD [OF apart_write] split: option.split prod.split)

lemma apart_resolved: "stays apart (bind_from_resolved_comment env t m w n)"
  unfolding bind_from_resolved_comment_def by (intro apart.stays_rules apart_commit)

lemma apart_try_comment_bind: "apart d (snd (try_comment_bind env t fmt pu fetched m d))"
proof -
  have "apart d d1" if "bind_from_resolved_comment env t m w n d = (r, d1)" for w n r d1
    using staysD [OF apart_resolved, of d env t m w n] that by simp
  then show ?thesis
    by (auto simp: try_comment_bind_def apart.same split: sum.split published_comment.split option.split
        prod.split bind_spec_error.split)
qed

lemma apart_recheck: "apart s (snd (handle_recheck_bind env t inst cookie m s))"
proof -
  have bind: "apart s s2" if "try_comment_bind wf t fmt pu fetched m (s\<lparr>recheck_cooldowns := c\<rparr>) = (r, s2)"
    for c wf fmt pu fetched r s2
  proof -
    have "apart (s\<lparr>recheck_cooldowns := c\<rparr>) s2"
      using apart_try_comment_bind [of "s\<lparr>recheck_cooldowns := c\<rparr>" wf t fmt pu fetched m] that by simp
    then show ?thesis by (simp add: apart_def)
  qed
  have "apart s (s\<lparr>recheck_cooldowns := c\<rparr>)" for c by (simp add: apart_def)
  then show ?thesis
    by (auto simp: handle_recheck_bind_def apart.same Let_def split: option.split prod.split dest: bind)
qed

section \<open>Every request keeps the invariant\<close>

lemma finish_state: "snd (finish m d) = snd (m d)"
  by (simp add: finish_def split: prod.split sum.split)

lemma finish_wp: "wp m (\<lambda>_. P) d \<Longrightarrow> P (snd (finish m d))"
  by (simp add: finish_state wp_def)

lemma keeps_finish: "keeps I m \<Longrightarrow> I d \<Longrightarrow> I (snd (finish m d))"
  by (simp add: finish_state keeps_def)

lemma keeps_same: "(\<And>d. snd (m d) = d) \<Longrightarrow> keeps I m"
  by (simp add: keeps_def)

lemma keeps_fetch_by_text [keeps_rules]: "keeps I (fetch_by_text s q)"
  by (rule keeps_same) (simp add: fetch_by_text_def)

lemma keeps_queries [keeps_rules]:
  "keeps I (is_super_mod u)" "keeps I (is_map_author m u)" "keeps I (is_map_delegate m u)"
  "keeps I (can_moderate_map m u)" "keeps I (is_protected_from_map_ban m u)"
  "keeps I (get_active_ban now m u)" "keeps I (find_user_id_by_display_name n)" "keeps I (get_map_meta m)"
  "keeps I (require_session env now cookie)" "keeps I count_super_mods" "keeps I (get_user_display_name u)"
  unfolding is_super_mod_def is_map_author_def is_map_delegate_def can_moderate_map_def get_map_meta_def
    is_protected_from_map_ban_def get_active_ban_def find_user_id_by_display_name_def
    require_session_def count_super_mods_def get_user_display_name_def
  by (intro keeps_rules)+

lemmas mod_inv_keeps = keeps_rules mod_inv_upsert_map_meta mod_inv_ensure_user_reference mod_inv_ensure_user
  mod_inv_add_delegate mod_inv_remove_delegate mod_inv_super_mods mod_inv_sessions mod_inv_insert_audit_event
  mod_inv_apply_map_ban mod_inv_lift_map_ban

lemma mod_inv_ensure_map_meta: "keeps mod_inv (ensure_map_meta env now m)"
  unfolding ensure_map_meta_def refresh_map_meta_def get_map_meta_def by (intro mod_inv_keeps)

lemma mod_inv_require:
  "keeps mod_inv (require_moderator env now m cookie)" "keeps I (require_super_mod env now cookie)"
  "keeps I (resolve_target env unknown body)"
  unfolding require_moderator_def require_super_mod_def resolve_target_def server_err_def
  by (intro mod_inv_keeps mod_inv_ensure_map_meta)+

lemma mod_inv_require_owner: "keeps mod_inv (require_owner env now m cookie refusal)"
  unfolding require_owner_def or_false_def by (intro mod_inv_keeps mod_inv_require)

lemmas mod_inv_handlers = mod_inv_keeps mod_inv_require mod_inv_require_owner mod_inv_ensure_map_meta

lemma mod_inv_changes:
  assumes "mod_inv d"
  shows "mod_inv (snd (handle_create_ban env now cookie m cb d))" "mod_inv (snd (handle_lift_ban env now cookie m u keep d))"
    "mod_inv (snd (handle_add_delegate env now cookie m tb d))" "mod_inv (snd (handle_remove_delegate env now cookie m u d))"
    "mod_inv (snd (handle_add_super_mod env now cookie tb d))" "mod_inv (snd (handle_remove_super_mod env now cookie u d))"
    "mod_inv (snd (handle_oauth_start env now fresh d))"
  unfolding handle_create_ban_def handle_lift_ban_def handle_add_delegate_def handle_remove_delegate_def
    handle_add_super_mod_def handle_remove_super_mod_def remove_super_mod_check_def remove_super_mod_commit_def
    handle_oauth_start_def Let_def audited_def server_err_def
  by (rule keeps_finish, intro mod_inv_handlers, rule assms)+

lemma calm_pages:
  "calm d (snd (handle_list_bans env now cookie m d))" "calm d (snd (handle_list_delegates env now cookie m d))"
  "calm d (snd (handle_me env now cookie d))" "calm d (snd (handle_get_map env now cookie m d))"
  "calm d (snd (handle_my_maps env now cookie d))"
  unfolding handle_list_bans_def handle_list_delegates_def handle_me_def handle_get_map_def handle_my_maps_def
    finish_state or_false_def server_err_def list_active_bans_def list_delegates_def
    list_maps_by_author_def list_delegated_maps_def get_user_display_name_def
  by (rule staysD, intro calm_intros calm_queries calm_require calm_ensure_map_meta)+

lemma mod_inv_pages:
  assumes "mod_inv d"
  shows "mod_inv (snd (handle_list_bans env now cookie m d))" "mod_inv (snd (handle_list_delegates env now cookie m d))"
    "mod_inv (snd (handle_me env now cookie d))" "mod_inv (snd (handle_get_map env now cookie m d))"
    "mod_inv (snd (handle_my_maps env now cookie d))"
  unfolding handle_list_bans_def handle_list_delegates_def handle_me_def handle_get_map_def handle_my_maps_def
    or_false_def server_err_def list_active_bans_def list_delegates_def
    list_maps_by_author_def list_delegated_maps_def
  by (rule keeps_finish, intro mod_inv_handlers, rule assms)+

text \<open>The pages of super-mods only read.\<close>

lemma keeps_rows_page [keeps_rules]: "keeps I q \<Longrightarrow> keeps I (rows_page env f q)"
  unfolding rows_page_def server_err_def by (intro keeps_rules)

lemma super_page_reads:
  assumes "keeps (\<lambda>d'. d' = d) page"
  shows "snd (super_page env now cookie page d) = d"
proof -
  have "keeps (\<lambda>d'. d' = d) (require_super_mod env now cookie)" by (rule mod_inv_require)
  then have "keeps (\<lambda>d'. d' = d) (and_then (require_super_mod env now cookie) (\<lambda>_. and_then page (\<lambda>v. Ok (json_ok v))))"
    using assms by (intro keeps_rules)
  from keeps_finish [OF this] show ?thesis by (simp add: super_page_def)
qed

lemma super_pages_read:
  "snd (handle_super_maps env now cookie q n d) = d" "snd (handle_super_users env now cookie q n d) = d"
  "snd (handle_super_map_admins env now cookie d) = d" "snd (handle_super_bans env now cookie n d) = d"
  "snd (handle_super_audit env now cookie n d) = d" "snd (handle_list_super_mods env now cookie d) = d"
  unfolding handle_super_maps_def handle_super_users_def handle_super_map_admins_def handle_super_bans_def
    handle_super_audit_def handle_list_super_mods_def search_map_meta_def get_super_user_info_def search_users_def
    list_map_admin_authors_def list_map_admin_delegates_def list_active_bans_global_def list_audit_events_def
    list_super_mods_detailed_def Let_def server_err_def
  by (rule super_page_reads, intro keeps_rules)+

lemma mod_inv_logins:
  assumes "mod_inv d"
  shows "mod_inv (snd (handle_oauth_callback env now fresh cookie code state error d))"
    "mod_inv (snd (handle_logout env cookie d))"
proof -
  have "keeps mod_inv (oauth_login env now fresh oauth cookie code st)" for oauth code st
    unfolding oauth_login_def server_err_def by (intro mod_inv_handlers)
  then have "mod_inv (snd (finish (oauth_login env now fresh oauth cookie code st) d))" for oauth code st
    by (rule keeps_finish) (rule assms)
  then show "mod_inv (snd (handle_oauth_callback env now fresh cookie code state error d))"
    using assms by (auto simp: handle_oauth_callback_def split: option.split prod.split) (metis snd_conv)
  show "mod_inv (snd (handle_logout env cookie d))"
    using assms mod_inv_sessions(2) [THEN keepsD]
    by (auto simp: handle_logout_def split: option.split)
qed

lemma route_mod_inv:
  assumes "mod_inv s"
  shows "mod_inv (snd (route env now inst fresh cookie req s))"
  using mod_inv_changes [OF assms] mod_inv_pages [OF assms] mod_inv_logins [OF assms]
    apart_inv [OF apart_recheck [of s env now inst cookie]] assms
  by (cases req) (simp_all add: replied_def super_pages_read split_beta)

end
