(* ===== verification/Moderation_Safety.thy ===== *)
theory Moderation_Safety
  imports Moderation_Runs
begin

text \<open>
  The properties of the moderation interface as a whole: changes are made by those who may make
  them and leave a trace; bans and delegates exclude each other; a browser login is worth what it
  was granted for.
\<close>

section \<open>Changes and their trace\<close>

definition unchanged :: "'z mod_db_scheme \<Rightarrow> 'z mod_db_scheme \<Rightarrow> bool" where
  "unchanged d d' \<longleftrightarrow> super_mods d' = super_mods d \<and> map_delegates d' = map_delegates d \<and>
     map_bans d' = map_bans d \<and> map_unofficial d' = map_unofficial d"

definition recorded ::
    "nat \<Rightarrow> uuid \<Rightarrow> string option \<Rightarrow> 'z mod_db_scheme \<Rightarrow> 'z mod_db_scheme \<Rightarrow> bool" where
  "recorded now u m d d' \<longleftrightarrow> (\<exists>e. audit_events d' = audit_events d @ [e] \<and> ev_at e = now \<and> ev_actor_id e = u \<and>
     ev_map_uid e = m)"

definition ban_change :: "string \<Rightarrow> 'z mod_db_scheme \<Rightarrow> 'z mod_db_scheme \<Rightarrow> bool" where
  "ban_change m d d' \<longleftrightarrow> super_mods d' = super_mods d \<and> map_delegates d' = map_delegates d \<and>
     filter (\<lambda>b. mb_map_uid b \<noteq> m) (map_bans d') = filter (\<lambda>b. mb_map_uid b \<noteq> m) (map_bans d) \<and>
     filter (\<lambda>r. mu_map_uid r \<noteq> m) (map_unofficial d') = filter (\<lambda>r. mu_map_uid r \<noteq> m) (map_unofficial d)"

definition delegate_change :: "string \<Rightarrow> 'z mod_db_scheme \<Rightarrow> 'z mod_db_scheme \<Rightarrow> bool" where
  "delegate_change m d d' \<longleftrightarrow> super_mods d' = super_mods d \<and> map_bans d' = map_bans d \<and> map_unofficial d' = map_unofficial d \<and>
     filter (\<lambda>g. md_map_uid g \<noteq> m) (map_delegates d') = filter (\<lambda>g. md_map_uid g \<noteq> m) (map_delegates d)"

definition super_change :: "'z mod_db_scheme \<Rightarrow> 'z mod_db_scheme \<Rightarrow> bool" where
  "super_change d d' \<longleftrightarrow> map_delegates d' = map_delegates d \<and> map_bans d' = map_bans d \<and> map_unofficial d' = map_unofficial d"

lemma calm_unchanged: "calm d d' \<Longrightarrow> unchanged d d'"
  by (simp add: calm_def unchanged_def)

lemma wp_seq:
  assumes "wp m (\<lambda>r d1. case r of Inl e \<Rightarrow> Q (Inl e) d1 | Inr a \<Rightarrow> wp (f a) Q d1) d"
  shows "wp (and_then m f) Q d"
  using assms by (simp add: wp_and_then)

text \<open>A step of a handler that stays in a frame, whatever it answers early.\<close>

context frame
begin

lemma wp_seq_in:
  assumes step: "stays R m" "keeps I m" and start: "R d0 d" "I d"
    and early: "\<And>e d1. R d0 d1 \<Longrightarrow> Q (Inl e) d1"
    and rest: "\<And>a d1. R d0 d1 \<Longrightarrow> I d1 \<Longrightarrow> m d = (Inr a, d1) \<Longrightarrow> wp (f a) Q d1"
  shows "wp (and_then m f) Q d"
proof -
  obtain r d1 where run: "m d = (r, d1)" by (metis surj_pair)
  have "R d0 d1" using chain [OF start(1) staysD [OF step(1), of d]] run by simp
  moreover have "I d1" using keepsD [OF step(2) start(2)] run by simp
  ultimately show ?thesis using run early rest by (cases r) (simp_all add: wp_def)
qed

end

text \<open>Once the map's metadata are looked up, only users are added before the change.\<close>

definition settled :: "'z mod_db_scheme \<Rightarrow> 'z mod_db_scheme \<Rightarrow> bool" where
  "settled d d' \<longleftrightarrow> calm d d' \<and> map_metas d' = map_metas d"

interpretation settled: frame settled
  by unfold_locales (auto simp: settled_def intro: calm.same calm.chain)

lemma settled_ensure_user_reference: "stays settled (ensure_user_reference now u n)"
  by (rule staysI) (auto simp: ensure_user_reference_def settled_def calm_def split: sum.split)

lemma settled_fetch_by_text: "stays settled (fetch_by_text s q)"
  by (rule staysI) (rule fetch_by_text_stays, rule settled.same)

lemma settled_steps:
  "stays settled (resolve_target env unknown body)" "stays settled (server_err env (is_protected_from_map_ban m u))"
  "stays settled (server_err env (get_active_ban now m u))" "stays settled (server_err env (ensure_user_reference now u n))"
  unfolding resolve_target_def is_protected_from_map_ban_def is_super_mod_def is_map_author_def is_map_delegate_def
    server_err_def find_user_id_by_display_name_def get_active_ban_def
  by (intro settled.stays_rules settled_fetch_by_text settled_ensure_user_reference)+

text \<open>The trace of a change that was made.\<close>

lemma audited_wp:
  assumes "CHR 0x00 \<notin> set action" "case m of None \<Rightarrow> True | Some u \<Rightarrow> uid_fits u" "\<not> json_has_nul detail"
    "has_user actor d" "has_user target d"
  shows "wp (audited now actor action m target detail) (\<lambda>r d'. unchanged d d' \<and> recorded now actor m d d') d"
proof (cases m)
  case None
  then show ?thesis
    using assms by (simp add: audited_def wp_def and_then_def attempt_def insert_audit_event_def text_col_def Let_def
        unchanged_def recorded_def)
next
  case (Some u)
  then show ?thesis
    using assms by (simp add: audited_def wp_def and_then_def attempt_def insert_audit_event_def text_col_def Let_def
        unchanged_def recorded_def uid_fits_def)
qed

text \<open>What a request did: nothing to the tables, or a change its user may make, on record.\<close>

definition answered_for ::
    "mod_env \<Rightarrow> nat \<Rightarrow> string option \<Rightarrow> string option \<Rightarrow> (uuid \<Rightarrow> 'z mod_db_scheme \<Rightarrow> bool) \<Rightarrow>
     'z mod_db_scheme \<Rightarrow> 'z mod_db_scheme \<Rightarrow> bool" where
  "answered_for env now cookie m change d d' \<longleftrightarrow> unchanged d d' \<or>
     (\<exists>u name. web_session_user env now cookie d = Some (u, name) \<and> change u d' \<and> recorded now u m d d')"

lemma calm_answered: "calm d d' \<Longrightarrow> answered_for env now cookie m change d d'"
  by (simp add: answered_for_def calm_unchanged)

lemma filter_upsert_other:
  assumes "\<And>x. P x \<Longrightarrow> \<not> R x" "\<not> R new"
  shows "filter R (upsert_by P new rows) = filter R rows"
  using assms by (auto simp: upsert_by_def intro!: filter_upd_where_other)

lemma session_has_user:
  "logins_ok d \<Longrightarrow> web_session_user env now cookie d = Some (u, name) \<Longrightarrow> has_user u d"
  by (auto simp: web_session_user_def get_web_session_def live_session_def logins_ok_def find_Some_iff Option.bind_eq_Some_conv
      dest: nth_mem)

lemma take_chars_prefix: "take_chars n s = take (length (take_chars n s)) s"
  by (induction n s rule: take_chars.induct) (auto split: nat.splits)

text \<open>A path segment of a request holds no blank, so a uid that is stored is stored as it is.\<close>

definition plain :: "string \<Rightarrow> bool" where
  "plain m \<longleftrightarrow> CHR '' '' \<notin> set m"

lemma plain_fits:
  assumes "plain m" "varchar_col 27 m = Inr u"
  shows "u = m" "uid_fits m"
proof -
  show "u = m"
  proof (cases "char_count m \<le> 27")
    case False
    then have "set (drop (length (take_chars 27 m)) m) \<subseteq> {CHR '' ''}" and u: "u = take_chars 27 m"
      using assms(2) by (auto simp: varchar_col_def split: if_splits)
    moreover have "set (drop (length (take_chars 27 m)) m) \<subseteq> set m" by (rule set_drop_subset)
    ultimately have "drop (length (take_chars 27 m)) m = []"
      using assms(1) unfolding plain_def by (cases "drop (length (take_chars 27 m)) m") auto
    then show ?thesis using u take_chars_prefix [of 27 m] by simp
  qed (use assms(2) in \<open>auto simp: varchar_col_def split: if_splits\<close>)
  then show "uid_fits m" using assms(2) by (simp add: uid_fits_def)
qed

lemma wp_seq_server:
  assumes "wp m (\<lambda>r d1. case r of Inl e \<Rightarrow> Q (Inl (json_err 500 (me_show_error env e))) d1 | Inr a \<Rightarrow> wp (f a) Q d1) d"
  shows "wp (and_then (server_err env m) f) Q d"
  unfolding server_err_def wp_and_then wp_map_err
  by (rule wp_mono [OF assms]) (auto split: sum.splits)

lemma audited_unchanged: "wp (audited now actor action m target detail) (\<lambda>r d'. unchanged d d') d"
  by (auto simp: audited_def wp_def and_then_def attempt_def insert_audit_event_def Let_def unchanged_def
      split: sum.split option.split prod.split)

lemma audited_metas: "map_metas (snd (audited now actor action m target detail d)) = map_metas d"
  by (auto simp: audited_def and_then_def attempt_def insert_audit_event_def Let_def
      split: sum.split option.split prod.split)

text \<open>The user of a request that passed its checks.\<close>

definition in_charge ::
    "mod_env \<Rightarrow> nat \<Rightarrow> string option \<Rightarrow> string \<Rightarrow> uuid \<Rightarrow> 'z mod_db_scheme \<Rightarrow> 'z mod_db_scheme \<Rightarrow> bool" where
  "in_charge env now cookie m u d0 d \<longleftrightarrow> calm d0 d \<and> (\<exists>name. web_session_user env now cookie d0 = Some (u, name)) \<and>
     has_user u d \<and> (super_mod u d0 \<or> author_of m u d \<or> delegate_of m u d0)"

lemma in_charge_start:
  assumes "require_moderator env now m cookie d = (Inr u, d1)" "mod_inv d"
  shows "in_charge env now cookie m u d d1"
  using require_moderator_Inr [OF assms(1)] session_has_user [of d env now cookie u] assms(2)
  by (auto simp: in_charge_def calm_roles mod_inv_def intro: calm_users)

lemma in_charge_settled: "in_charge env now cookie m u d0 d1 \<Longrightarrow> settled d1 d \<Longrightarrow> in_charge env now cookie m u d0 d"
  unfolding in_charge_def settled_def author_of_def by (auto intro: calm.chain calm_users)

section \<open>Bans\<close>

definition may_moderate :: "string \<Rightarrow> 'z mod_db_scheme \<Rightarrow> uuid \<Rightarrow> 'z mod_db_scheme \<Rightarrow> bool" where
  "may_moderate m d u d' \<longleftrightarrow> super_mod u d \<or> delegate_of m u d \<or> author_of m u d'"

lemma audited_answered:
  assumes u: "in_charge env now cookie m0 actor d0 d"
    and d1: "audit_events d1 = audit_events d" "users d1 = users d"
    and ok: "CHR 0x00 \<notin> set action" "case m of None \<Rightarrow> True | Some u \<Rightarrow> uid_fits u" "\<not> json_has_nul detail"
      "has_user target d"
    and change: "\<And>d2. unchanged d1 d2 \<Longrightarrow> map_metas d2 = map_metas d1 \<Longrightarrow> change actor d2"
  shows "wp (audited now actor action m target detail) (\<lambda>_. answered_for env now cookie m change d0) d1"
proof -
  have "has_user actor d1" "has_user target d1" using u ok(4) d1(2) by (simp_all add: in_charge_def has_user_def)
  note trace = audited_wp [OF ok(1-3) this, of now]
  have "wp (audited now actor action m target detail) (\<lambda>r d2. map_metas d2 = map_metas d1) d1"
    by (simp add: wp_def audited_metas)
  from wp_conj [OF trace this] show ?thesis
  proof (rule wp_mono, elim conjE)
    fix d2 assume "unchanged d1 d2" "recorded now actor m d1 d2" "map_metas d2 = map_metas d1"
    then show "answered_for env now cookie m change d0 d2"
      using u d1(1) change [of d2] unfolding answered_for_def recorded_def in_charge_def by (auto simp: calm_def)
  qed
qed

lemma audited_nothing:
  assumes "calm d0 d" "unchanged d d1"
  shows "wp (audited now actor action m target detail) (\<lambda>_. answered_for env now cookie m change d0) d1"
  by (rule wp_mono [OF audited_unchanged]) (use assms in \<open>auto simp: answered_for_def unchanged_def calm_def\<close>)

lemma ban_applied_change:
  assumes "ban_applied now m target actor pr pm expires d m d1" "calm d0 d" "unchanged d1 d2"
  shows "ban_change m d0 d2"
proof -
  have "filter (\<lambda>b. mb_map_uid b \<noteq> m) (map_bans d1) = filter (\<lambda>b. mb_map_uid b \<noteq> m) (map_bans d)"
    "filter (\<lambda>r. mu_map_uid r \<noteq> m) (map_unofficial d1) = filter (\<lambda>r. mu_map_uid r \<noteq> m) (map_unofficial d)"
    using assms(1) unfolding ban_applied_def
    by (auto simp: is_ban_of_def is_mark_of_def intro!: filter_upsert_other)
  then show ?thesis using assms by (simp add: ban_change_def ban_applied_def bans_only_def calm_def unchanged_def)
qed

lemma apply_map_ban_answered:
  assumes u: "in_charge env now cookie m actor d0 d" and plain: "plain m"
    and detail: "CHR 0x00 \<notin> set pr \<Longrightarrow> CHR 0x00 \<notin> set pm \<Longrightarrow> \<not> json_has_nul detail"
  shows "wp (and_then (server_err env (apply_map_ban now m target actor pr pm expires))
      (\<lambda>_. audited now actor ''ban.create'' (Some m) target detail))
    (\<lambda>_. answered_for env now cookie (Some m) (\<lambda>u d'. may_moderate m d0 u d' \<and> ban_change m d0 d') d0) d"
proof (rule wp_seq_server, rule wp_mono [OF apply_map_ban_wp])
  fix r :: "db_error + unit" and d1
  let ?Q = "answered_for env now cookie (Some m) (\<lambda>u d'. may_moderate m d0 u d' \<and> ban_change m d0 d') d0"
  assume run: "case r of Inl e \<Rightarrow> d1 = d | Inr _ \<Rightarrow> \<exists>uid. ban_applied now m target actor pr pm expires d uid d1"
  have calm: "calm d0 d" using u by (simp add: in_charge_def)
  show "case r of Inl e \<Rightarrow> ?Q d1 | Inr a \<Rightarrow> wp (audited now actor ''ban.create'' (Some m) target detail) (\<lambda>_. ?Q) d1"
  proof (cases r)
    case (Inl e)
    then show ?thesis using run calm_answered [OF calm] by simp
  next
    case (Inr x)
    then obtain uid where uid: "ban_applied now m target actor pr pm expires d uid d1" using run by auto
    then have fits: "uid = m" "uid_fits m" using plain_fits [OF plain] unfolding ban_applied_def by blast+
    have "may_moderate m d0 actor d2 \<and> ban_change m d0 d2" if "unchanged d1 d2" "map_metas d2 = map_metas d1" for d2
      using ban_applied_change [OF uid [unfolded fits(1)] calm that(1)] u uid that(2)
      by (auto simp: in_charge_def may_moderate_def ban_applied_def bans_only_def author_of_def)
    then have "wp (audited now actor ''ban.create'' (Some m) target detail) (\<lambda>_. ?Q) d1"
      using uid fits(2) detail
      by (intro audited_answered [OF u]) (auto simp: ban_applied_def bans_only_def)
    then show ?thesis using Inr by simp
  qed
qed

text \<open>
  The proof of a handler follows its code: the branches, the settled steps and their early
  answers; what is left is the change.
\<close>

lemma wp_ifI: "(b \<Longrightarrow> wp m Q d) \<Longrightarrow> (\<not> b \<Longrightarrow> wp n Q d) \<Longrightarrow> wp (if b then m else n) Q d"
  by simp

lemma wp_optionI:
  "(y = None \<Longrightarrow> wp m Q d) \<Longrightarrow> (\<And>x. y = Some x \<Longrightarrow> wp (f x) Q d) \<Longrightarrow> wp (case y of None \<Rightarrow> m | Some x \<Rightarrow> f x) Q d"
  by (cases y) simp_all

lemma wp_sumI:
  "(\<And>e. y = Inl e \<Longrightarrow> wp (g e) Q d) \<Longrightarrow> (\<And>x. y = Inr x \<Longrightarrow> wp (f x) Q d) \<Longrightarrow>
   wp (case y of Inl e \<Rightarrow> g e | Inr x \<Rightarrow> f x) Q d"
  by (cases y) simp_all

lemmas wp_branches = wp_ifI wp_optionI wp_sumI

lemma wp_early:
  assumes "\<And>d. calm d0 d \<Longrightarrow> Q d" and "calm d0 d1" "settled d1 d"
  shows "wp (Err e) (\<lambda>_. Q) d"
  unfolding wp_err by (rule assms(1), rule calm.chain [OF assms(2)]) (use assms(3) in \<open>simp add: settled_def\<close>)

lemma wp_seq_settled:
  assumes "stays settled m" "keeps mod_inv m" and early: "\<And>d. calm d0 d \<Longrightarrow> Q d"
    and start: "calm d0 d1" "settled d1 d" "mod_inv d"
    and rest: "\<And>a d2. settled d1 d2 \<Longrightarrow> mod_inv d2 \<Longrightarrow> m d = (Inr a, d2) \<Longrightarrow> wp (f a) (\<lambda>_. Q) d2"
  shows "wp (and_then m f) (\<lambda>_. Q) d"
proof (rule settled.wp_seq_in [OF assms(1,2) start(2,3)])
  show "Q d2" if "settled d1 d2" for e :: http_resp and d2
    by (rule early, rule calm.chain [OF start(1)]) (use that in \<open>simp add: settled_def\<close>)
qed (rule rest)

lemma mod_inv_steps:
  "keeps mod_inv (resolve_target env unknown body)" "keeps mod_inv (server_err env (is_protected_from_map_ban m u))"
  "keeps mod_inv (server_err env (get_active_ban now m u))" "keeps mod_inv (server_err env (ensure_user_reference now u n))"
  unfolding server_err_def by (intro mod_inv_handlers)+

lemma ban_detail_has_no_nul:
  assumes "CHR 0x00 \<notin> set r" "CHR 0x00 \<notin> set p" "\<And>t. CHR 0x00 \<notin> set (me_show_time env t)"
  shows "\<not> json_has_nul (JObj [(''private_reason'', JStr r), (''public_message'', JStr p), (''expires_at'', opt_time env e)])"
  using assms by (simp add: opt_time_def time_json_def split: option.split)

lemma create_ban_answered:
  assumes inv: "mod_inv d" and plain: "plain m" and time: "\<And>t. CHR 0x00 \<notin> set (me_show_time env t)"
  shows "answered_for env now cookie (Some m) (\<lambda>u d'. may_moderate m d u d' \<and> ban_change m d d') d
    (snd (handle_create_ban env now cookie m body d))"
  unfolding handle_create_ban_def
  apply (rule finish_wp, rule calm.wp_seq_in [OF calm_require(1) mod_inv_require(1) calm.same inv], erule calm_answered)
  subgoal for actor d1
    apply (intro wp_branches; (rule wp_early, erule calm_answered, assumption, rule settled.same)?)
    apply (rule wp_seq_settled [OF settled_steps(1) mod_inv_steps(1)], erule calm_answered, assumption, rule settled.same, assumption)
    apply (rule wp_seq_settled [OF settled_steps(2) mod_inv_steps(2)], erule calm_answered, assumption+)
    apply (intro wp_branches, rule wp_early, erule calm_answered, assumption+)
    apply (rule wp_seq_settled [OF settled_steps(4) mod_inv_steps(4)], erule calm_answered, assumption+)
    apply (rule apply_map_ban_answered)
      apply (rule in_charge_settled, erule in_charge_start [OF _ inv], assumption, rule plain)
    apply (erule (1) ban_detail_has_no_nul, rule time)
    done
  done

lemma ban_lifted_nothing:
  assumes "mod_inv d" "ban_lifted now m target actor keep d False d1"
  shows "unchanged d d1"
proof -
  let ?hit = "\<lambda>b. is_ban_of m target b \<and> ban_active now b"
  have inj: "inj_on (\<lambda>b. (mb_map_uid b, mb_user_id b)) (set (map_bans d))" "distinct (map_bans d)"
    using assms(1) by (auto simp: mod_inv_def bans_ok_def distinct_map)
  have "filter ?hit (map_bans d) = []"
  proof (cases "filter ?hit (map_bans d)")
    case (Cons b bs)
    have "x = b" if "x \<in> set (b # bs)" for x
    proof -
      have "x \<in> set (filter ?hit (map_bans d))" "b \<in> set (filter ?hit (map_bans d))"
        using that unfolding Cons by auto
      then have "x \<in> set (map_bans d) \<and> ?hit x" "b \<in> set (map_bans d) \<and> ?hit b" by simp_all
      then show ?thesis using inj(1) by (auto simp: is_ban_of_def inj_on_def)
    qed
    moreover have "distinct (b # bs)" using inj(2) Cons by (metis distinct_filter)
    ultimately have "bs = []" by (cases bs) auto
    then show ?thesis using assms(2) Cons by (simp add: ban_lifted_def)
  qed simp
  then show ?thesis
    using assms(2) upd_where_none [of "map_bans d" ?hit]
    by (simp add: ban_lifted_def unchanged_def bans_only_def filter_empty_conv)
qed

lemma ban_lifted_change:
  assumes "ban_lifted now m target actor keep d lifted d1" "calm d0 d" "unchanged d1 d2"
  shows "ban_change m d0 d2"
proof -
  have "filter (\<lambda>b. mb_map_uid b \<noteq> m) (map_bans d1) = filter (\<lambda>b. mb_map_uid b \<noteq> m) (map_bans d)"
    using assms(1) unfolding ban_lifted_def by (auto simp: is_ban_of_def intro!: filter_upd_where_other)
  moreover have "filter (\<lambda>r. mu_map_uid r \<noteq> m) (map_unofficial d1) = filter (\<lambda>r. mu_map_uid r \<noteq> m) (map_unofficial d)"
    using assms(1) by (auto simp: ban_lifted_def is_mark_of_def intro!: filter_cong)
  ultimately show ?thesis using assms by (simp add: ban_change_def ban_lifted_def bans_only_def calm_def unchanged_def)
qed

lemma lift_ban_answered:
  assumes inv: "mod_inv d"
  shows "answered_for env now cookie (Some m) (\<lambda>u d'. may_moderate m d u d' \<and> ban_change m d d') d
    (snd (handle_lift_ban env now cookie m user keep d))"
  unfolding handle_lift_ban_def
  apply (rule finish_wp, rule calm.wp_seq_in [OF calm_require(1) mod_inv_require(1) calm.same inv], erule calm_answered)
  subgoal premises run for actor d1
  proof (intro wp_branches)
    show "wp (Err r) (\<lambda>_. answered_for env now cookie (Some m) (\<lambda>u d'. may_moderate m d u d' \<and> ban_change m d d') d) d1" for r
      by (rule wp_early [OF calm_answered run(1) settled.same])
    fix target
    have u: "in_charge env now cookie m actor d d1" by (rule in_charge_start [OF run(3) inv])
    let ?Q = "answered_for env now cookie (Some m) (\<lambda>u d'. may_moderate m d u d' \<and> ban_change m d d') d"
    let ?detail = "JObj [(''keep_unofficial'', JBool keep)]"
    show "wp (and_then (server_err env (lift_map_ban now m target actor keep)) (\<lambda>lifted.
         if lifted then audited now actor ''ban.lift'' (Some m) target ?detail
         else Err (json_err 404 ''no active Map Ban''))) (\<lambda>_. ?Q) d1"
    proof (rule wp_seq_server, rule wp_mono [OF lift_map_ban_wp])
      fix r :: "db_error + bool" and d2
      assume lift: "case r of Inl e \<Rightarrow> d2 = d1 | Inr lifted \<Rightarrow> ban_lifted now m target actor keep d1 lifted d2"
      show "case r of Inl e \<Rightarrow> ?Q d2 | Inr lifted \<Rightarrow> wp (if lifted then audited now actor ''ban.lift'' (Some m) target ?detail
          else Err (json_err 404 ''no active Map Ban'')) (\<lambda>_. ?Q) d2"
      proof (cases r)
        case (Inr lifted)
        show ?thesis
        proof (cases lifted)
          case True
          then have lift: "ban_lifted now m target actor keep d1 True d2" using lift Inr by simp
          then have "filter (\<lambda>b. is_ban_of m target b \<and> ban_active now b) (map_bans d1) \<noteq> []"
            unfolding ban_lifted_def by auto
          then obtain b where "b \<in> set (map_bans d1)" "is_ban_of m target b" unfolding filter_empty_conv by blast
          then have ok: "uid_fits m" "has_user target d1"
            using run(2) by (auto simp: mod_inv_def bans_ok_def is_ban_of_def)
          have "may_moderate m d actor d3 \<and> ban_change m d d3" if "unchanged d2 d3" "map_metas d3 = map_metas d2" for d3
            using ban_lifted_change [OF lift run(1) that(1)] u that(2) lift
            by (auto simp: in_charge_def may_moderate_def ban_lifted_def bans_only_def author_of_def)
          then have "wp (audited now actor ''ban.lift'' (Some m) target ?detail) (\<lambda>_. ?Q) d2"
            using lift ok by (intro audited_answered [OF u]) (auto simp: ban_lifted_def bans_only_def)
          then show ?thesis using True Inr by simp
        next
          case False
          then have "unchanged d1 d2" using ban_lifted_nothing run(2) lift Inr by auto
          then show ?thesis using False Inr run(1) by (simp add: wp_err answered_for_def unchanged_def calm_def)
        qed
      qed (use lift run(1) in \<open>simp add: calm_answered\<close>)
    qed
  qed
  done

section \<open>Delegates\<close>

definition may_delegate :: "string \<Rightarrow> 'z mod_db_scheme \<Rightarrow> uuid \<Rightarrow> 'z mod_db_scheme \<Rightarrow> bool" where
  "may_delegate m d u d' \<longleftrightarrow> super_mod u d \<or> author_of m u d'"

lemma or_false_Inr:
  "or_false (fetch q) d = (Inr b, d1) \<Longrightarrow> d1 = d \<and> (b \<longrightarrow> q d = Inr True)"
  by (auto simp: or_false_def and_then_def attempt_def split: sum.splits)

lemma require_owner_Inr:
  assumes "require_owner env now m cookie refusal d = (Inr actor, d1)"
  shows "require_moderator env now m cookie d = (Inr actor, d1) \<and> (super_mod actor d1 \<or> author_of m actor d1)"
  using assms
  by (auto simp: require_owner_def is_super_mod_def is_map_author_def fetch_by_text_def res_iff split: if_splits
      dest!: or_false_Inr)

lemma owner_start:
  assumes "require_owner env now m cookie refusal d = (Inr actor, d1)" "mod_inv d"
  shows "in_charge env now cookie m actor d d1" "super_mod actor d \<or> author_of m actor d1"
proof -
  note run = require_owner_Inr [OF assms(1)]
  show "in_charge env now cookie m actor d d1" by (rule in_charge_start [OF conjunct1 [OF run] assms(2)])
  then show "super_mod actor d \<or> author_of m actor d1"
    using conjunct2 [OF run] by (auto simp: in_charge_def calm_roles)
qed

lemma add_delegate_wp:
  "wp (add_delegate now m user g) (\<lambda>r d'. (case r of Inl e \<Rightarrow> d' = d | Inr _ \<Rightarrow> True) \<and> (d' = d \<or> (\<exists>uid row. varchar_col 27 m = Inr uid \<and> has_user user d \<and>
     md_map_uid row = uid \<and> md_user_id row = user \<and> d' = d\<lparr>map_delegates := map_delegates d @ [row]\<rparr>))) d"
proof (cases "varchar_col 27 m")
  case (Inr uid)
  then show ?thesis
    by (auto simp: wp_def add_delegate_def intro!: exI [of _ "\<lparr>md_map_uid = uid, md_user_id = user, md_granted_by = g,
        md_created_at = now\<rparr>"])
qed (simp add: wp_def add_delegate_def)

lemma add_delegate_answered:
  assumes u: "in_charge env now cookie m actor d0 d" "super_mod actor d0 \<or> author_of m actor d" and plain: "plain m"
  shows "wp (and_then (server_err env (add_delegate now m target actor))
      (\<lambda>_. audited now actor ''delegate.add'' (Some m) target (JObj [])))
    (\<lambda>_. answered_for env now cookie (Some m) (\<lambda>u d'. may_delegate m d0 u d' \<and> delegate_change m d0 d') d0) d"
proof (rule wp_seq_server, rule wp_mono [OF add_delegate_wp])
  fix r :: "db_error + unit" and d1
  let ?Q = "answered_for env now cookie (Some m) (\<lambda>u d'. may_delegate m d0 u d' \<and> delegate_change m d0 d') d0"
  assume run: "(case r of Inl e \<Rightarrow> d1 = d | Inr _ \<Rightarrow> True) \<and> (d1 = d \<or> (\<exists>uid row. varchar_col 27 m = Inr uid \<and> has_user target d \<and>
     md_map_uid row = uid \<and> md_user_id row = target \<and> d1 = d\<lparr>map_delegates := map_delegates d @ [row]\<rparr>))"
  have calm: "calm d0 d" using u(1) by (simp add: in_charge_def)
  have "?Q d1 \<and> wp (audited now actor ''delegate.add'' (Some m) target (JObj [])) (\<lambda>_. ?Q) d1" if "d1 = d"
    using calm_answered [OF calm] audited_nothing [OF calm, of d1] that by (auto simp: unchanged_def)
  moreover have "wp (audited now actor ''delegate.add'' (Some m) target (JObj [])) (\<lambda>_. ?Q) d1"
    if row: "varchar_col 27 m = Inr uid" "has_user target d" "md_map_uid row = uid"
      "d1 = d\<lparr>map_delegates := map_delegates d @ [row]\<rparr>" for uid row
  proof (rule audited_answered [OF u(1)])
    fix d2 assume "unchanged d1 d2" "map_metas d2 = map_metas d1"
    then show "may_delegate m d0 actor d2 \<and> delegate_change m d0 d2"
      using row plain_fits [OF plain row(1)] u(2) calm
      by (auto simp: unchanged_def may_delegate_def delegate_change_def author_of_def calm_def)
  qed (use row plain_fits [OF plain row(1)] in simp_all)
  ultimately show "case r of Inl e \<Rightarrow> ?Q d1
      | Inr a \<Rightarrow> wp (audited now actor ''delegate.add'' (Some m) target (JObj [])) (\<lambda>_. ?Q) d1"
    using run by (cases r) auto
qed

lemma add_delegate_handler_answered:
  assumes inv: "mod_inv d" and plain: "plain m"
  shows "answered_for env now cookie (Some m) (\<lambda>u d'. may_delegate m d u d' \<and> delegate_change m d d') d
    (snd (handle_add_delegate env now cookie m body d))"
  unfolding handle_add_delegate_def
  apply (rule finish_wp, rule calm.wp_seq_in [OF calm_require(3) mod_inv_require_owner calm.same inv], erule calm_answered)
  subgoal for actor d1
    apply (rule wp_seq_settled [OF settled_steps(1) mod_inv_steps(1)], erule calm_answered, assumption, rule settled.same, assumption)
    apply (rule wp_seq_settled [OF settled_steps(3) mod_inv_steps(3)], erule calm_answered, assumption+)
    apply (intro wp_branches, rule wp_early, erule calm_answered, assumption+)
    apply (rule wp_seq_settled [OF settled_steps(4) mod_inv_steps(4)], erule calm_answered, assumption+)
    apply (rule add_delegate_answered)
      apply (rule in_charge_settled, erule owner_start(1) [OF _ inv], assumption)
     apply (drule owner_start(2) [OF _ inv], simp add: settled_def author_of_def)
    apply (rule plain)
    done
  done

lemma remove_delegate_answered:
  assumes inv: "mod_inv d"
  shows "answered_for env now cookie (Some m) (\<lambda>u d'. may_delegate m d u d' \<and> delegate_change m d d') d
    (snd (handle_remove_delegate env now cookie m user d))"
  unfolding handle_remove_delegate_def
  apply (rule finish_wp, rule calm.wp_seq_in [OF calm_require(3) mod_inv_require_owner calm.same inv], erule calm_answered)
  subgoal premises run for actor d1
  proof (intro wp_branches)
    let ?Q = "answered_for env now cookie (Some m) (\<lambda>u d'. may_delegate m d u d' \<and> delegate_change m d d') d"
    show "wp (Err r) (\<lambda>_. ?Q) d1" for r by (rule wp_early [OF calm_answered run(1) settled.same])
    fix target
    note u = owner_start [OF run(3) inv]
    let ?d2 = "d1\<lparr>map_delegates := filter (\<lambda>g. \<not> (md_map_uid g = m \<and> md_user_id g = target)) (map_delegates d1)\<rparr>"
    have "wp (audited now actor ''delegate.remove'' (Some m) target (JObj [])) (\<lambda>_. ?Q) ?d2"
    proof (cases "delegate_of m target d1")
      case True
      then have ok: "uid_fits m" "has_user target d1"
        using run(2) by (auto simp: mod_inv_def roles_ok_def delegate_of_def list_ex_iff)
      show ?thesis
      proof (rule audited_answered [OF u(1)])
        fix d3 assume "unchanged ?d2 d3" "map_metas d3 = map_metas ?d2"
        then show "may_delegate m d actor d3 \<and> delegate_change m d d3"
          using u(2) run(1) by (auto simp: unchanged_def may_delegate_def delegate_change_def author_of_def calm_def
              intro!: filter_cong)
      qed (use ok in simp_all)
    next
      case False
      then have "filter (\<lambda>g. \<not> (md_map_uid g = m \<and> md_user_id g = target)) (map_delegates d1) = map_delegates d1"
        unfolding filter_id_conv by (auto simp: delegate_of_def list_ex_iff)
      then show ?thesis by (intro audited_nothing [OF run(1)]) (simp add: unchanged_def)
    qed
    then show "wp (and_then (server_err env (remove_delegate m target))
        (\<lambda>_. audited now actor ''delegate.remove'' (Some m) target (JObj []))) (\<lambda>_. ?Q) d1"
      using calm_answered [OF run(1)]
      by (intro wp_seq_server) (simp add: wp_def remove_delegate_def split: sum.split)
  qed
  done

section \<open>Super-mods\<close>

lemma super_start:
  assumes "require_super_mod env now cookie d = (Inr actor, d1)" "mod_inv d"
  shows "d1 = d" "in_charge env now cookie m actor d d1" "super_mod actor d"
  using require_super_mod_Inr [OF assms(1)] session_has_user [of d env now cookie actor] assms(2)
  by (auto simp: in_charge_def mod_inv_def calm.same)

lemma add_super_mod_answered:
  assumes u: "in_charge env now cookie m actor d0 d" "super_mod actor d0"
  shows "wp (and_then (server_err env (add_super_mod now target actor))
      (\<lambda>_. audited now actor ''super_mod.add'' None target (JObj [])))
    (\<lambda>_. answered_for env now cookie None (\<lambda>u d'. super_mod u d0 \<and> super_change d0 d') d0) d"
proof (rule wp_seq_server)
  let ?Q = "answered_for env now cookie None (\<lambda>u d'. super_mod u d0 \<and> super_change d0 d') d0"
  have calm: "calm d0 d" using u(1) by (simp add: in_charge_def)
  have same: "wp (audited now actor ''super_mod.add'' None target (JObj [])) (\<lambda>_. ?Q) d"
    by (rule audited_nothing [OF calm]) (simp add: unchanged_def)
  have new: "wp (audited now actor ''super_mod.add'' None target (JObj [])) (\<lambda>_. ?Q) (d\<lparr>super_mods := rows\<rparr>)"
    if "has_user target d" for rows
    by (rule audited_answered [OF u(1)])
       (use that u(2) calm in \<open>auto simp: unchanged_def super_change_def calm_def\<close>)
  show "wp (add_super_mod now target actor) (\<lambda>r d1. case r of Inl e \<Rightarrow> ?Q d1
      | Inr a \<Rightarrow> wp (audited now actor ''super_mod.add'' None target (JObj [])) (\<lambda>_. ?Q) d1) d"
    using same new calm_answered [OF calm] by (simp add: wp_def add_super_mod_def)
qed

lemma add_super_mod_handler_answered:
  assumes inv: "mod_inv d"
  shows "answered_for env now cookie None (\<lambda>u d'. super_mod u d \<and> super_change d d') d
    (snd (handle_add_super_mod env now cookie body d))"
  unfolding handle_add_super_mod_def
  apply (rule finish_wp, rule calm.wp_seq_in [where I = mod_inv, OF calm_require(2) mod_inv_require(2) calm.same inv], erule calm_answered)
  subgoal for actor d1
    apply (rule wp_seq_settled [OF settled_steps(1) mod_inv_steps(1)], erule calm_answered, assumption, rule settled.same, assumption)
    apply (rule wp_seq_settled [OF settled_steps(4) mod_inv_steps(4)], erule calm_answered, assumption+)
    apply (rule add_super_mod_answered)
     apply (rule in_charge_settled, erule super_start(2) [OF _ inv], assumption)
    apply (erule super_start(3) [OF _ inv])
    done
  done

lemma one_row_per_key: "distinct (map k xs) \<Longrightarrow> length (filter (\<lambda>x. k x = y) xs) = (if y \<in> k ` set xs then 1 else 0)"
  by (induction xs) auto

lemma remove_super_mod_check_wp:
  "wp (remove_super_mod_check env now cookie user) (\<lambda>r d1. d1 = d \<and> (case r of Inl _ \<Rightarrow> True
     | Inr (actor, target) \<Rightarrow> require_super_mod env now cookie d = (Inr actor, d) \<and> 1 < length (super_mods d))) d"
proof -
  have reads: "snd (require_super_mod env now cookie d) = d"
    using keepsD [OF mod_inv_require(2), of "\<lambda>d'. d' = d" d] by simp
  then show ?thesis
    by (cases "require_super_mod env now cookie d")
       (auto simp: remove_super_mod_check_def wp_def and_then_def count_super_mods_def server_err_def map_err_def
         split: sum.split option.split)
qed

lemma remove_super_mod_answered:
  assumes inv: "mod_inv d"
  shows "answered_for env now cookie None (\<lambda>u d'. super_mod u d \<and> super_change d d') d
    (snd (handle_remove_super_mod env now cookie user d))"
proof -
  let ?Q = "answered_for env now cookie None (\<lambda>u d'. super_mod u d \<and> super_change d d') d"
  have commit: "wp (remove_super_mod_commit env now (actor, target)) (\<lambda>_. ?Q) d"
    if run: "require_super_mod env now cookie d = (Inr actor, d)" for actor target
  proof -
    note u = super_start [OF run inv]
    let ?d2 = "d\<lparr>super_mods := filter (\<lambda>s. sm_user_id s \<noteq> target) (super_mods d)\<rparr>"
    let ?removed = "length (filter (\<lambda>s. sm_user_id s = target) (super_mods d)) = 1"
    have "wp (if ?removed then audited now actor ''super_mod.remove'' None target (JObj [])
       else Err (json_err 404 ''not a Super-mod'')) (\<lambda>_. ?Q) ?d2"
    proof (cases "super_mod target d")
      case True
      then have "has_user target d" using inv by (auto simp: mod_inv_def roles_ok_def super_mod_def list_ex_iff)
      then have "wp (audited now actor ''super_mod.remove'' None target (JObj [])) (\<lambda>_. ?Q) ?d2"
        by (intro audited_answered [OF u(2) [of m]]) (use u(3) in \<open>auto simp: unchanged_def super_change_def\<close>)
      moreover have ?removed
        using inv True one_row_per_key [of sm_user_id "super_mods d" target]
        by (auto simp: mod_inv_def roles_ok_def super_mod_def list_ex_iff)
      ultimately show ?thesis by simp
    next
      case False
      then have "filter (\<lambda>s. sm_user_id s \<noteq> target) (super_mods d) = super_mods d"
        "filter (\<lambda>s. sm_user_id s = target) (super_mods d) = []"
        unfolding filter_id_conv filter_empty_conv by (auto simp: super_mod_def list_ex_iff)
      then show ?thesis by (simp add: wp_err answered_for_def unchanged_def)
    qed
    then show ?thesis
      unfolding remove_super_mod_commit_def prod.case
      by (intro wp_seq_server) (simp add: wp_def remove_super_mod_def)
  qed
  show ?thesis
    unfolding handle_remove_super_mod_def
    by (rule finish_wp, rule wp_seq, rule wp_mono [OF remove_super_mod_check_wp])
       (auto simp: answered_for_def unchanged_def split: sum.splits intro: commit)
qed

end
