(* ===== verification/Moderation_Claims.thy ===== *)
theory Moderation_Claims
  imports Moderation_Safety Sample_World
begin

text \<open>The promises of the moderation interface, over its routes and over runs of requests.\<close>

section \<open>A concrete server\<close>

definition sample_mod_env :: mod_env where
  "sample_mod_env = \<lparr>me_wf = sample_env,
     me_parse_uuid = (\<lambda>s. if list_all (\<lambda>c. c = CHR ''u'') s then Inr (of_nat (length s)) else Inl ''bad uuid''),
     me_show_error = (\<lambda>_. ''db''), me_fmt_bind_error = (\<lambda>_. ''bind''), me_rfc3339 = (\<lambda>_. None),
     me_naive_secs = (\<lambda>_. None), me_naive_minutes = (\<lambda>_. None), me_show_time = (\<lambda>_. ''time''),
     me_ilike = (=), me_nadeo_configured = False, me_map_info = (\<lambda>_. Inl ''''), me_comment = (\<lambda>_. Inl ''''),
     me_oauth = Some \<lparr>oc_client_id = ''id'', oc_client_secret = ''secret'', oc_redirect_uri = ''https://a''\<rparr>,
     me_exchange_code = (\<lambda>_ _. Inr ''token''),
     me_fetch_user = (\<lambda>_. Inr \<lparr>tu_account_id = ''uu'', tu_display_name = ''bob''\<rparr>)\<rparr>"

text \<open>Ann is a super-mod, Bob the author of the map; both are logged in, and so is Cat.\<close>

definition sample_server :: mod_server where
  "sample_server = wf_db.extend
     (sample_db\<lparr>users := map (\<lambda>(i, n). \<lparr>ur_id = i, ur_display_name = n, ur_created_ts = 1, ur_last_login_ts = 1\<rparr>)
        [(1, ''ann''), (2, ''bob''), (3, ''cat'')]\<rparr>)
     \<lparr>map_metas = [\<lparr>mm_map_uid = ''m'', mm_author_id = 2, mm_map_name = None, mm_thumbnail_url = None,
        mm_fetched_at = 1, mm_updated_at = 1\<rparr>],
      super_mods = [\<lparr>sm_user_id = 1, sm_granted_by = None, sm_created_at = 1\<rparr>], map_delegates = [], map_bans = [],
      map_unofficial = [],
      web_sessions = map (\<lambda>i. \<lparr>ws_session_id = i, ws_user_id = i, ws_display_name = ''x'', ws_created_at = 1,
        ws_expires_at = 100\<rparr>) [1, 2, 3],
      oauth_states = [], audit_events = [], audit_seq = 0, recheck_cooldowns = []\<rparr>"

lemma sample_server_inv: "mod_inv sample_server"
  by code_simp

section \<open>Who changes what\<close>

definition target_map :: "mod_request \<Rightarrow> string option" where
  "target_map req = (case req of CreateBan m _ \<Rightarrow> Some m | LiftBan m _ _ \<Rightarrow> Some m | AddDelegate m _ \<Rightarrow> Some m
     | RemoveDelegate m _ \<Rightarrow> Some m | _ \<Rightarrow> None)"

definition allowed_change :: "mod_request \<Rightarrow> 'z mod_db_scheme \<Rightarrow> uuid \<Rightarrow> 'z mod_db_scheme \<Rightarrow> bool" where
  "allowed_change req d u d' = (case req of
     CreateBan m _ \<Rightarrow> may_moderate m d u d' \<and> ban_change m d d' | LiftBan m _ _ \<Rightarrow> may_moderate m d u d' \<and> ban_change m d d'
   | AddDelegate m _ \<Rightarrow> may_delegate m d u d' \<and> delegate_change m d d'
   | RemoveDelegate m _ \<Rightarrow> may_delegate m d u d' \<and> delegate_change m d d'
   | AddSuperMod _ \<Rightarrow> super_mod u d \<and> super_change d d' | RemoveSuperMod _ \<Rightarrow> super_mod u d \<and> super_change d d' | _ \<Rightarrow> False)"

lemma allowed_change_eqs:
  "allowed_change (CreateBan m b) d = (\<lambda>u d'. may_moderate m d u d' \<and> ban_change m d d')"
  "allowed_change (LiftBan m i k) d = (\<lambda>u d'. may_moderate m d u d' \<and> ban_change m d d')"
  "allowed_change (AddDelegate m tb) d = (\<lambda>u d'. may_delegate m d u d' \<and> delegate_change m d d')"
  "allowed_change (RemoveDelegate m i) d = (\<lambda>u d'. may_delegate m d u d' \<and> delegate_change m d d')"
  "allowed_change (AddSuperMod tb) d = (\<lambda>u d'. super_mod u d \<and> super_change d d')"
  "allowed_change (RemoveSuperMod i) d = (\<lambda>u d'. super_mod u d \<and> super_change d d')"
  by (rule ext, rule ext, simp add: allowed_change_def)+

interpretation unchanged: frame unchanged
  by unfold_locales (auto simp: unchanged_def)

lemma unchanged_logins:
  "stays unchanged (save_oauth_state st t)" "stays unchanged (take_oauth_state now st)"
  "stays unchanged (ensure_user now u n)" "stays unchanged (create_web_session now i u n t)"
  "stays unchanged (delete_web_session i)"
  by (rule staysI, auto simp: save_oauth_state_def take_oauth_state_def ensure_user_def create_web_session_def
      delete_web_session_def unchanged_def split: sum.split)+

lemma unchanged_others:
  "unchanged d (snd (handle_oauth_start env now fresh d))" "unchanged d (snd (handle_logout env cookie d))"
  "unchanged d (snd (handle_oauth_callback env now fresh cookie code state error d))"
proof -
  show "unchanged d (snd (handle_oauth_start env now fresh d))"
    unfolding handle_oauth_start_def finish_state Let_def server_err_def
    by (rule staysD, intro unchanged.stays_rules unchanged_logins)
  show "unchanged d (snd (handle_logout env cookie d))"
    using unchanged_logins(5) [THEN staysD]
    by (auto simp: handle_logout_def unchanged.same split: option.split)
  have "unchanged d (snd (finish (oauth_login env now fresh oauth cookie code st) d))" for oauth code st
    unfolding oauth_login_def finish_state server_err_def
    by (rule staysD, intro unchanged.stays_rules unchanged_logins)
  then show "unchanged d (snd (handle_oauth_callback env now fresh cookie code state error d))"
    by (auto simp: handle_oauth_callback_def unchanged.same split: option.split prod.split) (metis snd_conv)
qed

lemma unchanged_answered: "unchanged d d' \<Longrightarrow> answered_for env now cookie m change d d'"
  by (simp add: answered_for_def)

text \<open>
  C4. Every change to the super-mods, the delegates, the bans and the unofficial marks is made by
  the user of a live browser session who may make it: on a map's bans by its author, a delegate or
  a super-mod, on its delegates by the author or a super-mod, on the super-mods by a super-mod; it
  touches that map only; and it is the one event the request adds to the trail, with that user, the
  map and the time.
\<close>

theorem moderation_accountable:
  assumes "mod_inv s" "case target_map req of None \<Rightarrow> True | Some m \<Rightarrow> plain m"
    and "\<And>t. CHR 0x00 \<notin> set (me_show_time env t)"
  shows "answered_for env now cookie (target_map req) (allowed_change req s) s
    (snd (route env now inst fresh cookie req s))"
proof -
  note calm = calm_answered [OF calm_pages(1)] calm_answered [OF calm_pages(2)] calm_answered [OF calm_pages(3)]
    calm_answered [OF calm_pages(4)] calm_answered [OF calm_pages(5)]
    calm_answered [OF apart_calm [OF apart_recheck]]
  note quiet = unchanged_others [THEN unchanged_answered] unchanged_answered [OF unchanged.same]
  note changes = create_ban_answered [OF assms(1)] lift_ban_answered [OF assms(1)]
    add_delegate_handler_answered [OF assms(1)] remove_delegate_answered [OF assms(1)]
    add_super_mod_handler_answered [OF assms(1)] remove_super_mod_answered [OF assms(1)]
  show ?thesis
    using assms(2,3)
    by (cases req)
       (simp_all add: target_map_def allowed_change_eqs replied_def split_beta super_pages_read calm quiet changes)
qed

theorem moderation_accountable_witness:
  "answered_for sample_mod_env 50 (Some ''dd2_session=u'') (Some ''m'')
     (allowed_change (LiftBan ''m'' ''uuu'' False) sample_server) sample_server
     (snd (route sample_mod_env 50 0 9 (Some ''dd2_session=u'') (LiftBan ''m'' ''uuu'' False) sample_server))"
  using moderation_accountable [OF sample_server_inv, of "LiftBan ''m'' ''uuu'' False" sample_mod_env 50
      "Some ''dd2_session=u''" 0 9]
  by (simp add: target_map_def plain_def sample_mod_env_def)

section \<open>Delegates are not banned\<close>

text \<open>A delegate of a map is not banned on it.\<close>

definition delegates_clear :: "nat \<Rightarrow> 'z mod_db_scheme \<Rightarrow> bool" where
  "delegates_clear now d \<longleftrightarrow> list_all (\<lambda>g. active_ban now (md_map_uid g) (md_user_id g) d = None) (map_delegates d)"

lemma calm_clear: "calm d d' \<Longrightarrow> delegates_clear now d' = delegates_clear now d"
  by (simp add: delegates_clear_def calm_def active_ban_def)

lemma unchanged_clear: "unchanged d d' \<Longrightarrow> delegates_clear now d' = delegates_clear now d"
  by (simp add: delegates_clear_def unchanged_def active_ban_def)

lemma audited_clear:
  "delegates_clear now d \<Longrightarrow> wp (audited t actor action m target detail) (\<lambda>_. delegates_clear now) d"
  by (rule wp_mono [OF audited_unchanged]) (simp add: unchanged_clear)

lemma active_ban_None:
  "active_ban now m u d = None \<longleftrightarrow> (\<forall>b\<in>set (map_bans d). is_ban_of m u b \<longrightarrow> \<not> ban_active now b)"
  unfolding active_ban_def find_None_all by blast

lemma ban_active_earlier: "now \<le> t \<Longrightarrow> ban_active t b \<Longrightarrow> ban_active now b"
  by (auto simp: ban_active_def split: option.splits)

lemma delegates_clear_later: "now \<le> t \<Longrightarrow> delegates_clear now d \<Longrightarrow> delegates_clear t d"
  unfolding delegates_clear_def list_all_iff active_ban_None by (blast intro: ban_active_earlier)

lemma ban_applied_clear:
  assumes "ban_applied t m target actor pr pm expires d m d'" "delegates_clear now d" "\<not> delegate_of m target d"
  shows "delegates_clear now d'"
proof -
  have "active_ban now (md_map_uid g) (md_user_id g) d' = None" if g: "g \<in> set (map_delegates d)" for g
    unfolding active_ban_None
  proof (intro ballI impI)
    fix b assume b: "b \<in> set (map_bans d')" "is_ban_of (md_map_uid g) (md_user_id g) b"
    have "\<not> (md_map_uid g = m \<and> md_user_id g = target)"
      using assms(3) g by (auto simp: delegate_of_def list_ex_iff)
    then have "b \<in> set (map_bans d)"
      using b assms(1) by (auto simp: ban_applied_def is_ban_of_def dest: in_upsert_by)
    then show "\<not> ban_active now b"
      using b(2) assms(2) g unfolding delegates_clear_def list_all_iff active_ban_None by blast
  qed
  then show ?thesis using assms(1) by (simp add: delegates_clear_def list_all_iff ban_applied_def bans_only_def)
qed

lemma ban_lifted_clear:
  assumes "ban_lifted t m target actor keep d lifted d'" "delegates_clear now d"
  shows "delegates_clear now d'"
  using assms unfolding delegates_clear_def list_all_iff active_ban_None
  by (auto simp: ban_lifted_def bans_only_def set_upd_where is_ban_of_def ban_active_def split: if_splits)

lemma protected_False:
  "server_err env (is_protected_from_map_ban m u) d = (Inr b, d') \<Longrightarrow> \<not> b \<Longrightarrow> \<not> delegate_of m u d"
  by (auto simp: server_err_def is_protected_from_map_ban_def is_super_mod_def is_map_author_def is_map_delegate_def
      fetch_by_text_def res_iff split: if_splits)

lemma create_ban_clear:
  assumes inv: "mod_inv d" and plain: "plain m" and clear: "delegates_clear now d"
  shows "delegates_clear now (snd (handle_create_ban env t cookie m body d))"
proof -
  have early: "delegates_clear now d'" if "calm d d'" for d' using clear calm_clear [OF that] by simp
  have banned: "wp (and_then (server_err env (apply_map_ban t m target actor pr pm expires))
      (\<lambda>_. audited t actor ''ban.create'' (Some m) target detail)) (\<lambda>_. delegates_clear now) d2"
    if "delegates_clear now d2" "\<not> delegate_of m target d2" for target actor pr pm expires detail d2
  proof (rule wp_seq_server, rule wp_mono [OF apply_map_ban_wp])
    fix r :: "db_error + unit" and d3
    assume run: "case r of Inl e \<Rightarrow> d3 = d2 | Inr _ \<Rightarrow> \<exists>uid. ban_applied t m target actor pr pm expires d2 uid d3"
    show "case r of Inl e \<Rightarrow> delegates_clear now d3
        | Inr a \<Rightarrow> wp (audited t actor ''ban.create'' (Some m) target detail) (\<lambda>_. delegates_clear now) d3"
    proof (cases r)
      case (Inr x)
      then obtain uid where uid: "ban_applied t m target actor pr pm expires d2 uid d3" using run by auto
      then have "uid = m" using plain_fits [OF plain] unfolding ban_applied_def by blast
      then show ?thesis using audited_clear ban_applied_clear that uid Inr by (metis sum.case(2))
    qed (use run that in simp)
  qed
  show ?thesis
    unfolding handle_create_ban_def
    apply (rule finish_wp, rule calm.wp_seq_in [OF calm_require(1) mod_inv_require(1) calm.same inv], erule early)
    subgoal for actor d1
      apply (intro wp_branches; (rule wp_early, erule early, assumption, rule settled.same)?)
      apply (rule wp_seq_settled [OF settled_steps(1) mod_inv_steps(1)], erule early, assumption, rule settled.same, assumption)
      apply (rule wp_seq_settled [OF settled_steps(2) mod_inv_steps(2)], erule early, assumption+)
      apply (intro wp_branches, rule wp_early, erule early, assumption+)
      apply (rule wp_seq_settled [OF settled_steps(4) mod_inv_steps(4)], erule early, assumption+)
      apply (rule banned)
       apply (rule early, erule calm.chain, simp add: settled_def)
      apply (drule (1) protected_False, simp add: settled_def calm_def delegate_of_def)
      done
    done
qed

lemma lift_ban_clear:
  assumes inv: "mod_inv d" and clear: "delegates_clear now d"
  shows "delegates_clear now (snd (handle_lift_ban env t cookie m user keep d))"
proof -
  have early: "delegates_clear now d'" if "calm d d'" for d' using clear calm_clear [OF that] by simp
  have lift: "wp (and_then (server_err env (lift_map_ban t m target actor keep)) (\<lambda>lifted.
      if lifted then audited t actor ''ban.lift'' (Some m) target detail
      else Err (json_err 404 ''no active Map Ban''))) (\<lambda>_. delegates_clear now) d1"
    if "delegates_clear now d1" for target actor detail d1
    by (rule wp_seq_server, rule wp_mono [OF lift_map_ban_wp])
       (use that in \<open>auto simp: wp_err split: sum.splits intro!: audited_clear intro: ban_lifted_clear\<close>)
  show ?thesis
    unfolding handle_lift_ban_def
    by (rule finish_wp, rule calm.wp_seq_in [OF calm_require(1) mod_inv_require(1) calm.same inv], erule early,
        intro wp_branches, rule wp_early, erule early, assumption, rule settled.same, rule lift, erule early)
qed

lemma add_delegate_clear:
  assumes inv: "mod_inv d" and plain: "plain m" and clear: "delegates_clear now d"
  shows "delegates_clear now (snd (handle_add_delegate env now cookie m body d))"
proof -
  have early: "delegates_clear now d'" if "calm d d'" for d' using clear calm_clear [OF that] by simp
  have added: "wp (and_then (server_err env (add_delegate now m target actor))
      (\<lambda>_. audited now actor ''delegate.add'' (Some m) target (JObj []))) (\<lambda>_. delegates_clear now) d1"
    if "delegates_clear now d1" "active_ban now m target d1 = None" for target actor d1
  proof (rule wp_seq_server, rule wp_mono [OF add_delegate_wp])
    fix r :: "db_error + unit" and d2
    assume run: "(case r of Inl e \<Rightarrow> d2 = d1 | Inr _ \<Rightarrow> True) \<and> (d2 = d1 \<or> (\<exists>uid row. varchar_col 27 m = Inr uid \<and>
       has_user target d1 \<and> md_map_uid row = uid \<and> md_user_id row = target \<and>
       d2 = d1\<lparr>map_delegates := map_delegates d1 @ [row]\<rparr>))"
    have "delegates_clear now (d1\<lparr>map_delegates := map_delegates d1 @ [row]\<rparr>)"
      if "varchar_col 27 m = Inr (md_map_uid row)" "md_user_id row = target" for row
      using that \<open>delegates_clear now d1\<close> \<open>active_ban now m target d1 = None\<close> plain_fits(1) [OF plain that(1)]
      by (simp add: delegates_clear_def active_ban_def)
    then have "delegates_clear now d2" using run that(1) by auto
    then show "case r of Inl e \<Rightarrow> delegates_clear now d2
        | Inr a \<Rightarrow> wp (audited now actor ''delegate.add'' (Some m) target (JObj [])) (\<lambda>_. delegates_clear now) d2"
      by (auto split: sum.split intro: audited_clear)
  qed
  have no_ban: "active_ban now m u d1 = None" if "server_err env (get_active_ban now m u) d1 = (Inr ban, d2)" "\<not> ban \<noteq> None"
    for u d1 d2 ban
    using that by (auto simp: server_err_def get_active_ban_def fetch_by_text_def res_iff)
  show ?thesis
    unfolding handle_add_delegate_def
    apply (rule finish_wp, rule calm.wp_seq_in [OF calm_require(3) mod_inv_require_owner calm.same inv], erule early)
    subgoal for actor d1
      apply (rule wp_seq_settled [OF settled_steps(1) mod_inv_steps(1)], erule early, assumption, rule settled.same, assumption)
      apply (rule wp_seq_settled [OF settled_steps(3) mod_inv_steps(3)], erule early, assumption+)
      apply (intro wp_branches, rule wp_early, erule early, assumption+)
      apply (rule wp_seq_settled [OF settled_steps(4) mod_inv_steps(4)], erule early, assumption+)
      apply (rule added)
       apply (rule early, erule calm.chain, simp add: settled_def)
      apply (drule (1) no_ban, simp add: settled_def calm_def active_ban_def)
      done
    done
qed

lemma remove_delegate_clear:
  assumes inv: "mod_inv d" and clear: "delegates_clear now d"
  shows "delegates_clear now (snd (handle_remove_delegate env t cookie m user d))"
proof -
  have early: "delegates_clear now d'" if "calm d d'" for d' using clear calm_clear [OF that] by simp
  have fewer: "delegates_clear now (d1\<lparr>map_delegates := filter p (map_delegates d1)\<rparr>)" if "delegates_clear now d1" for p d1
    using that by (auto simp: delegates_clear_def active_ban_def list_all_iff)
  have removed: "wp (and_then (server_err env (remove_delegate m target))
      (\<lambda>_. audited t actor ''delegate.remove'' (Some m) target (JObj []))) (\<lambda>_. delegates_clear now) d1"
    if "delegates_clear now d1" for target actor d1
    by (rule wp_seq_server)
       (simp add: wp_def [of "remove_delegate m target"] remove_delegate_def audited_clear fewer that split: sum.split)
  show ?thesis
    unfolding handle_remove_delegate_def
    by (rule finish_wp, rule calm.wp_seq_in [OF calm_require(3) mod_inv_require_owner calm.same inv], erule early,
        intro wp_branches, rule wp_early, erule early, assumption, rule settled.same, rule removed, erule early)
qed

lemma route_clear:
  assumes inv: "mod_inv s" and plain: "case target_map req of None \<Rightarrow> True | Some m \<Rightarrow> plain m"
    and clear: "delegates_clear now s"
  shows "delegates_clear now (snd (route env now inst fresh cookie req s))"
proof -
  have calm: "delegates_clear now d'" if "calm s d'" for d' using clear calm_clear [OF that] by simp
  have quiet: "delegates_clear now d'" if "unchanged s d'" for d' using clear unchanged_clear [OF that] by simp
  have super: "delegates_clear now d'" if "answered_for env now cookie None (\<lambda>u d'. super_mod u s \<and> super_change s d') s d'" for d'
    using clear that by (auto simp: answered_for_def unchanged_def super_change_def delegates_clear_def active_ban_def)
  note pages = calm_pages [THEN calm] apart_recheck [THEN apart_calm, THEN calm] unchanged_others [THEN quiet]
    add_super_mod_handler_answered [OF inv, THEN super] remove_super_mod_answered [OF inv, THEN super]
  show ?thesis
    using plain
    by (cases req)
       (simp_all add: target_map_def replied_def split_beta super_pages_read clear pages create_ban_clear [OF inv _ clear]
         lift_ban_clear [OF inv clear] add_delegate_clear [OF inv _ clear] remove_delegate_clear [OF inv clear])
qed

text \<open>A run of the interface: requests, one after the other, as time goes on.\<close>

inductive mod_run :: "mod_env \<Rightarrow> nat \<times> 'z mod_server_scheme \<Rightarrow> nat \<times> 'z mod_server_scheme \<Rightarrow> bool" for env c where
  here: "mod_run env c c"
| request: "mod_run env c (now, s) \<Longrightarrow> now \<le> t \<Longrightarrow> case target_map req of None \<Rightarrow> True | Some m \<Rightarrow> plain m \<Longrightarrow>
    mod_run env c (t, snd (route env t inst fresh cookie req s))"

text \<open>
  C5. Whatever requests come in, in any order: the tables keep their keys and references, every ban
  that was not lifted has its unofficial mark, events and sessions keep distinct ids, and at the
  time of the last request no delegate of a map is banned on it.
\<close>

theorem moderation_run_safe:
  assumes "mod_run env (now, s) (t, s')" "mod_inv s" "delegates_clear now s"
  shows "mod_inv s' \<and> delegates_clear t s'"
proof -
  have "mod_inv (snd c) \<and> delegates_clear (fst c) (snd c)" if "mod_run env (now, s) c" for c
    using that
  proof induction
    case here
    then show ?case using assms(2,3) by simp
  next
    case (request t1 s1 t2 req inst fresh cookie)
    then show ?case by (simp add: route_mod_inv route_clear delegates_clear_later)
  qed
  from this [OF assms(1)] show ?thesis by simp
qed

theorem moderation_run_safe_witness:
  "let s = snd (route sample_mod_env 60 0 9 (Some ''dd2_session=u'')
       (AddDelegate ''m'' \<lparr>tb_user_id = Some ''uuu'', tb_display_name = None\<rparr>) sample_server)
   in mod_inv s \<and> delegates_clear 60 s"
  unfolding Let_def
  by (rule moderation_run_safe [of sample_mod_env 50 sample_server 60])
     (rule mod_run.intros, rule mod_run.here, simp, simp add: target_map_def plain_def, rule sample_server_inv,
      simp add: delegates_clear_def sample_server_def wf_db.extend_def)

section \<open>The last super-mod\<close>

lemma unchanged_super: "unchanged d d' \<Longrightarrow> super_mods d' = super_mods d"
  by (simp add: unchanged_def)

text \<open>Requests on bans and delegates do not touch the super-mods.\<close>

definition same_supers :: "'z mod_db_scheme \<Rightarrow> 'z mod_db_scheme \<Rightarrow> bool" where
  "same_supers d d' \<longleftrightarrow> super_mods d' = super_mods d"

interpretation same_supers: frame same_supers
  by unfold_locales (auto simp: same_supers_def)

lemma same_supers_calm: "stays calm m \<Longrightarrow> stays same_supers m"
  by (simp add: stays_def same_supers_def calm_def)

lemma same_supers_changes:
  "stays same_supers (apply_map_ban now m u actor pr pm expires)" "stays same_supers (lift_map_ban now m u actor keep)"
  "stays same_supers (add_delegate now m u g)" "stays same_supers (remove_delegate m u)"
  "stays same_supers (audited now actor action m2 target detail)"
proof -
  show "stays same_supers (apply_map_ban now m u actor pr pm expires)"
    by (rule staysI, rule wp_mono [OF apply_map_ban_wp, unfolded wp_def])
       (auto simp: same_supers_def ban_applied_def bans_only_def split: sum.splits)
  show "stays same_supers (lift_map_ban now m u actor keep)"
    by (rule staysI, rule wp_mono [OF lift_map_ban_wp, unfolded wp_def])
       (auto simp: same_supers_def ban_lifted_def bans_only_def split: sum.splits)
  show "stays same_supers (add_delegate now m u g)" "stays same_supers (remove_delegate m u)"
    by (rule staysI, simp add: same_supers_def add_delegate_def remove_delegate_def split: sum.split)+
  show "stays same_supers (audited now actor action m2 target detail)"
    by (rule staysI, rule wp_mono [OF audited_unchanged, unfolded wp_def]) (simp add: same_supers_def unchanged_def)
qed

lemmas same_supers_rules = same_supers.stays_rules same_supers_changes calm_require [THEN same_supers_calm]
  calm_queries [THEN same_supers_calm] calm_ensure_user_reference [THEN same_supers_calm]

lemma same_supers_handlers:
  "super_mods (snd (handle_create_ban env now cookie m cb d)) = super_mods d"
  "super_mods (snd (handle_lift_ban env now cookie m u keep d)) = super_mods d"
  "super_mods (snd (handle_add_delegate env now cookie m tb d)) = super_mods d"
  "super_mods (snd (handle_remove_delegate env now cookie m u d)) = super_mods d"
  unfolding handle_create_ban_def handle_lift_ban_def handle_add_delegate_def handle_remove_delegate_def finish_state
    server_err_def same_supers_def [symmetric]
  by (rule staysD, intro same_supers_rules)+

lemma audited_super:
  "super_mods d \<noteq> [] \<Longrightarrow> wp (audited now actor action m target detail) (\<lambda>_ d'. super_mods d' \<noteq> []) d"
  by (rule wp_mono [OF audited_unchanged]) (simp add: unchanged_super)

lemma add_super_mod_stays:
  assumes inv: "mod_inv d" and some: "super_mods d \<noteq> []"
  shows "super_mods (snd (handle_add_super_mod env now cookie body d)) \<noteq> []"
proof -
  have early: "super_mods d' \<noteq> []" if "calm d d'" for d' using some that by (simp add: calm_def)
  have added: "wp (and_then (server_err env (add_super_mod now target actor))
      (\<lambda>_. audited now actor ''super_mod.add'' None target (JObj []))) (\<lambda>_ d2. super_mods d2 \<noteq> []) d1"
    if "super_mods d1 \<noteq> []" for target actor d1
    by (rule wp_seq_server)
       (simp add: wp_def [of "add_super_mod now target actor"] add_super_mod_def audited_super that)
  show ?thesis
    unfolding handle_add_super_mod_def
    apply (rule finish_wp, rule calm.wp_seq_in [where I = mod_inv, OF calm_require(2) mod_inv_require(2) calm.same inv],
        erule early)
    subgoal for actor d1
      apply (rule wp_seq_settled [OF settled_steps(1) mod_inv_steps(1)], erule early, assumption, rule settled.same, assumption)
      apply (rule wp_seq_settled [OF settled_steps(4) mod_inv_steps(4)], erule early, assumption+)
      apply (rule added, rule early, erule calm.chain, simp add: settled_def)
      done
    done
qed

lemma remove_super_mod_stays:
  assumes inv: "mod_inv d" and some: "super_mods d \<noteq> []"
  shows "super_mods (snd (handle_remove_super_mod env now cookie user d)) \<noteq> []"
proof -
  have commit: "wp (remove_super_mod_commit env now (actor, target)) (\<lambda>_ d2. super_mods d2 \<noteq> []) d"
    if many: "1 < length (super_mods d)" for actor target
  proof -
    have "length (filter (\<lambda>s. sm_user_id s = target) (super_mods d)) \<le> 1"
      using inv one_row_per_key [of sm_user_id "super_mods d" target] by (simp add: mod_inv_def roles_ok_def)
    then have "filter (\<lambda>s. sm_user_id s \<noteq> target) (super_mods d) \<noteq> []"
      using many sum_length_filter_compl [of "\<lambda>s. sm_user_id s = target" "super_mods d"] by auto
    then have "wp (audited now actor ''super_mod.remove'' None target (JObj [])) (\<lambda>_ d2. super_mods d2 \<noteq> [])
        (d\<lparr>super_mods := filter (\<lambda>s. sm_user_id s \<noteq> target) (super_mods d)\<rparr>)"
      by (intro audited_super) simp
    then show ?thesis
      using \<open>filter _ _ \<noteq> []\<close> unfolding remove_super_mod_commit_def prod.case
      by (intro wp_seq_server) (simp add: wp_def [of "remove_super_mod target"] remove_super_mod_def wp_err)
  qed
  show ?thesis
    unfolding handle_remove_super_mod_def
    by (rule finish_wp, rule wp_seq, rule wp_mono [OF remove_super_mod_check_wp])
       (use some in \<open>auto split: sum.splits intro: commit\<close>)
qed

text \<open>
  No request leaves the platform without a super-mod, when requests are served one at a time.
\<close>

theorem super_mods_remain:
  assumes "mod_inv s" "super_mods s \<noteq> []"
  shows "super_mods (snd (route env now inst fresh cookie req s)) \<noteq> []"
proof -
  have calm: "super_mods d' \<noteq> []" if "calm s d'" for d' using assms(2) that by (simp add: calm_def)
  have quiet: "super_mods d' \<noteq> []" if "unchanged s d'" for d' using assms(2) that by (simp add: unchanged_def)
  note pages = calm_pages [THEN calm] apart_recheck [THEN apart_calm, THEN calm] unchanged_others [THEN quiet]
    add_super_mod_stays [OF assms] remove_super_mod_stays [OF assms]
  show ?thesis
    by (cases req) (simp_all add: replied_def split_beta super_pages_read assms(2) pages same_supers_handlers)
qed

theorem super_mods_remain_witness:
  "super_mods (snd (route sample_mod_env 50 0 9 (Some ''dd2_session=u'') (RemoveSuperMod ''u'') sample_server)) \<noteq> []"
  by (rule super_mods_remain [OF sample_server_inv]) (simp add: sample_server_def wf_db.extend_def)

text \<open>Two removals at once do: both counts are read before either row is deleted.\<close>

definition two_mods :: mod_server where
  "two_mods = sample_server\<lparr>super_mods := [\<lparr>sm_user_id = 1, sm_granted_by = None, sm_created_at = 1\<rparr>,
     \<lparr>sm_user_id = 2, sm_granted_by = None, sm_created_at = 1\<rparr>]\<rparr>"

theorem super_mods_race:
  "let first = fst (remove_super_mod_check sample_mod_env 50 (Some ''dd2_session=u'') ''uu'' two_mods);
       second = fst (remove_super_mod_check sample_mod_env 50 (Some ''dd2_session=uu'') ''u'' two_mods);
       s1 = snd (remove_super_mod_commit sample_mod_env 50 (projr first) two_mods)
   in isl first = False \<and> isl second = False \<and>
      super_mods (snd (remove_super_mod_commit sample_mod_env 50 (projr second) s1)) = []"
  by code_simp

end
