(* ===== verification/Moderation_Logins.thy ===== *)
theory Moderation_Logins
  imports Moderation_Claims
begin

text \<open>
  What a browser login is worth, and what the state of the OAuth exchange is good for; bans read
  back.
\<close>

section \<open>The session cookie\<close>

text \<open>The two ways the handlers read the cookie header agree.\<close>

lemma cookie_of_part:
  "(case split_once (CHR ''='') p of None \<Rightarrow> None | Some (n, v) \<Rightarrow> if n = SESSION_COOKIE then Some v else None) =
     strip_prefix (SESSION_COOKIE @ ''='') p"
proof (cases "strip_prefix (SESSION_COOKIE @ ''='') p")
  case None
  then have no: "p \<noteq> SESSION_COOKIE @ ''='' @ r" for r
    using strip_prefix_Some [of "SESSION_COOKIE @ ''=''" p r] by simp
  have "p = takeWhile (\<lambda>x. x \<noteq> CHR ''='') p @ ''='' @ tl (dropWhile (\<lambda>x. x \<noteq> CHR ''='') p)" if "CHR ''='' \<in> set p"
  proof -
    have "dropWhile (\<lambda>x. x \<noteq> CHR ''='') p \<noteq> []" using that by (auto simp: dropWhile_eq_Nil_conv)
    moreover from this have "hd (dropWhile (\<lambda>x. x \<noteq> CHR ''='') p) = CHR ''=''" using hd_dropWhile by fast
    ultimately have "dropWhile (\<lambda>x. x \<noteq> CHR ''='') p = CHR ''='' # tl (dropWhile (\<lambda>x. x \<noteq> CHR ''='') p)"
      by (metis list.collapse)
    then show ?thesis by (metis append_Cons append_Nil takeWhile_dropWhile_id)
  qed
  then show ?thesis using None no by (auto simp: split_once_def)
next
  case (Some r)
  then have "p = SESSION_COOKIE @ ''='' @ r" unfolding strip_prefix_Some by simp
  moreover have "CHR ''='' \<notin> set SESSION_COOKIE" by (simp add: SESSION_COOKIE_def)
  ultimately show ?thesis using Some
    by (simp add: split_once_def takeWhile_append2 dropWhile_append2) (auto simp: SESSION_COOKIE_def)
qed

lemma session_cookie_value:
  "cookie_value header SESSION_COOKIE =
     first_some (\<lambda>p. strip_prefix (SESSION_COOKIE @ ''='') (trim p)) (split_on (CHR '';'') header)"
  unfolding cookie_value_def cookie_of_part ..

lemma live_session_deleted:
  "live_session t sid (d\<lparr>web_sessions := filter (\<lambda>s. ws_session_id s \<noteq> sid) (web_sessions d)\<rparr>) = None"
  by (auto simp: live_session_def find_None_all)

text \<open>
  Logging out ends the session of the browser that asks for it: whatever its cookie header, the
  same header names no user afterwards.
\<close>

theorem logout_ends_session:
  "web_session_user env t (Some header) (snd (handle_logout env (Some header) d)) = None"
proof (cases "Option.bind (cookie_value header SESSION_COOKIE) (parsed_uuid env)")
  case None
  then show ?thesis
    by (auto simp: handle_logout_def web_session_user_def session_cookie_value Option.bind_eq_None_conv
        split: option.splits)
next
  case (Some sid)
  then show ?thesis
    by (auto simp: handle_logout_def web_session_user_def session_cookie_value Option.bind_eq_Some_conv
        delete_web_session_def get_web_session_def live_session_deleted)
qed

section \<open>Logging in\<close>

definition usable_state :: "nat \<Rightarrow> string \<Rightarrow> 'z mod_db_scheme \<Rightarrow> bool" where
  "usable_state now st d \<longleftrightarrow> list_ex (\<lambda>(s, e). s = st \<and> now < e) (oauth_states d)"

lemma take_oauth_state_wp:
  "wp (take_oauth_state now st) (\<lambda>r d'. case r of Inl e \<Rightarrow> d' = d
     | Inr b \<Rightarrow> (b \<longleftrightarrow> usable_state now st d) \<and> \<not> usable_state now st d') d"
  by (auto simp: wp_def take_oauth_state_def usable_state_def list_ex_iff split: sum.split)

lemma ensure_user_wp: "wp (ensure_user now u n) (\<lambda>r d'. oauth_states d' = oauth_states d) d"
  by (auto simp: wp_def ensure_user_def split: sum.split)

lemma find_snoc: "\<forall>x\<in>set xs. \<not> P x \<Longrightarrow> P y \<Longrightarrow> List.find P (xs @ [y]) = Some y"
  by (induction xs) auto

lemma create_web_session_wp:
  "wp (create_web_session now i u n e) (\<lambda>r d'. oauth_states d' = oauth_states d \<and>
     (case r of Inl e \<Rightarrow> True | Inr _ \<Rightarrow> \<forall>t<e. live_session t i d' = Some \<lparr>ws_session_id = i, ws_user_id = u,
        ws_display_name = n, ws_created_at = now, ws_expires_at = e\<rparr>)) d"
proof -
  have "live_session t i (d\<lparr>web_sessions := web_sessions d @ [row]\<rparr>) = Some row"
    if "i \<notin> ws_session_id ` set (web_sessions d)" "ws_session_id row = i" "t < ws_expires_at row" for t row
    using that by (auto simp: live_session_def image_iff intro!: find_snoc)
  then show ?thesis by (auto simp: wp_def create_web_session_def text_col_def)
qed

text \<open>What a login that ends at the admin page has done.\<close>

definition logged_in ::
    "mod_env \<Rightarrow> nat \<Rightarrow> uuid \<Rightarrow> tm_oauth_config \<Rightarrow> string option \<Rightarrow> string \<Rightarrow> string \<Rightarrow> 'z mod_db_scheme \<Rightarrow>
     http_resp \<Rightarrow> 'z mod_db_scheme \<Rightarrow> bool" where
  "logged_in env now fresh oauth cookie code st d r d' \<longleftrightarrow>
     Option.bind cookie (\<lambda>header. cookie_value header OAUTH_STATE_COOKIE) = Some st \<and>
     usable_state now st d \<and> \<not> usable_state now st d' \<and>
     starts_with (hd (hp_cookies r)) (SESSION_COOKIE @ ''='' @ we_show_uuid (me_wf env) fresh @ '';'') \<and>
     (\<exists>token user u. me_exchange_code env oauth code = Inr token \<and> me_fetch_user env token = Inr user \<and>
        me_parse_uuid env (tu_account_id user) = Inr u \<and>
        (\<forall>t<now + days 14. live_session t fresh d' = Some \<lparr>ws_session_id = fresh, ws_user_id = u,
           ws_display_name = tu_display_name user, ws_created_at = now, ws_expires_at = now + days 14\<rparr>))"

lemma oauth_session_wp:
  fixes d :: "'z mod_db_scheme"
  assumes "Option.bind cookie (\<lambda>header. cookie_value header OAUTH_STATE_COOKIE) = Some st"
    "usable_state now st d0" "\<not> usable_state now st d"
    "me_exchange_code env oauth code = Inr token" "me_fetch_user env token = Inr user"
    "me_parse_uuid env (tu_account_id user) = Inr u"
    and cookies: "starts_with (hd cs) (SESSION_COOKIE @ ''='' @ we_show_uuid (me_wf env) fresh @ '';'')"
  shows "wp (and_then (server_err env (ensure_user now u (tu_display_name user))) (\<lambda>_.
      and_then (server_err env (create_web_session now fresh u (tu_display_name user) (now + days 14))) (\<lambda>_.
      Ok (found_at ''/admin'' cs))))
    (\<lambda>r d'. case r of Inl x \<Rightarrow> hp_status x \<noteq> 302
       | Inr x \<Rightarrow> logged_in env now fresh oauth cookie code st d0 x d') d"
proof (rule wp_seq_server, rule wp_mono [OF ensure_user_wp])
  fix r :: "db_error + unit" and d1 :: "'z mod_db_scheme"
  assume states: "oauth_states d1 = oauth_states d"
  let ?Q = "\<lambda>r d'. case r of Inl x \<Rightarrow> hp_status x \<noteq> 302
       | Inr x \<Rightarrow> logged_in env now fresh oauth cookie code st d0 x d'"
  let ?last = "and_then (server_err env (create_web_session now fresh u (tu_display_name user) (now + days 14))) (\<lambda>_.
      Ok (found_at ''/admin'' cs))"
  have "wp ?last ?Q d1"
  proof (rule wp_seq_server, rule wp_mono [OF create_web_session_wp])
    fix r2 :: "db_error + unit" and d2 :: "'z mod_db_scheme"
    assume made: "oauth_states d2 = oauth_states d1 \<and> (case r2 of Inl e \<Rightarrow> True
        | Inr _ \<Rightarrow> \<forall>t<now + days 14. live_session t fresh d2 = Some \<lparr>ws_session_id = fresh, ws_user_id = u,
            ws_display_name = tu_display_name user, ws_created_at = now, ws_expires_at = now + days 14\<rparr>)"
    have "logged_in env now fresh oauth cookie code st d0
        (found_at ''/admin'' cs) d2"
      if "r2 = Inr x" for x
      using assms states made that unfolding logged_in_def usable_state_def
      by (simp add: found_at_def)
    then show "case r2 of Inl e \<Rightarrow> ?Q (Inl (json_err 500 (me_show_error env e))) d2
        | Inr a \<Rightarrow> wp (Ok (found_at ''/admin'' cs)) ?Q d2"
      by (auto simp: wp_ok json_err_def split: sum.split)
  qed
  then show "case r of Inl e \<Rightarrow> ?Q (Inl (json_err 500 (me_show_error env e))) d1 | Inr a \<Rightarrow> wp ?last ?Q d1"
    by (simp add: json_err_def split: sum.split)
qed

lemma oauth_login_wp:
  fixes d :: "'z mod_db_scheme"
  shows "wp (oauth_login env now fresh oauth cookie code st) (\<lambda>r d'. case r of Inl x \<Rightarrow> hp_status x \<noteq> 302
     | Inr x \<Rightarrow> logged_in env now fresh oauth cookie code st d x d') d"
proof -
  let ?Q = "\<lambda>r d'. case r of Inl x \<Rightarrow> hp_status x \<noteq> 302 | Inr x \<Rightarrow> logged_in env now fresh oauth cookie code st d x d'"
  have refused: "wp (Err (json_err n msg)) ?Q d'" if "n \<noteq> 302" for n msg and d' :: "'z mod_db_scheme"
    using that by (simp add: wp_err json_err_def)
  show ?thesis
    unfolding oauth_login_def
    apply (rule wp_ifI, rule refused, simp)
    apply (rule wp_seq_server, rule wp_mono [OF take_oauth_state_wp])
    subgoal for r d1
      apply (cases r)
       apply (simp add: json_err_def)
      apply (simp only: sum.case)
      apply (rule wp_ifI, rule refused, simp)
      apply (rule wp_sumI, rule refused, simp)
      apply (clarsimp simp: res_iff)
      apply (rule oauth_session_wp, assumption+)
      apply (simp add: starts_with_decomp)
      done
    done
qed

lemma callback_logged_in:
  assumes "handle_oauth_callback env now fresh cookie (Some code) (Some st) None d = (Reply r, d')" "hp_status r = 302"
  shows "\<exists>oauth. me_oauth env = Some oauth \<and> logged_in env now fresh oauth cookie code st d r d'"
proof -
  obtain oauth where oauth: "me_oauth env = Some oauth"
    and run: "finish (oauth_login env now fresh oauth cookie code st) d = (r, d')"
    using assms by (auto simp: handle_oauth_callback_def json_err_def split: option.splits prod.splits)
  obtain x d1 where login: "oauth_login env now fresh oauth cookie code st d = (x, d1)" by (metis surj_pair)
  have "logged_in env now fresh oauth cookie code st d r d'"
    using wpD [OF oauth_login_wp login] run assms(2) login
    by (cases x) (auto simp: finish_def)
  then show ?thesis using oauth by blast
qed

lemma callback_replies:
  assumes "me_oauth env = Some oauth"
  shows "\<exists>r d'. handle_oauth_callback env now fresh cookie (Some code) (Some st) None d = (Reply r, d')"
  using assms by (cases "finish (oauth_login env now fresh oauth cookie code st) d") (simp add: handle_oauth_callback_def)

text \<open>A cookie value as the UUID printer makes them: no separator, nothing to trim.\<close>

definition cookie_text :: "string \<Rightarrow> bool" where
  "cookie_text s \<longleftrightarrow> s \<noteq> [] \<and> list_all (\<lambda>c. 33 \<le> (of_char c :: nat) \<and> (of_char c :: nat) < 127 \<and> c \<noteq> CHR '';'') s"

lemma ws_len_plain: "b < 128 \<Longrightarrow> 33 \<le> b \<Longrightarrow> ws_len (b # bs) = 0"
  by simp

lemma ws_len_end_plain:
  assumes "33 \<le> b" "b < 127"
  shows "ws_len_end (b # bs) = 0"
proof -
  have "ws_len [c, b] \<noteq> 2" for c using assms by auto
  moreover have "ws_len [a, c, b] \<noteq> 3" for a c using assms by auto
  moreover have "ws_len [b] \<noteq> 1" "ws_len [b] \<noteq> 2" "ws_len [b] \<noteq> 3" using assms by auto
  moreover have "ws_len [c, b] \<noteq> 3" for c using assms by (auto split: list.splits)
  ultimately show ?thesis
    by (cases bs; cases "tl bs") (auto simp: ws_len_end_def)
qed

lemma trim_end_fix: "ws_len_end (codes (rev s)) = 0 \<Longrightarrow> trim_end s = s"
  unfolding trim_end_def by (subst trim_end_rev.simps) simp

lemma trim_plain:
  assumes "cookie_text s"
  shows "trim s = s"
proof -
  obtain c cs where s: "s = c # cs" using assms by (cases s) (auto simp: cookie_text_def)
  obtain ds d where r: "s = ds @ [d]" using s by (metis list.discI rev_exhaust)
  have "33 \<le> (of_char c :: nat)" "(of_char c :: nat) < 127" using assms s by (auto simp: cookie_text_def)
  then have "ws_len (codes s) = 0" unfolding s codes_def list.map(2) by (intro ws_len_plain) auto
  then have start: "trim_start s = s" by (rule trim_start_fix)
  have "33 \<le> (of_char d :: nat)" "(of_char d :: nat) < 127" using assms r by (auto simp: cookie_text_def)
  then have "ws_len_end (codes (rev s)) = 0"
    unfolding r rev_append rev.simps append_Nil append_Cons codes_def list.map(2) by (intro ws_len_end_plain) auto
  then have "trim_end s = s" by (rule trim_end_fix)
  then show ?thesis unfolding trim_def start .
qed

lemma session_cookie_read:
  assumes "cookie_text v"
  shows "cookie_value (SESSION_COOKIE @ ''='' @ v) SESSION_COOKIE = Some v"
proof -
  have "cookie_text (SESSION_COOKIE @ ''='' @ v)" using assms by (simp add: cookie_text_def SESSION_COOKIE_def)
  moreover obtain p where p: "p = SESSION_COOKIE @ ''=''" by blast
  ultimately have ck: "cookie_text (p @ v)" by simp
  then have "split_on (CHR '';'') (p @ v) = [p @ v]"
    by (intro split_on_plain) (auto simp: cookie_text_def list_all_iff)
  then have "cookie_value (p @ v) SESSION_COOKIE = Some v"
    unfolding session_cookie_value p [symmetric] by (simp add: trim_plain [OF ck])
  then show ?thesis by (simp add: p)
qed

text \<open>
  C38. A login that ends at the admin page set a cookie that names, until the session expires, the
  account the OAuth service named for the code, and no other.
\<close>

theorem login_gives_session:
  assumes "handle_oauth_callback env now fresh cookie (Some code) (Some st) None d = (Reply r, d')" "hp_status r = 302"
    and "cookie_text (we_show_uuid (me_wf env) fresh)" "me_parse_uuid env (we_show_uuid (me_wf env) fresh) = Inr fresh"
    and "t < now + days 14"
  shows "\<exists>oauth token user u. me_oauth env = Some oauth \<and> me_exchange_code env oauth code = Inr token \<and>
    me_fetch_user env token = Inr user \<and> me_parse_uuid env (tu_account_id user) = Inr u \<and>
    starts_with (hd (hp_cookies r)) (SESSION_COOKIE @ ''='' @ we_show_uuid (me_wf env) fresh @ '';'') \<and>
    web_session_user env t (Some (SESSION_COOKIE @ ''='' @ we_show_uuid (me_wf env) fresh)) d' =
      Some (u, tu_display_name user)"
proof -
  obtain oauth where oauth: "me_oauth env = Some oauth" "logged_in env now fresh oauth cookie code st d r d'"
    using callback_logged_in [OF assms(1,2)] by blast
  then obtain token user u where user: "me_exchange_code env oauth code = Inr token" "me_fetch_user env token = Inr user"
      "me_parse_uuid env (tu_account_id user) = Inr u"
    and cookie: "starts_with (hd (hp_cookies r)) (SESSION_COOKIE @ ''='' @ we_show_uuid (me_wf env) fresh @ '';'')"
    and live: "\<forall>t<now + days 14. live_session t fresh d' = Some \<lparr>ws_session_id = fresh, ws_user_id = u,
           ws_display_name = tu_display_name user, ws_created_at = now, ws_expires_at = now + days 14\<rparr>"
    unfolding logged_in_def by blast
  have "web_session_user env t (Some (SESSION_COOKIE @ ''='' @ we_show_uuid (me_wf env) fresh)) d' =
      Some (u, tu_display_name user)"
    using assms(4) live [rule_format, OF assms(5)]
    unfolding web_session_user_def bind.bind_lunit session_cookie_read [OF assms(3)]
    by (simp add: parsed_uuid_def get_web_session_def)
  then show ?thesis using oauth(1) user cookie by blast
qed

definition login_server :: mod_server where
  "login_server = sample_server\<lparr>oauth_states := [(''s'', 99)]\<rparr>"

definition after_login :: "warp_reply \<times> mod_server" where
  "after_login = handle_oauth_callback sample_mod_env 50 9 (Some ''dd2_oauth_state=s'') (Some ''c'') (Some ''s'') None login_server"

lemma sample_state_cookie: "cookie_value ''dd2_oauth_state=s'' OAUTH_STATE_COOKIE = Some ''s''"
  by code_simp

lemma login_server_run:
  "\<exists>r d'. after_login = (Reply r, d') \<and> hp_status r = 302"
  by (simp add: after_login_def handle_oauth_callback_def oauth_login_def sample_state_cookie sample_mod_env_def
      finish_def and_then_def server_err_def map_err_def take_oauth_state_def text_col_def login_server_def
      ensure_user_def create_web_session_def varchar_col_def char_count_def is_cont_byte_def has_user_def
      sample_server_def wf_db.extend_def sample_db_def found_at_def)

theorem login_gives_session_witness:
  "\<exists>r d' user u. after_login = (Reply r, d') \<and> me_fetch_user sample_mod_env ''token'' = Inr user \<and>
     web_session_user sample_mod_env 60 (Some (SESSION_COOKIE @ ''='' @ we_show_uuid (me_wf sample_mod_env) 9)) d' =
       Some (u, tu_display_name user)"
proof -
  obtain r d' where run: "after_login = (Reply r, d')" "hp_status r = 302" using login_server_run by blast
  have "\<exists>oauth token user u. me_oauth sample_mod_env = Some oauth \<and> me_exchange_code sample_mod_env oauth ''c'' = Inr token \<and>
    me_fetch_user sample_mod_env token = Inr user \<and> me_parse_uuid sample_mod_env (tu_account_id user) = Inr u \<and>
    starts_with (hd (hp_cookies r)) (SESSION_COOKIE @ ''='' @ we_show_uuid (me_wf sample_mod_env) 9 @ '';'') \<and>
    web_session_user sample_mod_env 60 (Some (SESSION_COOKIE @ ''='' @ we_show_uuid (me_wf sample_mod_env) 9)) d' =
      Some (u, tu_display_name user)"
  proof (rule login_gives_session [OF run(1) [unfolded after_login_def] run(2)])
    show "cookie_text (we_show_uuid (me_wf sample_mod_env) 9)"
      "me_parse_uuid sample_mod_env (we_show_uuid (me_wf sample_mod_env) 9) = Inr 9"
      by code_simp+
    show "60 < 50 + days 14" by (simp add: days_def)
  qed
  then show ?thesis using run(1) by (auto simp: sample_mod_env_def)
qed

text \<open>
  C39. A state of the OAuth exchange is good for one login, by the browser it was made for: a login
  that ends at the admin page found it unexpired and in the browser's own cookie, and as long as it
  is not issued again, no later callback with it gets there.
\<close>

theorem oauth_state_single_use:
  assumes "handle_oauth_callback env now fresh cookie (Some code) (Some st) None d = (Reply r, d')" "hp_status r = 302"
    and "handle_oauth_callback env now2 fresh2 cookie2 (Some code2) (Some st) None d2 = (Reply r2, d3)"
    and "now \<le> now2" "set (oauth_states d2) \<subseteq> set (oauth_states d')"
  shows "Option.bind cookie (\<lambda>header. cookie_value header OAUTH_STATE_COOKIE) = Some st \<and>
    usable_state now st d \<and> hp_status r2 \<noteq> 302"
proof -
  have first: "Option.bind cookie (\<lambda>header. cookie_value header OAUTH_STATE_COOKIE) = Some st"
    "usable_state now st d" "\<not> usable_state now st d'"
    using callback_logged_in [OF assms(1,2)] unfolding logged_in_def by blast+
  have "\<not> usable_state now2 st d2" using first(3) assms(4,5) by (force simp: usable_state_def list_ex_iff)
  then have "hp_status r2 \<noteq> 302" using callback_logged_in [OF assms(3)] unfolding logged_in_def by blast
  then show ?thesis using first by simp
qed

theorem oauth_state_single_use_witness:
  "\<exists>r d' r2 d3. after_login = (Reply r, d') \<and>
     handle_oauth_callback sample_mod_env 60 10 (Some ''dd2_oauth_state=s'') (Some ''c'') (Some ''s'') None d' = (Reply r2, d3) \<and>
     hp_status r2 \<noteq> 302"
proof -
  obtain r d' where run: "after_login = (Reply r, d')" "hp_status r = 302" using login_server_run by blast
  obtain r2 d3 where again: "handle_oauth_callback sample_mod_env 60 10 (Some ''dd2_oauth_state=s'') (Some ''c'') (Some ''s'')
      None d' = (Reply r2, d3)"
  proof -
    have "\<exists>oauth. me_oauth sample_mod_env = Some oauth" by (simp add: sample_mod_env_def)
    then show thesis using callback_replies that by blast
  qed
  have "(50::nat) \<le> 60" by simp
  from oauth_state_single_use [OF run(1) [unfolded after_login_def] run(2) again this subset_refl]
  show ?thesis using run(1) again by blast
qed

section \<open>Bans read back\<close>

lemma active_ban_key:
  assumes "bans_ok d" "b \<in> set (map_bans d)" "is_ban_of m u b"
  shows "active_ban t m u d = (if ban_active t b then Some b else None)"
proof -
  have only: "x = b" if "x \<in> set (map_bans d)" "is_ban_of m u x" for x
  proof -
    have "inj_on (\<lambda>b. (mb_map_uid b, mb_user_id b)) (set (map_bans d))"
      using assms(1) by (simp add: bans_ok_def distinct_map)
    then show ?thesis by (rule inj_onD) (use that assms in \<open>auto simp: is_ban_of_def\<close>)
  qed
  show ?thesis
  proof (cases "active_ban t m u d")
    case None
    then have "\<not> ban_active t b" using assms(2,3) unfolding active_ban_None by blast
    then show ?thesis using None by simp
  next
    case (Some x)
    then have "x \<in> set (map_bans d) \<and> is_ban_of m u x \<and> ban_active t x"
      unfolding active_ban_def by (drule_tac find_Some_in) simp
    then show ?thesis using only [of x] Some by auto
  qed
qed

text \<open>
  After a ban is applied the player reads as banned there with the ban's public message until it
  expires, and as unofficial; once it is lifted the player is not banned, and unofficial only if the
  mark was to stay.
\<close>

theorem ban_and_lift_status:
  assumes "mod_inv d" "plain m" "apply_map_ban now m user actor pr pm expires d = (Inr (), d1)"
    and "lift_map_ban now2 m user actor2 keep d1 = (Inr True, d2)"
  shows "get_ban_status t m user d1 =
      (let banned = (case expires of None \<Rightarrow> True | Some e \<Rightarrow> t < e)
       in (Inr \<lparr>bs_banned = banned, bs_public_message = (if banned then Some pm else None), bs_unofficial = True\<rparr>, d1)) \<and>
    get_ban_status t m user d2 =
      (Inr \<lparr>bs_banned = False, bs_public_message = None, bs_unofficial = keep\<rparr>, d2)"
proof -
  obtain uid where "ban_applied now m user actor pr pm expires d uid d1"
    using wpD [OF apply_map_ban_wp assms(3)] by auto
  then have ban: "ban_applied now m user actor pr pm expires d m d1" and nul: "text_col m = Inr m"
    using plain_fits(1) [OF assms(2)] by (auto simp: ban_applied_def varchar_col_def text_col_def split: if_splits)
  have lift: "ban_lifted now2 m user actor2 keep d1 True d2"
    using wpD [OF lift_map_ban_wp assms(4)] by simp
  have ok: "bans_ok d1" using mod_inv_ban_applied [OF assms(1) ban] by (simp add: mod_inv_def)
  define b where "b = \<lparr>mb_map_uid = m, mb_user_id = user, mb_private_reason = pr,
         mb_public_message = pm, mb_created_by = actor, mb_created_at = now, mb_expires_at = expires,
         mb_lifted_at = None, mb_lifted_by = None\<rparr>"
  have b: "b \<in> set (map_bans d1)" "is_ban_of m user b"
    using ban new_in_upsert_by by (auto simp: ban_applied_def b_def is_ban_of_def)
  have mark: "list_ex (is_mark_of m user) (map_unofficial d1)"
    unfolding marked_def [symmetric]
    by (rule marked_upsert [OF conjunct2 [OF conjunct2 [OF conjunct2 [OF conjunct2 [OF conjunct2 [OF conjunct2 [OF conjunct2 [OF
          ban [unfolded ban_applied_def]]]]]]]]]) (simp_all add: is_mark_of_def)
  have "active_ban t m user d2 = None"
    unfolding active_ban_None
  proof (intro ballI impI)
    fix x assume x: "x \<in> set (map_bans d2)" "is_ban_of m user x"
    have "filter (\<lambda>b. is_ban_of m user b \<and> ban_active now2 b) (map_bans d1) \<noteq> []"
      using lift unfolding ban_lifted_def by auto
    then have "active_ban now2 m user d1 \<noteq> None" unfolding filter_empty_conv active_ban_None by blast
    then have "ban_active now2 y" if "y \<in> set (map_bans d1)" "is_ban_of m user y" for y
      using active_ban_key [OF ok that, of now2] by (auto split: if_splits)
    then show "\<not> ban_active t x"
      using x lift by (auto simp: ban_lifted_def set_upd_where ban_active_def split: if_splits)
  qed
  moreover have "list_ex (is_mark_of m user) (map_unofficial d2) = keep"
    using lift mark by (auto simp: ban_lifted_def list_ex_iff)
  ultimately show ?thesis
    using active_ban_key [OF ok b, of t] mark nul
    by (auto simp: get_ban_status_def get_active_ban_def is_unofficial_def fetch_by_text_def Let_def b_def ban_active_def
        split: option.splits)
qed

definition sample_ban :: "(db_error + unit) \<times> mod_server" where
  "sample_ban = apply_map_ban 50 ''m'' 3 1 ''r'' ''p'' (Some 90) sample_server"

definition sample_lift :: "(db_error + bool) \<times> mod_server" where
  "sample_lift = lift_map_ban 60 ''m'' 3 1 False (snd sample_ban)"

theorem ban_and_lift_status_witness:
  "get_ban_status 70 ''m'' 3 (snd sample_ban) =
     (Inr \<lparr>bs_banned = True, bs_public_message = Some ''p'', bs_unofficial = True\<rparr>, snd sample_ban) \<and>
   get_ban_status 70 ''m'' 3 (snd sample_lift) =
     (Inr \<lparr>bs_banned = False, bs_public_message = None, bs_unofficial = False\<rparr>, snd sample_lift)"
proof -
  have "fst sample_ban = Inr ()" "fst sample_lift = Inr True" by code_simp+
  then have "sample_ban = (Inr (), snd sample_ban)" "sample_lift = (Inr True, snd sample_lift)" by (simp_all add: prod_eq_iff)
  from ban_and_lift_status [OF sample_server_inv _ this [unfolded sample_ban_def sample_lift_def],
      folded sample_ban_def, folded sample_lift_def, of 70]
  show ?thesis by (simp add: plain_def)
qed

end
