(* ===== verification/Player_Stats.thy ===== *)
theory Player_Stats
  imports Leaderboard_Db
begin

text \<open>
  Statistics, personal bests and settings of players: \<open>src/queries/stats.rs\<close>,
  \<open>src/queries/user_settings.rs\<close>, the statistics of custom maps in \<open>src/queries/custom_maps.rs\<close>
  and the pages of listed maps in \<open>src/queries/listed_maps.rs\<close>.
\<close>

section \<open>Statistics\<close>

text \<open>The columns \<open>update_users_stats\<close> and \<open>downgrade_stats\<close> bind; a \<open>u32\<close> is cast to \<open>i32\<close>.\<close>

definition to_i32_or_zero :: "int \<Rightarrow> int" where
  "to_i32_or_zero x = (if - (2 ^ 31) \<le> x \<and> x < 2 ^ 31 then x else 0)"

definition stats_columns :: "nat \<Rightarrow> uuid \<Rightarrow> int \<Rightarrow> stats \<Rightarrow> stats_row" where
  "stats_columns now user update_count s =
     \<lparr>su_user_id = user, su_seconds_spent_in_map = to_i32_or_zero (st_seconds_spent_in_map s),
      su_nb_jumps = as_i32 (int (st_nb_jumps s)), su_nb_falls = as_i32 (int (st_nb_falls s)),
      su_nb_floors_fallen = as_i32 (int (st_nb_floors_fallen s)),
      su_last_pb_set_ts = Some (st_last_pb_set_ts s * 1000000),
      su_total_dist_fallen = st_total_dist_fallen s, su_pb_height = st_pb_height s,
      su_pb_floor = as_i32 (int (st_pb_floor s)), su_nb_resets = as_i32 (int (st_nb_resets s)),
      su_ggs_triggered = as_i32 (int (st_ggs_triggered s)),
      su_title_gags_triggered = as_i32 (int (st_title_gags_triggered s)),
      su_title_gags_special_triggered = as_i32 (int (st_title_gags_special_triggered s)),
      su_bye_byes_triggered = as_i32 (int (st_bye_byes_triggered s)),
      su_monument_triggers = st_monument_triggers s, su_reached_floor_count = st_reached_floor_count s,
      su_floor_voice_lines_played = st_floor_voice_lines_played s,
      su_extra = (case st_extra s of None \<Rightarrow> JObj [] | Some e \<Rightarrow> e),
      su_update_count = update_count, su_ts = now\<rparr>"

definition find_stats :: "uuid \<Rightarrow> 'z lb_db_scheme \<Rightarrow> stats_row option" where
  "find_stats user d = List.find (\<lambda>r. su_user_id r = user) (user_stats d)"

text \<open>\<open>ranked_stats\<close>: every row, ranked by height; shadow bans do not count here.\<close>

definition stats_rank :: "'z lb_db_scheme \<Rightarrow> stats_row \<Rightarrow> nat" where
  "stats_rank d = rank_in su_pb_height (user_stats d)"

definition archive_stats :: "nat \<Rightarrow> uuid \<Rightarrow> ('z lb_db_scheme, db_error, unit) db_action" where
  "archive_stats now user = execute (\<lambda>d. d\<lparr>stats_archive := stats_archive d @
     map (\<lambda>r. \<lparr>sa_stats = r, sa_rank_at_time = int (stats_rank d r), sa_ts = now\<rparr>)
       (filter (\<lambda>r. su_user_id r = user) (user_stats d))\<rparr>)"

text \<open>The \<open>UPDATE\<close> both functions share: the row's new update count, or \<open>RowNotFound\<close>.\<close>

definition update_stats_row ::
    "(stats_row \<Rightarrow> bool) \<Rightarrow> nat \<Rightarrow> uuid \<Rightarrow> stats \<Rightarrow> ('z lb_db_scheme, db_error, int) db_action" where
  "update_stats_row ok now user s d =
     (case find_stats user d of
        None \<Rightarrow> (Inl RowNotFound, d)
      | Some old \<Rightarrow>
          if \<not> ok old then (Inl RowNotFound, d)
          else if su_update_count old = i32_max then (Inl OutOfRange, d)
          else (Inr (su_update_count old + 1), d\<lparr>user_stats := upd_where (\<lambda>r. su_user_id r = user)
                 (\<lambda>r. stats_columns now user (su_update_count r + 1) s) (user_stats d)\<rparr>))"

definition insert_stats :: "nat \<Rightarrow> uuid \<Rightarrow> stats \<Rightarrow> ('z lb_db_scheme, db_error, unit) db_action" where
  "insert_stats now user s d =
     (if user \<in> su_user_id ` set (user_stats d) then (Inl (UniqueViolation ''stats_pkey''), d)
      else if \<not> has_user user d then (Inl (ForeignKeyViolation ''stats_user_id_fkey''), d)
      else (Inr (), d\<lparr>user_stats := user_stats d @ [stats_columns now user 0 s]\<rparr>))"

definition update_users_stats :: "nat \<Rightarrow> uuid \<Rightarrow> stats \<Rightarrow> ('z lb_db_scheme, db_error, unit) db_action" where
  "update_users_stats now user s =
     and_then (attempt (update_stats_row (\<lambda>_. True) now user s)) (\<lambda>r.
       (case r of
          Inr n \<Rightarrow> if 10 dvd as_i32 (n + 2) then archive_stats now user else Ok ()
        | Inl e \<Rightarrow> if e = RowNotFound then insert_stats now user s else Err e))"

definition downgrade_stats :: "nat \<Rightarrow> uuid \<Rightarrow> stats \<Rightarrow> ('z lb_db_scheme, db_error, unit) db_action" where
  "downgrade_stats now user s =
     and_then (update_stats_row (\<lambda>old. su_pb_height old \<le> st_pb_height s) now user s) (\<lambda>_. Ok ())"

section \<open>The Deep Dip leaderboard\<close>

record ranked_lb_entry =
  lbe_wsid :: uuid
  lbe_height :: f64
  lbe_rank :: "int option"
  lbe_ts :: nat
  lbe_display_name :: "string option"
  lbe_update_count :: int
  lbe_color :: "(rat \<times> rat \<times> rat) option"

definition ranked_entry_into :: "lb_env \<Rightarrow> ranked_lb_entry \<Rightarrow> leaderboard_entry" where
  "ranked_entry_into env e =
     \<lparr>le_rank = nat (as_u32 (case lbe_rank e of None \<Rightarrow> 99999 | Some r \<Rightarrow> r)),
      le_wsid = we_show_uuid (le_wf env) (lbe_wsid e), le_height = fe_narrow (le_float env) (lbe_height e),
      le_ts = unix_seconds (lbe_ts e),
      le_name = (case lbe_display_name e of None \<Rightarrow> ''?'' | Some n \<Rightarrow> n),
      le_update_count = lbe_update_count e,
      le_color = (case lbe_color e of None \<Rightarrow> (1, 1, 1) | Some c \<Rightarrow> c)\<rparr>"

text \<open>\<open>ranked_lb_view\<close> joined with the colours: the players who are not shadow-banned, best first.\<close>

definition ranked_rows :: "'z lb_db_scheme \<Rightarrow> lb_row list" where
  "ranked_rows d = order_desc ll_height (filter (\<lambda>r. ll_user_id r \<notin> set (shadow_bans d)) (leaderboard d))"

definition ranked_entry :: "'z lb_db_scheme \<Rightarrow> lb_row \<Rightarrow> ranked_lb_entry" where
  "ranked_entry d r =
     \<lparr>lbe_wsid = ll_user_id r, lbe_height = ll_height r,
      lbe_rank = Some (int (rank_in ll_height (ranked_rows d) r)), lbe_ts = ll_ts r,
      lbe_display_name = display_name_of (ll_user_id r) d, lbe_update_count = ll_update_count r,
      lbe_color = color_of (ll_user_id r) d\<rparr>"

definition ranked_lb_view :: "'z lb_db_scheme \<Rightarrow> ranked_lb_entry list" where
  "ranked_lb_view d = map (ranked_entry d) (ranked_rows d)"

definition get_global_lb_count :: "('z lb_db_scheme, db_error, nat) db_action" where
  "get_global_lb_count = fetch (\<lambda>d. Inr (length (ranked_lb_view d)))"

definition get_global_lb :: "int \<Rightarrow> int \<Rightarrow> ('z lb_db_scheme, db_error, ranked_lb_entry list) db_action" where
  "get_global_lb start stop =
     (if stop < start then Ok []
      else fetch (\<lambda>d. limit_offset (as_i32 (stop - start)) (max (start - 1) 0) (ranked_lb_view d)))"

definition get_user_in_lb :: "uuid \<Rightarrow> ('z lb_db_scheme, db_error, ranked_lb_entry option) db_action" where
  "get_user_in_lb user = fetch (\<lambda>d. Inr (List.find (\<lambda>e. lbe_wsid e = user) (ranked_lb_view d)))"

definition get_friends_lb :: "uuid list \<Rightarrow> ('z lb_db_scheme, db_error, ranked_lb_entry list) db_action" where
  "get_friends_lb friends = fetch (\<lambda>d. Inr (filter (\<lambda>e. lbe_wsid e \<in> set friends) (ranked_lb_view d)))"

definition insert_lb_archive :: "nat \<Rightarrow> uuid \<Rightarrow> ('z lb_db_scheme, db_error, int) db_action" where
  "insert_lb_archive now user d =
     (case List.find (\<lambda>e. lbe_wsid e = user) (ranked_lb_view d) of
        None \<Rightarrow> (Inl RowNotFound, d)
      | Some e \<Rightarrow>
          let rank = (case lbe_rank e of None \<Rightarrow> 0 | Some r \<Rightarrow> r)
          in if \<exists>a\<in>set (leaderboard_archive d). la_user_id a = user \<and> la_ts a = now
             then (Inl (UniqueViolation ''leaderboard_archive_pkey''), d)
             else (Inr rank, d\<lparr>leaderboard_archive := leaderboard_archive d @
                    [\<lparr>la_user_id = user, la_height = lbe_height e, la_rank_at_time = rank, la_ts = now\<rparr>]\<rparr>))"

definition find_lb :: "uuid \<Rightarrow> 'z lb_db_scheme \<Rightarrow> lb_row option" where
  "find_lb user d = List.find (\<lambda>r. ll_user_id r = user) (leaderboard d)"

definition raise_lb :: "nat \<Rightarrow> uuid \<Rightarrow> f64 \<Rightarrow> ('z lb_db_scheme, db_error, int) db_action" where
  "raise_lb now user height d =
     (case find_lb user d of
        None \<Rightarrow> (Inl RowNotFound, d)
      | Some r \<Rightarrow>
          if ll_update_count r = i32_max then (Inl OutOfRange, d)
          else (Inr (ll_update_count r + 1), d\<lparr>leaderboard := upd_where (\<lambda>r. ll_user_id r = user)
                 (\<lambda>r. r\<lparr>ll_height := height, ll_ts := now, ll_update_count := ll_update_count r + 1\<rparr>)
                 (leaderboard d)\<rparr>))"

definition insert_lb :: "nat \<Rightarrow> uuid \<Rightarrow> f64 \<Rightarrow> ('z lb_db_scheme, db_error, unit) db_action" where
  "insert_lb now user height d =
     (if \<not> has_user user d then (Inl (ForeignKeyViolation ''leaderboard_user_id_fkey''), d)
      else (Inr (), d\<lparr>leaderboard := leaderboard d @
             [\<lparr>ll_user_id = user, ll_height = height, ll_update_count = 0, ll_ts = now\<rparr>]\<rparr>))"

text \<open>The result is \<open>PBUpdateRes::is_top_3\<close>.\<close>

definition update_user_pb_height :: "nat \<Rightarrow> uuid \<Rightarrow> f64 \<Rightarrow> ('z lb_db_scheme, db_error, bool) db_action" where
  "update_user_pb_height now user height =
     and_then (fetch (\<lambda>d. Inr (find_lb user d))) (\<lambda>found.
       (case found of
          None \<Rightarrow> and_then (insert_lb now user height) (\<lambda>_. Ok False)
        | Some r \<Rightarrow>
            if rust_lt (ll_height r) height
            then and_then (raise_lb now user height) (\<lambda>_.
                 and_then (insert_lb_archive now user) (\<lambda>rank. Ok (rank < 10)))
            else Ok False))"

text \<open>
  \<open>get_user_stats\<close>: the columns as the client sent them; the height is that of the leaderboard
  where the player has one.
\<close>

definition get_user_stats :: "float_env \<Rightarrow> uuid \<Rightarrow> ('z lb_db_scheme, db_error, stats \<times> nat) db_action" where
  "get_user_stats env user =
     and_then (fetch (\<lambda>d. ok_or RowNotFound (map_option (\<lambda>r. (r, stats_rank d r)) (find_stats user d)))) (\<lambda>(r, rank).
     and_then (get_user_in_lb user) (\<lambda>lbe. Ok
       (\<lparr>st_seconds_spent_in_map = su_seconds_spent_in_map r,
         st_nb_jumps = nat (as_u32 (su_nb_jumps r)), st_nb_falls = nat (as_u32 (su_nb_falls r)),
         st_nb_floors_fallen = nat (as_u32 (su_nb_floors_fallen r)),
         st_last_pb_set_ts = (case su_last_pb_set_ts r of None \<Rightarrow> 0 | Some t \<Rightarrow> unix_seconds t),
         st_total_dist_fallen = fe_narrow env (su_total_dist_fallen r),
         st_pb_height = fe_narrow env (case lbe of None \<Rightarrow> su_pb_height r | Some e \<Rightarrow> lbe_height e),
         st_pb_floor = nat (as_u32 (su_pb_floor r)), st_nb_resets = nat (as_u32 (su_nb_resets r)),
         st_ggs_triggered = nat (as_u32 (su_ggs_triggered r)),
         st_title_gags_triggered = nat (as_u32 (su_title_gags_triggered r)),
         st_title_gags_special_triggered = nat (as_u32 (su_title_gags_special_triggered r)),
         st_bye_byes_triggered = nat (as_u32 (su_bye_byes_triggered r)),
         st_monument_triggers = su_monument_triggers r, st_reached_floor_count = su_reached_floor_count r,
         st_floor_voice_lines_played = su_floor_voice_lines_played r, st_extra = Some (su_extra r)\<rparr>,
        nat (as_u32 (int rank)))))"

section \<open>Positions, respawns, finishes and falls\<close>

definition has_session :: "uuid \<Rightarrow> 'z core_db_scheme \<Rightarrow> bool" where
  "has_session t d \<longleftrightarrow> t \<in> sr_token ` set (sessions d)"

definition insert_respawn :: "nat \<Rightarrow> uuid \<Rightarrow> int \<Rightarrow> ('z lb_db_scheme, db_error, unit) db_action" where
  "insert_respawn now session race_time d =
     (if \<not> has_session session d then (Inl (ForeignKeyViolation ''respawns_session_token_fkey''), d)
      else (Inr (), d\<lparr>respawns := respawns d @ [\<lparr>rt_session = session, rt_race_time = race_time, rt_ts = now\<rparr>]\<rparr>))"

definition insert_finish :: "nat \<Rightarrow> uuid \<Rightarrow> int \<Rightarrow> ('z lb_db_scheme, db_error, unit) db_action" where
  "insert_finish now session race_time d =
     (if \<not> has_session session d then (Inl (ForeignKeyViolation ''finishes_session_token_fkey''), d)
      else (Inr (), d\<lparr>finishes := finishes d @ [\<lparr>rt_session = session, rt_race_time = race_time, rt_ts = now\<rparr>]\<rparr>))"

definition insert_vehicle_state ::
    "nat \<Rightarrow> uuid \<Rightarrow> bool \<Rightarrow> vec3 \<Rightarrow> f64 \<times> f64 \<times> f64 \<times> f64 \<Rightarrow> vec3 \<Rightarrow> ('z lb_db_scheme, db_error, unit) db_action" where
  "insert_vehicle_state now session official pos rotq vel d =
     (if \<not> has_session session d then (Inl (ForeignKeyViolation ''vehicle_states_session_token_fkey''), d)
      else (Inr (), d\<lparr>vehicle_states := vehicle_states d @ [\<lparr>vs_session = session, vs_is_official = official,
             vs_pos = pos, vs_rotq = rotq, vs_vel = vel, vs_ts = now\<rparr>]\<rparr>))"

definition MAX_HEIGHT :: f64 where "MAX_HEIGHT = Fin 5000"

definition report_live_vehicle_state ::
    "float_env \<Rightarrow> nat \<Rightarrow> uuid \<Rightarrow> uuid \<Rightarrow> bool \<Rightarrow> vec3 \<Rightarrow> f64 \<times> f64 \<times> f64 \<times> f64 \<Rightarrow> vec3 \<Rightarrow>
     ('z lb_db_scheme, db_error, unit) db_action" where
  "report_live_vehicle_state env now session user official pos rotq vel =
     and_then (insert_vehicle_state now session official pos rotq vel) (\<lambda>_.
       if official \<and> height_at pos \<noteq> NaN \<and> height_at pos \<le> MAX_HEIGHT
       then upsert_map_curr_height env now DD2_MAP_UID user pos (- 1) else Ok ())"

definition insert_start_fall ::
    "nat \<Rightarrow> uuid \<Rightarrow> uuid \<Rightarrow> int \<Rightarrow> vec3 \<Rightarrow> f64 \<Rightarrow> int \<Rightarrow> ('z lb_db_scheme, db_error, unit) db_action" where
  "insert_start_fall now user session start_floor pos speed start_time d =
     (let d1 = d\<lparr>falls_seq := falls_seq d + 1\<rparr>
      in if \<not> has_session session d then (Inl (ForeignKeyViolation ''falls_session_token_fkey''), d1)
         else if \<not> has_user user d then (Inl (ForeignKeyViolation ''falls_user_id_fkey''), d1)
         else (Inr (), d1\<lparr>falls := falls d @ [\<lparr>fa_id = falls_seq d, fa_session = session, fa_user_id = user,
                fa_start_floor = start_floor, fa_start_pos = pos, fa_start_speed = speed,
                fa_start_time = start_time, fa_end = None, fa_ts = now\<rparr>]\<rparr>))"

definition update_fall_with_end ::
    "uuid \<Rightarrow> int \<Rightarrow> vec3 \<Rightarrow> int \<Rightarrow> ('z lb_db_scheme, db_error, unit) db_action" where
  "update_fall_with_end user flr pos end_time d =
     (case order_desc fa_ts (filter (\<lambda>f. fa_user_id f = user \<and> fa_end f = None) (falls d)) of
        [] \<Rightarrow> (Inl RowNotFound, d)
      | open_fall # _ \<Rightarrow> (Inr (), d\<lparr>falls := upd_where (\<lambda>f. fa_id f = fa_id open_fall)
             (\<lambda>f. f\<lparr>fa_end := Some (flr, pos, end_time)\<rparr>) (falls d)\<rparr>))"

record player_height_log =
  hl_display_name :: string
  hl_user_id :: string
  hl_last_5_points :: "(f64 \<times> int) list"

definition get_users_latest_height ::
    "wf_env \<Rightarrow> uuid \<Rightarrow> ('z lb_db_scheme, db_error, player_height_log) db_action" where
  "get_users_latest_height env user = fetch (\<lambda>d. Inr
     (case order_desc sr_created_ts (filter (\<lambda>s. sr_user_id s = user \<and> has_user user d) (sessions d)) of
        [] \<Rightarrow> \<lparr>hl_display_name = ''? unknown ?'', hl_user_id = we_show_uuid env user, hl_last_5_points = []\<rparr>
      | s # _ \<Rightarrow>
          let rows = take 5 (order_desc vs_ts (filter (\<lambda>v. vs_session v = sr_token s \<and> vs_is_official v) (vehicle_states d)))
          in \<lparr>hl_display_name = (case (rows, display_name_of user d) of (_ # _, Some n) \<Rightarrow> n | _ \<Rightarrow> ''? unknown ?''),
              hl_user_id = we_show_uuid env user,
              hl_last_5_points = map (\<lambda>v. (height_at (vs_pos v), int (vs_ts v div 1000000))) rows\<rparr>))"

section \<open>Colours, statistics of custom maps and settings\<close>

definition update_user_color :: "uuid \<Rightarrow> rat \<times> rat \<times> rat \<Rightarrow> ('z lb_db_scheme, db_error, unit) db_action" where
  "update_user_color user color d =
     (if \<not> has_user user d then (Inl (ForeignKeyViolation ''colors_user_id_fkey''), d)
      else (Inr (), d\<lparr>colors := upsert_by (\<lambda>c. fst c = user) (user, color) (colors d)\<rparr>))"

definition get_players_spec_info ::
    "lb_env \<Rightarrow> string \<Rightarrow> uuid \<Rightarrow> ('z lb_db_scheme, db_error, int \<times> nat) db_action" where
  "get_players_spec_info env map_uid user = fetch (\<lambda>d. bind_res (text_col map_uid) (\<lambda>_.
     (case List.find (\<lambda>r. cs_user_id r = user \<and> cs_map_uid r = map_uid) (custom_map_stats d) of
        None \<Rightarrow> Inl RowNotFound
      | Some r \<Rightarrow>
          bind_res (case json_get (cs_stats r) ''seconds_spent_in_map'' of
                      None \<Rightarrow> Inr 0
                    | Some v \<Rightarrow> if v = JNull then Inr 0 else le_bigint env v)
            (\<lambda>n. Inr (n, cs_updated_at r)))))"

definition report_map_stats :: "nat \<Rightarrow> uuid \<Rightarrow> string \<Rightarrow> json \<Rightarrow> ('z lb_db_scheme, db_error, unit) db_action" where
  "report_map_stats now user map_uid stats d =
     (case varchar_col 27 map_uid of
        Inl e \<Rightarrow> (Inl e, d)
      | Inr uid \<Rightarrow>
          if json_has_nul stats then (Inl InvalidText, d)
          else if \<not> has_user user d then (Inl (ForeignKeyViolation ''custom_map_stats_user_id_fkey''), d)
          else (Inr (), d\<lparr>custom_map_stats := upsert_by (\<lambda>r. cs_user_id r = user \<and> cs_map_uid r = uid)
                 \<lparr>cs_user_id = user, cs_map_uid = uid, cs_stats = stats, cs_updated_at = now\<rparr>
                 (custom_map_stats d)\<rparr>))"

definition find_setting :: "uuid \<Rightarrow> setting_row list \<Rightarrow> setting_row option" where
  "find_setting user = List.find (\<lambda>r. se_user_id r = user)"

definition get_profile :: "uuid \<Rightarrow> ('z lb_db_scheme, db_error, json) db_action" where
  "get_profile user = fetch (\<lambda>d. ok_or RowNotFound (map_option se_value (find_setting user (profile_settings d))))"

definition set_profile :: "nat \<Rightarrow> uuid \<Rightarrow> json \<Rightarrow> ('z lb_db_scheme, db_error, unit) db_action" where
  "set_profile now user profile d =
     (if \<not> has_user user d then (Inl (ForeignKeyViolation ''profile_settings_user_id_fkey''), d)
      else (Inr (), d\<lparr>profile_settings := upsert_by (\<lambda>r. se_user_id r = user)
             \<lparr>se_user_id = user, se_value = profile, se_updated_at = now\<rparr> (profile_settings d)\<rparr>))"

definition get_preferences :: "uuid \<Rightarrow> ('z lb_db_scheme, db_error, json) db_action" where
  "get_preferences user = fetch (\<lambda>d. ok_or RowNotFound (map_option se_value (find_setting user (user_preferences d))))"

definition set_preferences :: "nat \<Rightarrow> uuid \<Rightarrow> json \<Rightarrow> ('z lb_db_scheme, db_error, unit) db_action" where
  "set_preferences now user preferences d =
     (if \<not> has_user user d then (Inl (ForeignKeyViolation ''user_preferences_user_id_fkey''), d)
      else (Inr (), d\<lparr>user_preferences := upsert_by (\<lambda>r. se_user_id r = user)
             \<lparr>se_user_id = user, se_value = preferences, se_updated_at = now\<rparr> (user_preferences d)\<rparr>))"

end
