(* ===== verification/Leaderboards.thy ===== *)
theory Leaderboards
  imports Player_Stats Contexts
begin

text \<open>
  The handlers of \<open>src/server2.rs\<close> for heights, statistics and settings, each with the responses
  it puts on the connection's queue, the listing of maps (\<open>src/queries/listed_maps.rs\<close> and the
  trigger on \<open>map_leaderboard\<close>), and the numbers of the server.
\<close>

section \<open>Listed maps\<close>

text \<open>The threshold of a map: that of its spec, once its author has confirmed the binding.\<close>

definition map_threshold :: "string \<Rightarrow> 'z wf_db_scheme \<Rightarrow> int" where
  "map_threshold uid d =
     (let t = (case find_bind uid d of
                 None \<Rightarrow> 25
               | Some b \<Rightarrow>
                   (case find_spec (lb_spec_id b) d of
                      None \<Rightarrow> 25
                    | Some s \<Rightarrow> if lb_author_verified_at b \<noteq> None \<and> lb_verified_author_id b = Some (sx_user_id s)
                                then sx_listing_threshold s else 25))
      in min 100 (max 5 t))"

definition is_listed :: "string \<Rightarrow> 'z lb_db_scheme \<Rightarrow> bool" where
  "is_listed uid d \<longleftrightarrow> list_ex (\<lambda>r. li_map_uid r = uid \<and> li_listed r) (listed_maps d)"

definition map_leaderboard_maybe_list :: "nat \<Rightarrow> string \<Rightarrow> 'z lb_db_scheme \<Rightarrow> 'z lb_db_scheme" where
  "map_leaderboard_maybe_list now uid d =
     (if uid = DD2_MAP_UID then d
      else if is_listed uid d then d
      else if int (length (public_rows now uid d)) < map_threshold uid d then d
      else if uid \<in> li_map_uid ` set (listed_maps d) then d
      else d\<lparr>listed_maps := listed_maps d @ [\<lparr>li_map_uid = uid, li_listed = True, li_became_listed = now\<rparr>]\<rparr>)"

definition get_listed_maps_len :: "('z lb_db_scheme, db_error, nat) db_action" where
  "get_listed_maps_len = fetch (\<lambda>d. Inr
     (length (filter (\<lambda>r. li_listed r \<and> li_map_uid r \<noteq> DD2_MAP_UID) (listed_maps d))))"

record listed_map =
  lm_uid :: string
  lm_became_listed :: int
  lm_map_name :: "string option"
  lm_author_id :: "string option"
  lm_nb_players :: nat

definition listed_entry :: "wf_env \<Rightarrow> nat \<Rightarrow> 'z lb_db_scheme \<Rightarrow> listed_map_row \<Rightarrow> listed_map" where
  "listed_entry env now d r =
     (let meta = find_meta (li_map_uid r) d
      in \<lparr>lm_uid = li_map_uid r, lm_became_listed = int (li_became_listed r div 1000000),
          lm_map_name = (case meta of None \<Rightarrow> None | Some m \<Rightarrow> mm_map_name m),
          lm_author_id = map_option (\<lambda>m. we_show_uuid env (mm_author_id m)) meta,
          lm_nb_players = length (public_rows now (li_map_uid r) d)\<rparr>)"

definition get_listed_maps_page ::
    "wf_env \<Rightarrow> nat \<Rightarrow> nat \<Rightarrow> ('z lb_db_scheme, db_error, listed_map list) db_action" where
  "get_listed_maps_page env now page = fetch (\<lambda>d.
     bind_res (limit_offset LISTED_MAPS_PAGE_SIZE (int page * LISTED_MAPS_PAGE_SIZE)
         (order_desc li_became_listed (sort_key (\<lambda>r. we_collate env (li_map_uid r))
            (filter (\<lambda>r. li_listed r \<and> li_map_uid r \<noteq> DD2_MAP_UID) (listed_maps d)))))
       (\<lambda>rows. Inr (map (listed_entry env now d) rows)))"

section \<open>Heights on custom maps\<close>

definition is_map_lb_of :: "string \<Rightarrow> uuid \<Rightarrow> map_lb_row \<Rightarrow> bool" where
  "is_map_lb_of uid user m \<longleftrightarrow> ml_map_uid m = uid \<and> ml_user_id m = user"

definition find_map_lb :: "string \<Rightarrow> uuid \<Rightarrow> 'z lb_db_scheme \<Rightarrow> map_lb_row option" where
  "find_map_lb uid user d = List.find (is_map_lb_of uid user) (map_leaderboard d)"

text \<open>
  \<open>UPDATE ... WHERE height < new\<close>, which reports whether it found a row, and the insert with
  \<open>ON CONFLICT DO NOTHING\<close> and its trigger.
\<close>

definition raise_map_lb ::
    "nat \<Rightarrow> string \<Rightarrow> uuid \<Rightarrow> vec3 \<Rightarrow> int \<Rightarrow> ('z lb_db_scheme, db_error, bool) db_action" where
  "raise_map_lb now uid user pos race_time d =
     (case find_map_lb uid user d of
        None \<Rightarrow> (Inr False, d)
      | Some m \<Rightarrow>
          if \<not> ml_height m < height_at pos then (Inr False, d)
          else if ml_update_count m = i32_max then (Inl OutOfRange, d)
          else (Inr True, d\<lparr>map_leaderboard := upd_where (is_map_lb_of uid user)
                 (\<lambda>m. m\<lparr>ml_pos := pos, ml_height := height_at pos, ml_race_time := race_time,
                       ml_updated_at := now, ml_update_count := ml_update_count m + 1\<rparr>) (map_leaderboard d)\<rparr>))"

definition insert_map_lb ::
    "nat \<Rightarrow> string \<Rightarrow> uuid \<Rightarrow> vec3 \<Rightarrow> int \<Rightarrow> ('z lb_db_scheme, db_error, unit) db_action" where
  "insert_map_lb now uid user pos race_time d =
     (if find_map_lb uid user d \<noteq> None then (Inr (), d)
      else if \<not> has_user user d then (Inl (ForeignKeyViolation ''map_leaderboard_user_id_fkey''), d)
      else (Inr (), map_leaderboard_maybe_list now uid (d\<lparr>map_leaderboard := map_leaderboard d @
             [\<lparr>ml_map_uid = uid, ml_user_id = user, ml_height = height_at pos, ml_pos = pos,
               ml_race_time = race_time, ml_updated_at = now, ml_update_count = 0\<rparr>]\<rparr>)))"

definition report_map_curr_pos ::
    "float_env \<Rightarrow> nat \<Rightarrow> uuid \<Rightarrow> string \<Rightarrow> vec3 \<Rightarrow> int \<Rightarrow> ('z lb_db_scheme, api_error, unit) db_action" where
  "report_map_curr_pos env now user map_uid pos race_time =
     (if rust_lt MAX_HEIGHT (height_at pos) then Ok ()
      else if length map_uid \<noteq> 27 then Err (StrErr ''Invalid map_uid'')
      else map_err SqlxErr
        (and_then (upsert_map_curr_height env now map_uid user pos race_time) (\<lambda>_.
         and_then (raise_map_lb now map_uid user pos race_time) (\<lambda>raised.
         if raised then Ok () else insert_map_lb now map_uid user pos race_time))))"

type_synonym 'd handler = "('d, api_error, response list) db_action"

definition answer :: "('d, db_error, 'a) db_action \<Rightarrow> ('a \<Rightarrow> response list) \<Rightarrow> 'd handler" where
  "answer q f = and_then (map_err SqlxErr q) (\<lambda>a. Ok (f a))"

definition get_map_rank :: "wf_env \<Rightarrow> nat \<Rightarrow> string \<Rightarrow> uuid \<Rightarrow> 'z lb_db_scheme handler" where
  "get_map_rank env now map_uid user =
     and_then (map_err SqlxErr (get_map_rank_entry env now map_uid user)) (\<lambda>r.
     answer (get_ban_status now map_uid user) (\<lambda>status.
       [RMapRank map_uid r (bs_banned status) (bs_public_message status) (bs_unofficial status)]))"

definition get_map_overview :: "nat \<Rightarrow> string \<Rightarrow> 'z lb_db_scheme handler" where
  "get_map_overview now map_uid =
     answer (get_map_overview_player_counts now map_uid) (\<lambda>(n, live).
       [RMapOverview map_uid (nat (as_u32 (int n))) (nat (as_u32 (int live)))])"

definition send_map_lb :: "wf_env \<Rightarrow> nat \<Rightarrow> string \<Rightarrow> int \<Rightarrow> int \<Rightarrow> 'z lb_db_scheme handler" where
  "send_map_lb env now map_uid start stop =
     answer (get_map_leaderboard env now map_uid start stop) (\<lambda>entries. [RMapLB map_uid entries])"

definition send_map_live :: "wf_env \<Rightarrow> nat \<Rightarrow> string \<Rightarrow> 'z lb_db_scheme handler" where
  "send_map_live env now map_uid =
     answer (get_map_live_heights_top_n env now map_uid 100) (\<lambda>players. [RMapLivePlayers map_uid players])"

section \<open>Deep Dip heights and statistics\<close>

text \<open>Whether the connection's context is the official one; without a context it is not.\<close>

definition ctx_official :: "player_ctx option \<Rightarrow> bool" where
  "ctx_official ctx = (case ctx of None \<Rightarrow> False | Some c \<Rightarrow> fst (is_official c))"

definition report_vehicle_state ::
    "float_env \<Rightarrow> nat \<Rightarrow> uuid \<Rightarrow> uuid \<Rightarrow> player_ctx option \<Rightarrow> vec3 \<Rightarrow> f64 \<times> f64 \<times> f64 \<times> f64 \<Rightarrow> vec3 \<Rightarrow>
     ('z lb_db_scheme, api_error, unit) db_action" where
  "report_vehicle_state env now session user ctx pos rotq vel =
     map_err SqlxErr (report_live_vehicle_state env now session user (ctx_official ctx) pos rotq vel)"

definition report_respawn :: "nat \<Rightarrow> uuid \<Rightarrow> int \<Rightarrow> ('z lb_db_scheme, api_error, unit) db_action" where
  "report_respawn now session race_time =
     map_err SqlxErr (insert_respawn now session (if race_time > i32_max then - 1 else as_i32 race_time))"

definition report_finish :: "nat \<Rightarrow> uuid \<Rightarrow> int \<Rightarrow> ('z lb_db_scheme, api_error, unit) db_action" where
  "report_finish now session race_time = map_err SqlxErr (insert_finish now session race_time)"

definition on_report_stats ::
    "nat \<Rightarrow> uuid \<Rightarrow> stats \<Rightarrow> player_ctx option \<Rightarrow> ('z lb_db_scheme, api_error, unit) db_action" where
  "on_report_stats now user s ctx =
     (if ctx_official ctx then map_err SqlxErr (update_users_stats now user s) else Ok ())"

definition on_report_pb_height ::
    "nat \<Rightarrow> uuid \<Rightarrow> player_ctx option \<Rightarrow> f32 \<Rightarrow> ('z lb_db_scheme, api_error, bool option) db_action" where
  "on_report_pb_height now user ctx h =
     (if \<not> ctx_official ctx then Ok None
      else and_then (map_err SqlxErr (update_user_pb_height now user h)) (\<lambda>top. Ok (Some top)))"

definition on_report_fall_start ::
    "nat \<Rightarrow> uuid \<Rightarrow> uuid \<Rightarrow> int \<Rightarrow> vec3 \<Rightarrow> f64 \<Rightarrow> int \<Rightarrow> ('z lb_db_scheme, api_error, unit) db_action" where
  "on_report_fall_start now user session flr pos speed start_time =
     map_err SqlxErr (insert_start_fall now user session flr pos speed start_time)"

definition on_report_fall_end ::
    "uuid \<Rightarrow> int \<Rightarrow> vec3 \<Rightarrow> int \<Rightarrow> ('z lb_db_scheme, api_error, unit) db_action" where
  "on_report_fall_end user flr pos end_time = map_err SqlxErr (update_fall_with_end user flr pos end_time)"

definition on_report_color ::
    "lb_env \<Rightarrow> string \<Rightarrow> rat \<times> rat \<times> rat \<Rightarrow> ('z lb_db_scheme, api_error, unit) db_action" where
  "on_report_color env wsid color =
     (case le_parse_uuid env wsid of
        Inl _ \<Rightarrow> Ok ()
      | Inr user \<Rightarrow> map_err SqlxErr (update_user_color user color))"

definition on_report_twitch :: "uuid \<Rightarrow> string \<Rightarrow> ('z lb_db_scheme, api_error, unit) db_action" where
  "on_report_twitch user twitch_name d =
     (case varchar_col 64 twitch_name of
        Inl e \<Rightarrow> (Inl (SqlxErr e), d)
      | Inr t \<Rightarrow>
          if \<not> has_user user d then (Inl (SqlxErr (ForeignKeyViolation ''twitch_usernames_user_id_fkey'')), d)
          else (Inr (), d\<lparr>twitch_usernames := upsert_by (\<lambda>r. fst r = user) (user, t) (twitch_usernames d)\<rparr>))"

definition get_twitch :: "wf_env \<Rightarrow> uuid \<Rightarrow> 'z lb_db_scheme handler" where
  "get_twitch env user = fetch (\<lambda>d. Inr (case map_of (twitch_usernames d) user of
     None \<Rightarrow> [] | Some t \<Rightarrow> [RTwitchName t (we_show_uuid env user)]))"

definition get_players_pb :: "lb_env \<Rightarrow> string \<Rightarrow> 'z lb_db_scheme handler" where
  "get_players_pb env wsid =
     (case le_parse_uuid env wsid of
        Inl _ \<Rightarrow> Ok []
      | Inr user \<Rightarrow> answer (get_user_in_lb user) (\<lambda>pb.
          case pb of
            None \<Rightarrow> []
          | Some e \<Rightarrow> [RPlayersPB (case lbe_display_name e of None \<Rightarrow> wsid | Some n \<Rightarrow> n) (lbe_height e)
              (case lbe_rank e of None \<Rightarrow> 99999 | Some r \<Rightarrow> r) wsid
              (int (lbe_ts e div 1000000)) (lbe_update_count e)]))"

definition get_my_rank :: "lb_env \<Rightarrow> uuid \<Rightarrow> 'z lb_db_scheme handler" where
  "get_my_rank env user = answer (get_user_in_lb user) (\<lambda>r. [RMyRank (map_option (ranked_entry_into env) r)])"

definition send_friends_lb :: "lb_env \<Rightarrow> uuid list \<Rightarrow> 'z lb_db_scheme handler" where
  "send_friends_lb env friends = answer (get_friends_lb friends) (\<lambda>lb. [RFriendsLB (map (ranked_entry_into env) lb)])"

definition send_global_lb :: "lb_env \<Rightarrow> int \<Rightarrow> int \<Rightarrow> 'z lb_db_scheme handler" where
  "send_global_lb env start stop = answer (get_global_lb start stop) (\<lambda>lb. [RGlobalLB (map (ranked_entry_into env) lb)])"

definition get_stats :: "float_env \<Rightarrow> uuid \<Rightarrow> 'z lb_db_scheme handler" where
  "get_stats env user =
     and_then (attempt (get_user_stats env user)) (\<lambda>r.
       (case r of
          Inr (s, rank) \<Rightarrow> Ok [RStats s rank]
        | Inl e \<Rightarrow> if e = RowNotFound then Ok [] else Err (SqlxErr e)))"

text \<open>The error is reported to the client as well; its debug text is a parameter.\<close>

definition downgrade_stats_request ::
    "(db_error \<Rightarrow> string) \<Rightarrow> nat \<Rightarrow> uuid \<Rightarrow> stats \<Rightarrow> 'z lb_db_scheme \<Rightarrow> (response list \<times> (api_error + unit)) \<times> 'z lb_db_scheme" where
  "downgrade_stats_request show_error now user s d =
     (case downgrade_stats now user s d of
        (Inr _, d1) \<Rightarrow> (([], Inr ()), d1)
      | (Inl e, d1) \<Rightarrow>
          (([RNonFatalErrorMsg 1
               (''Failed to downgrade stats (note: pb height must be less than or equal to existing)'' @
                CHR 0x0A # ''Error: '' @ show_error e)], Inl (SqlxErr e)), d1))"

section \<open>Profiles and preferences\<close>

definition new_profile :: "wf_env \<Rightarrow> uuid \<Rightarrow> string \<Rightarrow> json" where
  "new_profile env user name = JObj [(''name'', JStr name), (''wsid'', JStr (we_show_uuid env user))]"

text \<open>The first request for a profile creates it.\<close>

definition create_profile :: "wf_env \<Rightarrow> nat \<Rightarrow> uuid \<Rightarrow> ('z lb_db_scheme, db_error, unit) db_action" where
  "create_profile env now user =
     and_then (fetch (\<lambda>d. ok_or RowNotFound (display_name_of user d))) (\<lambda>name.
     execute (\<lambda>d. if find_setting user (profile_settings d) \<noteq> None then d
       else d\<lparr>profile_settings := profile_settings d @
         [\<lparr>se_user_id = user, se_value = new_profile env user name, se_updated_at = now\<rparr>]\<rparr>))"

definition get_users_profile :: "lb_env \<Rightarrow> nat \<Rightarrow> string \<Rightarrow> 'z lb_db_scheme handler" where
  "get_users_profile env now wsid =
     (case le_parse_uuid env wsid of
        Inl e \<Rightarrow> Err (UuidErr e)
      | Inr user \<Rightarrow>
          and_then (map_err SqlxErr
             (and_then (attempt (get_profile user)) (\<lambda>r.
                if r = Inl RowNotFound
                then and_then (create_profile (le_wf env) now user) (\<lambda>_. get_profile user)
                else fetch (\<lambda>_. r)))) (\<lambda>profile. Ok [RUsersProfile profile]))"

text \<open>
  \<open>SetMyProfile\<close> writes the player's own id and name over what the body says.  Assigning by
  index panics on a body that is neither an object nor null; a key that is new is inserted in
  order.
\<close>

fun assign_key :: "(string \<times> json) list \<Rightarrow> string \<Rightarrow> json \<Rightarrow> (string \<times> json) list" where
  "assign_key [] k v = [(k, v)]"
| "assign_key ((l, w) # kvs) k v =
     (if l = k then (k, v) # kvs else if (map of_char k :: nat list) < map of_char l then (k, v) # (l, w) # kvs else (l, w) # assign_key kvs k v)"

definition index_assign :: "json \<Rightarrow> string \<Rightarrow> json \<Rightarrow> json outcome" where
  "index_assign body k v =
     (case body of
        JObj kvs \<Rightarrow> Ret (JObj (assign_key kvs k v))
      | JNull \<Rightarrow> Ret (JObj [(k, v)])
      | _ \<Rightarrow> Panic)"

definition stamp_profile :: "wf_env \<Rightarrow> uuid \<Rightarrow> string \<Rightarrow> json \<Rightarrow> json outcome" where
  "stamp_profile env user name body =
     (case index_assign body ''wsid'' (JStr (we_show_uuid env user)) of
        Panic \<Rightarrow> Panic
      | Ret b \<Rightarrow> index_assign b ''name'' (JStr name))"

definition set_users_profile :: "nat \<Rightarrow> uuid \<Rightarrow> json \<Rightarrow> ('z lb_db_scheme, api_error, unit) db_action" where
  "set_users_profile now user body = map_err SqlxErr (set_profile now user body)"

definition get_users_preferences :: "uuid \<Rightarrow> 'z lb_db_scheme handler" where
  "get_users_preferences user = answer (get_preferences user) (\<lambda>p. [RYourPreferences p])"

definition set_users_preferences :: "nat \<Rightarrow> uuid \<Rightarrow> json \<Rightarrow> ('z lb_db_scheme, api_error, unit) db_action" where
  "set_users_preferences now user body = map_err SqlxErr (set_preferences now user body)"

definition report_map_stats_request ::
    "nat \<Rightarrow> uuid \<Rightarrow> string \<Rightarrow> json \<Rightarrow> ('z lb_db_scheme, api_error, unit) db_action" where
  "report_map_stats_request now user uid stats = map_err SqlxErr (report_map_stats now user uid stats)"

definition send_players_spec_info :: "lb_env \<Rightarrow> string \<Rightarrow> string \<Rightarrow> 'z lb_db_scheme handler" where
  "send_players_spec_info env uid wsid =
     (case le_parse_uuid env wsid of
        Inl _ \<Rightarrow> Err (StrErr ''Invalid WSID'')
      | Inr user \<Rightarrow>
          and_then (attempt (get_players_spec_info env uid user)) (\<lambda>r. Ok
            (case r of
               Inl _ \<Rightarrow> []
             | Inr (seconds, updated_at) \<Rightarrow>
                 [RPlayersSpecInfo uid (we_show_uuid (le_wf env) user) seconds (int (updated_at div 1000000))])))"

section \<open>The server\<close>

definition get_server_info :: "nat \<Rightarrow> ('z lb_db_scheme, db_error, nat) db_action" where
  "get_server_info now = fetch (\<lambda>d. Inr (nat (as_u32 (sum_list (map sc_player_count
     (filter (\<lambda>r. int (sc_updated_at r) > int now - 180 * 1000000) (server_player_counts d)))))))"

definition get_server_stats :: "nat \<Rightarrow> 'z lb_db_scheme handler" where
  "get_server_stats now = answer (get_server_info now) (\<lambda>n. [RServerInfo n])"

definition update_server_stats :: "string \<Rightarrow> nat \<Rightarrow> int \<Rightarrow> ('z lb_db_scheme, db_error, unit) db_action" where
  "update_server_stats server_id now nb_players_live =
     and_then (\<lambda>d. (case varchar_col 32 server_id of
          Inl e \<Rightarrow> (Inl e, d)
        | Inr s \<Rightarrow> (Inr (), d\<lparr>server_player_counts := upsert_by (\<lambda>r. sc_server_id r = s)
            \<lparr>sc_server_id = s, sc_player_count = nb_players_live, sc_updated_at = now\<rparr> (server_player_counts d)\<rparr>))) (\<lambda>_.
     and_then (get_server_info now) (\<lambda>n.
     and_then (execute (\<lambda>d. d\<lparr>server_connected_stats := server_connected_stats d @ [as_i32 (int n)]\<rparr>)) (\<lambda>_.
     execute (\<lambda>d. d\<lparr>active_players_stats := active_players_stats d @
       [as_i32 (int (get_nb_playing_live now d))]\<rparr>))))"

definition get_global_overview :: "('z lb_db_scheme, db_error, json) db_action" where
  "get_global_overview = fetch (\<lambda>d. ok_or RowNotFound (map_of (cached_json d) ''global_overview''))"

definition send_global_overview :: "'z lb_db_scheme handler" where
  "send_global_overview = answer get_global_overview (\<lambda>j. [RGlobalOverview j])"

definition THREE_FINISH :: "map_event_row \<Rightarrow> bool" where
  "THREE_FINISH e \<longleftrightarrow> me_event_map e = DD2_MAP_UID \<and> me_event_type e = ''3finish''"

definition DD2_TOP_10 :: "string list" where
  "DD2_TOP_10 =
     [''5d6b14db-4d41-47a4-93e2-36a3bf229f9b'',
      ''e5a9863b-1844-4436-a8a8-cea583888f8b'',
      ''d46fb45d-d422-47c9-9785-67270a311e25'',
      ''e3ff2309-bc24-414a-b9f1-81954236c34b'',
      ''0fd26a9f-8f70-4f51-85e1-fe99a4ed6ffb'',
      ''bd45204c-80f1-4809-b983-38b3f0ffc1ef'',
      ''da4642f9-6acf-43fe-88b6-b120ff1308ba'',
      ''d320a237-1b0a-4069-af83-f2c09fbf042e'',
      ''803695f6-8319-4b8e-8c28-44856834fe3b'',
      ''076d23a5-51a6-48aa-8d99-9d618cd13c93'',
      ''0a2d1bc0-4aaa-4374-b2db-3d561bdab1c9'']"

definition get_secret_assets :: "wf_env \<Rightarrow> uuid \<Rightarrow> 'z lb_db_scheme handler" where
  "get_secret_assets env user = fetch (\<lambda>d.
     (let top3_done = (case List.find THREE_FINISH (map_events d) of None \<Rightarrow> False | Some e \<Rightarrow> me_has_happened e);
          has_special = we_show_uuid env user \<in> set DD2_TOP_10;
          fanfare = (if has_special \<or> \<not> top3_done then we_show_uuid env user else ''generic'');
          asset = (\<lambda>n f u. \<lparr>as_name = n, as_filename = f, as_url = ''https://assets.xk.io/d++/secret/'' @ u\<rparr>)
      in Inr (if top3_done \<or> has_special
         then [RSecretAssets
           [asset ''head'' ''img/s1head.jpg'' ''s1head-3948765.jpg'',
            asset ''s-flight-vae'' ''subs/flight-vae.txt'' ''subs-vae-3948765.txt'',
            asset ''s-flight'' ''subs/flight.txt'' ''subs-3948765.txt'',
            asset ''flight-vae'' ''vl/flight-vae.mp3'' ''flight-vae-3948765.mp3'',
            asset ''flight'' ''vl/flight.mp3'' ''flight-3948765.mp3'',
            asset ''fanfare'' ''img/fanfare-self.png'' (fanfare @ ''.png'')]]
         else [])))"

end
