(* ===== verification/Donations.thy ===== *)
theory Donations
  imports Leaderboards Sample_Tables Sample_World
begin

text \<open>
  Donations to the prize pool (\<open>src/donations.rs\<close>): the transactions fetched from the fund-raising
  site are stored once each and added to the totals of their donors.  The fetching, the decimal
  value of a floating-point number and the reading of a date are parameters.
\<close>

section \<open>Storing\<close>

record donation_env =
  de_float :: float_env
  de_decimal :: "f64 \<Rightarrow> string + rat"
  de_parse_date :: "string \<Rightarrow> string + int"
  de_to_f64 :: "rat \<Rightarrow> rat option"

record donation_full =
  df_id :: int
  df_auth_provider :: string
  df_user_name :: string
  df_display_name :: string
  df_comment :: string
  df_amount :: f64
  df_avatar :: string
  df_created_at :: string

datatype donation_error = DonationDb db_error | DonationParse string

text \<open>\<open>DECIMAL(10, 2)\<close>: two places, halves away from zero, below \<open>10 ^ 8\<close>.\<close>

definition round2 :: "rat \<Rightarrow> rat" where
  "round2 x = (if 0 \<le> x then of_int \<lfloor>x * 100 + 1 / 2\<rfloor> / 100 else - (of_int \<lfloor>- x * 100 + 1 / 2\<rfloor> / 100))"

definition numeric_col :: "rat \<Rightarrow> db_error + rat" where
  "numeric_col x = (if \<bar>round2 x\<bar> < 10 ^ 8 then Inr (round2 x) else Inl OutOfRange)"

text \<open>Amounts come in cents.\<close>

definition dollars :: "donation_env \<Rightarrow> donation_full \<Rightarrow> string + rat" where
  "dollars env dono = de_decimal env (fl_div (de_float env) (df_amount dono) (Fin 100))"

definition donation_to_row :: "donation_env \<Rightarrow> donation_full \<Rightarrow> donation_error + donation_row" where
  "donation_to_row env dono =
     (case dollars env dono of
        Inl e \<Rightarrow> Inl (DonationParse e)
      | Inr amount \<Rightarrow>
          (case de_parse_date env (df_created_at dono) of
             Inl e \<Rightarrow> Inl (DonationParse e)
           | Inr date \<Rightarrow>
               (case bind_res (varchar_col 32 (df_auth_provider dono)) (\<lambda>p.
                     bind_res (varchar_col 128 (df_user_name dono)) (\<lambda>u.
                     bind_res (varchar_col 128 (df_display_name dono)) (\<lambda>n.
                     bind_res (text_col (df_comment dono)) (\<lambda>c.
                     bind_res (numeric_col amount) (\<lambda>a.
                     bind_res (text_col (df_avatar dono)) (\<lambda>v. Inr
                       \<lparr>do_id = df_id dono, do_auth_provider = p, do_user_name = u, do_display_name = n,
                        do_comment = c, do_amount = a, do_avatar = Some v, do_donated_at = date\<rparr>)))))) of
                  Inl e \<Rightarrow> Inl (DonationDb e)
                | Inr row \<Rightarrow> Inr row)))"

fun insert_new_donations ::
    "donation_env \<Rightarrow> donation_full list \<Rightarrow> ('z lb_db_scheme, donation_error, donation_full list) db_action" where
  "insert_new_donations env [] = Ok []"
| "insert_new_donations env (dono # rest) =
     and_then (fetch (\<lambda>d. Inr (df_id dono \<in> do_id ` set (donations d)))) (\<lambda>known.
       if known then insert_new_donations env rest
       else
         and_then (fetch (\<lambda>_. donation_to_row env dono)) (\<lambda>row.
         and_then (execute (\<lambda>d. d\<lparr>donations := donations d @ [row]\<rparr>)) (\<lambda>_.
         and_then (insert_new_donations env rest) (\<lambda>inserted. Ok (dono # inserted)))))"

definition add_to_total :: "donation_env \<Rightarrow> donation_full \<Rightarrow> ('z lb_db_scheme, donation_error, unit) db_action" where
  "add_to_total env dono d =
     (case dollars env dono of
        Inl e \<Rightarrow> (Inl (DonationParse e), d)
      | Inr amount \<Rightarrow>
          (case bind_res (varchar_col 128 (df_user_name dono)) (\<lambda>u. bind_res (numeric_col amount) (\<lambda>a.
                  case map_of (user_dono_totals d) u of
                    None \<Rightarrow> Inr (u, a)
                  | Some t \<Rightarrow> bind_res (numeric_col (t + amount)) (\<lambda>b. Inr (u, b)))) of
             Inl e \<Rightarrow> (Inl (DonationDb e), d)
           | Inr (u, tot) \<Rightarrow>
               (Inr (), d\<lparr>user_dono_totals := upsert_by (\<lambda>r. fst r = u) (u, tot) (user_dono_totals d)\<rparr>)))"

text \<open>The new transactions; not one transaction of the database.\<close>

definition update_donations_in_db ::
    "donation_env \<Rightarrow> donation_full list \<Rightarrow> ('z lb_db_scheme, donation_error, donation_full list) db_action" where
  "update_donations_in_db env donos =
     and_then (insert_new_donations env donos) (\<lambda>inserted.
     and_then (for_each (add_to_total env) inserted) (\<lambda>_. Ok inserted))"

definition insert_new_gfm_donation :: "rat \<Rightarrow> ('z lb_db_scheme, db_error, unit) db_action" where
  "insert_new_gfm_donation amount = execute (\<lambda>d. d\<lparr>gfm_donations := gfm_donations d @ [amount]\<rparr>)"

section \<open>Reading\<close>

definition get_donations_and_donors ::
    "donation_env \<Rightarrow> ('z lb_db_scheme, db_error, donation list \<times> (string \<times> rat) list) db_action" where
  "get_donations_and_donors env = fetch (\<lambda>d. Inr
     (map (\<lambda>r. \<lparr>dn_name = do_display_name r,
                dn_amount = (case de_to_f64 env (do_amount r) of None \<Rightarrow> - 1 | Some a \<Rightarrow> a),
                dn_comment = do_comment r, dn_ts = do_donated_at r div 1000000\<rparr>)
        (order_desc do_donated_at (donations d)),
      map (\<lambda>(name, tot). (name, the (de_to_f64 env tot)))
        (order_desc snd (remdups (concat (map (\<lambda>(user, tot).
           map (\<lambda>r. (do_display_name r, tot)) (filter (\<lambda>r. do_user_name r = user) (donations d)))
           (user_dono_totals d)))))))"

definition get_prize_pool_total :: "donation_env \<Rightarrow> ('z lb_db_scheme, db_error, rat) db_action" where
  "get_prize_pool_total env = fetch (\<lambda>d. Inr
     (if donations d = [] then 0
      else (case de_to_f64 env (sum_list (map do_amount (donations d))) of None \<Rightarrow> 0 | Some t \<Rightarrow> t)))"

definition get_gfm_donations_latest :: "('z lb_db_scheme, db_error, rat) db_action" where
  "get_gfm_donations_latest = fetch (\<lambda>d. if gfm_donations d = [] then Inl RowNotFound else Inr (last (gfm_donations d)))"

text \<open>The handlers.\<close>

definition get_donations :: "donation_env \<Rightarrow> 'z lb_db_scheme handler" where
  "get_donations env = answer (get_donations_and_donors env) (\<lambda>(donos, donors).
     [RDonations (map (\<lambda>(name, amount). \<lparr>dr_name = name, dr_amount = amount\<rparr>) donors) donos])"

definition get_gfm_donations :: "'z lb_db_scheme handler" where
  "get_gfm_donations = answer get_gfm_donations_latest (\<lambda>t. [RGfmDonations t])"

section \<open>Totals\<close>

text \<open>
  What each donor gave, by the table of transactions.  \<open>donations_inv\<close> is kept by the rounds that
  succeed only.
\<close>

definition given :: "string \<Rightarrow> donation_row list \<Rightarrow> rat" where
  "given user rows = sum_list (map do_amount (filter (\<lambda>r. do_user_name r = user) rows))"

definition total_of :: "string \<Rightarrow> (string \<times> rat) list \<Rightarrow> rat" where
  "total_of user totals = (case map_of totals user of None \<Rightarrow> 0 | Some t \<Rightarrow> t)"

definition cents :: "rat \<Rightarrow> bool" where
  "cents x \<longleftrightarrow> 0 \<le> x \<and> x * 100 \<in> \<int>"

definition donations_inv :: "'z lb_db_scheme \<Rightarrow> bool" where
  "donations_inv d \<longleftrightarrow>
     list_all (\<lambda>r. cents (do_amount r)) (donations d) \<and>
     (\<forall>u. total_of u (user_dono_totals d) = given u (donations d))"

text \<open>Adding to a total rounds as the single amount does.\<close>

lemma round2_cents: "0 \<le> x \<Longrightarrow> cents (round2 x)"
proof -
  assume "0 \<le> x"
  then have "(0::int) \<le> \<lfloor>x * 100 + 1 / 2\<rfloor>" by (simp add: add_nonneg_nonneg)
  with \<open>0 \<le> x\<close> show ?thesis by (simp add: cents_def round2_def)
qed

lemma round2_add:
  assumes t: "cents t" and x: "0 \<le> x"
  shows "round2 (t + x) = t + round2 x"
proof -
  obtain k where k: "t * 100 = of_int k" using t by (auto simp: cents_def elim: Ints_cases)
  have "(t + x) * 100 + 1 / 2 = of_int k + (x * 100 + 1 / 2)" by (simp add: distrib_right k)
  then have "\<lfloor>(t + x) * 100 + 1 / 2\<rfloor> = k + \<lfloor>x * 100 + 1 / 2\<rfloor>" by linarith
  moreover have "0 \<le> t + x" using t x by (simp add: cents_def)
  moreover have "of_int k / 100 = t" using k by simp
  ultimately show ?thesis using x by (simp add: round2_def add_divide_distrib)
qed


lemma cents_add: "cents x \<Longrightarrow> cents y \<Longrightarrow> cents (x + y)"
  by (simp add: cents_def distrib_right)

lemma given_cents: "list_all (\<lambda>r. cents (do_amount r)) rows \<Longrightarrow> cents (given u rows)"
proof (induction rows)
  case Nil
  show ?case by (simp add: given_def cents_def)
next
  case (Cons r rows)
  then show ?case by (simp add: given_def cents_add)
qed

lemma given_append [simp]: "given u (rows @ news) = given u rows + given u news"
  by (simp add: given_def)

lemma map_of_upsert:
  "map_of (upsert_by (\<lambda>r. fst r = u) (u, t) xs) w = (if w = u then Some t else map_of xs w)"
proof -
  have same: "map_of (upd_where (\<lambda>r. fst r = u) (\<lambda>_. (u, t)) xs) w =
      (if w = u then (if list_ex (\<lambda>r. fst r = u) xs then Some t else None) else map_of xs w)" for w
    by (induction xs) auto
  have "\<not> list_ex (\<lambda>r. fst r = u) xs \<Longrightarrow> map_of xs u = None"
    by (auto simp: list_ex_iff map_of_eq_None_iff)
  then show ?thesis by (auto simp: upsert_by_def same map_add_def split: option.split)
qed

definition row_for :: "donation_env \<Rightarrow> donation_full \<Rightarrow> donation_row \<Rightarrow> bool" where
  "row_for env dono row \<longleftrightarrow> donation_to_row env dono = Inr row"

lemma row_for_parts:
  assumes "row_for env dono row"
  obtains a where "dollars env dono = Inr a" "varchar_col 128 (df_user_name dono) = Inr (do_user_name row)"
    "numeric_col a = Inr (do_amount row)"
  using assms
  by (auto simp: row_for_def donation_to_row_def res_iff split: sum.splits)

lemma insert_new_run:
  "insert_new_donations env donos d = (Inr ins, d') \<Longrightarrow>
   set ins \<subseteq> set donos \<and> (\<exists>rows. list_all2 (row_for env) ins rows \<and> d' = d\<lparr>donations := donations d @ rows\<rparr>)"
proof (induction donos arbitrary: d ins d')
  case (Cons dono donos)
  show ?case
  proof (cases "df_id dono \<in> do_id ` set (donations d)")
    case True
    with Cons.prems have "insert_new_donations env donos d = (Inr ins, d')" by (simp add: and_then_def)
    from Cons.IH [OF this] show ?thesis by auto
  next
    case False
    with Cons.prems obtain row ins1 where r: "donation_to_row env dono = Inr row" "ins = dono # ins1"
      "insert_new_donations env donos (d\<lparr>donations := donations d @ [row]\<rparr>) = (Inr ins1, d')"
      by (auto simp: res_iff)
    from Cons.IH [OF r(3)] obtain rows where "set ins1 \<subseteq> set donos" "list_all2 (row_for env) ins1 rows"
      "d' = d\<lparr>donations := donations d @ row # rows\<rparr>"
      by auto
    moreover have "row_for env dono row" using r(1) by (simp add: row_for_def)
    ultimately show ?thesis using r(2) by (auto intro!: exI [of _ "row # rows"])
  qed
qed simp

lemma add_to_total_run:
  assumes run: "add_to_total env dono d = (Inr (), d')" and row: "row_for env dono row"
    and pos: "case dollars env dono of Inl _ \<Rightarrow> True | Inr a \<Rightarrow> 0 \<le> a"
    and old: "\<And>w. cents (total_of w (user_dono_totals d))"
  shows "donations d' = donations d \<and> (\<forall>w. total_of w (user_dono_totals d') =
    total_of w (user_dono_totals d) + given w [row]) \<and> cents (do_amount row)"
proof -
  obtain a where a: "dollars env dono = Inr a" "varchar_col 128 (df_user_name dono) = Inr (do_user_name row)"
    "numeric_col a = Inr (do_amount row)"
    using row by (rule row_for_parts)
  let ?u = "do_user_name row"
  have amount: "do_amount row = round2 a" "0 \<le> a"
    using a(1,3) pos by (auto simp: numeric_col_def split: if_splits)
  have sum: "b = total_of ?u (user_dono_totals d) + round2 a"
    if "numeric_col (t + a) = Inr b" "map_of (user_dono_totals d) ?u = Some t" for t b
  proof -
    have "cents t" using old [of ?u] that(2) by (simp add: total_of_def)
    then show ?thesis using that amount(2) round2_add [of t a] by (simp add: numeric_col_def total_of_def split: if_splits)
  qed
  obtain b where d': "d' = d\<lparr>user_dono_totals := upsert_by (\<lambda>r. fst r = ?u) (?u, b) (user_dono_totals d)\<rparr>"
    and b: "b = total_of ?u (user_dono_totals d) + round2 a"
  proof (cases "map_of (user_dono_totals d) ?u")
    case None
    then show ?thesis using that [of "do_amount row"] run a amount(1) by (simp add: add_to_total_def total_of_def)
  next
    case (Some t)
    then obtain b where b: "numeric_col (t + a) = Inr b"
      using run a by (cases "numeric_col (t + a)") (simp_all add: add_to_total_def)
    show ?thesis using that [of b] sum [OF b Some] run a b Some by (simp add: add_to_total_def)
  qed
  show ?thesis
    using round2_cents [OF amount(2)] amount(1)
    by (simp add: d' b total_of_def map_of_upsert given_def split: option.split)
qed

lemma add_totals_run:
  assumes "for_each (add_to_total env) ins d = (Inr (), d')" "list_all2 (row_for env) ins rows"
    "list_all (\<lambda>dono. case dollars env dono of Inl _ \<Rightarrow> True | Inr a \<Rightarrow> 0 \<le> a) ins"
    "\<And>w. cents (total_of w (user_dono_totals d))"
  shows "donations d' = donations d \<and> (\<forall>w. total_of w (user_dono_totals d') =
    total_of w (user_dono_totals d) + given w rows) \<and> list_all (\<lambda>r. cents (do_amount r)) rows"
  using assms
proof (induction ins arbitrary: d rows)
  case Nil
  then show ?case by (simp add: given_def)
next
  case (Cons dono ins)
  obtain row rows1 where rows: "rows = row # rows1" "row_for env dono row" "list_all2 (row_for env) ins rows1"
    using Cons.prems(2) by (auto simp: list_all2_Cons1)
  obtain d1 where d1: "add_to_total env dono d = (Inr (), d1)" "for_each (add_to_total env) ins d1 = (Inr (), d')"
    using Cons.prems(1) by (auto simp: res_iff)
  have pos: "case dollars env dono of Inl _ \<Rightarrow> True | Inr a \<Rightarrow> 0 \<le> a" using Cons.prems(3) by simp
  note step = add_to_total_run [OF d1(1) rows(2) pos Cons.prems(4)]
  have c1: "cents (total_of w (user_dono_totals d1))" for w
    using step Cons.prems(4) [of w] by (auto simp: given_def cents_add)
  have pos1: "list_all (\<lambda>dono. case dollars env dono of Inl _ \<Rightarrow> True | Inr a \<Rightarrow> 0 \<le> a) ins"
    using Cons.prems(3) by simp
  note rest = Cons.IH [OF d1(2) rows(3) pos1 c1]
  show ?case using step rest by (auto simp: rows(1) given_def)
qed

lemma update_keeps_totals:
  assumes run: "update_donations_in_db env donos d = (Inr ins, d')" and inv: "donations_inv d"
    and pos: "list_all (\<lambda>dono. case dollars env dono of Inl _ \<Rightarrow> True | Inr a \<Rightarrow> 0 \<le> a) donos"
  shows "donations_inv d'"
proof -
  obtain d1 where d1: "insert_new_donations env donos d = (Inr ins, d1)" "for_each (add_to_total env) ins d1 = (Inr (), d')"
    using run by (auto simp: update_donations_in_db_def res_iff)
  obtain rows where rows: "set ins \<subseteq> set donos" "list_all2 (row_for env) ins rows"
    "d1 = d\<lparr>donations := donations d @ rows\<rparr>"
    using insert_new_run [OF d1(1)] by blast
  have tot: "total_of w (user_dono_totals d) = given w (donations d)" for w
    using inv by (simp add: donations_inv_def)
  have c1: "cents (total_of w (user_dono_totals d1))" for w
    using inv given_cents [of "donations d"] by (simp add: donations_inv_def rows(3))
  have pos1: "list_all (\<lambda>dono. case dollars env dono of Inl _ \<Rightarrow> True | Inr a \<Rightarrow> 0 \<le> a) ins"
    using pos rows(1) by (auto simp: list_all_iff)
  note after = add_totals_run [OF d1(2) rows(2) pos1 c1]
  show ?thesis using after inv by (simp add: donations_inv_def rows(3) tot)
qed

text \<open>The rounds of the program so far, each with what it fetched; \<open>Inr\<close> says that none has failed.\<close>

fun fetch_rounds ::
    "donation_env \<Rightarrow> donation_full list list \<Rightarrow> ('z lb_db_scheme, donation_error, unit) db_action" where
  "fetch_rounds env [] = Ok ()"
| "fetch_rounds env (donos # rounds) =
     and_then (update_donations_in_db env donos) (\<lambda>_. fetch_rounds env rounds)"

lemma rounds_keep_totals:
  "fetch_rounds env rounds d = (Inr (), d') \<Longrightarrow> donations_inv d \<Longrightarrow>
   list_all (list_all (\<lambda>dono. case dollars env dono of Inl _ \<Rightarrow> True | Inr a \<Rightarrow> 0 \<le> a)) rounds \<Longrightarrow> donations_inv d'"
proof (induction rounds arbitrary: d)
  case (Cons donos rounds)
  then obtain ins d1 where d1: "update_donations_in_db env donos d = (Inr ins, d1)" "fetch_rounds env rounds d1 = (Inr (), d')"
    by (auto simp: res_iff)
  have "donations_inv d1" by (rule update_keeps_totals [OF d1(1) Cons.prems(2)]) (use Cons.prems(3) in simp)
  then show ?case using Cons.IH [OF d1(2)] Cons.prems(3) by simp
qed simp

text \<open>
  C40. From empty tables on, as long as no round has failed and no amount is negative, the total of
  every donor is what the stored transactions of that donor add up to, to the cent, however often
  a transaction was fetched.  After a failed round this is lost (\<open>donation_total_lost\<close>).
\<close>

theorem donation_totals_agree:
  assumes "fetch_rounds env rounds d = (Inr (), d')" and "donations d = []" and "user_dono_totals d = []"
    and "list_all (list_all (\<lambda>dono. case dollars env dono of Inl _ \<Rightarrow> True | Inr a \<Rightarrow> 0 \<le> a)) rounds"
  shows "total_of u (user_dono_totals d') = given u (donations d')"
proof -
  have "donations_inv d" using assms(2,3) by (simp add: donations_inv_def total_of_def given_def)
  then show ?thesis using rounds_keep_totals [OF assms(1) _ assms(4)] by (simp add: donations_inv_def)
qed

definition sample_donation_env :: donation_env where
  "sample_donation_env = \<lparr>de_float = \<lparr>fe_round = Fin, fe_narrow = id, fe_sqrt = id\<rparr>,
     de_decimal = (\<lambda>x. case x of Fin q \<Rightarrow> Inr q | _ \<Rightarrow> Inl ''not a number''),
     de_parse_date = (\<lambda>s. if s = [] then Inl ''bad date'' else Inr 0), de_to_f64 = Some\<rparr>"

definition sample_donation :: "int \<Rightarrow> rat \<Rightarrow> string \<Rightarrow> donation_full" where
  "sample_donation i amount date = \<lparr>df_id = i, df_auth_provider = [], df_user_name = ''bob'', df_display_name = ''Bob'',
     df_comment = [], df_amount = Fin amount, df_avatar = [], df_created_at = date\<rparr>"

definition donated_db :: lb_db where
  "donated_db = snd (update_donations_in_db sample_donation_env
     [sample_donation 1 1050 ''d'', sample_donation 2 250 ''d''] (with_tables sample_db))"

lemma sample_dollars: "dollars sample_donation_env (sample_donation i q s) = Inr (q / 100)"
  by (simp add: dollars_def sample_donation_env_def sample_donation_def)

lemma sample_row: "donation_to_row sample_donation_env (sample_donation i q s) =
    (if s = [] then Inl (DonationParse ''bad date'') else
     (case numeric_col (q / 100) of
        Inl e \<Rightarrow> Inl (DonationDb e)
      | Inr a \<Rightarrow> Inr \<lparr>do_id = i, do_auth_provider = [], do_user_name = ''bob'', do_display_name = ''Bob'',
          do_comment = [], do_amount = a, do_avatar = Some [], do_donated_at = 0\<rparr>))"
proof -
  have parts: "de_parse_date sample_donation_env (df_created_at (sample_donation i q s)) =
      (if s = [] then Inl ''bad date'' else Inr 0)"
    "varchar_col 32 (df_auth_provider (sample_donation i q s)) = Inr []"
    "varchar_col 128 (df_user_name (sample_donation i q s)) = Inr ''bob''"
    "varchar_col 128 (df_display_name (sample_donation i q s)) = Inr ''Bob''"
    "text_col (df_comment (sample_donation i q s)) = Inr []" "text_col (df_avatar (sample_donation i q s)) = Inr []"
    "df_id (sample_donation i q s) = i"
    by (simp_all add: sample_donation_env_def sample_donation_def varchar_col_def char_count_def is_cont_byte_def text_col_def)
  show ?thesis by (simp add: donation_to_row_def sample_dollars parts bind_res_def split: sum.split)
qed

lemma sample_amounts: "numeric_col (21 / 2) = Inr (21 / 2)" "numeric_col (5 / 2) = Inr (5 / 2)"
  "numeric_col 13 = Inr 13"
  by (simp_all add: numeric_col_def round2_def floor_eq_iff)

lemma sample_add: "add_to_total sample_donation_env (sample_donation i q s) d =
    (case bind_res (numeric_col (q / 100)) (\<lambda>a. case map_of (user_dono_totals d) ''bob'' of
        None \<Rightarrow> Inr a | Some t \<Rightarrow> numeric_col (t + q / 100)) of
       Inl e \<Rightarrow> (Inl (DonationDb e), d)
     | Inr t \<Rightarrow> (Inr (), d\<lparr>user_dono_totals := upsert_by (\<lambda>r. fst r = ''bob'') (''bob'', t) (user_dono_totals d)\<rparr>))"
proof -
  have user: "varchar_col 128 (df_user_name (sample_donation i q s)) = Inr ''bob''"
    by (simp add: sample_donation_def varchar_col_def char_count_def is_cont_byte_def)
  show ?thesis
    by (simp add: add_to_total_def sample_dollars user bind_res_def split: sum.split option.split)
qed

lemma sample_donation_id [simp]: "df_id (sample_donation i q s) = i"
  by (simp add: sample_donation_def)

lemmas sample_tables = with_tables_def lb_db.defs mod_db.defs wf_db.defs sample_db_def

theorem donation_totals_agree_witness:
  "total_of ''bob'' (user_dono_totals donated_db) = 13 \<and> given ''bob'' (donations donated_db) = 13"
proof -
  let ?a = "sample_donation 1 1050 ''d''" and ?b = "sample_donation 2 250 ''d''" and ?d = "with_tables sample_db"
  have run: "fetch_rounds sample_donation_env [[?a], [?a, ?b]] ?d = (Inr (), donated_db)"
    and tot: "total_of ''bob'' (user_dono_totals donated_db) = 13"
    unfolding donated_db_def
    by (simp_all add: update_donations_in_db_def and_then_def sample_row sample_amounts sample_add sample_tables
        upsert_by_def total_of_def)
  have empty: "donations ?d = []" "user_dono_totals ?d = []" by (simp_all add: sample_tables)
  have pos: "list_all (list_all (\<lambda>dono. case dollars sample_donation_env dono of Inl _ \<Rightarrow> True | Inr a \<Rightarrow> 0 \<le> a))
      [[?a], [?a, ?b]]"
    by (simp add: sample_dollars)
  show ?thesis using donation_totals_agree [OF run empty pos, of "''bob''"] tot by simp
qed

text \<open>
  The two passes are not one transaction: when a later entry of a batch cannot be read, the
  donations before it are stored without a total, and since they are known from then on, no later
  update adds them.
\<close>

lemma donation_total_lost:
  assumes "d1 = snd (update_donations_in_db sample_donation_env
      [sample_donation 1 1050 ''d'', sample_donation 2 250 []] (with_tables sample_db))"
  shows "fst (update_donations_in_db sample_donation_env [sample_donation 1 1050 ''d''] d1) = Inr []"
    and "given ''bob'' (donations d1) = 21 / 2" and "total_of ''bob'' (user_dono_totals d1) = 0"
  unfolding assms
  by (simp_all add: update_donations_in_db_def and_then_def sample_row sample_amounts sample_tables total_of_def given_def)

end
