(* ===== verification/Async_Cache.thy ===== *)
theory Async_Cache
  imports Collections
begin

text \<open>
  \<open>AsyncCache\<close> of \<open>src/cache_util.rs\<close>: values with a time to live, computed on demand.  A call
  looks the key up under the read lock and, if it finds nothing fresh, again under the write
  lock, which it keeps while it computes the value; later it may purge old entries.  Each of the
  three parts is one step.  \<open>eq\<close> is the \<open>PartialEq\<close> of the values: a recomputed value that is
  equal to the stored one leaves it, and the time since when it has been there, as they are.
\<close>

section \<open>The cache\<close>

record 'v cache_entry =
  ce_value :: 'v
  ce_first_seen :: nat
  ce_last_checked :: nat

record ('k, 'v) inner_cache =
  ic_map :: "('k, 'v cache_entry) hash_map"
  ic_last_scanned :: nat
  ic_purge_after :: nat

definition default_cache :: "nat \<Rightarrow> ('k, 'v) inner_cache" where
  "default_cache now = \<lparr>ic_map = [], ic_last_scanned = now, ic_purge_after = 600 * 1000000000\<rparr>"

definition look_up :: "nat \<Rightarrow> 'k \<Rightarrow> nat \<Rightarrow> ('k, 'v) inner_cache \<Rightarrow> (nat \<times> 'v) option" where
  "look_up now key ttl c =
     (case map_of (ic_map c) key of
        None \<Rightarrow> None
      | Some e \<Rightarrow> if now < ce_last_checked e + ttl then Some (now - ce_first_seen e, ce_value e) else None)"

definition store_value ::
    "('v \<Rightarrow> 'v \<Rightarrow> bool) \<Rightarrow> nat \<Rightarrow> 'k \<Rightarrow> 'v \<Rightarrow> ('k, 'v) inner_cache \<Rightarrow> nat \<times> ('k, 'v) inner_cache" where
  "store_value eq cached_at key value c =
     (case map_of (ic_map c) key of
        Some e \<Rightarrow>
          let e1 = (if \<not> eq (ce_value e) value then e\<lparr>ce_value := value, ce_first_seen := cached_at\<rparr> else e);
              e2 = e1\<lparr>ce_last_checked := cached_at\<rparr>
          in (cached_at - ce_first_seen e2, c\<lparr>ic_map := AList.update key e2 (ic_map c)\<rparr>)
      | None \<Rightarrow>
          (0, c\<lparr>ic_map := AList.update key
                \<lparr>ce_value = value, ce_first_seen = cached_at, ce_last_checked = cached_at\<rparr> (ic_map c)\<rparr>))"

text \<open>Under the write lock; the caller gets the value it computed.\<close>

definition refresh ::
    "('v \<Rightarrow> 'v \<Rightarrow> bool) \<Rightarrow> nat \<Rightarrow> nat \<Rightarrow> 'k \<Rightarrow> nat \<Rightarrow> 'e + 'v \<Rightarrow> ('k, 'v) inner_cache \<Rightarrow>
     ('e + nat \<times> 'v) \<times> ('k, 'v) inner_cache" where
  "refresh eq now cached_at key ttl fresh c =
     (case look_up now key ttl c of
        Some r \<Rightarrow> (Inr r, c)
      | None \<Rightarrow>
          (case fresh of
             Inl e \<Rightarrow> (Inl e, c)
           | Inr v \<Rightarrow> (case store_value eq cached_at key v c of (age, c1) \<Rightarrow> (Inr (age, v), c1))))"

definition check_purge_old :: "nat \<Rightarrow> ('k, 'v) inner_cache \<Rightarrow> ('k, 'v) inner_cache" where
  "check_purge_old now c =
     (if now - ic_last_scanned c < ic_purge_after c then c
      else c\<lparr>ic_map := hm_retain (\<lambda>_ e. now - ce_last_checked e < ic_purge_after c) (ic_map c),
             ic_last_scanned := now\<rparr>)"

text \<open>One call with nothing in between, at one time; the purge runs only after a computation.\<close>

definition get_or_insert_with ::
    "('v \<Rightarrow> 'v \<Rightarrow> bool) \<Rightarrow> nat \<Rightarrow> 'k \<Rightarrow> nat \<Rightarrow> 'e + 'v \<Rightarrow> ('k, 'v) inner_cache \<Rightarrow>
     ('e + nat \<times> 'v) \<times> ('k, 'v) inner_cache" where
  "get_or_insert_with eq now key ttl fresh c =
     (case look_up now key ttl c of
        Some r \<Rightarrow> (Inr r, c)
      | None \<Rightarrow>
          (case refresh eq now now key ttl fresh c of
             (Inl e, c1) \<Rightarrow> (Inl e, c1)
           | (Inr r, c1) \<Rightarrow> (Inr r, check_purge_old now c1)))"

section \<open>Where the values come from\<close>

text \<open>
  \<open>computed t k\<close> is what computing the value of \<open>k\<close> gives at time \<open>t\<close>.  An entry holds what was
  computed when it was first seen, and the value computed when it was last checked was equal to
  it.  The steps of any number of calls, in any order, keep this.
\<close>

definition entry_ok :: "('v \<Rightarrow> 'v \<Rightarrow> bool) \<Rightarrow> (nat \<Rightarrow> 'k \<Rightarrow> 'e + 'v) \<Rightarrow> nat \<Rightarrow> 'k \<Rightarrow> 'v cache_entry \<Rightarrow> bool" where
  "entry_ok eq computed now k e \<longleftrightarrow>
     ce_first_seen e \<le> ce_last_checked e \<and> ce_last_checked e \<le> now \<and>
     computed (ce_first_seen e) k = Inr (ce_value e) \<and>
     (\<exists>w. computed (ce_last_checked e) k = Inr w \<and> (w = ce_value e \<or> eq (ce_value e) w))"

definition cache_ok :: "('v \<Rightarrow> 'v \<Rightarrow> bool) \<Rightarrow> (nat \<Rightarrow> 'k \<Rightarrow> 'e + 'v) \<Rightarrow> nat \<Rightarrow> ('k, 'v) inner_cache \<Rightarrow> bool" where
  "cache_ok eq computed now c \<longleftrightarrow>
     wf_map (ic_map c) \<and> (\<forall>k e. map_of (ic_map c) k = Some e \<longrightarrow> entry_ok eq computed now k e)"

inductive cache_step ::
    "('v \<Rightarrow> 'v \<Rightarrow> bool) \<Rightarrow> (nat \<Rightarrow> 'k \<Rightarrow> 'e + 'v) \<Rightarrow> nat \<times> ('k, 'v) inner_cache \<Rightarrow> nat \<times> ('k, 'v) inner_cache \<Rightarrow> bool"
  for eq computed where
  wait: "now \<le> later \<Longrightarrow> cache_step eq computed (now, c) (later, c)"
| refresh: "now \<le> cached_at \<Longrightarrow> c1 = snd (refresh eq now cached_at k ttl (computed cached_at k) c) \<Longrightarrow>
    cache_step eq computed (now, c) (cached_at, c1)"
| purge: "cache_step eq computed (now, c) (now, check_purge_old now c)"

inductive cache_reach ::
    "('v \<Rightarrow> 'v \<Rightarrow> bool) \<Rightarrow> (nat \<Rightarrow> 'k \<Rightarrow> 'e + 'v) \<Rightarrow> nat \<times> ('k, 'v) inner_cache \<Rightarrow> bool"
  for eq computed where
  start: "cache_reach eq computed (now, default_cache now)"
| step: "cache_reach eq computed s \<Longrightarrow> cache_step eq computed s s' \<Longrightarrow> cache_reach eq computed s'"

lemma cache_ok_later: "cache_ok eq computed now c \<Longrightarrow> now \<le> later \<Longrightarrow> cache_ok eq computed later c"
  by (force simp: cache_ok_def entry_ok_def)

lemma cache_ok_default: "cache_ok eq computed now (default_cache t)"
  by (simp add: cache_ok_def default_cache_def)

lemma store_ok:
  assumes ok: "cache_ok eq computed now c" and t: "now \<le> cached_at" and v: "computed cached_at key = Inr value"
  shows "cache_ok eq computed cached_at (snd (store_value eq cached_at key value c))"
proof -
  have ok1: "cache_ok eq computed cached_at c" using ok t by (rule cache_ok_later)
  have seen: "ce_first_seen e \<le> cached_at" if "map_of (ic_map c) key = Some e" for e
    using ok1 that by (auto simp: cache_ok_def entry_ok_def intro: order_trans)
  have others: "cache_ok eq computed cached_at (c\<lparr>ic_map := AList.update key e (ic_map c)\<rparr>)"
    if "entry_ok eq computed cached_at key e" for e
    using ok1 that by (simp add: cache_ok_def)
  show ?thesis
  proof (cases "map_of (ic_map c) key")
    case None
    then show ?thesis using v by (simp add: store_value_def others entry_ok_def)
  next
    case (Some e)
    then have "entry_ok eq computed cached_at key e" using ok1 by (simp add: cache_ok_def)
    then show ?thesis
      using Some v seen [OF Some] by (simp add: store_value_def Let_def) (intro conjI impI others; simp add: entry_ok_def)
  qed
qed

lemma refresh_ok:
  assumes "cache_ok eq computed now c" "now \<le> cached_at"
  shows "cache_ok eq computed cached_at (snd (refresh eq now cached_at k ttl (computed cached_at k) c))"
  using assms store_ok [OF assms] cache_ok_later [OF assms]
  by (auto simp: refresh_def split: option.split sum.split prod.split) (metis snd_conv)

lemma purge_ok: "cache_ok eq computed now c \<Longrightarrow> cache_ok eq computed now (check_purge_old t c)"
  by (auto simp: cache_ok_def check_purge_old_def map_of_retain split: option.splits if_splits)

lemma reach_ok: "cache_reach eq computed s \<Longrightarrow> cache_ok eq computed (fst s) (snd s)"
proof (induction rule: cache_reach.induct)
  case (start now)
  show ?case by (simp add: cache_ok_default)
next
  case (step s s')
  from step.hyps(2) step.IH show ?case
    by (cases rule: cache_step.cases) (auto intro: cache_ok_later refresh_ok purge_ok)
qed

text \<open>
  What a call answers: a value that was computed less than the time to live ago, or equal to one,
  and an age, since when the cache has held it or an equal value.
\<close>

definition recent :: "('v \<Rightarrow> 'v \<Rightarrow> bool) \<Rightarrow> (nat \<Rightarrow> 'k \<Rightarrow> 'e + 'v) \<Rightarrow> nat \<Rightarrow> nat \<Rightarrow> 'k \<Rightarrow> 'v \<Rightarrow> bool" where
  "recent eq computed now ttl k v \<longleftrightarrow>
     (\<exists>t w. t \<le> now \<and> (t = now \<or> now < t + ttl) \<and> computed t k = Inr w \<and> (w = v \<or> eq v w))"

definition held_since :: "('v \<Rightarrow> 'v \<Rightarrow> bool) \<Rightarrow> (nat \<Rightarrow> 'k \<Rightarrow> 'e + 'v) \<Rightarrow> nat \<Rightarrow> 'k \<Rightarrow> 'v \<Rightarrow> bool" where
  "held_since eq computed t k v \<longleftrightarrow> (\<exists>w. computed t k = Inr w \<and> (w = v \<or> eq w v))"

lemma look_up_recent:
  assumes "cache_ok eq computed now c" "look_up now k ttl c = Some (age, v)"
  shows "recent eq computed now ttl k v \<and> held_since eq computed (now - age) k v"
proof -
  obtain e where e: "map_of (ic_map c) k = Some e" "now < ce_last_checked e + ttl"
    "age = now - ce_first_seen e" "v = ce_value e"
    using assms(2) by (auto simp: look_up_def split: option.splits if_splits)
  have ok: "entry_ok eq computed now k e" using assms(1) e(1) by (simp add: cache_ok_def)
  then obtain w where w: "computed (ce_last_checked e) k = Inr w" "w = v \<or> eq v w"
    "ce_last_checked e \<le> now" "ce_first_seen e \<le> now" "computed (ce_first_seen e) k = Inr v"
    by (auto simp: entry_ok_def e(4))
  have "recent eq computed now ttl k v" using w(1-3) e(2) unfolding recent_def by blast
  moreover have "held_since eq computed (now - age) k v" using w(4,5) by (simp add: held_since_def e(3))
  ultimately show ?thesis ..
qed

lemma store_held:
  assumes ok: "cache_ok eq computed now c" and v: "computed now k = Inr v"
    and run: "store_value eq now k v c = (age, c1)"
  shows "held_since eq computed (now - age) k v"
proof (cases "map_of (ic_map c) k")
  case None
  then show ?thesis using run v by (auto simp: store_value_def held_since_def)
next
  case (Some e)
  then have "entry_ok eq computed now k e" using ok by (simp add: cache_ok_def)
  then show ?thesis
    using run v Some by (auto simp: store_value_def held_since_def entry_ok_def Let_def split: if_splits)
qed

text \<open>
  However the calls of any number of tasks interleave, a call answers with a value that was
  computed less than the time to live ago (or that equals one), together with the age since when
  the cache has held it or an equal one; it fails only when computing the value fails now.
\<close>

theorem cache_answers_recent:
  assumes "cache_reach eq computed (now, c)"
  shows "case fst (get_or_insert_with eq now k ttl (computed now k) c) of
      Inl e \<Rightarrow> computed now k = Inl e
    | Inr (age, v) \<Rightarrow> recent eq computed now ttl k v \<and> held_since eq computed (now - age) k v"
proof (cases "look_up now k ttl c")
  case (Some r)
  have "cache_ok eq computed now c" using reach_ok [OF assms] by simp
  then show ?thesis using Some look_up_recent [of eq computed now c k ttl]
    by (cases r) (simp add: get_or_insert_with_def)
next
  case None
  have ok: "cache_ok eq computed now c" using reach_ok [OF assms] by simp
  show ?thesis
  proof (cases "computed now k")
    case (Inl e)
    then show ?thesis using None by (simp add: get_or_insert_with_def refresh_def)
  next
    case (Inr v)
    obtain age c1 where run: "store_value eq now k v c = (age, c1)" by fastforce
    have "recent eq computed now ttl k v" using Inr by (auto simp: recent_def)
    then show ?thesis
      using None Inr run store_held [OF ok Inr run] by (simp add: get_or_insert_with_def refresh_def)
  qed
qed

definition sample_cache :: "(nat, nat) inner_cache" where
  "sample_cache = snd (refresh (=) 5 5 1 10 (Inr 3 :: unit + nat) (default_cache 5))"

lemma sample_cache_reach: "cache_reach (=) (\<lambda>t k. Inr (if t < 7 then 3 else 4) :: unit + nat) (8, sample_cache)"
proof -
  let ?f = "\<lambda>t k. Inr (if t < 7 then 3 else 4) :: unit + nat"
  have "cache_step (=) ?f (5, default_cache 5) (5, sample_cache)"
    by (rule cache_step.refresh) (simp_all add: sample_cache_def)
  moreover have "cache_step (=) ?f (5, sample_cache) (8, sample_cache)" by (rule cache_step.wait) simp
  ultimately show ?thesis by (meson cache_reach.intros)
qed

theorem cache_answers_recent_witness:
  "fst (get_or_insert_with (=) 8 1 10 (Inr 4 :: unit + nat) sample_cache) = Inr (3, 3) \<and>
   recent (=) (\<lambda>t k. Inr (if t < 7 then 3 else 4) :: unit + nat) 8 10 (1::nat) 3"
proof -
  have run: "fst (get_or_insert_with (=) 8 1 10 (Inr 4 :: unit + nat) sample_cache) = Inr (3, 3)"
    by (simp add: get_or_insert_with_def sample_cache_def refresh_def look_up_def store_value_def default_cache_def)
  show ?thesis using cache_answers_recent [OF sample_cache_reach, of 10 1] run by simp
qed

end
