(* ===== verification/Connection.thy ===== *)
theory Connection
  imports Hat_Session Spec_Tasks Leaderboards Donations Async_Cache Minigames Collectibles Framing
begin

text \<open>
  A connection of \<open>src/server2.rs\<close>: the state of one player's read loop, the dispatch of each
  request to its handler, what is sent on a ping and at the start, and the round of the loop that
  sends every player the best of the leaderboard.

  \<open>'c conn\<close> adds to the state of the hat pushes the variables of the read loop, the limiter and the
  two caches all connections share.  A request is served at one reading of the clocks: \<open>now\<close> of the
  database, \<open>inst\<close> of the process.  Errors of a handler are only logged.
\<close>

section \<open>State\<close>

record 'c conn = hat_session +
  cn_vars :: context_vars
  cn_context_map :: "string option"
  cn_last_ping_map :: "string option"
  cn_limiter :: "'c hat_equip_rate_state"
  cn_lb_cache :: "(string, leaderboard_entry2 list) inner_cache"
  cn_live_cache :: "(string, leaderboard_entry2 list) inner_cache"

text \<open>
  What the connection runs with: the parameters of the handlers, who is logged in, and the id of
  the server.
\<close>

record conn_env =
  sv_lb :: lb_env
  sv_donation :: donation_env
  sv_hex :: "string \<Rightarrow> string option"
  sv_author :: "uuid \<Rightarrow> string \<Rightarrow> string + uuid"
  sv_configured :: bool
  sv_fmt_bind :: "bind_spec_error \<Rightarrow> string"
  sv_fmt_catalog :: "catalog_validation_error \<Rightarrow> string"
  sv_show_db :: "db_error \<Rightarrow> string"
  sv_equip :: hat_equip_cfg
  sv_user :: uuid
  sv_name :: string
  sv_session :: uuid

abbreviation sv_wf :: "conn_env \<Rightarrow> wf_env" where
  "sv_wf env \<equiv> le_wf (sv_lb env)"

type_synonym 's conn_action = "('s, api_error, unit) db_action"

text \<open>The responses of a handler go on the connection's queue.\<close>

definition reply :: "'z wf_world_scheme handler \<Rightarrow> 'z wf_world_scheme conn_action" where
  "reply h = and_then h (for_each send_client)"

section \<open>Pings\<close>

definition cache_ttl :: nat where "cache_ttl = 9000 * 1000000"
definition send_ttl :: nat where "send_ttl = 11000 * 1000000"

definition cached_lb ::
    "conn_env \<Rightarrow> nat \<Rightarrow> nat \<Rightarrow> string \<Rightarrow> (('c, 'z) conn_scheme, api_error, nat \<times> leaderboard_entry2 list) db_action" where
  "cached_lb env now inst uid c =
     (case get_or_insert_with (list_all2 lbe2_eq) inst uid cache_ttl
             (fst (get_map_leaderboard (sv_wf env) now uid 0 10 c)) (cn_lb_cache c) of
        (Inl e, ch) \<Rightarrow> (Inl (SqlxErr e), c\<lparr>cn_lb_cache := ch\<rparr>)
      | (Inr r, ch) \<Rightarrow> (Inr r, c\<lparr>cn_lb_cache := ch\<rparr>))"

definition cached_live ::
    "conn_env \<Rightarrow> nat \<Rightarrow> nat \<Rightarrow> string \<Rightarrow> (('c, 'z) conn_scheme, api_error, nat \<times> leaderboard_entry2 list) db_action" where
  "cached_live env now inst uid c =
     (case get_or_insert_with (list_all2 lbe2_eq) inst uid cache_ttl
             (fst (get_map_live_heights_top_n (sv_wf env) now uid 10 c)) (cn_live_cache c) of
        (Inl e, ch) \<Rightarrow> (Inl (SqlxErr e), c\<lparr>cn_live_cache := ch\<rparr>)
      | (Inr r, ch) \<Rightarrow> (Inr r, c\<lparr>cn_live_cache := ch\<rparr>))"

definition on_ping_check_update_last_map :: "map_info option \<Rightarrow> (('c, 'z) conn_scheme, 'e, bool) db_action" where
  "on_ping_check_update_last_map m c =
     (case update_last_map (cn_last_ping_map c) (map_option m_uid m) of
        (changed, last_map) \<Rightarrow> (Inr changed, c\<lparr>cn_last_ping_map := last_map\<rparr>))"

definition check_regular_on_ping ::
    "conn_env \<Rightarrow> nat \<Rightarrow> nat \<Rightarrow> player_ctx \<Rightarrow> ('c, 'z) conn_scheme conn_action" where
  "check_regular_on_ping env now inst ctx =
     and_then (on_ping_check_update_last_map (pc_map ctx)) (\<lambda>map_changed.
       (case pc_map ctx of
          None \<Rightarrow> Ok ()
        | Some m \<Rightarrow>
            if \<not> (20 \<le> length (m_uid m) \<and> length (m_uid m) < 30) then Ok ()
            else
              and_then (cached_lb env now inst (m_uid m)) (\<lambda>(age, entries).
              and_then (if map_changed \<or> age \<le> send_ttl then send_client (RMapLB (m_uid m) entries) else Ok ()) (\<lambda>_.
              and_then (cached_live env now inst (m_uid m)) (\<lambda>(age, players).
              if map_changed \<or> age \<le> send_ttl then send_client (RMapLivePlayers (m_uid m) players) else Ok ())))))"

text \<open>A ping is answered first; an error of the rest is only logged.\<close>

definition on_ping :: "conn_env \<Rightarrow> nat \<Rightarrow> nat \<Rightarrow> ('c, 'z) conn_scheme conn_action" where
  "on_ping env now inst c =
     (case send_client RPing c of
        (r, c1) \<Rightarrow>
          (r, case cv_ctx (cn_vars c1) of
                None \<Rightarrow> c1
              | Some ctx \<Rightarrow> snd (check_regular_on_ping env now inst ctx c1)))"

section \<open>Contexts and maps\<close>

text \<open>A change of the context's map may mean that the player left the tracked map.\<close>

definition note_context_map :: "conn_env \<Rightarrow> string option \<Rightarrow> ('c, 'z) conn_scheme \<Rightarrow> ('c, 'z) conn_scheme" where
  "note_context_map env uid c =
     (case update_last_map (cn_context_map c) uid of
        (changed, m) \<Rightarrow>
          let c1 = c\<lparr>cn_context_map := m\<rparr>
          in if changed then snd (apply_context_map_change (sv_wf env) (sv_user env) (sv_name env) uid c1) else c1)"

definition on_report_context ::
    "conn_env \<Rightarrow> uuid \<Rightarrow> string \<Rightarrow> string \<Rightarrow> map_info option \<Rightarrow> bool option \<Rightarrow> int \<times> int \<Rightarrow> bool option \<Rightarrow>
     ('c, 'z) conn_scheme \<Rightarrow> ((api_error + unit) \<times> ('c, 'z) conn_scheme) outcome" where
  "on_report_context env new_id sf mi m i bi e c =
     (case (parse_u64_str sf, parse_u64_str mi) of
        (Ret (Some sf1), Ret (Some mi1)) \<Rightarrow>
          (case update_context (sv_hex env) new_id (sv_session env) sf1 mi1 m
                  (case i of None \<Rightarrow> False | Some b \<Rightarrow> b) bi e (cn_vars c) c of
             Panic \<Rightarrow> Panic
           | Ret (Inl err, v, c1) \<Rightarrow> Ret (Inl err, c1\<lparr>cn_vars := v\<rparr>)
           | Ret (Inr _, v, c1) \<Rightarrow> Ret (Inr (), note_context_map env (map_option m_uid m) (c1\<lparr>cn_vars := v\<rparr>)))
      | (Ret _, Ret _) \<Rightarrow> Ret (Inl (StrErr (''Invalid sf/mi: '' @ sf @ ''/'' @ mi)), c)
      | _ \<Rightarrow> Panic)"

text \<open>The map is adopted whatever came of the bind.\<close>

definition on_report_minigame_map ::
    "conn_env \<Rightarrow> nat \<Rightarrow> nat \<Rightarrow> string \<Rightarrow> int \<Rightarrow> ('c, 'z) conn_scheme conn_action" where
  "on_report_minigame_map env now inst uid spec_id c =
     (case report_minigame_map_deferring (sv_wf env) now (sv_fmt_bind env) (sv_author env) (sv_user env) uid spec_id c of
        (r, c1) \<Rightarrow>
          (r, snd (adopt_wayfinder_map (sv_wf env) (sv_configured env) inst (sv_user env) (sv_name env) uid c1)))"

definition on_hat_equip ::
    "('c, uuid, nat, 'y) lru_ops_scheme \<Rightarrow> conn_env \<Rightarrow> nat \<Rightarrow> nat \<Rightarrow> string \<Rightarrow> string \<Rightarrow>
     ('c, 'z) conn_scheme conn_action" where
  "on_hat_equip ops env now inst uid slug c =
     (case report_hat_equip_limited ops (sv_equip env) (sv_wf env) now inst (sv_user env) (tracked_map c) uid slug
             (cn_limiter c) c of
        (r, limiter, c1) \<Rightarrow> (r, c1\<lparr>cn_limiter := limiter\<rparr>))"

text \<open>The hat requests adopt their map first.\<close>

definition on_map :: "conn_env \<Rightarrow> nat \<Rightarrow> string \<Rightarrow> (string option \<Rightarrow> ('c, 'z) conn_scheme conn_action) \<Rightarrow>
    ('c, 'z) conn_scheme conn_action" where
  "on_map env inst uid f c =
     (case adopt_wayfinder_map_or_tracked (sv_wf env) (sv_configured env) inst (sv_user env) (sv_name env) uid c of
        (current, c1) \<Rightarrow> f current c1)"

definition on_pb_height :: "conn_env \<Rightarrow> nat \<Rightarrow> f32 \<Rightarrow> ('c, 'z) conn_scheme conn_action" where
  "on_pb_height env now h c =
     and_then (on_report_pb_height now (sv_user env) (cv_ctx (cn_vars c)) h) (\<lambda>top.
       if top = Some True then send_mgr NewTop3 else Ok ()) c"

definition on_downgrade_stats :: "conn_env \<Rightarrow> nat \<Rightarrow> stats \<Rightarrow> ('c, 'z) conn_scheme conn_action" where
  "on_downgrade_stats env now s c =
     (case downgrade_stats_request (sv_show_db env) now (sv_user env) s c of
        ((responses, r), c1) \<Rightarrow> and_then (for_each send_client responses) (\<lambda>_. fetch (\<lambda>_. r)) c1)"

definition on_set_profile ::
    "conn_env \<Rightarrow> nat \<Rightarrow> json \<Rightarrow> ('c, 'z) conn_scheme \<Rightarrow> ((api_error + unit) \<times> ('c, 'z) conn_scheme) outcome" where
  "on_set_profile env now body c =
     (case stamp_profile (sv_wf env) (sv_user env) (sv_name env) body of
        Panic \<Rightarrow> Panic
      | Ret b \<Rightarrow> Ret (set_users_profile now (sv_user env) b c))"

section \<open>Dispatch\<close>

definition fin3 :: "rat \<times> rat \<times> rat \<Rightarrow> vec3" where
  "fin3 p = (case p of (x, y, z) \<Rightarrow> (Fin x, Fin y, Fin z))"

definition send_result ::
    "('z wf_world_scheme \<Rightarrow> api_error + response) \<Rightarrow> 'z wf_world_scheme conn_action" where
  "send_result q = and_then (fetch q) send_client"

text \<open>The requests that only read, and answer with what they read.\<close>

fun query :: "conn_env \<Rightarrow> nat \<Rightarrow> request \<Rightarrow> 'z wf_world_scheme conn_action option" where
  "query env now QGetMyStats = Some (reply (get_stats (le_float (sv_lb env)) (sv_user env)))"
| "query env now (QGetGlobalLB start stop) =
     Some (reply (send_global_lb (sv_lb env) (as_i32 (int start)) (as_i32 (int stop))))"
| "query env now QGetGlobalOverview = Some (reply send_global_overview)"
| "query env now QGetServerStats = Some (reply (get_server_stats now))"
| "query env now QGetMyRank = Some (reply (get_my_rank (sv_lb env) (sv_user env)))"
| "query env now (QGetPlayersPb wsid) = Some (reply (get_players_pb (sv_lb env) wsid))"
| "query env now QGetDonations = Some (reply (get_donations (sv_donation env)))"
| "query env now QGetGfmDonations = Some (reply get_gfm_donations)"
| "query env now (QGetTwitch wsid) =
     Some (reply (get_twitch (sv_wf env)
       (case Option.bind wsid (\<lambda>w. case le_parse_uuid (sv_lb env) w of Inl _ \<Rightarrow> None | Inr u \<Rightarrow> Some u) of
          None \<Rightarrow> sv_user env | Some u \<Rightarrow> u)))"
| "query env now QGetMyPreferences = Some (reply (get_users_preferences (sv_user env)))"
| "query env now (QGetPlayersSpecInfo uid wsid) = Some (reply (send_players_spec_info (sv_lb env) uid wsid))"
| "query env now (QGetMapOverview uid) = Some (reply (get_map_overview now uid))"
| "query env now (QGetMapLB uid start stop) =
     Some (reply (send_map_lb (sv_wf env) now uid (int start) (int stop)))"
| "query env now (QGetMapLive uid) = Some (reply (send_map_live (sv_wf env) now uid))"
| "query env now (QGetMapMyRank uid) = Some (reply (get_map_rank (sv_wf env) now uid (sv_user env)))"
| "query env now (QGetMapRank uid wsid) =
     Some (case le_parse_uuid (sv_lb env) wsid of
        Inl _ \<Rightarrow> Ok () | Inr user \<Rightarrow> reply (get_map_rank (sv_wf env) now uid user))"
| "query env now (QGetMinigameLB uid slug start stop) =
     Some (send_result (send_minigame_lb (sv_wf env) uid slug (int start) (int stop)))"
| "query env now (QGetMinigameMyRank uid slug) =
     Some (send_result (\<lambda>d. Inr (send_minigame_my_rank (sv_wf env) uid slug (sv_user env) d)))"
| "query env now (QGetMinigameList uid) = Some (send_result (\<lambda>d. Inr (send_minigame_list (sv_wf env) uid d)))"
| "query env now (QGetCollectibleList uid) =
     Some (send_result (\<lambda>d. Inr (send_collectible_list (sv_wf env) uid d)))"
| "query env now (QGetCollectibleMine uid) =
     Some (send_result (\<lambda>d. Inr (send_collectible_mine (sv_wf env) uid (sv_user env) d)))"
| "query env now (QListCustomMapAuxSpecs i) = Some (list_custom_map_aux_spec (sv_wf env) i (sv_user env))"
| "query env now QGetSecretAssets = Some (reply (get_secret_assets (sv_wf env) (sv_user env)))"
| "query env now QStressMe = Some (for_each send_client (replicate 100 RPing))"
| "query env now _ = None"

text \<open>The reports, which change the tables of the statistics, settings and games.\<close>

fun report :: "conn_env \<Rightarrow> nat \<Rightarrow> request \<Rightarrow> ('c, 'z) conn_scheme conn_action option" where
  "report env now (QReportVehicleState pos rotq vel) =
     Some (\<lambda>c. report_vehicle_state (le_float (sv_lb env)) now (sv_session env) (sv_user env)
                 (cv_ctx (cn_vars c)) pos rotq vel c)"
| "report env now (QReportRespawn race_time) = Some (report_respawn now (sv_session env) race_time)"
| "report env now (QReportFinish race_time) = Some (report_finish now (sv_session env) race_time)"
| "report env now (QReportStats s) =
     Some (\<lambda>c. on_report_stats now (sv_user env) s (cv_ctx (cn_vars c)) c)"
| "report env now (QReportPBHeight h) = Some (on_pb_height env now h)"
| "report env now (QReportPlayerColor wsid color) = Some (on_report_color (sv_lb env) wsid color)"
| "report env now (QReportTwitch twitch_name) = Some (on_report_twitch (sv_user env) twitch_name)"
| "report env now (QDowngradeStats s) = Some (on_downgrade_stats env now s)"
| "report env now (QReportMapCurrPos uid pos race_time) =
     Some (report_map_curr_pos (le_float (sv_lb env)) now (sv_user env) uid (fin3 pos)
             (as_i32 (case race_time of None \<Rightarrow> - 1 | Some t \<Rightarrow> t)))"
| "report env now (QReportCustomMapAuxSpec i name_id spec) =
     Some (report_custom_map_aux_spec (sv_fmt_catalog env) now i (sv_user env) name_id spec)"
| "report env now (QDeleteCustomMapAuxSpec i name_id) =
     Some (delete_custom_map_aux_spec (sv_wf env) now i (sv_user env) name_id)"
| "report env now (QReportMapStats uid s) = Some (report_map_stats_request now (sv_user env) uid s)"
| "report env now (QReportMinigameAttempt uid slug spec_id elapsed_ms status) =
     Some (report_minigame_attempt (sv_wf env) now (sv_user env) uid slug spec_id elapsed_ms status)"
| "report env now (QReportCollectibleUnlock uid slug spec_id) =
     Some (report_collectible_unlock (sv_wf env) now (sv_user env) uid slug spec_id)"
| "report env now (QReportCollectibleCollect uid slug spec_id x y z source) =
     Some (report_collectible_collect (sv_wf env) now (sv_user env) uid slug spec_id x y z source)"
| "report env now (QReportHatUnlock uid slug spec_id) =
     Some (report_hat_unlock (sv_wf env) uid slug spec_id)"
| "report env now QGetMyProfile = Some (reply (get_users_profile (sv_lb env) now (we_show_uuid (sv_wf env) (sv_user env))))"
| "report env now (QGetUsersProfile wsid) = Some (reply (get_users_profile (sv_lb env) now wsid))"
| "report env now (QSetMyPreferences body) = Some (set_users_preferences now (sv_user env) body)"
| "report env now _ = None"

text \<open>
  One request.  Logins are ignored once logged in, as are the reports of falls and of camera
  nodes; \<open>GetFriendsLB\<close> is \<open>todo!()\<close>.
\<close>

fun serve ::
    "('c, uuid, nat, 'y) lru_ops_scheme \<Rightarrow> conn_env \<Rightarrow> nat \<Rightarrow> nat \<Rightarrow> uuid \<Rightarrow> request \<Rightarrow>
     ('c, 'z) conn_scheme \<Rightarrow> ((api_error + unit) \<times> ('c, 'z) conn_scheme) outcome" where
  "serve ops env now inst new_id (QReportContext sf mi m i bi e) c = on_report_context env new_id sf mi m i bi e c"
| "serve ops env now inst new_id QPing c = Ret (on_ping env now inst c)"
| "serve ops env now inst new_id (QReportMinigameMap uid spec_id) c =
     Ret (on_report_minigame_map env now inst uid spec_id c)"
| "serve ops env now inst new_id (QReportHatEquip uid slug) c = Ret (on_hat_equip ops env now inst uid slug c)"
| "serve ops env now inst new_id (QGetHatsMine uid) c =
     Ret (on_map env inst uid (\<lambda>current. send_hats_mine (sv_wf env) current uid (sv_user env)) c)"
| "serve ops env now inst new_id (QGetHatsOnMap uid) c =
     Ret (on_map env inst uid (\<lambda>current. send_hats_on_map (sv_wf env) now current uid) c)"
| "serve ops env now inst new_id (QSetMyProfile body) c = on_set_profile env now body c"
| "serve ops env now inst new_id (QGetFriendsLB friends) c = Panic"
| "serve ops env now inst new_id q c =
     (case query env now q of
        Some f \<Rightarrow> Ret (f c)
      | None \<Rightarrow> (case report env now q of Some f \<Rightarrow> Ret (f c) | None \<Rightarrow> Ret (Inr (), c)))"

text \<open>
  The read loop on the messages it gets, each with the readings at which it is served: a message
  it cannot decode is skipped, a failing socket ends it.
\<close>

record reading =
  rd_now :: nat
  rd_inst :: nat
  rd_new_id :: uuid

fun read_loop ::
    "('c, uuid, nat, 'y) lru_ops_scheme \<Rightarrow> conn_env \<Rightarrow> (reading \<times> (io_error + request option)) list \<Rightarrow>
     ('c, 'z) conn_scheme \<Rightarrow> ('c, 'z) conn_scheme outcome" where
  "read_loop ops env [] c = Ret c"
| "read_loop ops env ((t, Inl e) # msgs) c = Ret c"
| "read_loop ops env ((t, Inr None) # msgs) c = read_loop ops env msgs c"
| "read_loop ops env ((t, Inr (Some q)) # msgs) c =
     (case serve ops env (rd_now t) (rd_inst t) (rd_new_id t) q c of
        Panic \<Rightarrow> Panic
      | Ret (_, c1) \<Rightarrow> read_loop ops env msgs c1)"

section \<open>Start of a connection, and the round of the manager\<close>

definition try_send :: "('z wf_world_scheme, 'e, response) db_action \<Rightarrow> 'z wf_world_scheme \<Rightarrow> 'z wf_world_scheme" where
  "try_send q c = (case q c of (Inl _, c1) \<Rightarrow> c1 | (Inr r, c1) \<Rightarrow> snd (send_client r c1))"

definition top3_response :: "lb_env \<Rightarrow> ('z lb_db_scheme, db_error, response) db_action" where
  "top3_response env = and_then (get_global_lb 1 11) (\<lambda>r. Ok (RTop3 (map (ranked_entry_into env) r)))"

text \<open>The three tasks of \<open>send_init_stats\<close>, in any order.\<close>

definition init_stats :: "lb_env \<Rightarrow> nat \<Rightarrow> ('z wf_world_scheme \<Rightarrow> 'z wf_world_scheme) list" where
  "init_stats env now =
     [try_send (top3_response env),
      try_send (and_then get_global_overview (\<lambda>j. Ok (RGlobalOverview j))),
      try_send (and_then (get_server_info now) (\<lambda>n. Ok (RServerInfo n)))]"

text \<open>One round of \<open>top_3_loop\<close>, with the count of the rounds.\<close>

definition top_3_round ::
    "lb_env \<Rightarrow> string \<Rightarrow> nat \<Rightarrow> nat \<Rightarrow> player_delivery list \<Rightarrow> 'z lb_db_scheme \<Rightarrow>
     player_delivery list \<times> 'z lb_db_scheme" where
  "top_3_round env server_id now rounds players d =
     (case top3_response env d of
        (Inl _, d1) \<Rightarrow> (players, d1)
      | (Inr top3, d1) \<Rightarrow>
          let ps = filter (\<lambda>p. \<not> pd_closed p) players
          in if \<not> 10 dvd rounds \<or> ps = [] then (ps, d1)
             else
               let d2 = snd (update_server_stats server_id now (as_i32 (int (length ps))) d1);
                   live = (case fst (get_server_info now d2) of Inl _ \<Rightarrow> 0 | Inr n \<Rightarrow> n);
                   overview = (case fst (get_global_overview d2) of Inl _ \<Rightarrow> [] | Inr j \<Rightarrow> [RGlobalOverview j])
               in (map (\<lambda>p. p\<lparr>pd_inbox := pd_inbox p @ [top3, RServerInfo live] @ overview\<rparr>) ps, d2))"

end
