(* ===== verification/Connection_Frames.thy ===== *)
theory Connection_Frames
  imports Connection Action_Wp
begin

text \<open>
  What the requests of a connection leave alone.  \<open>moderation_of\<close> is what moderators and logins
  govern; a handler that is \<open>still\<close> also leaves the tracked map and the manager's queue as they are.
\<close>

section \<open>Frames\<close>

definition moderation_of where
  "moderation_of d =
     (map_metas d, super_mods d, map_delegates d, map_bans d, map_unofficial d, audit_events d, shadow_bans d,
      web_sessions d, oauth_states d, users d, display_names d, sessions d)"

definition still :: "'z wf_world_scheme \<Rightarrow> 'z wf_world_scheme \<Rightarrow> bool" where
  "still w w' \<longleftrightarrow> moderation_of w' = moderation_of w \<and> tracked_map w' = tracked_map w \<and> mgr_queue w' = mgr_queue w"

definition unmoderated :: "'z wf_world_scheme \<Rightarrow> 'z wf_world_scheme \<Rightarrow> bool" where
  "unmoderated w w' \<longleftrightarrow> moderation_of w' = moderation_of w"

interpretation still: frame still
  by unfold_locales (auto simp: still_def)

interpretation unmoderated: frame unmoderated
  by unfold_locales (auto simp: unmoderated_def)

lemma stays_mono: "stays R m \<Longrightarrow> (\<And>d d'. R d d' \<Longrightarrow> S d d') \<Longrightarrow> stays S m"
  by (simp add: stays_def)

lemma still_unmoderated: "still w w' \<Longrightarrow> unmoderated w w'"
  by (simp add: still_def unmoderated_def)

lemmas frame_defs = still_def unmoderated_def moderation_of_def

lemma still_execute: "(\<And>w. still w (u w)) \<Longrightarrow> stays still (execute u)"
  by (simp add: stays_def)

lemma still_for_each: "(\<And>x. stays still (f x)) \<Longrightarrow> stays still (for_each f xs)"
  by (induction xs) (auto intro: still.stays_rules)

lemma still_send_client: "stays still (send_client r)"
  by (simp add: stays_def send_client_def frame_defs)

lemma still_reply: "stays still h \<Longrightarrow> stays still (reply h)"
  unfolding reply_def by (intro still.stays_and_then still_for_each still_send_client)

lemma still_answer: "stays still q \<Longrightarrow> stays still (answer q f)"
  unfolding answer_def by (intro still.stays_rules)

lemma still_fetch_by_text: "stays still (fetch_by_text s q)"
  unfolding fetch_by_text_def by (rule still.stays_fetch)

lemmas still_rules = still.stays_rules still_for_each still_send_client still_reply still_answer still_fetch_by_text

section \<open>Queries\<close>

lemma still_reads:
  "stays still (get_user_in_lb u)" "stays still (get_global_lb a b)" "stays still get_global_overview"
  "stays still (get_server_info t)" "stays still (get_donations_and_donors de)" "stays still get_gfm_donations_latest"
  "stays still (get_preferences u)" "stays still (get_players_spec_info le m u)" "stays still (get_map_leaderboard_len t m)"
  "stays still (get_map_nb_playing_live t m)" "stays still (get_map_leaderboard env t m i j)"
  "stays still (get_map_live_heights_top_n env t m n)" "stays still (get_map_rank_entry env t m u)"
  "stays still (get_ban_status t m u)" "stays still (get_profile u)"
  unfolding get_user_in_lb_def get_global_lb_def get_global_overview_def get_server_info_def
    get_donations_and_donors_def get_gfm_donations_latest_def get_preferences_def get_players_spec_info_def
    get_map_leaderboard_len_def get_map_nb_playing_live_def get_map_leaderboard_def get_map_live_heights_top_n_def
    get_map_rank_entry_def get_ban_status_def get_profile_def get_active_ban_def is_unofficial_def
  by (intro still_rules)+

lemma still_handlers:
  "stays still (get_stats fe u)" "stays still (send_global_lb le a b)" "stays still send_global_overview"
  "stays still (get_server_stats t)" "stays still (get_my_rank le u)" "stays still (get_players_pb le ws)"
  "stays still (get_donations de)" "stays still get_gfm_donations" "stays still (get_twitch env u)"
  "stays still (get_users_preferences u)" "stays still (send_players_spec_info le m ws)"
  "stays still (get_map_overview t m)" "stays still (send_map_lb env t m i j)" "stays still (send_map_live env t m)"
  "stays still (get_map_rank env t m u)" "stays still (get_secret_assets env u)"
  "stays still (list_custom_map_aux_spec env i u)" "stays still (send_result q)"
  unfolding get_stats_def send_global_lb_def send_global_overview_def get_server_stats_def get_my_rank_def
    get_players_pb_def get_donations_def get_gfm_donations_def get_twitch_def get_users_preferences_def
    send_players_spec_info_def get_map_overview_def send_map_lb_def send_map_live_def get_map_rank_def
    get_secret_assets_def list_custom_map_aux_spec_def send_result_def get_user_stats_def
    get_map_overview_player_counts_def
  by (intro still_rules still_reads)+

lemma query_still: "query env now q = Some f \<Longrightarrow> stays still f"
  by (cases q) (auto intro!: still_rules still_reads still_handlers)

section \<open>Statements that write\<close>

lemma still_heights:
  "stays still (upsert_map_curr_height fe t m u p rt)" "stays still (raise_map_lb t m u p rt)"
  "stays still (insert_map_lb t m u p rt)" "stays still (update_stats_row ok t u s)" "stays still (archive_stats t u)"
  "stays still (insert_stats t u s)" "stays still (insert_lb_archive t u)" "stays still (raise_lb t u h)"
  "stays still (insert_lb t u h)" "stays still (insert_respawn t tok rt)" "stays still (insert_finish t tok rt)"
  "stays still (insert_vehicle_state t tok off pos rotq vel)"
  by (auto simp: stays_def frame_defs upsert_map_curr_height_def raise_map_lb_def insert_map_lb_def
      map_leaderboard_maybe_list_def update_stats_row_def archive_stats_def insert_stats_def insert_lb_archive_def
      raise_lb_def insert_lb_def insert_respawn_def insert_finish_def insert_vehicle_state_def Let_def
      split: sum.splits option.splits)

lemma still_settings:
  "stays still (update_user_color u c)" "stays still (report_map_stats t u m js)" "stays still (set_profile t u js)"
  "stays still (set_preferences t u js)" "stays still (on_report_twitch u tn)" "stays still (create_profile env t u)"
  by (auto simp: stays_def frame_defs update_user_color_def report_map_stats_def set_profile_def set_preferences_def
      on_report_twitch_def create_profile_def and_then_def ok_or_def split: sum.splits option.splits)

lemma still_games:
  "stays still (insert_attempt row)" "stays still (update_pb u k f)" "stays still (upsert_pb t u k m slug)"
  "stays still (record_finish t u k lo sc)" "stays still (upsert_progress p g)" "stays still (insert_collect_log l)"
  by (auto simp: stays_def frame_defs insert_attempt_def update_pb_def upsert_pb_def record_finish_def upsert_progress_def
      insert_collect_log_def Let_def split: sum.splits option.splits)

lemma still_specs:
  "stays still (upsert_spec_row t u n js th)" "stays still (get_spec u n)" "stays still (delete_spec u n)"
  "stays still (delete_games_catalog u n)" "stays still (delete_collectibles_catalog u n)"
  "stays still (delete_hats_catalog u n)" "stays still (replace_games_in_tx i u n gs)"
  "stays still (replace_collectibles_in_tx i u n cs)" "stays still (replace_hats_in_tx i u n hs)"
  by (auto simp: stays_def frame_defs upsert_spec_row_def get_spec_def delete_spec_def delete_games_catalog_def
      delete_collectibles_catalog_def delete_hats_catalog_def replace_games_in_tx_def replace_collectibles_in_tx_def
      replace_hats_in_tx_def Let_def split: sum.splits option.splits prod.splits)

lemma still_binds:
  "stays still (bind_games_in_tx env m i)" "stays still (bind_collectibles_in_tx env m i)"
  "stays still (bind_hats_in_tx env m i)" "stays still (stamp_binding env m i s)"
  "stays still (insert_first_bind t m i r)" "stays still (promote_unverified t m i r)"
  "stays still (purge_map_equipment_in_tx env m)" "stays still (upsert_equipped e)"
  by (auto simp: stays_def frame_defs bind_games_in_tx_def bind_collectibles_in_tx_def bind_hats_in_tx_def
      stamp_binding_def insert_first_bind_def promote_unverified_def purge_map_equipment_in_tx_def
      upsert_equipped_def Let_def split: option.splits sum.splits)

text \<open>A handler that looks at the state first.\<close>

lemma still_seq: "stays still m \<Longrightarrow> (\<And>a. stays still (f a)) \<Longrightarrow> still d (snd (and_then m f d))"
  by (rule staysD) (rule still.stays_and_then)

lemma still_err: "stays still m \<Longrightarrow> still d (snd (map_err h m d))"
  by (rule staysD) (rule still.stays_map_err)

section \<open>The handlers that write\<close>

lemma still_stats_handlers:
  "stays still (report_vehicle_state fe t tok u ctx pos rotq vel)" "stays still (report_respawn t tok rt)"
  "stays still (report_finish t tok rt)" "stays still (on_report_stats t u s ctx)"
  "stays still (on_report_pb_height t u ctx h)" "stays still (on_report_color le ws c)"
  "stays still (report_map_curr_pos fe t u m p rt)" "stays still (report_map_stats_request t u m js)"
  "stays still (get_users_profile le t ws)" "stays still (set_users_profile t u js)"
  "stays still (set_users_preferences t u js)"
  unfolding report_vehicle_state_def report_respawn_def report_finish_def on_report_stats_def on_report_pb_height_def
    on_report_color_def report_map_curr_pos_def report_map_stats_request_def get_users_profile_def
    set_users_profile_def set_users_preferences_def update_users_stats_def update_user_pb_height_def
    report_live_vehicle_state_def
  by (intro still_rules still_heights still_settings still_reads)+

lemma still_downgrade: "still c (snd (downgrade_stats_request show_error t u s c))"
proof -
  have "stays still (downgrade_stats t u s)"
    unfolding downgrade_stats_def by (intro still_rules still_heights)
  then have "still c (snd (downgrade_stats t u s c))" by (rule staysD)
  then show ?thesis
    unfolding downgrade_stats_request_def by (auto split: prod.split sum.split)
qed

lemma still_attempt: "stays still (report_minigame_attempt env t u m slug i el st)"
proof -
  have seq: "still d (snd (and_then (insert_attempt row) (\<lambda>_. and_then (upsert_pb t u k m slug)
      (\<lambda>_. if b then record_finish t u k lo sc else Ok ())) d))" for row k b lo sc d
    by (intro still_seq still_rules still_games)
  have "stays still (report_attempt env t u m slug i el st)" for i
    unfolding report_attempt_def
    by (intro still.stays_if still.stays_ok still.stays_in_tx staysI) (auto simp: still.same seq split: option.split)
  then show ?thesis
    unfolding report_minigame_attempt_def
    by (intro staysI) (auto simp: still.same split: option.split intro!: still_err)
qed

lemma still_unlock: "stays still (report_collectible_unlock env t u m slug i)"
proof -
  have "stays still (collectible_report_unlock env t u m slug i)" for i
    unfolding collectible_report_unlock_def
    by (intro still.stays_in_tx staysI) (auto simp: still.same staysD [OF still_games(5)] split: option.split)
  then show ?thesis
    unfolding report_collectible_unlock_def
    by (intro staysI) (auto simp: still.same split: option.split intro!: still_err)
qed

lemma still_collect: "stays still (report_collectible_collect env t u m slug i x y z raw)"
proof -
  have transition: "stays still (record_collect_transition t u k m slug pos src)" for k pos src
    unfolding record_collect_transition_def by (intro still_rules still_games)
  have "stays still (report_collect env t u m slug i x y z src)" for i src
    unfolding report_collect_def
    by (intro still.stays_case_option still.stays_if still.stays_ok still.stays_in_tx staysI)
       (auto simp: still.same Let_def staysD [OF transition] split: option.split)
  then show ?thesis
    unfolding report_collectible_collect_def
    by (intro staysI) (auto simp: still.same split: option.split intro!: still_err)
qed

lemma still_spec_tasks:
  "stays still (report_custom_map_aux_spec fmt t i u n js)" "stays still (delete_custom_map_aux_spec env t i u n)"
  unfolding report_custom_map_aux_spec_def delete_custom_map_aux_spec_def upsert_custom_map_aux_spec_def
    delete_custom_map_aux_spec_inner_def upsert_spec_and_catalogs_def send_spec_task_result_def Let_def
  by (intro still_rules still_specs)+

lemma still_hat_unlock: "stays still (report_hat_unlock env m slug i)"
  by (auto simp: stays_def frame_defs report_hat_unlock_def reserve_unlock_def split: option.split)

section \<open>Reports\<close>

lemma still_downgrade_stats: "stays still (on_downgrade_stats env t s)"
proof (rule staysI)
  fix c :: "('a, 'b) conn_scheme"
  obtain rs r c1 where run: "downgrade_stats_request (sv_show_db env) t (sv_user env) s c = ((rs, r), c1)"
    by (metis surj_pair)
  have "still c c1" using still_downgrade [of c "sv_show_db env" t "sv_user env" s] run by simp
  moreover have "still c1 (snd (and_then (for_each send_client rs) (\<lambda>_. fetch (\<lambda>_. r)) c1))"
    by (rule staysD) (intro still_rules)
  ultimately show "still c (snd (on_downgrade_stats env t s c))"
    by (simp add: on_downgrade_stats_def run) (rule still.chain)
qed

lemma still_with_context:
  "stays still (\<lambda>c. report_vehicle_state fe t tok u (cv_ctx (cn_vars c)) pos rotq vel c)"
  "stays still (\<lambda>c. on_report_stats t u s (cv_ctx (cn_vars c)) c)"
  by (auto simp: stays_def intro: staysD still_stats_handlers)

text \<open>All reports but that of a best height, which may tell the manager of a new top three.\<close>

lemma report_still:
  assumes "report env now q = Some f" "\<And>h. q \<noteq> QReportPBHeight h"
  shows "stays still f"
  using assms
  by (cases q) (auto intro!: still_rules still_stats_handlers still_settings still_spec_tasks still_attempt
      still_unlock still_collect still_hat_unlock still_downgrade_stats still_with_context)

end
