(* ===== verification/Board_Properties.thy ===== *)
theory Board_Properties
  imports Leaderboards Minigames Sample_Tables
begin

text \<open>
  What the leaderboards of maps show: no hidden player, the same row in the board as in the answer
  about one player, and what the list of maps holds.
\<close>

section \<open>Reading rows\<close>

lemma map_res_Inr: "map_res f xs = Inr ys \<longleftrightarrow> list_all2 (\<lambda>x y. f x = Inr y) xs ys"
proof (induction xs arbitrary: ys)
  case Nil
  then show ?case by (cases ys) simp_all
next
  case (Cons x xs)
  then show ?case by (cases ys) (auto simp: bind_res_Inr)
qed

lemma map_res_all:
  "map_res f xs = Inr ys \<Longrightarrow> (\<And>x y. x \<in> set xs \<Longrightarrow> f x = Inr y \<Longrightarrow> P y) \<Longrightarrow> list_all P ys"
proof (induction xs arbitrary: ys)
  case (Cons x xs)
  from Cons.prems(1) obtain y zs where ys: "ys = y # zs" "f x = Inr y" "map_res f xs = Inr zs"
    by (auto simp: bind_res_Inr)
  show ?case unfolding ys(1) using Cons.IH [OF ys(3)] Cons.prems(2) ys(2) by (simp, blast)
qed simp

lemma find_all2:
  assumes "list_all2 R xs ys" "\<And>x y. R x y \<Longrightarrow> x \<in> set xs \<Longrightarrow> P x \<longleftrightarrow> Q y"
  shows "case List.find P xs of None \<Rightarrow> List.find Q ys = None
    | Some x \<Rightarrow> \<exists>y. List.find Q ys = Some y \<and> R x y"
  using assms
proof (induction rule: list_all2_induct)
  case (Cons x xs y ys)
  have "P x \<longleftrightarrow> Q y" by (rule Cons(4)) (simp_all add: Cons(1))
  moreover have "case List.find P xs of None \<Rightarrow> List.find Q ys = None
      | Some x \<Rightarrow> \<exists>y. List.find Q ys = Some y \<and> R x y"
    by (rule Cons(3)) (simp add: Cons(4))
  ultimately show ?case using Cons(1) by (cases "P x") (auto split: option.splits)
qed simp

lemma map_lb_entry_Inr:
  "map_lb_entry env rows d m = Inr e \<Longrightarrow> le2_wsid e = we_show_uuid env (ml_user_id m)"
  by (auto simp: map_lb_entry_def bind_res_Inr split: prod.splits)

lemma live_lb_entry_Inr:
  "live_lb_entry env rows d m = Inr e \<Longrightarrow> le2_wsid e = we_show_uuid env (hh_user_id m)"
  by (auto simp: live_lb_entry_def bind_res_Inr split: prod.splits)

lemma live_entry_Inr:
  "live_entry env d i m = Inr e \<Longrightarrow> ph_user_id e = we_show_uuid (le_wf env) (hh_user_id m)"
  by (auto simp: live_entry_def bind_res_Inr split: prod.splits)

lemma limit_offset_Inr: "limit_offset n k xs = Inr ys \<Longrightarrow> ys = take (nat n) (drop (nat k) xs)"
  by (auto simp: limit_offset_def split: if_splits)

lemma in_limit_offset: "limit_offset n k xs = Inr ys \<Longrightarrow> set ys \<subseteq> set xs"
  by (metis limit_offset_Inr set_drop_subset set_take_subset subset_trans)

lemma get_map_leaderboard_Inr:
  "get_map_leaderboard env now uid start stop d = (Inr es, d') \<Longrightarrow>
     d' = d \<and> map_leaderboard_rows env now uid start stop d = Inr es"
  by (auto simp: get_map_leaderboard_def text_col_def split: if_splits)

lemma map_leaderboard_rows_Inr:
  assumes "map_leaderboard_rows env now uid start stop d = Inr es"
  shows "\<exists>rows. limit_offset (as_i64 (stop - start)) start (order_desc ml_height (public_rows now uid d)) = Inr rows \<and>
    list_all2 (\<lambda>m e. map_lb_entry env (public_rows now uid d) d m = Inr e) rows es"
  using assms by (auto simp: map_leaderboard_rows_def Let_def bind_res_Inr map_res_Inr)

section \<open>Hidden players\<close>

text \<open>An answer satisfies \<open>P\<close>, if it is not an error.\<close>

definition answers :: "('b \<Rightarrow> bool) \<Rightarrow> ('d, 'e, 'b) db_action \<Rightarrow> 'd \<Rightarrow> bool" where
  "answers P q d = (case fst (q d) of Inl _ \<Rightarrow> True | Inr r \<Rightarrow> P r)"

lemma answersI: "(\<And>r d'. q d = (Inr r, d') \<Longrightarrow> P r) \<Longrightarrow> answers P q d"
  by (cases "q d") (simp add: answers_def split: sum.split)

lemma board_hides:
  assumes inj: "inj (we_show_uuid env)" and hid: "hidden now uid user d"
  shows "answers (list_all (\<lambda>e. le2_wsid e \<noteq> we_show_uuid env user)) (get_map_leaderboard env now uid start stop) d"
proof (rule answersI)
  fix es d' assume "get_map_leaderboard env now uid start stop d = (Inr es, d')"
  then obtain rows where rows:
      "limit_offset (as_i64 (stop - start)) start (order_desc ml_height (public_rows now uid d)) = Inr rows"
      and es: "map_res (map_lb_entry env (public_rows now uid d) d) rows = Inr es"
    by (auto simp: map_res_Inr dest!: get_map_leaderboard_Inr map_leaderboard_rows_Inr)
  have "ml_user_id m \<noteq> user" if "m \<in> set rows" for m
    using that hid in_limit_offset [OF rows] by (auto simp: public_rows_def)
  then show "list_all (\<lambda>e. le2_wsid e \<noteq> we_show_uuid env user) es"
    by (intro map_res_all [OF es]) (metis map_lb_entry_Inr injD [OF inj])
qed

lemma live_hides:
  assumes hid: "hidden now uid user d" and m: "m \<in> set (live_rows now uid d)"
  shows "hh_user_id m \<noteq> user"
  using assms by (auto simp: live_rows_def)

lemma live_board_hides:
  assumes inj: "inj (we_show_uuid env)" and hid: "hidden now uid user d"
  shows "answers (list_all (\<lambda>e. le2_wsid e \<noteq> we_show_uuid env user)) (get_map_live_heights_top_n env now uid n) d"
proof (rule answersI)
  fix es d' assume "get_map_live_heights_top_n env now uid n d = (Inr es, d')"
  then have es: "map_res (live_lb_entry env (live_rows now uid d) d)
      (take n (order_desc hh_height (live_rows now uid d))) = Inr es"
    by (auto simp: get_map_live_heights_top_n_def bind_res_Inr Let_def split: if_splits)
  have "hh_user_id m \<noteq> user" if "m \<in> set (take n (order_desc hh_height (live_rows now uid d)))" for m
    using live_hides [OF hid, of m] that by (auto dest: in_set_takeD)
  then show "list_all (\<lambda>e. le2_wsid e \<noteq> we_show_uuid env user) es"
    by (intro map_res_all [OF es]) (metis live_lb_entry_Inr injD [OF inj])
qed

lemma live_heights_hide:
  assumes inj: "inj (we_show_uuid (le_wf env))" and hid: "hidden now uid user d"
  shows "answers (list_all (\<lambda>e. ph_user_id e \<noteq> we_show_uuid (le_wf env) user)) (get_map_live_heights env now uid) d"
proof (rule answersI)
  fix es d' assume "get_map_live_heights env now uid d = (Inr es, d')"
  then have es: "map_res (\<lambda>(i, m). live_entry env d i m)
      (enumerate 0 (order_desc hh_height (live_rows now uid d))) = Inr es"
    by (auto simp: get_map_live_heights_def bind_res_Inr split: if_splits)
  have hidden_row: "hh_user_id m \<noteq> user" if "(i, m) \<in> set (enumerate 0 (order_desc hh_height (live_rows now uid d)))" for i m
  proof (rule live_hides [OF hid])
    from that have "i < length (order_desc hh_height (live_rows now uid d))" "m = order_desc hh_height (live_rows now uid d) ! i"
      by (auto simp: in_set_enumerate_eq)
    then show "m \<in> set (live_rows now uid d)" by (metis nth_mem set_order_desc)
  qed
  show "list_all (\<lambda>e. ph_user_id e \<noteq> we_show_uuid (le_wf env) user) es"
  proof (rule map_res_all [OF es])
    fix p e assume p: "p \<in> set (enumerate 0 (order_desc hh_height (live_rows now uid d)))"
      and e: "(case p of (i, m) \<Rightarrow> live_entry env d i m) = Inr e"
    obtain i m where im: "p = (i, m)" by (cases p)
    have "ph_user_id e = we_show_uuid (le_wf env) (hh_user_id m)" using e im by (simp add: live_entry_Inr)
    moreover have "hh_user_id m \<noteq> user" using p im hidden_row by blast
    ultimately show "ph_user_id e \<noteq> we_show_uuid (le_wf env) user" by (simp add: inj_eq [OF inj])
  qed
qed

lemma global_hides:
  assumes "user \<in> set (shadow_bans d)"
  shows "answers (list_all (\<lambda>e. lbe_wsid e \<noteq> user)) (get_global_lb start stop) d"
proof (rule answersI)
  fix es d' assume run: "get_global_lb start stop d = (Inr es, d')"
  have "lbe_wsid e \<noteq> user" if "e \<in> set (ranked_lb_view d)" for e
    using that assms by (auto simp: ranked_lb_view_def ranked_rows_def ranked_entry_def)
  moreover have "set es \<subseteq> set (ranked_lb_view d)"
    using run by (auto simp: get_global_lb_def split: if_splits dest!: in_limit_offset)
  ultimately show "list_all (\<lambda>e. lbe_wsid e \<noteq> user) es" by (auto simp: list_all_iff)
qed

lemma minigame_board_hides:
  assumes inj: "inj (we_show_uuid env)" and ban: "user \<in> set (shadow_bans d)"
  shows "answers (list_all (\<lambda>e. mle_wsid e \<noteq> we_show_uuid env user))
    (fetch (get_minigame_leaderboard env uid slug start stop)) d"
proof (rule answersI)
  fix es d' assume "fetch (get_minigame_leaderboard env uid slug start stop) d = (Inr es, d')"
  then have "set es \<subseteq> set (ranked_entries env uid slug d)"
    by (auto simp: get_minigame_leaderboard_def Let_def split: if_splits dest!: in_set_takeD in_set_dropD)
  moreover have "mle_wsid e \<noteq> we_show_uuid env user" if "e \<in> set (ranked_entries env uid slug d)" for e
    using that ban by (auto simp: ranked_entries_def lb_rows_def lb_entry_def Let_def inj_eq [OF inj] split: option.splits)
  ultimately show "list_all (\<lambda>e. mle_wsid e \<noteq> we_show_uuid env user) es" by (auto simp: list_all_iff)
qed

text \<open>A ban from the map is no matter on the boards of its minigames.\<close>

lemma minigame_board_keeps_map_banned:
  "get_minigame_leaderboard env uid slug start stop (d\<lparr>map_bans := bans\<rparr>) = get_minigame_leaderboard env uid slug start stop d"
proof -
  have "lb_rows key (d\<lparr>map_bans := bans\<rparr>) = lb_rows key d" for key by (simp add: lb_rows_def)
  moreover have "lb_entry env low rows (d\<lparr>map_bans := bans\<rparr>) = lb_entry env low rows d" for low rows
    by (rule ext) (simp add: lb_entry_def find_user_def)
  ultimately show ?thesis by (simp add: get_minigame_leaderboard_def ranked_entries_def find_game_def Let_def split: option.split)
qed

section \<open>One player's row\<close>

lemma standing_public:
  "\<not> hidden now uid user d \<Longrightarrow> standing_rows now uid user d = public_rows now uid d"
  unfolding standing_rows_def public_rows_def hidden_def by (rule filter_cong) auto

lemma public_rows_distinct:
  assumes "distinct (map (\<lambda>m. (ml_map_uid m, ml_user_id m)) (map_leaderboard d))"
  shows "distinct (map ml_user_id (public_rows now uid d))"
proof -
  have "distinct (map (\<lambda>m. (ml_map_uid m, ml_user_id m)) (public_rows now uid d))"
    unfolding public_rows_def by (rule distinct_map_filter) (rule assms)
  moreover have "map (\<lambda>m. (ml_map_uid m, ml_user_id m)) (public_rows now uid d) =
      map (Pair uid) (map ml_user_id (public_rows now uid d))"
    by (auto simp: public_rows_def)
  ultimately show ?thesis by (metis distinct_map)
qed

lemma find_by_distinct_key:
  "distinct (map k xs) \<Longrightarrow> List.find (\<lambda>x. k x = v) xs = Some x \<longleftrightarrow> x \<in> set xs \<and> k x = v"
  by (induction xs) (auto simp: image_iff)

lemma find_same_set:
  assumes "distinct (map k xs)" "distinct (map k ys)" "set xs = set ys"
  shows "List.find (\<lambda>x. k x = v) xs = List.find (\<lambda>x. k x = v) ys"
proof (cases "List.find (\<lambda>x. k x = v) xs")
  case None
  then show ?thesis using assms(3) by (metis find_None_all)
next
  case (Some x)
  then have "List.find (\<lambda>x. k x = v) ys = Some x"
    using assms by (simp only: find_by_distinct_key)
  then show ?thesis using Some by simp
qed

text \<open>
  C29. The answer about one player who is not hidden is the player's row of the whole board, with
  the update count left out: position, time and rank agree, and there is none exactly when the
  board has no row of the player.
\<close>

theorem map_rank_is_board_row:
  assumes keys: "distinct (map (\<lambda>m. (ml_map_uid m, ml_user_id m)) (map_leaderboard d))"
    and inj: "inj (we_show_uuid env)" and seen: "\<not> hidden now uid user d"
    and board: "get_map_leaderboard env now uid 0 stop d = (Inr es, d1)"
    and whole: "int (length (public_rows now uid d)) \<le> stop" "stop < 2 ^ 63"
  shows "get_map_rank_entry env now uid user d =
    (Inr (map_option (\<lambda>e. e\<lparr>le2_update_count := 0\<rparr>) (List.find (\<lambda>e. le2_wsid e = we_show_uuid env user) es)), d)"
proof -
  let ?rows = "public_rows now uid d" and ?sorted = "order_desc ml_height (public_rows now uid d)"
  obtain rows where rows: "limit_offset (as_i64 (stop - 0)) 0 ?sorted = Inr rows"
    and all: "list_all2 (\<lambda>m e. map_lb_entry env ?rows d m = Inr e) rows es"
    using map_leaderboard_rows_Inr get_map_leaderboard_Inr [OF board] by blast
  have "as_i64 stop = stop" using whole by (intro as_i64_id) simp_all
  then have sorted: "rows = ?sorted" using limit_offset_Inr [OF rows] whole(1) by simp
  have "List.find (\<lambda>m. ml_user_id m = user) ?sorted = List.find (\<lambda>m. ml_user_id m = user) ?rows"
    using public_rows_distinct [OF keys]
    by (intro find_same_set) (simp_all add: distinct_order_desc)
  moreover have "text_col uid = Inr uid"
    using board by (simp add: get_map_leaderboard_def text_col_def split: if_splits)
  moreover have "case List.find (\<lambda>m. ml_user_id m = user) rows of
      None \<Rightarrow> List.find (\<lambda>e. le2_wsid e = we_show_uuid env user) es = None
    | Some m \<Rightarrow> \<exists>e. List.find (\<lambda>e. le2_wsid e = we_show_uuid env user) es = Some e \<and>
        map_lb_entry env ?rows d m = Inr e"
    by (rule find_all2 [OF all]) (simp add: map_lb_entry_Inr inj_eq [OF inj])
  ultimately show ?thesis
    unfolding get_map_rank_entry_def standing_public [OF seen] sorted
    by (auto simp: Let_def standing_public [OF seen] split: option.splits)
qed

text \<open>
  C21. A player who is shadow-banned or banned from a map is not on the map's board of heights, nor
  among its live players and live heights; a shadow-banned player is not on the Deep Dip board and on
  no minigame's board either.  A map ban does not reach the minigames
  (\<open>minigame_board_keeps_map_banned\<close>), and the hats worn on a map are listed without regard to bans.
\<close>

theorem public_boards_hide:
  assumes inj: "inj (we_show_uuid (le_wf env))" and hid: "hidden now uid user d"
  shows "answers (list_all (\<lambda>e. le2_wsid e \<noteq> we_show_uuid (le_wf env) user))
      (get_map_leaderboard (le_wf env) now uid start stop) d \<and>
    answers (list_all (\<lambda>e. le2_wsid e \<noteq> we_show_uuid (le_wf env) user))
      (get_map_live_heights_top_n (le_wf env) now uid n) d \<and>
    answers (list_all (\<lambda>e. ph_user_id e \<noteq> we_show_uuid (le_wf env) user)) (get_map_live_heights env now uid) d \<and>
    (user \<in> set (shadow_bans d) \<longrightarrow> answers (list_all (\<lambda>e. lbe_wsid e \<noteq> user)) (get_global_lb first last_rank) d \<and>
      answers (list_all (\<lambda>e. mle_wsid e \<noteq> we_show_uuid (le_wf env) user))
        (fetch (get_minigame_leaderboard (le_wf env) uid slug from_row to_row)) d)"
  by (intro conjI impI board_hides [OF inj hid] live_board_hides [OF inj hid] live_heights_hide [OF inj hid] global_hides
      minigame_board_hides [OF inj])

text \<open>A board of three players, the best of whom is banned from the map.\<close>

definition sample_score :: "uuid \<Rightarrow> rat \<Rightarrow> map_lb_row" where
  "sample_score user h = \<lparr>ml_map_uid = sample_map, ml_user_id = user, ml_height = Fin h, ml_pos = (Fin 0, Fin h, Fin 0),
     ml_race_time = 1000, ml_updated_at = 5000000, ml_update_count = 3\<rparr>"

definition sample_ban :: map_ban where
  "sample_ban = \<lparr>mb_map_uid = sample_map, mb_user_id = 3, mb_private_reason = [], mb_public_message = ''cut'',
     mb_created_by = 1, mb_created_at = 1, mb_expires_at = None, mb_lifted_at = None, mb_lifted_by = None\<rparr>"

definition board_db :: lb_db where
  "board_db = (with_tables sample_db)\<lparr>
     users := [\<lparr>ur_id = 1, ur_display_name = ''ann'', ur_created_ts = 1, ur_last_login_ts = 1\<rparr>,
       \<lparr>ur_id = 2, ur_display_name = ''bob'', ur_created_ts = 1, ur_last_login_ts = 1\<rparr>,
       \<lparr>ur_id = 3, ur_display_name = ''eve'', ur_created_ts = 1, ur_last_login_ts = 1\<rparr>],
     colors := [(1, 1, 1, 1), (2, 0, 0, 1), (3, 1, 0, 0)],
     map_bans := [sample_ban],
     map_leaderboard := [sample_score 1 100, sample_score 2 120, sample_score 3 150]\<rparr>"

definition sample_entry :: "string \<Rightarrow> uuid \<Rightarrow> rat \<Rightarrow> rat \<times> rat \<times> rat \<Rightarrow> nat \<Rightarrow> leaderboard_entry2" where
  "sample_entry name user h c rank =
     \<lparr>le2_rank = rank, le2_wsid = we_show_uuid sample_env user, le2_pos = (Fin 0, Fin h, Fin 0), le2_ts = 5,
      le2_name = name, le2_update_count = 3, le2_color = c, le2_race_time = 1000\<rparr>"

lemma board_db_tables:
  "users board_db = [\<lparr>ur_id = 1, ur_display_name = ''ann'', ur_created_ts = 1, ur_last_login_ts = 1\<rparr>,
     \<lparr>ur_id = 2, ur_display_name = ''bob'', ur_created_ts = 1, ur_last_login_ts = 1\<rparr>,
     \<lparr>ur_id = 3, ur_display_name = ''eve'', ur_created_ts = 1, ur_last_login_ts = 1\<rparr>]"
  "colors board_db = [(1, 1, 1, 1), (2, 0, 0, 1), (3, 1, 0, 0)]" "map_bans board_db = [sample_ban]"
  "shadow_bans board_db = []" "listed_maps board_db = []"
  "map_leaderboard board_db = [sample_score 1 100, sample_score 2 120, sample_score 3 150]"
  by (simp_all add: board_db_def with_tables_def lb_db.defs mod_db.defs wf_db.defs sample_db_def)

lemma sample_map_col: "text_col sample_map = Inr sample_map" "length sample_map = 27"
  by (simp_all add: sample_map_def text_col_def)

lemma board_db_hidden: "hidden now sample_map user board_db \<longleftrightarrow> user = 3"
  by (auto simp: hidden_def active_ban_def board_db_tables is_ban_of_def ban_active_def sample_ban_def)

lemma board_db_public: "public_rows now sample_map board_db = [sample_score 1 100, sample_score 2 120]"
  by (simp add: public_rows_def board_db_hidden board_db_tables) (simp add: sample_score_def)

lemma board_db_read:
  "get_map_leaderboard sample_env 9 sample_map 0 10 board_db =
     (Inr [sample_entry ''bob'' 2 120 (0, 0, 1) 1, sample_entry ''ann'' 1 100 (1, 1, 1) 2], board_db)"
proof -
  have "order_desc ml_height [sample_score 1 100, sample_score 2 120] = [sample_score 2 120, sample_score 1 100]"
    by (simp add: order_desc_def sample_score_def)
  then have "map_leaderboard_rows sample_env 9 sample_map 0 10 board_db =
      map_res (map_lb_entry sample_env [sample_score 1 100, sample_score 2 120] board_db)
        [sample_score 2 120, sample_score 1 100]"
    by (simp add: map_leaderboard_rows_def board_db_public limit_offset_def as_i64_def Let_def)
  also have "\<dots> = Inr [sample_entry ''bob'' 2 120 (0, 0, 1) 1, sample_entry ''ann'' 1 100 (1, 1, 1) 2]"
    by (simp add: map_lb_entry_def joined_def display_name_of_def find_user_def color_of_def board_db_tables
        rank_in_def sample_score_def sample_entry_def as_u32_def unix_seconds_def)
  finally show ?thesis by (simp add: get_map_leaderboard_def sample_map_col)
qed

theorem map_rank_is_board_row_witness:
  "get_map_rank_entry sample_env 9 sample_map 1 board_db =
     (Inr (Some ((sample_entry ''ann'' 1 100 (1, 1, 1) 2)\<lparr>le2_update_count := 0\<rparr>)), board_db)"
proof -
  have "distinct (map (\<lambda>m. (ml_map_uid m, ml_user_id m)) (map_leaderboard board_db))"
    by (simp add: board_db_tables sample_score_def)
  then show ?thesis
    using map_rank_is_board_row [OF _ inj_sample_show _ board_db_read, of 1]
    by (simp add: board_db_hidden board_db_public) (simp add: sample_entry_def inj_eq [OF inj_sample_show])
qed

definition sample_lb_env :: lb_env where
  "sample_lb_env = \<lparr>le_wf = sample_env, le_float = \<lparr>fe_round = Fin, fe_narrow = id, fe_sqrt = id\<rparr>,
     le_parse_uuid = (\<lambda>s. Inr (of_nat (length s))), le_bigint = (\<lambda>_. Inr 0)\<rparr>"

theorem public_boards_hide_witness:
  "answers (list_all (\<lambda>e. le2_wsid e \<noteq> we_show_uuid sample_env 3))
     (get_map_leaderboard sample_env 9 sample_map 0 10) board_db"
proof -
  have "inj (we_show_uuid (le_wf sample_lb_env))" by (simp add: sample_lb_env_def inj_sample_show)
  then show ?thesis
    using public_boards_hide [of sample_lb_env 9 sample_map 3 board_db 0 10]
    by (simp add: board_db_hidden) (simp add: sample_lb_env_def)
qed

end
