(* ===== verification/Connection_Properties.thy ===== *)
theory Connection_Properties
  imports Connection_Frames Board_Properties
begin

text \<open>
  What the requests of a connection can do: every one is a run of the steps that \<open>Presence\<close> allows,
  none touches what moderators govern, and three kinds of them unwind the read task.
\<close>

section \<open>Binds and equips\<close>

lemma still_materialize: "stays still (materialize env m i s gs cs hs)"
  unfolding materialize_def by (intro still_rules still_specs still_binds)

lemma still_write: "stays still (write_authoritative_bind env t u m i s l)"
  unfolding write_authoritative_bind_def check_winner_def db_def
  by (intro still_rules still_binds still_materialize)

lemma still_commit: "stays still (commit_authoritative_bind env t p u m i)"
  unfolding commit_authoritative_bind_def Let_def
  by (intro still.stays_in_tx staysI) (auto simp: still.same staysD [OF still_write] split: option.split)

lemma still_report_equip: "stays still (report_equip env t u m slug)"
proof -
  have seq: "stays still (and_then (upsert_equipped e) (\<lambda>changed. if changed then push_entry env u slug else Ok None))" for e
    unfolding push_entry_def by (intro still_rules still_binds)
  have off: "still d (d\<lparr>hat_equipped := x\<rparr>)" for x and d :: "'a wf_world_scheme"
    by (simp add: frame_defs)
  have push: "snd (push_entry env u s d) = d" for s and d :: "'a wf_world_scheme"
    by (simp add: push_entry_def)
  show ?thesis
    unfolding report_equip_def
    by (intro still.stays_in_tx staysI) (simp add: still.same off push staysD [OF seq] split: option.split)
qed

lemma unmoderated_send_mgr: "stays unmoderated (send_mgr msg)"
  by (simp add: stays_def send_mgr_def frame_defs)

lemma unmoderated_still: "stays still f \<Longrightarrow> stays unmoderated f"
  using still_unmoderated unfolding stays_def by blast

lemma unmoderated_bind: "stays unmoderated (report_minigame_map_with_verifier env t fmt verifier u m i)"
  unfolding report_minigame_map_with_verifier_def tell_removed_wearers_def
  by (intro unmoderated.stays_rules unmoderated_send_mgr unmoderated_still [OF still_commit])

lemma unmoderated_deferring: "stays unmoderated (report_minigame_map_deferring env t fmt verifier u m i)"
proof (rule staysI)
  fix w :: "'a wf_world_scheme"
  have "unmoderated w (w\<lparr>spawned := x\<rparr>)" for x by (simp add: frame_defs)
  then show "unmoderated w (snd (report_minigame_map_deferring env t fmt verifier u m i w))"
    by (auto simp: report_minigame_map_deferring_def unmoderated.same intro: staysD [OF unmoderated_bind])
qed

lemma unmoderated_set_map: "stays unmoderated (set_wayfinder_map env u n next_map)"
proof (rule staysI)
  fix w :: "'a wf_world_scheme"
  have "stays unmoderated (broadcast_hat_context_transition env u n p q)" for p q
    unfolding broadcast_hat_context_transition_def by (intro unmoderated.stays_rules unmoderated_send_mgr)
  then have "stays unmoderated (and_then (broadcast_hat_context_transition env u n p next_map) (\<lambda>_. Ok next_map))" for p
    by (intro unmoderated.stays_rules)
  then have "unmoderated (w\<lparr>tracked_map := next_map\<rparr>)
      (snd (and_then (broadcast_hat_context_transition env u n (tracked_map w) next_map) (\<lambda>_. Ok next_map)
        (w\<lparr>tracked_map := next_map\<rparr>)))" by (rule staysD)
  then show "unmoderated w (snd (set_wayfinder_map env u n next_map w))"
    by (simp add: set_wayfinder_map_def frame_defs)
qed

lemma still_observe: "stays still (observe_map_for_comment_bind configured inst uid)"
  by (auto simp: stays_def observe_map_for_comment_bind_def frame_defs split: prod.split comment_bind_admission.split)

lemma unmoderated_adopt: "stays unmoderated (adopt_wayfinder_map env configured inst u n uid)"
  unfolding adopt_wayfinder_map_def
  by (intro unmoderated.stays_rules unmoderated_still [OF still_observe] unmoderated_set_map)

lemma unmoderated_context_change: "unmoderated w (snd (apply_context_map_change env u n ctx w))"
  by (auto simp: apply_context_map_change_def unmoderated.same intro: staysD [OF unmoderated_set_map] split: option.split)

lemma unmoderated_equip: "stays unmoderated (report_hat_equip env t verdict u current m slug)"
  unfolding report_hat_equip_def
  by (cases verdict) (auto intro!: unmoderated.stays_rules unmoderated_send_mgr
      unmoderated_still [OF still_report_equip] unmoderated_still [OF still_send_client])

lemma still_context_rows: "stays still (context_rows i t c p m b e)"
  unfolding context_rows_def insert_context_packed_def context_mark_succeeded_def
  by (intro still.stays_rules still_execute)
     (auto simp: stays_def insert_context_def frame_defs split: option.split)

lemma still_upsert_map: "stays still (upsert_map u n h)"
  by (auto simp: stays_def upsert_map_def frame_defs Let_def split: sum.splits option.splits)

lemma still_update_context:
  assumes run: "update_context hex i t sf mi m vl bi e v c = Ret (r, v1, c1)"
  shows "still c c1"
proof -
  have rows: "still d d1" if "context_rows i t ctx p mid bi e d = (r1, d1)" for ctx p mid d r1 d1
    using staysD [OF still_context_rows] that by (metis snd_conv)
  have map_row: "still c d1" if "upsert_map u n h c = (r1, d1)" for u n h r1 d1
    using staysD [OF still_upsert_map] that by (metis snd_conv)
  show ?thesis
    using run
    by (auto simp: update_context_def get_or_insert_map_def Let_def split: option.splits prod.splits sum.splits outcome.splits
        dest: rows map_row intro: still.chain)
qed

section \<open>One request\<close>

text \<open>What serving a request may do to the connection.\<close>

definition served :: "wf_env \<Rightarrow> uuid \<Rightarrow> 'z wf_world_scheme \<Rightarrow> 'z wf_world_scheme \<Rightarrow> bool" where
  "served env user w w' \<longleftrightarrow> presence_reach env user w w' \<and> unmoderated w w'"

lemma presence_reach_trans:
  "presence_reach env user w1 w2 \<Longrightarrow> presence_reach env user w w1 \<Longrightarrow> presence_reach env user w w2"
  by (induction rule: presence_reach.induct) (blast intro: presence_reach.step)+

interpretation served: frame "served env user"
  by unfold_locales
     (auto simp: served_def unmoderated.same intro: presence_reach.here presence_reach_trans unmoderated.chain)

lemma served_step: "presence_step env user w w' \<Longrightarrow> unmoderated w w' \<Longrightarrow> served env user w w'"
  unfolding served_def by (blast intro: presence_reach.intros)

lemma still_served: "still w w' \<Longrightarrow> served env user w w'"
  by (rule served_step) (auto simp: still_def unmoderated_def announced_def intro: presence_step.others [of _ _ "[]"])

lemma stays_served: "stays still f \<Longrightarrow> served env user w (snd (f w))"
  by (rule still_served) (rule staysD)

lemma served_adopt: "served env user w (snd (adopt_wayfinder_map env configured inst user n uid w))"
  by (rule served_step) (rule presence_step.adopt, rule staysD [OF unmoderated_adopt])

lemma served_adopt_or_tracked: "served env user w (snd (adopt_wayfinder_map_or_tracked env configured inst user n uid w))"
  using served_adopt [of env user w configured inst n uid]
  by (auto simp: adopt_wayfinder_map_or_tracked_def split: prod.splits sum.splits)

lemma still_cached: "stays still (cached_lb env now inst uid)" "stays still (cached_live env now inst uid)"
  by (auto simp: stays_def cached_lb_def cached_live_def frame_defs split: prod.split sum.split)

lemma still_on_ping: "stays still (on_ping env now inst)"
proof -
  have check: "stays still (check_regular_on_ping env now inst ctx)" for ctx
  proof -
    have "stays still (on_ping_check_update_last_map m)" for m
      by (auto simp: stays_def on_ping_check_update_last_map_def frame_defs split: prod.split)
    then show ?thesis unfolding check_regular_on_ping_def by (intro still_rules still_cached)
  qed
  show ?thesis
  proof (rule staysI)
    fix c :: "('a, 'b) conn_scheme"
    have "still c (snd (send_client RPing c))" by (rule staysD) (rule still_send_client)
    then show "still c (snd (on_ping env now inst c))"
      by (auto simp: on_ping_def split: prod.split option.split intro: still.chain staysD [OF check])
  qed
qed

lemma served_on_report_context:
  assumes "on_report_context env i sf mi m vl bi e c = Ret (r, c1)"
  shows "served (sv_wf env) (sv_user env) c c1"
proof -
  have context_noted: "served (sv_wf env) (sv_user env) w (note_context_map env uid w)" for uid and w :: "('a, 'b) conn_scheme"
  proof -
    have "served (sv_wf env) (sv_user env) (w\<lparr>cn_context_map := x\<rparr>)
        (snd (apply_context_map_change (sv_wf env) (sv_user env) (sv_name env) uid (w\<lparr>cn_context_map := x\<rparr>)))" for x
      by (rule served_step) (rule presence_step.context_report, rule unmoderated_context_change)
    moreover have "served (sv_wf env) (sv_user env) w (w\<lparr>cn_context_map := x\<rparr>)" for x
      by (rule still_served) (simp add: frame_defs)
    ultimately show ?thesis
      unfolding note_context_map_def by (auto simp: Let_def split: prod.split intro: served.chain)
  qed
  have vars: "served (sv_wf env) (sv_user env) c (w\<lparr>cn_vars := v\<rparr>)" if "still c w" for v and w :: "('a, 'b) conn_scheme"
    by (rule still_served) (use that in \<open>simp add: frame_defs\<close>)
  show ?thesis
    using assms
    by (auto simp: on_report_context_def served.same split: outcome.splits option.splits sum.splits
        dest!: still_update_context intro: vars served.chain [OF vars context_noted])
qed

lemma served_minigame_map:
  "served (sv_wf env) (sv_user env) c (snd (on_report_minigame_map env now inst uid i c))"
proof (cases "report_minigame_map_deferring (sv_wf env) now (sv_fmt_bind env) (sv_author env) (sv_user env) uid i c")
  case (Pair r c1)
  have "served (sv_wf env) (sv_user env) c (snd (report_minigame_map_deferring (sv_wf env) now (sv_fmt_bind env)
      (sv_author env) (sv_user env) uid i c))"
    by (rule served_step) (rule presence_step.report_map, rule staysD [OF unmoderated_deferring])
  then show ?thesis using Pair by (auto simp: on_report_minigame_map_def intro: served.chain served_adopt)
qed

lemma served_hat_equip: "served (sv_wf env) (sv_user env) c (snd (on_hat_equip ops env now inst uid slug c))"
proof -
  have limiter: "served (sv_wf env) (sv_user env) w (w\<lparr>cn_limiter := l\<rparr>)" for l and w :: "('a, 'b) conn_scheme"
    by (rule still_served) (simp add: frame_defs)
  have equip: "served (sv_wf env) (sv_user env) c w"
    if "report_hat_equip (sv_wf env) now verdict (sv_user env) (tracked_map c) uid slug c = (r, w)" for verdict r w
  proof -
    have "served (sv_wf env) (sv_user env) c
        (snd (report_hat_equip (sv_wf env) now verdict (sv_user env) (tracked_map c) uid slug c))"
      by (rule served_step) (rule presence_step.equip, rule staysD [OF unmoderated_equip])
    then show ?thesis using that by simp
  qed
  show ?thesis
    unfolding on_hat_equip_def report_hat_equip_limited_def
    by (auto simp: Let_def served.same split: prod.split intro: served.chain [OF equip limiter])
qed

lemma stays_still_served: "stays still f \<Longrightarrow> stays (served env u) f"
  by (rule staysI) (rule stays_served)

lemma served_pb_height: "served (sv_wf env) (sv_user env) c (snd (on_pb_height env now h c))"
proof -
  have top3: "stays (served (sv_wf env) (sv_user env)) (send_mgr NewTop3)"
  proof (rule staysI)
    fix w :: "'z wf_world_scheme"
    have "presence_step (sv_wf env) (sv_user env) w (snd (send_mgr NewTop3 w))"
      by (rule presence_step.others [of _ _ "[NewTop3]"]) (simp_all add: announced_def)
    then show "served (sv_wf env) (sv_user env) w (snd (send_mgr NewTop3 w))"
      by (rule served_step) (rule staysD [OF unmoderated_send_mgr])
  qed
  show ?thesis
    unfolding on_pb_height_def
    by (rule staysD) (intro served.stays_rules top3 stays_still_served [OF still_stats_handlers(5)])
qed

lemma served_on_map:
  assumes "\<And>current. stays still (f current)"
  shows "served (sv_wf env) (sv_user env) c (snd (on_map env inst uid f c))"
  using served_adopt_or_tracked [of "sv_wf env" "sv_user env" c "sv_configured env" inst "sv_name env" uid]
  by (auto simp: on_map_def split: prod.splits intro: served.chain stays_served [OF assms])

lemma still_send_hats: "stays still (send_hats_mine env current uid u)" "stays still (send_hats_on_map env now current uid)"
proof -
  have push: "stays still (push_hats_mine env uid u)"
    unfolding push_hats_mine_def by (intro still_rules)
  show "stays still (send_hats_mine env current uid u)"
    by (rule staysI) (simp add: send_hats_mine_def still.same staysD [OF push])
  show "stays still (send_hats_on_map env now current uid)"
    unfolding send_hats_on_map_def by (intro still_rules)
qed

lemma serve_query: "query env now q = Some f \<Longrightarrow> serve ops env now inst i q c = Ret (f c)"
  by (cases q) simp_all

lemma serve_report: "report env now q = Some f \<Longrightarrow> serve ops env now inst i q c = Ret (f c)"
  by (cases q) simp_all

lemma serve_served:
  fixes c c1 :: "('a, 'b) conn_scheme"
  assumes run: "serve ops env now inst i q c = Ret (r, c1)"
  shows "served (sv_wf env) (sv_user env) c c1"
proof (cases "query env now q :: ('a, 'b) conn_scheme conn_action option")
  case (Some f)
  then show ?thesis using run stays_served [OF query_still [OF Some], of "sv_wf env" "sv_user env" c] by (simp add: serve_query)
next
  case query: None
  show ?thesis
  proof (cases "report env now q :: ('a, 'b) conn_scheme conn_action option")
    case (Some f)
    have "served (sv_wf env) (sv_user env) c (snd (f c))"
    proof (cases "\<exists>h. q = QReportPBHeight h")
      case True
      then show ?thesis using Some by (auto intro: served_pb_height)
    next
      case False
      then show ?thesis using report_still [OF Some] by (intro stays_served) blast
    qed
    then show ?thesis using run by (simp add: serve_report [OF Some])
  next
    case None
    have reply: "served (sv_wf env) (sv_user env) c c1" if "x = (r, c1)" "served (sv_wf env) (sv_user env) c (snd x)" for x
      using that by simp
    show ?thesis
      using run query None
      by (cases q)
         (auto simp: served.same on_set_profile_def split: outcome.splits
           intro: served_on_report_context reply [OF _ stays_served [OF still_on_ping]] reply [OF _ served_minigame_map]
             reply [OF _ served_hat_equip] reply [OF _ served_on_map [OF still_send_hats(1)]]
             reply [OF _ served_on_map [OF still_send_hats(2)]] reply [OF _ stays_served [OF still_stats_handlers(10)]])
  qed
qed

lemma read_loop_served: "read_loop ops env msgs c = Ret c' \<Longrightarrow> served (sv_wf env) (sv_user env) c c'"
proof (induction ops env msgs c rule: read_loop.induct)
  case (4 ops env t q msgs c)
  then obtain r c1 where run: "serve ops env (rd_now t) (rd_inst t) (rd_new_id t) q c = Ret (r, c1)"
    by (auto split: outcome.splits)
  then show ?case using 4 by (auto intro: served.chain serve_served)
qed (auto intro: served.same)

section \<open>Requests that unwind the task\<close>

text \<open>A slice of the text at byte \<open>n\<close> would cut a character or pass the end.\<close>

definition cut_text :: "string \<Rightarrow> nat \<Rightarrow> bool" where
  "cut_text s n \<longleftrightarrow> \<not> is_char_boundary s n"

lemma parse_u64_str_cut: "parse_u64_str s = Panic \<longleftrightarrow> cut_text s 2"
  by (simp add: parse_u64_str_def slice_to_def slice_from_def cut_text_def)

lemma decode_map_hash_cut:
  "decode_map_hash hex h = Panic \<longleftrightarrow> \<not> (length h = 64 \<and> hex h \<noteq> None) \<and> cut_text h (min (length h) 32)"
  by (auto simp: decode_map_hash_def slice_to_def cut_text_def split: option.split)

text \<open>
  The hexadecimal flags are sliced after two bytes; a map hash that is not the 64 digits of a
  hash after 32.
\<close>

fun crashes :: "(string \<Rightarrow> string option) \<Rightarrow> request \<Rightarrow> bool" where
  "crashes hex (QGetFriendsLB friends) = True"
| "crashes hex (QSetMyProfile body) = (body \<noteq> JNull \<and> \<not> is_object body)"
| "crashes hex (QReportContext sf mi m i bi e) =
     (if cut_text sf 2 \<or> cut_text mi 2 then True
      else if parse_u64_str sf = Ret None \<or> parse_u64_str mi = Ret None then False
      else
        (case m of
           None \<Rightarrow> False
         | Some mp \<Rightarrow> \<not> (length (m_hash mp) = 64 \<and> hex (m_hash mp) \<noteq> None) \<and>
             cut_text (m_hash mp) (min (length (m_hash mp)) 32)))"
| "crashes hex q = False"

text \<open>The requests the loop gets to, if none unwinds it.\<close>

fun received :: "(reading \<times> (io_error + request option)) list \<Rightarrow> request list" where
  "received [] = []"
| "received ((t, Inl e) # msgs) = []"
| "received ((t, Inr None) # msgs) = received msgs"
| "received ((t, Inr (Some q)) # msgs) = q # received msgs"

lemma stamp_profile_panics: "stamp_profile env u n body = Panic \<longleftrightarrow> body \<noteq> JNull \<and> \<not> is_object body"
  by (cases body) (simp_all add: stamp_profile_def index_assign_def)

lemma update_context_panics:
  "update_context hex i t sf mi m vl bi e v c = Panic \<longleftrightarrow>
     (case m of None \<Rightarrow> False | Some mp \<Rightarrow> decode_map_hash hex (m_hash mp) = Panic)"
  by (auto simp: update_context_def get_or_insert_map_def Let_def split: option.splits prod.split sum.split outcome.splits)

lemma on_report_context_panics:
  "on_report_context env i sf mi m vl bi e c = Panic \<longleftrightarrow> crashes (sv_hex env) (QReportContext sf mi m vl bi e)"
proof (cases "cut_text sf 2 \<or> cut_text mi 2")
  case True
  then show ?thesis
    by (auto simp: on_report_context_def parse_u64_str_cut [symmetric] split: outcome.splits option.splits)
next
  case False
  then obtain a b where parsed: "parse_u64_str sf = Ret a" "parse_u64_str mi = Ret b"
    by (metis outcome.exhaust parse_u64_str_cut)
  have "on_report_context env i sf mi m vl bi e c = Panic \<longleftrightarrow>
      (case (a, b) of (Some x, Some y) \<Rightarrow> update_context (sv_hex env) i (sv_session env) x y m
         (case vl of None \<Rightarrow> False | Some b \<Rightarrow> b) bi e (cn_vars c) c = Panic | _ \<Rightarrow> False)"
    using parsed by (auto simp: on_report_context_def split: outcome.splits option.splits prod.splits sum.splits)
  then show ?thesis
    using False parsed by (auto simp: update_context_panics decode_map_hash_cut split: option.splits)
qed

lemma on_set_profile_panics: "on_set_profile env now body c = Panic \<longleftrightarrow> crashes (sv_hex env) (QSetMyProfile body)"
  using stamp_profile_panics [of "sv_wf env" "sv_user env" "sv_name env" body]
  by (cases "stamp_profile (sv_wf env) (sv_user env) (sv_name env) body") (simp_all add: on_set_profile_def)

lemma serve_panics: "serve ops env now inst i q c = Panic \<longleftrightarrow> crashes (sv_hex env) q"
  by (cases q) (simp_all add: on_report_context_panics on_set_profile_panics del: crashes.simps(2,3))

section \<open>Properties\<close>

text \<open>
  C8. Whatever a player sends, the read loop is a run of the steps of the presence model for that
  player: every request moves the tracked map, and announces hats, only as those steps do.
\<close>

theorem requests_are_presence_steps:
  assumes "read_loop ops env msgs c = Ret c'"
  shows "presence_reach (sv_wf env) (sv_user env) c c'"
  using read_loop_served [OF assms] by (simp add: served_def)

text \<open>
  C9. Players have no power over moderation: no sequence of requests changes who moderates a map,
  who is banned from it or hidden everywhere, the audit trail, the browser logins or the accounts.
\<close>

theorem players_cannot_moderate:
  assumes "read_loop ops env msgs c = Ret c'"
  shows "moderation_of c' = moderation_of c"
  using read_loop_served [OF assms] by (simp add: served_def unmoderated_def)

text \<open>
  C10. The read loop unwinds exactly when a request it gets to is one of three kinds: the
  leaderboard of friends, a profile that is neither an object nor null, or a context whose flags or
  map hash are cut inside a character; nothing in the tables or the caches matters.
\<close>

theorem read_loop_unwinds:
  "read_loop ops env msgs c = Panic \<longleftrightarrow> list_ex (crashes (sv_hex env)) (received msgs)"
proof (induction ops env msgs c rule: read_loop.induct)
  case (4 ops env t q msgs c)
  then show ?case
    using serve_panics [of ops env "rd_now t" "rd_inst t" "rd_new_id t" q c]
    by (cases "serve ops env (rd_now t) (rd_inst t) (rd_new_id t) q c") (auto split: prod.split)
qed simp_all

text \<open>A player who wears a hat asks who is on a map, pings, and leaves it.\<close>

definition sample_conn_env :: conn_env where
  "sample_conn_env = \<lparr>sv_lb = sample_lb_env, sv_donation = sample_donation_env, sv_hex = Some,
     sv_author = (\<lambda>_ _. Inl ''offline''), sv_configured = False, sv_fmt_bind = (\<lambda>_. []), sv_fmt_catalog = (\<lambda>_. []),
     sv_show_db = (\<lambda>_. []), sv_equip = \<lparr>he_per_user_interval = 1, he_global_window = 1, he_global_limit = 10\<rparr>,
     sv_user = 7, sv_name = ''ann'', sv_session = 5\<rparr>"

definition sample_conn :: "(uuid, nat) list_lru_cache conn" where
  "sample_conn = hat_session.extend (wf_world.extend (lb_db.extend (with_tables worn_db)
       \<lparr>mgr_queue = [], tracked_map = None, client_open = True, client_queue = [], comment_states = [], spawned = []\<rparr>)
       \<lparr>owed = [], validations = [], hats_answers = []\<rparr>)
     \<lparr>cn_vars = \<lparr>cv_ctx = None, cv_ctx_id = None, cv_previous = None\<rparr>, cn_context_map = None, cn_last_ping_map = None,
      cn_limiter = \<lparr>hr_attempts = (10, []), hr_global_started = 0, hr_global_count = 0\<rparr>,
      cn_lb_cache = default_cache 0, cn_live_cache = default_cache 0\<rparr>"

definition sample_requests :: "(reading \<times> (io_error + request option)) list" where
  "sample_requests =
     (let t = \<lparr>rd_now = 9, rd_inst = 9, rd_new_id = 1\<rparr>
      in [(t, Inr (Some QPing)), (t, Inr None), (t, Inr (Some (QGetHatsMine sample_map)))])"

definition conn_after :: "(uuid, nat) list_lru_cache conn" where
  "conn_after = (case read_loop list_lru sample_conn_env sample_requests sample_conn of Ret c \<Rightarrow> c | Panic \<Rightarrow> sample_conn)"

lemma conn_after_run: "read_loop list_lru sample_conn_env sample_requests sample_conn = Ret conn_after"
proof -
  have "read_loop list_lru sample_conn_env sample_requests sample_conn \<noteq> Panic"
    by (simp add: sample_requests_def Let_def serve_panics del: serve.simps split: outcome.split prod.split)
  then show ?thesis unfolding conn_after_def by (simp split: outcome.split)
qed

lemma sample_conn_ping:
  "on_ping sample_conn_env 9 9 sample_conn = (Inr (), sample_conn\<lparr>client_queue := [RPing]\<rparr>)"
  by (simp add: on_ping_def send_client_def sample_conn_def wf_world.defs hat_session.defs lb_db.defs)

lemma conn_after_tracks: "tracked_map conn_after = Some sample_map"
proof -
  have uid: "length sample_map = 27" "sample_map \<noteq> DD2_MAP_UID" by (simp_all add: sample_map_def DD2_MAP_UID_def)
  have set: "tracked_map (snd (set_wayfinder_map e u n m w)) = m" for e u n m and w :: "'z wf_world_scheme"
  proof (cases "tracked_map w = m")
    case False
    obtain es where "broadcast_hat_context_transition e u n (tracked_map w) m (w\<lparr>tracked_map := m\<rparr>) =
        (Inr (), w\<lparr>tracked_map := m, mgr_queue := es\<rparr>)"
      using broadcast_run [OF False, of e u n "w\<lparr>tracked_map := m\<rparr>"] by auto
    then show ?thesis using False by (simp add: set_wayfinder_map_def and_then_def)
  qed (simp add: set_wayfinder_map_def)
  have adopt: "tracked_map (snd (adopt_wayfinder_map e False t u n sample_map w)) = Some sample_map"
    for e t u n and w :: "'z wf_world_scheme"
    using uid set [of e u n "Some sample_map" w] by (simp add: adopt_wayfinder_map_def observe_map_for_comment_bind_def and_then_def)
  have mine: "tracked_map (snd (on_map sample_conn_env t sample_map (\<lambda>current. send_hats_mine e current sample_map u) c)) =
      Some sample_map" for t e u and c :: "(uuid, nat) list_lru_cache conn"
  proof (cases "adopt_wayfinder_map sample_env False t 7 ''ann'' sample_map c")
    case (Pair r c1)
    then have "tracked_map c1 = Some sample_map" using adopt [of sample_env t 7 "''ann''" c] by simp
    moreover have "tracked_map (snd (send_hats_mine e x sample_map u c1)) = tracked_map c1" for x
      by (metis staysD still_send_hats(1) still_def)
    ultimately show ?thesis
      using Pair by (auto simp: on_map_def adopt_wayfinder_map_or_tracked_def sample_conn_env_def sample_lb_env_def split: sum.split)
  qed
  have "read_loop list_lru sample_conn_env sample_requests sample_conn = Ret c' \<Longrightarrow> tracked_map c' = Some sample_map" for c'
    using mine [of 9 "sv_wf sample_conn_env" "sv_user sample_conn_env" "sample_conn\<lparr>client_queue := [RPing]\<rparr>"]
    by (auto simp: sample_requests_def Let_def sample_conn_ping split: prod.splits)
  then show ?thesis using conn_after_run by blast
qed

lemma sample_conn_untracked: "tracked_map sample_conn = None"
  by (simp add: sample_conn_def wf_world.defs hat_session.defs lb_db.defs)

theorem requests_are_presence_steps_witness:
  "presence_reach (sv_wf sample_conn_env) (sv_user sample_conn_env) sample_conn conn_after \<and>
   tracked_map sample_conn = None \<and> tracked_map conn_after = Some sample_map"
  using requests_are_presence_steps [OF conn_after_run] conn_after_tracks sample_conn_untracked by blast

theorem players_cannot_moderate_witness:
  "moderation_of conn_after = moderation_of sample_conn \<and> tracked_map conn_after = Some sample_map"
  using players_cannot_moderate [OF conn_after_run] conn_after_tracks by simp

end
