(* ===== verification/Verifiers.thy ===== *)
theory Verifiers
  imports Nadeo_Client
begin

text \<open>
  The two cached verifiers of \<open>src/nadeo.rs\<close>: \<open>CachedMapAuthorVerifier\<close>, which knows the authors of
  maps, and \<open>CachedOfficialRecordVerifier\<close>, which knows who has a record.  They are the same code over
  another key and value: an LRU cache whose entries expire, a gate per key that lets one caller at
  a time look the key up, admission windows, and a semaphore for the requests to Nadeo.

  Callers run concurrently.  A call is its place in the code between two awaits or two locks; the
  steps of all calls interleave, and a call can be dropped anywhere.
\<close>

section \<open>Configuration and state\<close>

record 'v cached =
  cd_value :: 'v
  cd_obtained :: nat

text \<open>What a verifier is built with; \<open>vc_what\<close> is how its messages name the lookup.\<close>

record 'v verifier_cfg =
  vc_positive :: "'v \<Rightarrow> bool"
  vc_positive_ttl :: nat
  vc_negative_ttl :: nat
  vc_admission :: admission_cfg
  vc_concurrency :: nat
  vc_what :: string

definition map_author_cfg :: "uuid option verifier_cfg" where
  "map_author_cfg =
     \<lparr>vc_positive = (\<lambda>v. v \<noteq> None), vc_positive_ttl = secs (15 * 60), vc_negative_ttl = secs 60,
      vc_admission = \<lparr>ac_window = secs 60, ac_global_limit = 64, ac_account_limit = 8\<rparr>,
      vc_concurrency = 8, vc_what = ''Nadeo map author''\<rparr>"

definition official_record_cfg :: "bool verifier_cfg" where
  "official_record_cfg =
     \<lparr>vc_positive = (\<lambda>v. v), vc_positive_ttl = secs (15 * 60), vc_negative_ttl = secs 90,
      vc_admission = \<lparr>ac_window = secs 60, ac_global_limit = 128, ac_account_limit = 16\<rparr>,
      vc_concurrency = 16, vc_what = ''Nadeo official-record''\<rparr>"

text \<open>
  The places of a call.  From \<open>AtGate\<close> on it holds a reference to its key's gate, from \<open>Inside\<close>
  on the gate's lock, and while \<open>Fetching\<close> a permit.
\<close>

datatype 'v place =
    Asked
  | Missed
  | AtGate nat
  | Inside nat
  | Unknown nat
  | Admitted nat
  | Fetching nat
  | Answered "string + 'v"

record ('k, 'v) call =
  cl_account :: uuid
  cl_key :: 'k
  cl_after :: "nat option"
  cl_place :: "'v place"

text \<open>\<open>vf_fetched\<close> is bookkeeping of the model: the answers of the backend that were stored.\<close>

record ('c, 'g, 'a, 'k, 'v) verifier =
  vf_now :: nat
  vf_entries :: 'c
  vf_gates :: 'g
  vf_next :: nat
  vf_admission :: "'a admission"
  vf_calls :: "('k, 'v) call list"
  vf_fetched :: "(nat \<times> 'k \<times> 'v) list"

record ('c, 'g, 'a, 'k, 'v) verifier_ops =
  vo_entries :: "('c, 'k, 'v cached) lru_ops"
  vo_gates :: "('g, 'k, nat) lru_ops"
  vo_accounts :: "('a, uuid, admission_window) lru_ops"

text \<open>\<open>with_config\<close>; each cache is created empty with the capacity.\<close>

definition verifier_new :: "nat \<Rightarrow> 'c \<Rightarrow> 'g \<Rightarrow> 'a \<Rightarrow> ('c, 'g, 'a, 'k, 'v) verifier" where
  "verifier_new now entries gates accounts =
     \<lparr>vf_now = now, vf_entries = entries, vf_gates = gates, vf_next = 0,
      vf_admission = admission_new now accounts, vf_calls = [], vf_fetched = []\<rparr>"

fun gate_of :: "'v place \<Rightarrow> nat option" where
  "gate_of (AtGate g) = Some g"
| "gate_of (Inside g) = Some g"
| "gate_of (Unknown g) = Some g"
| "gate_of (Admitted g) = Some g"
| "gate_of (Fetching g) = Some g"
| "gate_of _ = None"

fun locks :: "nat \<Rightarrow> 'v place \<Rightarrow> bool" where
  "locks g (Inside h) = (h = g)"
| "locks g (Unknown h) = (h = g)"
| "locks g (Admitted h) = (h = g)"
| "locks g (Fetching h) = (h = g)"
| "locks g _ = False"

fun fetching :: "'v place \<Rightarrow> bool" where
  "fetching (Fetching g) = True"
| "fetching _ = False"

section \<open>The operations\<close>

definition time_to_live :: "'v verifier_cfg \<Rightarrow> 'v \<Rightarrow> nat" where
  "time_to_live cfg v = (if vc_positive cfg v then vc_positive_ttl cfg else vc_negative_ttl cfg)"

text \<open>\<open>cached_author\<close>, and \<open>cached_record\<close> with \<open>negative_not_before\<close>.\<close>

definition cached_value ::
    "('c, 'g, 'a, 'k, 'v) verifier_ops \<Rightarrow> 'v verifier_cfg \<Rightarrow> 'k \<Rightarrow> nat option \<Rightarrow> ('c, 'g, 'a, 'k, 'v) verifier \<Rightarrow>
     'v option \<times> ('c, 'g, 'a, 'k, 'v) verifier" where
  "cached_value ops cfg key after s =
     (case lru_get (vo_entries ops) (vf_entries s) key of
        (None, es) \<Rightarrow> (None, s\<lparr>vf_entries := es\<rparr>)
      | (Some e, es) \<Rightarrow>
          if time_to_live cfg (cd_value e) \<le> vf_now s - cd_obtained e
          then (None, s\<lparr>vf_entries := lru_pop (vo_entries ops) es key\<rparr>)
          else if \<not> vc_positive cfg (cd_value e) \<and>
                  (case after of None \<Rightarrow> False | Some required \<Rightarrow> cd_obtained e < required)
          then (None, s\<lparr>vf_entries := es\<rparr>)
          else (Some (cd_value e), s\<lparr>vf_entries := es\<rparr>))"

definition gate_refs :: "nat \<Rightarrow> ('k, 'v) call list \<Rightarrow> nat" where
  "gate_refs g calls = 1 + length (filter (\<lambda>c. gate_of (cl_place c) = Some g) calls)"

definition new_gate ::
    "('c, 'g, 'a, 'k, 'v) verifier_ops \<Rightarrow> 'k \<Rightarrow> 'g \<Rightarrow> ('c, 'g, 'a, 'k, 'v) verifier \<Rightarrow>
     nat option \<times> ('c, 'g, 'a, 'k, 'v) verifier" where
  "new_gate ops key gates s =
     (Some (vf_next s), s\<lparr>vf_gates := lru_put (vo_gates ops) gates key (vf_next s), vf_next := vf_next s + 1\<rparr>)"

definition key_gate ::
    "('c, 'g, 'a, 'k, 'v) verifier_ops \<Rightarrow> 'k \<Rightarrow> ('c, 'g, 'a, 'k, 'v) verifier \<Rightarrow>
     nat option \<times> ('c, 'g, 'a, 'k, 'v) verifier" where
  "key_gate ops key s =
     (case lru_get (vo_gates ops) (vf_gates s) key of
        (Some g, gates) \<Rightarrow> (Some g, s\<lparr>vf_gates := gates\<rparr>)
      | (None, gates) \<Rightarrow>
          if lru_cap (vo_gates ops) gates \<le> lru_len (vo_gates ops) gates
          then
            (case List.find (\<lambda>(_, g). gate_refs g (vf_calls s) = 1) (lru_iter (vo_gates ops) gates) of
               None \<Rightarrow> (None, s\<lparr>vf_gates := gates\<rparr>)
             | Some (idle_key, _) \<Rightarrow> new_gate ops key (lru_pop (vo_gates ops) gates idle_key) s)
          else new_gate ops key gates s)"

definition store_fetched ::
    "('c, 'g, 'a, 'k, 'v) verifier_ops \<Rightarrow> 'k \<Rightarrow> 'v \<Rightarrow> ('c, 'g, 'a, 'k, 'v) verifier \<Rightarrow> ('c, 'g, 'a, 'k, 'v) verifier" where
  "store_fetched ops key v s =
     s\<lparr>vf_entries := lru_put (vo_entries ops) (vf_entries s) key \<lparr>cd_value = v, cd_obtained = vf_now s\<rparr>,
       vf_fetched := (vf_now s, key, v) # vf_fetched s\<rparr>"

text \<open>
  One move of a call, to its next place; a call that has to wait stays.  \<open>fetched\<close> is what the
  backend answers.  The semaphore is never closed.
\<close>

definition move ::
    "('c, 'g, 'a, 'k, 'v) verifier_ops \<Rightarrow> 'v verifier_cfg \<Rightarrow> string + 'v \<Rightarrow> ('k, 'v) call \<Rightarrow>
     ('c, 'g, 'a, 'k, 'v) verifier \<Rightarrow> 'v place \<times> ('c, 'g, 'a, 'k, 'v) verifier" where
  "move ops cfg fetched c s =
     (case cl_place c of
        Asked \<Rightarrow>
          (case cached_value ops cfg (cl_key c) (cl_after c) s of
             (Some v, s1) \<Rightarrow> (Answered (Inr v), s1)
           | (None, s1) \<Rightarrow> (Missed, s1))
      | Missed \<Rightarrow>
          (case key_gate ops (cl_key c) s of
             (None, s1) \<Rightarrow> (Answered (Inl (vc_what cfg @ '' single-flight capacity exceeded'')), s1)
           | (Some g, s1) \<Rightarrow> (AtGate g, s1))
      | AtGate g \<Rightarrow> (if list_ex (\<lambda>d. locks g (cl_place d)) (vf_calls s) then AtGate g else Inside g, s)
      | Inside g \<Rightarrow>
          (case cached_value ops cfg (cl_key c) (cl_after c) s of
             (Some v, s1) \<Rightarrow> (Answered (Inr v), s1)
           | (None, s1) \<Rightarrow> (Unknown g, s1))
      | Unknown g \<Rightarrow>
          (case admit_at (vo_accounts ops) (vc_admission cfg) (cl_account c) (vf_now s) (vf_admission s) of
             (ok, a) \<Rightarrow>
               (if ok then Admitted g else Answered (Inl (vc_what cfg @ '' lookup admission limit exceeded'')),
                s\<lparr>vf_admission := a\<rparr>))
      | Admitted g \<Rightarrow>
          (if length (filter (\<lambda>d. fetching (cl_place d)) (vf_calls s)) < vc_concurrency cfg
           then Fetching g else Admitted g, s)
      | Fetching g \<Rightarrow>
          (case fetched of
             Inl e \<Rightarrow> (Answered (Inl e), s)
           | Inr v \<Rightarrow> (Answered (Inr v), store_fetched ops (cl_key c) v s))
      | Answered r \<Rightarrow> (Answered r, s))"

text \<open>What the callers get: an unknown author is an error, a missing record is not.\<close>

definition author_answer :: "string + uuid option \<Rightarrow> string + uuid" where
  "author_answer r = bind_res r (\<lambda>v. case v of None \<Rightarrow> Inl ''Nadeo map author not found'' | Some u \<Rightarrow> Inr u)"

text \<open>
  \<open>has_recent_official_record\<close> over the lookups it makes, the \<open>i\<close>-th with the clock read before it;
  beside the answer, the times it slept.
\<close>

definition RECENT_RECORD_ATTEMPTS :: nat where "RECENT_RECORD_ATTEMPTS = 3"

fun recent_attempts :: "(nat \<Rightarrow> string + bool) \<Rightarrow> nat \<Rightarrow> nat \<Rightarrow> (string + bool) \<times> nat list" where
  "recent_attempts lookup i 0 = (Inr False, [])"
| "recent_attempts lookup i (Suc n) =
     (case lookup i of
        Inl e \<Rightarrow> (Inl e, [])
      | Inr True \<Rightarrow> (Inr True, [])
      | Inr False \<Rightarrow>
          if i + 1 < RECENT_RECORD_ATTEMPTS
          then let (r, slept) = recent_attempts lookup (i + 1) n in (r, millis (250 * 2 ^ i) # slept)
          else recent_attempts lookup (i + 1) n)"

definition has_recent_official_record :: "(nat \<Rightarrow> string + bool) \<Rightarrow> (string + bool) \<times> nat list" where
  "has_recent_official_record lookup = recent_attempts lookup 0 RECENT_RECORD_ATTEMPTS"

text \<open>A recheck that says yes heard yes, after noes only; it sleeps at most three quarters of a second.\<close>

lemma has_recent_official_record_iff:
  "fst (has_recent_official_record lookup) = Inr True \<longleftrightarrow>
     lookup 0 = Inr True \<or> lookup 0 = Inr False \<and> lookup 1 = Inr True \<or>
     lookup 0 = Inr False \<and> lookup 1 = Inr False \<and> lookup 2 = Inr True"
  by (auto simp: has_recent_official_record_def RECENT_RECORD_ATTEMPTS_def numeral_3_eq_3 numeral_2_eq_2
      split: sum.split bool.split prod.split)

lemma has_recent_official_record_sleeps: "sum_list (snd (has_recent_official_record lookup)) \<le> millis 750"
  by (auto simp: has_recent_official_record_def RECENT_RECORD_ATTEMPTS_def numeral_3_eq_3 numeral_2_eq_2 millis_def
      split: sum.split bool.split prod.split)

section \<open>Runs\<close>

inductive verifier_step ::
    "('c, 'g, 'a, 'k, 'v) verifier_ops \<Rightarrow> 'v verifier_cfg \<Rightarrow> ('c, 'g, 'a, 'k, 'v) verifier \<Rightarrow>
     ('c, 'g, 'a, 'k, 'v) verifier \<Rightarrow> bool" for ops cfg where
  tick: "verifier_step ops cfg s (s\<lparr>vf_now := vf_now s + t\<rparr>)"
| ask: "pred_option (\<lambda>t. t \<le> vf_now s) after \<Longrightarrow> verifier_step ops cfg s (s\<lparr>vf_calls := vf_calls s @
    [\<lparr>cl_account = account, cl_key = key, cl_after = after, cl_place = Asked\<rparr>]\<rparr>)"
| run: "vf_calls s = xs @ c # ys \<Longrightarrow> move ops cfg fetched c s = (p, s1) \<Longrightarrow>
    verifier_step ops cfg s (s1\<lparr>vf_calls := xs @ c\<lparr>cl_place := p\<rparr> # ys\<rparr>)"
| leave: "vf_calls s = xs @ c # ys \<Longrightarrow> verifier_step ops cfg s (s\<lparr>vf_calls := xs @ ys\<rparr>)"

inductive verifier_reach ::
    "('c, 'g, 'a, 'k, 'v) verifier_ops \<Rightarrow> 'v verifier_cfg \<Rightarrow> ('c, 'g, 'a, 'k, 'v) verifier \<Rightarrow>
     ('c, 'g, 'a, 'k, 'v) verifier \<Rightarrow> bool" for ops cfg s where
  here: "verifier_reach ops cfg s s"
| step: "verifier_reach ops cfg s s1 \<Longrightarrow> verifier_step ops cfg s1 s2 \<Longrightarrow> verifier_reach ops cfg s s2"

section \<open>The caches as maps\<close>

lemma lru_get_map:
  assumes "lru_contract ops ok" "ok c"
  shows "map_of (lru_iter ops (snd (lru_get ops c k))) = map_of (lru_iter ops c)"
  by (rule ext) (simp add: lru_get_iter [OF assms] map_of_without split: option.split)

lemma lru_pop_map:
  assumes "lru_contract ops ok" "ok c"
  shows "map_of (lru_iter ops (lru_pop ops c k)) = (map_of (lru_iter ops c))(k := None)"
  by (rule ext) (simp add: lru_pop_iter [OF assms] map_of_without)

lemma lru_put_map:
  assumes "lru_contract ops ok" "ok c" "length (lru_iter ops c) < lru_cap ops c"
  shows "map_of (lru_iter ops (lru_put ops c k v)) = (map_of (lru_iter ops c))(k \<mapsto> v)"
proof -
  have "length (lru_without k (lru_iter ops c)) < lru_cap ops c"
    using length_without [of k "lru_iter ops c"] assms(3) by simp
  then have "lru_iter ops (lru_put ops c k v) = (k, v) # lru_without k (lru_iter ops c)"
    by (simp add: lru_put_iter [OF assms(1,2)])
  then show ?thesis by (simp add: fun_eq_iff map_of_without)
qed

text \<open>An entry of a cache that was put into was there, or is the new one.\<close>

lemma lru_put_entry:
  assumes "lru_contract ops ok" "ok c" "map_of (lru_iter ops (lru_put ops c k v)) j = Some w"
  shows "(j = k \<and> w = v) \<or> map_of (lru_iter ops c) j = Some w"
proof -
  have "(j, w) \<in> set (lru_iter ops (lru_put ops c k v))" using assms(3) by (rule map_of_SomeD)
  then have "(j, w) \<in> set ((k, v) # lru_without k (lru_iter ops c))"
    unfolding lru_put_iter [OF assms(1,2)] by (rule in_set_takeD)
  then show ?thesis
    using lru_distinct [OF assms(1,2)] by (auto simp: lru_without_def)
qed

section \<open>One caller at a time\<close>

definition gate_map :: "('c, 'g, 'a, 'k, 'v) verifier_ops \<Rightarrow> ('c, 'g, 'a, 'k, 'v) verifier \<Rightarrow> 'k \<Rightarrow> nat option" where
  "gate_map ops s = map_of (lru_iter (vo_gates ops) (vf_gates s))"

definition gates_inv ::
    "('g \<Rightarrow> bool) \<Rightarrow> ('c, 'g, 'a, 'k, 'v) verifier_ops \<Rightarrow> ('c, 'g, 'a, 'k, 'v) verifier \<Rightarrow> bool" where
  "gates_inv ok ops s \<longleftrightarrow>
     ok (vf_gates s) \<and>
     (\<forall>k g. gate_map ops s k = Some g \<longrightarrow> g < vf_next s) \<and>
     (\<forall>k j g. gate_map ops s k = Some g \<and> gate_map ops s j = Some g \<longrightarrow> k = j)"

definition referred :: "('c, 'g, 'a, 'k, 'v) verifier_ops \<Rightarrow> ('c, 'g, 'a, 'k, 'v) verifier \<Rightarrow> ('k, 'v) call \<Rightarrow> bool" where
  "referred ops s c \<longleftrightarrow> (\<forall>g. gate_of (cl_place c) = Some g \<longrightarrow> gate_map ops s (cl_key c) = Some g)"

lemma gate_refs_idle: "gate_refs g calls = 1 \<Longrightarrow> c \<in> set calls \<Longrightarrow> gate_of (cl_place c) \<noteq> Some g"
  by (auto simp: gate_refs_def filter_empty_conv)

lemma new_gate_inv:
  assumes c: "lru_contract (vo_gates ops) ok" and g: "ok gates" "length (lru_iter (vo_gates ops) gates) < lru_cap (vo_gates ops) gates"
    and inv: "\<And>k g. map_of (lru_iter (vo_gates ops) gates) k = Some g \<Longrightarrow> g < vf_next s"
      "\<And>k j g. map_of (lru_iter (vo_gates ops) gates) k = Some g \<Longrightarrow> map_of (lru_iter (vo_gates ops) gates) j = Some g \<Longrightarrow> k = j"
    and new: "new_gate ops key gates s = (r, s1)"
  shows "gates_inv ok ops s1 \<and> gate_map ops s1 = (map_of (lru_iter (vo_gates ops) gates))(key \<mapsto> vf_next s) \<and>
    r = Some (vf_next s) \<and> vf_calls s1 = vf_calls s"
proof -
  have s1: "s1 = s\<lparr>vf_gates := lru_put (vo_gates ops) gates key (vf_next s), vf_next := vf_next s + 1\<rparr>"
    and r: "r = Some (vf_next s)" using new by (auto simp: new_gate_def)
  have map: "gate_map ops s1 = (map_of (lru_iter (vo_gates ops) gates))(key \<mapsto> vf_next s)"
    by (simp add: s1 gate_map_def lru_put_map [OF c g])
  have fields: "ok (vf_gates s1)" "vf_next s1 = vf_next s + 1" "vf_calls s1 = vf_calls s"
    using lru_put_ok [OF c g(1)] by (simp_all add: s1)
  have "g < vf_next s1" if "gate_map ops s1 k = Some g" for k g
    using that inv(1) [of k g] by (auto simp: map fields(2) split: if_splits)
  moreover have "k = j" if "gate_map ops s1 k = Some g" "gate_map ops s1 j = Some g" for k j g
    using that inv(1) inv(2) by (auto simp: map split: if_splits)
  ultimately show ?thesis
    unfolding gates_inv_def using map r fields(1,3) by blast
qed

lemma key_gate_inv:
  assumes c: "lru_contract (vo_gates ops) ok" and inv: "gates_inv ok ops s"
    and refs: "\<forall>d\<in>set (vf_calls s). referred ops s d" and run: "key_gate ops key s = (r, s1)"
  shows "gates_inv ok ops s1 \<and> vf_calls s1 = vf_calls s \<and> (\<forall>d\<in>set (vf_calls s). referred ops s1 d) \<and>
    (\<forall>g. r = Some g \<longrightarrow> gate_map ops s1 key = Some g)"
proof -
  let ?o = "vo_gates ops"
  obtain found gates where get: "lru_get ?o (vf_gates s) key = (found, gates)" by fastforce
  have ok: "ok (vf_gates s)" using inv by (simp add: gates_inv_def)
  have gates: "ok gates" "map_of (lru_iter ?o gates) = gate_map ops s" "found = gate_map ops s key"
    using lru_get_ok [OF c ok, of key] lru_get_map [OF c ok, of key] lru_get_val [OF c ok, of key] get
    by (simp_all add: gate_map_def)
  have kept: "g < vf_next s" "gate_map ops s j = Some g \<Longrightarrow> k = j" if "gate_map ops s k = Some g" for k j g
    using inv that by (auto simp: gates_inv_def)
  show ?thesis
  proof (cases found)
    case (Some g)
    then have s1: "s1 = s\<lparr>vf_gates := gates\<rparr>" "r = Some g" using run get by (simp_all add: key_gate_def)
    then have "gate_map ops s1 = gate_map ops s" using gates(2) by (simp add: gate_map_def)
    then show ?thesis
      using s1 inv refs gates Some by (auto simp: gates_inv_def referred_def)
  next
    case None
    show ?thesis
    proof (cases "length (lru_iter ?o gates) < lru_cap ?o gates")
      case True
      then have new: "new_gate ops key gates s = (r, s1)"
        using run get None by (simp add: key_gate_def lru_len_def)
      have "gates_inv ok ops s1 \<and> gate_map ops s1 = (gate_map ops s)(key \<mapsto> vf_next s) \<and> r = Some (vf_next s) \<and>
          vf_calls s1 = vf_calls s"
        using new_gate_inv [OF c gates(1) True _ _ new] kept unfolding gates(2) by blast
      then show ?thesis using refs None gates(3) by (auto simp: referred_def)
    next
      case full: False
      show ?thesis
      proof (cases "List.find (\<lambda>(_, g). gate_refs g (vf_calls s) = 1) (lru_iter ?o gates)")
        case busy: None
        then have "s1 = s\<lparr>vf_gates := gates\<rparr>" "r = None"
          using run get None full by (simp_all add: key_gate_def lru_len_def)
        then show ?thesis using inv refs gates by (auto simp: gates_inv_def referred_def gate_map_def)
      next
        case (Some p)
        obtain idle h where p: "p = (idle, h)" by fastforce
        have h: "gate_refs h (vf_calls s) = 1" "(idle, h) \<in> set (lru_iter ?o gates)"
          using find_Some_in [OF Some] p by auto
        then have h': "gate_map ops s idle = Some h"
          using lru_distinct [OF c gates(1)] gates(2) by (metis map_of_eq_Some_iff)
        have pop: "ok (lru_pop ?o gates idle)"
            "map_of (lru_iter ?o (lru_pop ?o gates idle)) = (gate_map ops s)(idle := None)"
          using lru_pop_ok [OF c gates(1)] lru_pop_map [OF c gates(1)] gates(2) by simp_all
        have "length (lru_iter ?o (lru_pop ?o gates idle)) < length (lru_iter ?o gates)"
          unfolding lru_pop_iter [OF c gates(1)] using length_without_present h' gates(2) by metis
        then have room: "length (lru_iter ?o (lru_pop ?o gates idle)) < lru_cap ?o (lru_pop ?o gates idle)"
          using lru_len_le [OF c gates(1)] lru_pop_cap [OF c gates(1)] by simp
        have new: "new_gate ops key (lru_pop ?o gates idle) s = (r, s1)"
          using run get None full Some p by (simp add: key_gate_def lru_len_def)
        have s1: "gates_inv ok ops s1 \<and> gate_map ops s1 = ((gate_map ops s)(idle := None))(key \<mapsto> vf_next s) \<and>
            r = Some (vf_next s) \<and> vf_calls s1 = vf_calls s"
          unfolding pop(2) [symmetric]
        proof (rule new_gate_inv [OF c pop(1) room _ _ new])
          fix k j g
          assume k: "map_of (lru_iter ?o (lru_pop ?o gates idle)) k = Some g"
          then have k': "gate_map ops s k = Some g" by (auto simp: pop(2) split: if_splits)
          then show "g < vf_next s" by (rule kept(1))
          assume "map_of (lru_iter ?o (lru_pop ?o gates idle)) j = Some g"
          then have "gate_map ops s j = Some g" by (auto simp: pop(2) split: if_splits)
          then show "k = j" using kept(2) k' by blast
        qed
        have "referred ops s1 d" if d: "d \<in> set (vf_calls s)" for d
        proof -
          have "gate_of (cl_place d) \<noteq> Some h" using gate_refs_idle [OF h(1) d] .
          moreover have "gate_map ops s (cl_key d) = Some g" if "gate_of (cl_place d) = Some g" for g
            using refs d that by (simp add: referred_def)
          ultimately show ?thesis
            using s1 h' None gates(3) by (cases "gate_of (cl_place d)") (auto simp: referred_def)
        qed
        then show ?thesis using s1 by simp
      qed
    qed
  qed
qed

lemma cached_value_frame:
  "cached_value ops cfg key after s = (r, s1) \<Longrightarrow>
     \<exists>es. s1 = s\<lparr>vf_entries := es\<rparr>"
  by (auto simp: cached_value_def split: prod.splits option.splits if_splits)

text \<open>A move, seen from outside the caches.\<close>

lemma key_gate_frame: "key_gate ops k s = (r, s1) \<Longrightarrow> \<exists>gates n. s1 = s\<lparr>vf_gates := gates, vf_next := n\<rparr>"
  by (auto simp: key_gate_def new_gate_def split: prod.splits option.splits if_splits)
     (metis verifier.surjective verifier.update_convs(3,4))+

lemma move_frame:
  assumes "move ops cfg fetched c s = (p, s1)"
  shows "vf_calls s1 = vf_calls s \<and> vf_now s1 = vf_now s"
proof (cases c)
  case (fields account key after place)
  then show ?thesis
    using assms by (cases place)
      (auto simp: move_def store_fetched_def split: prod.splits option.splits sum.splits if_splits
        dest!: cached_value_frame key_gate_frame)
qed

lemma move_same_gates:
  assumes "move ops cfg fetched c s = (p, s1)" "cl_place c \<noteq> Missed"
  shows "vf_gates s1 = vf_gates s \<and> vf_next s1 = vf_next s"
proof (cases c)
  case (fields account key after place)
  then show ?thesis
    using assms by (cases place)
      (auto simp: move_def store_fetched_def split: prod.splits option.splits sum.splits if_splits
        dest!: cached_value_frame)
qed

lemma move_gate_of:
  assumes "move ops cfg fetched c s = (p, s1)" "cl_place c \<noteq> Missed"
  shows "gate_of p = None \<or> gate_of p = gate_of (cl_place c)"
proof (cases c)
  case (fields account key after place)
  then show ?thesis
    using assms by (cases place) (auto simp: move_def split: prod.splits option.splits sum.splits if_splits)
qed

lemma move_gates:
  assumes c: "lru_contract (vo_gates ops) ok" and inv: "gates_inv ok ops s"
    and refs: "\<forall>d\<in>set (vf_calls s). referred ops s d" and mem: "c \<in> set (vf_calls s)"
    and run: "move ops cfg fetched c s = (p, s1)"
  shows "gates_inv ok ops s1 \<and> (\<forall>d\<in>set (vf_calls s). referred ops s1 d) \<and> referred ops s1 (c\<lparr>cl_place := p\<rparr>)"
proof (cases "cl_place c = Missed")
  case True
  then show ?thesis
    using run key_gate_inv [OF c inv refs]
    by (auto simp: move_def split: prod.splits option.splits) (auto simp: referred_def)
next
  case False
  have same: "vf_gates s1 = vf_gates s" "vf_next s1 = vf_next s"
    using move_same_gates [OF run False] by simp_all
  then have map: "gate_map ops s1 = gate_map ops s" by (simp add: gate_map_def)
  from move_gate_of [OF run False] have "referred ops s1 (c\<lparr>cl_place := p\<rparr>)"
    using refs mem by (auto simp: referred_def map)
  then show ?thesis using inv refs same map by (auto simp: gates_inv_def referred_def)
qed

lemma move_locks:
  assumes "move ops cfg fetched c s = (p, s1)" "locks g p"
  shows "locks g (cl_place c) \<or> (\<forall>d\<in>set (vf_calls s). \<not> locks g (cl_place d))"
proof (cases c)
  case (fields account key after place)
  then show ?thesis
    using assms by (cases place) (auto simp: move_def list_ex_iff split: prod.splits option.splits sum.splits if_splits)
qed

lemma move_fetching:
  assumes "move ops cfg fetched c s = (p, s1)" "fetching p"
  shows "fetching (cl_place c) \<or> length (filter (\<lambda>d. fetching (cl_place d)) (vf_calls s)) < vc_concurrency cfg"
proof (cases c)
  case (fields account key after place)
  then show ?thesis
    using assms by (cases place) (auto simp: move_def split: prod.splits option.splits sum.splits if_splits)
qed

definition flights_inv ::
    "('g \<Rightarrow> bool) \<Rightarrow> ('c, 'g, 'a, 'k, 'v) verifier_ops \<Rightarrow> 'v verifier_cfg \<Rightarrow> ('c, 'g, 'a, 'k, 'v) verifier \<Rightarrow> bool" where
  "flights_inv ok ops cfg s \<longleftrightarrow>
     gates_inv ok ops s \<and> (\<forall>c\<in>set (vf_calls s). referred ops s c) \<and>
     (\<forall>g. length (filter (\<lambda>c. locks g (cl_place c)) (vf_calls s)) \<le> 1) \<and>
     length (filter (\<lambda>c. fetching (cl_place c)) (vf_calls s)) \<le> vc_concurrency cfg"

lemma filter_replaced:
  assumes "length (filter P (xs @ c # ys)) \<le> n" "P c' \<Longrightarrow> P c \<or> length (filter P (xs @ c # ys)) < n"
  shows "length (filter P (xs @ c' # ys)) \<le> n"
  using assms by (cases "P c'"; cases "P c") auto

lemma filter_implied: "(\<And>x. x \<in> set xs \<Longrightarrow> P x \<Longrightarrow> Q x) \<Longrightarrow> length (filter P xs) \<le> length (filter Q xs)"
  by (induction xs) (auto simp: le_Suc_eq)

lemma run_flights:
  assumes c: "lru_contract (vo_gates ops) ok" and inv: "flights_inv ok ops cfg s"
    and calls: "vf_calls s = xs @ c # ys" and run: "move ops cfg fetched c s = (p, s1)"
  shows "flights_inv ok ops cfg (s1\<lparr>vf_calls := xs @ c\<lparr>cl_place := p\<rparr> # ys\<rparr>)"
proof -
  let ?s2 = "s1\<lparr>vf_calls := xs @ c\<lparr>cl_place := p\<rparr> # ys\<rparr>"
  have gates: "gates_inv ok ops s1" "\<forall>d\<in>set (vf_calls s). referred ops s1 d" "referred ops s1 (c\<lparr>cl_place := p\<rparr>)"
    using move_gates [OF c _ _ _ run] inv calls by (auto simp: flights_inv_def)
  have "gates_inv ok ops ?s2" using gates(1) by (simp add: gates_inv_def gate_map_def)
  moreover have "\<forall>d\<in>set (vf_calls ?s2). referred ops ?s2 d"
    using gates(2,3) calls by (auto simp: referred_def gate_map_def)
  moreover have "length (filter (\<lambda>c. locks g (cl_place c)) (vf_calls ?s2)) \<le> 1" for g
  proof -
    let ?P = "\<lambda>c. locks g (cl_place c)"
    have "length (filter ?P (xs @ c # ys)) \<le> 1"
      using inv unfolding flights_inv_def calls by blast
    moreover have "?P c \<or> length (filter ?P (xs @ c # ys)) < 1" if "?P (c\<lparr>cl_place := p\<rparr>)"
      using move_locks [OF run, of g] that
      unfolding calls less_one length_0_conv filter_empty_conv by simp
    ultimately have "length (filter ?P (xs @ c\<lparr>cl_place := p\<rparr> # ys)) \<le> 1"
      by (rule filter_replaced)
    then show ?thesis by simp
  qed
  moreover have "length (filter (\<lambda>c. fetching (cl_place c)) (xs @ c\<lparr>cl_place := p\<rparr> # ys)) \<le> vc_concurrency cfg"
  proof (rule filter_replaced)
    show "length (filter (\<lambda>c. fetching (cl_place c)) (xs @ c # ys)) \<le> vc_concurrency cfg"
      using inv unfolding flights_inv_def calls by blast
    show "fetching (cl_place c) \<or> length (filter (\<lambda>c. fetching (cl_place c)) (xs @ c # ys)) < vc_concurrency cfg"
      if "fetching (cl_place (c\<lparr>cl_place := p\<rparr>))"
      using move_fetching [OF run] that unfolding calls by simp
  qed
  ultimately show ?thesis by (simp add: flights_inv_def)
qed

lemma step_flights:
  assumes c: "lru_contract (vo_gates ops) ok"
  shows "verifier_step ops cfg s s' \<Longrightarrow> flights_inv ok ops cfg s \<Longrightarrow> flights_inv ok ops cfg s'"
proof (induction rule: verifier_step.induct)
  case (run s xs d ys fetched p s1)
  then show ?case using run_flights [OF c] by blast
next
  case (leave s xs d ys)
  have "length (filter P (xs @ ys)) \<le> length (filter P (xs @ d # ys))" for P by simp
  then have "length (filter P (xs @ ys)) \<le> n" if "length (filter P (vf_calls s)) \<le> n" for P n
    using that leave(1) by (metis order_trans)
  then show ?case
    using leave by (auto simp: flights_inv_def gates_inv_def referred_def gate_map_def)
qed (auto simp: flights_inv_def gates_inv_def referred_def gate_map_def)

lemma reach_flights:
  assumes "lru_contract (vo_gates ops) ok" "verifier_reach ops cfg s s'" "flights_inv ok ops cfg s"
  shows "flights_inv ok ops cfg s'"
  using assms(2,3) by (induction rule: verifier_reach.induct) (auto intro: step_flights [OF assms(1)])

text \<open>Between the second look at the cache and the answer.\<close>

definition in_section :: "'v place \<Rightarrow> bool" where
  "in_section p \<longleftrightarrow> (case gate_of p of None \<Rightarrow> False | Some g \<Rightarrow> locks g p)"

lemma in_section_locks: "in_section p \<Longrightarrow> \<exists>g. gate_of p = Some g \<and> locks g p"
  by (simp add: in_section_def split: option.splits)

text \<open>
  C22. One flight per key: however the calls interleave and whichever are dropped, at most one call
  for a key is past its gate, so at most one asks the backend for it, also when gates of other keys
  are thrown out of the full cache of gates; and no more requests than the semaphore allows are
  in flight.
\<close>

theorem one_flight_per_key:
  assumes lru: "lru_contract (vo_gates ops) ok" "ok gates" "lru_iter (vo_gates ops) gates = []"
    and reach: "verifier_reach ops cfg (verifier_new now entries gates accounts) s"
  shows "length (filter (\<lambda>c. cl_key c = k \<and> in_section (cl_place c)) (vf_calls s)) \<le> 1 \<and>
    length (filter (\<lambda>c. cl_key c = k \<and> fetching (cl_place c)) (vf_calls s)) \<le> 1 \<and>
    length (filter (\<lambda>c. fetching (cl_place c)) (vf_calls s)) \<le> vc_concurrency cfg"
proof -
  have "flights_inv ok ops cfg (verifier_new now entries gates accounts)"
    using lru(2,3) by (simp add: flights_inv_def gates_inv_def gate_map_def verifier_new_def)
  then have inv: "flights_inv ok ops cfg s" by (rule reach_flights [OF lru(1) reach])
  have key: "gate_map ops s (cl_key c) = Some g" if "c \<in> set (vf_calls s)" "gate_of (cl_place c) = Some g" for c g
    using inv that by (auto simp: flights_inv_def referred_def)
  have one: "length (filter (\<lambda>c. cl_key c = k \<and> in_section (cl_place c)) (vf_calls s)) \<le> 1"
  proof (cases "gate_map ops s k")
    case None
    then have "filter (\<lambda>c. cl_key c = k \<and> in_section (cl_place c)) (vf_calls s) = []"
      using key in_section_locks unfolding filter_empty_conv by fastforce
    then show ?thesis by simp
  next
    case (Some g)
    have "length (filter (\<lambda>c. cl_key c = k \<and> in_section (cl_place c)) (vf_calls s)) \<le>
        length (filter (\<lambda>c. locks g (cl_place c)) (vf_calls s))"
      using key Some in_section_locks by (intro filter_implied) fastforce
    then show ?thesis using inv unfolding flights_inv_def by (meson order_trans)
  qed
  have "length (filter (\<lambda>c. cl_key c = k \<and> fetching (cl_place c)) (vf_calls s)) \<le>
      length (filter (\<lambda>c. cl_key c = k \<and> in_section (cl_place c)) (vf_calls s))"
    by (rule filter_implied) (auto simp: in_section_def elim: fetching.elims)
  then have "length (filter (\<lambda>c. cl_key c = k \<and> fetching (cl_place c)) (vf_calls s)) \<le> 1"
    using one by simp
  then show ?thesis using one inv by (simp add: flights_inv_def)
qed

section \<open>How old an answer can be\<close>

definition entries_inv ::
    "('c \<Rightarrow> bool) \<Rightarrow> ('c, 'g, 'a, 'k, 'v) verifier_ops \<Rightarrow> ('c, 'g, 'a, 'k, 'v) verifier \<Rightarrow> bool" where
  "entries_inv ok ops s \<longleftrightarrow>
     ok (vf_entries s) \<and>
     (\<forall>k e. map_of (lru_iter (vo_entries ops) (vf_entries s)) k = Some e \<longrightarrow>
        (cd_obtained e, k, cd_value e) \<in> set (vf_fetched s)) \<and>
     (\<forall>c\<in>set (vf_calls s). pred_option (\<lambda>t. t \<le> vf_now s) (cl_after c))"

text \<open>An answer from the cache was fetched within its time to live, a negative one also after \<open>after\<close>.\<close>

definition fresh_answer :: "'v verifier_cfg \<Rightarrow> nat \<Rightarrow> (nat \<times> 'k \<times> 'v) list \<Rightarrow> 'k \<Rightarrow> nat option \<Rightarrow> 'v \<Rightarrow> bool" where
  "fresh_answer cfg now fetched k after v \<longleftrightarrow>
     (\<exists>t. (t, k, v) \<in> set fetched \<and> (t = now \<or> now - t < time_to_live cfg v) \<and>
        (vc_positive cfg v \<or> pred_option (\<lambda>required. required \<le> t) after))"

lemma cached_value_fresh:
  assumes c: "lru_contract (vo_entries ops) ok" and inv: "entries_inv ok ops s"
    and run: "cached_value ops cfg key after s = (r, s1)"
  shows "entries_inv ok ops s1 \<and> vf_fetched s1 = vf_fetched s \<and>
    (\<forall>v. r = Some v \<longrightarrow> fresh_answer cfg (vf_now s) (vf_fetched s) key after v)"
proof -
  let ?o = "vo_entries ops"
  obtain found es where get: "lru_get ?o (vf_entries s) key = (found, es)" by fastforce
  have ok: "ok (vf_entries s)" using inv by (simp add: entries_inv_def)
  have es: "ok es" "map_of (lru_iter ?o es) = map_of (lru_iter ?o (vf_entries s))"
      "found = map_of (lru_iter ?o (vf_entries s)) key"
    using lru_get_ok [OF c ok, of key] lru_get_map [OF c ok, of key] lru_get_val [OF c ok, of key] get by simp_all
  obtain es1 where s1: "s1 = s\<lparr>vf_entries := es1\<rparr>" "es1 = es \<or> es1 = lru_pop ?o es key"
    using run get by (auto simp: cached_value_def split: option.splits if_splits)
  have "entries_inv ok ops s1"
    using inv es(1,2) s1 lru_pop_ok [OF c es(1)] lru_pop_map [OF c es(1)]
    by (auto simp: entries_inv_def split: if_splits)
  moreover have "fresh_answer cfg (vf_now s) (vf_fetched s) key after v" if v: "r = Some v" for v
  proof -
    obtain e where e: "found = Some e" "v = cd_value e" "vf_now s - cd_obtained e < time_to_live cfg v"
        "vc_positive cfg v \<or> pred_option (\<lambda>required. required \<le> cd_obtained e) after"
      using run get v by (auto simp: cached_value_def not_le split: option.splits if_splits)
    then have "(cd_obtained e, key, v) \<in> set (vf_fetched s)"
      using inv es(3) by (auto simp: entries_inv_def)
    then show ?thesis using e by (auto simp: fresh_answer_def)
  qed
  ultimately show ?thesis using s1(1) by simp
qed

lemma move_fresh:
  assumes lru: "lru_contract (vo_entries ops) ok" and inv: "entries_inv ok ops s"
    and mem: "c \<in> set (vf_calls s)" and run: "move ops cfg fetched c s = (p, s1)"
  shows "entries_inv ok ops s1 \<and>
    (\<forall>v. p = Answered (Inr v) \<and> cl_place c \<noteq> p \<longrightarrow> fresh_answer cfg (vf_now s) (vf_fetched s1) (cl_key c) (cl_after c) v)"
proof (cases "\<exists>g v. cl_place c = Fetching g \<and> fetched = Inr v")
  case True
  then obtain g v where g: "cl_place c = Fetching g" "fetched = Inr v" by blast
  then have s1: "s1 = store_fetched ops (cl_key c) v s" "p = Answered (Inr v)" using run by (simp_all add: move_def)
  have ok: "ok (vf_entries s)" using inv by (simp add: entries_inv_def)
  have "entries_inv ok ops s1"
    using inv lru_put_ok [OF lru ok] lru_put_entry [OF lru ok]
    by (fastforce simp: s1 store_fetched_def entries_inv_def)
  moreover have "pred_option (\<lambda>required. required \<le> vf_now s) (cl_after c)"
    using inv mem by (simp add: entries_inv_def)
  ultimately show ?thesis
    by (auto simp: s1 store_fetched_def fresh_answer_def)
next
  case other: False
  show ?thesis
  proof (cases "(\<exists>g. cl_place c = Inside g) \<or> cl_place c = Asked")
    case True
    obtain r s2 where probe: "cached_value ops cfg (cl_key c) (cl_after c) s = (r, s2)" by fastforce
    then have "s2 = s1" "\<And>v. p = Answered (Inr v) \<Longrightarrow> r = Some v"
      using True run by (auto simp: move_def split: option.splits)
    then show ?thesis using cached_value_fresh [OF lru inv probe] by auto
  next
    case False
    have "entries_inv ok ops s1 \<and> (p = cl_place c \<or> (\<forall>v. p \<noteq> Answered (Inr v)))"
    proof (cases c)
      case (fields account key after place)
      then show ?thesis
        using run inv other False
        by (cases place)
           (auto simp: move_def entries_inv_def split: prod.splits option.splits sum.splits if_splits dest!: key_gate_frame)
    qed
    then show ?thesis by auto
  qed
qed

lemma step_entries:
  assumes lru: "lru_contract (vo_entries ops) ok"
  shows "verifier_step ops cfg s s' \<Longrightarrow> entries_inv ok ops s \<Longrightarrow> entries_inv ok ops s'"
proof (induction rule: verifier_step.induct)
  case (tick s t)
  then show ?case by (auto simp: entries_inv_def option.pred_set)
next
  case (ask s after account key)
  then show ?case by (auto simp: entries_inv_def)
next
  case (run s xs c ys fetched p s1)
  then have "entries_inv ok ops s1" "vf_calls s1 = xs @ c # ys" "vf_now s1 = vf_now s"
    using move_fresh [OF lru run(3) _ run(2)] move_frame [OF run(2)] by simp_all
  then show ?case by (auto simp: entries_inv_def)
next
  case (leave s xs c ys)
  then show ?case by (auto simp: entries_inv_def)
qed

lemma reach_entries:
  assumes "lru_contract (vo_entries ops) ok" "verifier_reach ops cfg s s'" "entries_inv ok ops s"
  shows "entries_inv ok ops s'"
  using assms(2,3) by (induction rule: verifier_reach.induct) (auto intro: step_entries [OF assms(1)])

lemma errors_not_cached:
  assumes "move ops cfg fetched c s = (Answered (Inl e), s1)"
  shows "vf_fetched s1 = vf_fetched s"
proof (cases c)
  case (fields account key after place)
  then show ?thesis
    using assms by (cases place)
      (auto simp: move_def split: prod.splits option.splits sum.splits if_splits dest!: key_gate_frame cached_value_frame)
qed

text \<open>
  C23. A verifier answers what Nadeo answered: the value a call gets was fetched for its key at that
  moment or within the time to live of values of its kind; a recheck gets no negative value from
  before it asked; and an answer that is an error leaves nothing in the cache.
\<close>

theorem verifier_answers_fresh:
  assumes lru: "lru_contract (vo_entries ops) ok" "ok entries" "lru_iter (vo_entries ops) entries = []"
    and reach: "verifier_reach ops cfg (verifier_new now entries gates accounts) s"
    and call: "c \<in> set (vf_calls s)" "\<nexists>r. cl_place c = Answered r"
    and answer: "move ops cfg fetched c s = (Answered r, s1)"
  shows "case r of Inr v \<Rightarrow> fresh_answer cfg (vf_now s) (vf_fetched s1) (cl_key c) (cl_after c) v
    | Inl _ \<Rightarrow> vf_fetched s1 = vf_fetched s"
proof -
  have "entries_inv ok ops (verifier_new now entries gates accounts)"
    using lru(2,3) by (simp add: entries_inv_def verifier_new_def)
  then have "entries_inv ok ops s" by (rule reach_entries [OF lru(1) reach])
  then show ?thesis
    using move_fresh [OF lru(1) _ call(1) answer] call(2) answer
    by (cases r) (auto dest: errors_not_cached)
qed

section \<open>A run of two calls\<close>

definition sample_ops :: "((string, uuid option cached) list_lru_cache, (string, nat) list_lru_cache,
    (uuid, admission_window) list_lru_cache, string, uuid option) verifier_ops" where
  "sample_ops = \<lparr>vo_entries = list_lru, vo_gates = list_lru, vo_accounts = list_lru\<rparr>"

definition sample_cfg :: "uuid option verifier_cfg" where
  "sample_cfg =
     \<lparr>vc_positive = (\<lambda>v. v \<noteq> None), vc_positive_ttl = 9, vc_negative_ttl = 4,
      vc_admission = \<lparr>ac_window = 5, ac_global_limit = 3, ac_account_limit = 2\<rparr>,
      vc_concurrency = 2, vc_what = ''Nadeo map author''\<rparr>"

type_synonym sample_state = "((string, uuid option cached) list_lru_cache, (string, nat) list_lru_cache,
    (uuid, admission_window) list_lru_cache, string, uuid option) verifier"

definition advance :: "nat \<Rightarrow> string + uuid option \<Rightarrow> sample_state \<Rightarrow> sample_state" where
  "advance i fetched s =
     (case move sample_ops sample_cfg fetched (vf_calls s ! i) s of
        (p, s1) \<Rightarrow> s1\<lparr>vf_calls := (vf_calls s)[i := (vf_calls s ! i)\<lparr>cl_place := p\<rparr>]\<rparr>)"

definition asks :: "uuid \<Rightarrow> sample_state \<Rightarrow> sample_state" where
  "asks account s = s\<lparr>vf_calls := vf_calls s @
     [\<lparr>cl_account = account, cl_key = ''m'', cl_after = None, cl_place = Asked\<rparr>]\<rparr>"

definition sample_new :: sample_state where
  "sample_new = verifier_new 0 (2, []) (2, []) (2, [])"

fun drive :: "(nat \<times> (string + uuid option)) list \<Rightarrow> sample_state \<Rightarrow> sample_state" where
  "drive [] s = s"
| "drive ((i, fetched) # moves) s = drive moves (advance i fetched s)"

text \<open>Both calls miss; the first is let in and asks the backend, the second waits.\<close>

definition two_calls :: sample_state where
  "two_calls = drive (map (\<lambda>i. (i, Inl [])) [0, 0, 1, 1, 0, 0, 0, 0, 1]) (asks 2 (asks 1 sample_new))"

lemma advance_step:
  assumes "i < length (vf_calls s)"
  shows "verifier_step sample_ops sample_cfg s (advance i fetched s)"
proof -
  obtain p s1 where run: "move sample_ops sample_cfg fetched (vf_calls s ! i) s = (p, s1)" by fastforce
  have "verifier_step sample_ops sample_cfg s
      (s1\<lparr>vf_calls := take i (vf_calls s) @ (vf_calls s ! i)\<lparr>cl_place := p\<rparr> # drop (Suc i) (vf_calls s)\<rparr>)"
    by (rule verifier_step.run [OF id_take_nth_drop [OF assms] run])
  then show ?thesis using assms by (simp add: advance_def run upd_conv_take_nth_drop)
qed

lemma asks_step: "verifier_step sample_ops sample_cfg s (asks account s)"
  unfolding asks_def by (rule verifier_step.ask) simp

lemma drive_reach:
  "verifier_reach sample_ops sample_cfg s0 s \<Longrightarrow> list_all (\<lambda>p. fst p < length (vf_calls s)) moves \<Longrightarrow>
     verifier_reach sample_ops sample_cfg s0 (drive moves s)"
proof (induction moves s rule: drive.induct)
  case (2 i fetched moves s)
  have len: "length (vf_calls (advance i fetched s)) = length (vf_calls s)"
    by (simp add: advance_def split: prod.split)
  have "verifier_reach sample_ops sample_cfg s0 (advance i fetched s)"
    by (rule verifier_reach.step [OF 2(2)]) (rule advance_step, use 2(3) in simp)
  then show ?case using 2(1) 2(3) len by simp
qed simp

lemma two_calls_reach: "verifier_reach sample_ops sample_cfg sample_new two_calls"
  unfolding two_calls_def
  by (rule drive_reach [OF verifier_reach.step [OF verifier_reach.step [OF verifier_reach.here asks_step] asks_step]])
     (simp add: asks_def sample_new_def verifier_new_def)

lemma two_calls_places: "map cl_place (vf_calls two_calls) = [Fetching 0, AtGate 0]"
  by code_simp

theorem one_flight_per_key_witness:
  "map cl_place (vf_calls two_calls) = [Fetching 0, AtGate 0] \<and>
   length (filter (\<lambda>c. cl_key c = ''m'' \<and> fetching (cl_place c)) (vf_calls two_calls)) \<le> 1"
proof -
  have "lru_contract (vo_gates sample_ops) list_lru_ok"
    by (simp add: sample_ops_def list_lru_contract)
  moreover have "list_lru_ok (2 :: nat, [] :: (string \<times> nat) list)" "lru_iter (vo_gates sample_ops) (2, []) = []"
    by (simp_all add: list_lru_ok_def sample_ops_def list_lru_def)
  ultimately show ?thesis
    using one_flight_per_key [OF _ _ _ two_calls_reach [unfolded sample_new_def], of list_lru_ok "''m''"] two_calls_places
    by blast
qed

text \<open>The backend answers the first call; the second finds the answer when it is let in.\<close>

definition answered_calls :: sample_state where
  "answered_calls = drive [(0, Inr (Some 7)), (1, Inl [])] two_calls"

lemma answered_calls_reach: "verifier_reach sample_ops sample_cfg sample_new answered_calls"
proof -
  have "length (vf_calls two_calls) = 2" using two_calls_places by (metis length_map list.size(3,4) One_nat_def Suc_1 add.commute plus_1_eq_Suc)
  then show ?thesis unfolding answered_calls_def by (intro drive_reach two_calls_reach) simp
qed

lemma answered_calls_second:
  "vf_calls answered_calls ! 1 = \<lparr>cl_account = 2, cl_key = ''m'', cl_after = None, cl_place = Inside 0\<rparr>"
  "length (vf_calls answered_calls) = 2" "vf_now answered_calls = 0"
  "fst (move sample_ops sample_cfg (Inl []) (vf_calls answered_calls ! 1) answered_calls) = Answered (Inr (Some 7))"
  by code_simp+

theorem verifier_answers_fresh_witness:
  "fresh_answer sample_cfg 0
     (vf_fetched (snd (move sample_ops sample_cfg (Inl []) (vf_calls answered_calls ! 1) answered_calls))) ''m'' None (Some 7)"
proof -
  have "lru_contract (vo_entries sample_ops) list_lru_ok"
    by (simp add: sample_ops_def list_lru_contract)
  moreover have "list_lru_ok (2 :: nat, [] :: (string \<times> uuid option cached) list)" "lru_iter (vo_entries sample_ops) (2, []) = []"
    by (simp_all add: list_lru_ok_def sample_ops_def list_lru_def)
  moreover have "vf_calls answered_calls ! 1 \<in> set (vf_calls answered_calls)"
    using answered_calls_second(2) by simp
  moreover have "move sample_ops sample_cfg (Inl []) (vf_calls answered_calls ! 1) answered_calls = (Answered (Inr (Some 7)),
      snd (move sample_ops sample_cfg (Inl []) (vf_calls answered_calls ! 1) answered_calls))"
    using answered_calls_second(4) by (metis prod.collapse)
  ultimately show ?thesis
    using verifier_answers_fresh [OF _ _ _ answered_calls_reach [unfolded sample_new_def], of list_lru_ok
        "vf_calls answered_calls ! 1" "Inl []" "Inr (Some 7)"]
    by (simp add: answered_calls_second [unfolded One_nat_def])
qed

end
