(* ===== verification/Height_Properties.thy ===== *)
theory Height_Properties
  imports Board_Properties Action_Wp
begin

text \<open>
  What the reports of heights leave in the tables: the board of a map holds the best report of each
  player, a map is listed once it has enough players, and the Deep Dip board keeps the best height.
\<close>

section \<open>Effects of a report\<close>

definition raised_map_lb :: "nat \<Rightarrow> vec3 \<Rightarrow> int \<Rightarrow> map_lb_row \<Rightarrow> map_lb_row" where
  "raised_map_lb now pos race_time m =
     m\<lparr>ml_pos := pos, ml_height := height_at pos, ml_race_time := race_time, ml_updated_at := now,
       ml_update_count := ml_update_count m + 1\<rparr>"

definition new_map_lb :: "nat \<Rightarrow> string \<Rightarrow> uuid \<Rightarrow> vec3 \<Rightarrow> int \<Rightarrow> map_lb_row" where
  "new_map_lb now uid user pos race_time =
     \<lparr>ml_map_uid = uid, ml_user_id = user, ml_height = height_at pos, ml_pos = pos,
      ml_race_time = race_time, ml_updated_at = now, ml_update_count = 0\<rparr>"

text \<open>The rows of the board after an accepted report, and after a refused one.\<close>

definition rows_after :: "nat \<Rightarrow> string \<Rightarrow> uuid \<Rightarrow> vec3 \<Rightarrow> int \<Rightarrow> 'z lb_db_scheme \<Rightarrow> map_lb_row list" where
  "rows_after now uid user pos race_time d =
     (case find_map_lb uid user d of
        None \<Rightarrow> map_leaderboard d @ [new_map_lb now uid user pos race_time]
      | Some m \<Rightarrow>
          if ml_height m < height_at pos
          then upd_where (is_map_lb_of uid user) (raised_map_lb now pos race_time) (map_leaderboard d)
          else map_leaderboard d)"

lemma maybe_list_frame [simp]:
  "map_leaderboard (map_leaderboard_maybe_list now uid d) = map_leaderboard d"
  "shadow_bans (map_leaderboard_maybe_list now uid d) = shadow_bans d"
  "map_bans (map_leaderboard_maybe_list now uid d) = map_bans d"
  "listing_binds (map_leaderboard_maybe_list now uid d) = listing_binds d"
  "aux_specs (map_leaderboard_maybe_list now uid d) = aux_specs d"
  "users (map_leaderboard_maybe_list now uid d) = users d"
  "curr_heights (map_leaderboard_maybe_list now uid d) = curr_heights d"
  by (simp_all add: map_leaderboard_maybe_list_def)

text \<open>The live heights are in another table.\<close>

lemma upsert_map_curr_height_frame:
  "\<exists>hs. snd (upsert_map_curr_height env now uid user pos race_time d) = d\<lparr>curr_heights := hs\<rparr>"
proof -
  have "\<exists>hs. d = d\<lparr>curr_heights := hs\<rparr>" by (rule exI [of _ "curr_heights d"]) simp
  then show ?thesis
    by (auto simp: upsert_map_curr_height_def Let_def split: sum.split option.split)
qed

definition accepted :: "vec3 \<Rightarrow> api_error + unit \<Rightarrow> bool" where
  "accepted pos r \<longleftrightarrow> r = Inr () \<and> \<not> rust_lt MAX_HEIGHT (height_at pos)"

lemma threshold_reads [simp]:
  "map_threshold uid (d\<lparr>map_leaderboard := rows\<rparr>) = map_threshold uid d"
  "map_threshold uid (d\<lparr>curr_heights := hs\<rparr>) = map_threshold uid d"
  by (simp_all add: map_threshold_def find_bind_def find_spec_def cong: option.case_cong)

lemma public_rows_reads:
  "map_leaderboard d' = map_leaderboard d \<Longrightarrow> shadow_bans d' = shadow_bans d \<Longrightarrow> map_bans d' = map_bans d \<Longrightarrow>
   public_rows now uid d' = public_rows now uid d"
  by (simp add: public_rows_def hidden_def active_ban_def)

definition reached :: "nat \<Rightarrow> string \<Rightarrow> 'z lb_db_scheme \<Rightarrow> bool" where
  "reached now uid d \<longleftrightarrow> uid \<noteq> DD2_MAP_UID \<and> uid \<notin> li_map_uid ` set (listed_maps d) \<and>
     map_threshold uid d \<le> int (length (public_rows now uid d))"

definition new_listing :: "nat \<Rightarrow> string \<Rightarrow> listed_map_row" where
  "new_listing now uid = \<lparr>li_map_uid = uid, li_listed = True, li_became_listed = now\<rparr>"

lemma maybe_list_listed:
  "listed_maps (map_leaderboard_maybe_list now uid d) =
     listed_maps d @ (if reached now uid d then [new_listing now uid] else [])"
  by (auto simp: map_leaderboard_maybe_list_def reached_def is_listed_def list_ex_iff new_listing_def)

lemma reached_reads:
  "reached now uid (d\<lparr>curr_heights := hs, map_leaderboard := rows\<rparr>) = reached now uid (d\<lparr>map_leaderboard := rows\<rparr>)"
proof -
  have "public_rows now uid (d\<lparr>curr_heights := hs, map_leaderboard := rows\<rparr>) = public_rows now uid (d\<lparr>map_leaderboard := rows\<rparr>)"
    by (rule public_rows_reads) simp_all
  moreover have "map_threshold uid (d\<lparr>curr_heights := hs, map_leaderboard := rows\<rparr>) = map_threshold uid d"
    by (simp only: threshold_reads)
  ultimately show ?thesis by (simp add: reached_def)
qed

lemma report_map_curr_pos_run:
  assumes "report_map_curr_pos env now user uid pos race_time d = (r, d')"
  shows "map_leaderboard d' = (if accepted pos r then rows_after now uid user pos race_time d else map_leaderboard d)"
    "listed_maps d' = listed_maps d @ (if accepted pos r \<and> find_map_lb uid user d = None \<and>
       reached now uid (d\<lparr>map_leaderboard := rows_after now uid user pos race_time d\<rparr>) then [new_listing now uid] else [])"
    "shadow_bans d' = shadow_bans d" "map_bans d' = map_bans d"
    "listing_binds d' = listing_binds d" "aux_specs d' = aux_specs d"
proof -
  obtain hs where up: "snd (upsert_map_curr_height env now uid user pos race_time d) = d\<lparr>curr_heights := hs\<rparr>"
    using upsert_map_curr_height_frame by blast
  have find [simp]: "find_map_lb uid user (d\<lparr>curr_heights := hs\<rparr>) = find_map_lb uid user d"
    by (simp add: find_map_lb_def)
  show "map_leaderboard d' = (if accepted pos r then rows_after now uid user pos race_time d else map_leaderboard d)"
    "listed_maps d' = listed_maps d @ (if accepted pos r \<and> find_map_lb uid user d = None \<and>
       reached now uid (d\<lparr>map_leaderboard := rows_after now uid user pos race_time d\<rparr>) then [new_listing now uid] else [])"
    "shadow_bans d' = shadow_bans d" "map_bans d' = map_bans d"
    "listing_binds d' = listing_binds d" "aux_specs d' = aux_specs d"
    using assms up
    by (auto simp: report_map_curr_pos_def accepted_def map_err_def and_then_def raise_map_lb_def insert_map_lb_def
        rows_after_def raised_map_lb_def [abs_def] new_map_lb_def maybe_list_listed reached_reads
        split: if_splits prod.splits sum.splits option.splits)
qed

section \<open>The list of maps\<close>

lemma threshold_bounds: "5 \<le> map_threshold uid d \<and> map_threshold uid d \<le> 100"
  by (simp add: map_threshold_def Let_def)

text \<open>
  A report of a height adds at most its own map to the list of maps, and does so exactly when
  it is the first of its player, the map is not the Deep Dip map and not on the list, and the
  players on its board who are not hidden have become as many as the map's threshold, which is
  between 5 and 100.
\<close>

theorem maps_listed_at_threshold:
  fixes d d' :: "'z lb_db_scheme"
  assumes "report_map_curr_pos env now user uid pos race_time d = (r, d')"
  shows "listed_maps d' = listed_maps d @
      (if length (map_leaderboard d') = length (map_leaderboard d) + 1 \<and> uid \<noteq> DD2_MAP_UID \<and>
          uid \<notin> li_map_uid ` set (listed_maps d) \<and>
          map_threshold uid d \<le> int (length (public_rows now uid d'))
       then [\<lparr>li_map_uid = uid, li_listed = True, li_became_listed = now\<rparr>] else []) \<and>
    5 \<le> map_threshold uid d \<and> map_threshold uid d \<le> 100"
proof -
  note run = report_map_curr_pos_run [OF assms]
  have grown: "length (map_leaderboard d') = length (map_leaderboard d) + 1 \<longleftrightarrow>
      accepted pos r \<and> find_map_lb uid user d = None"
    unfolding run(1) by (auto simp: rows_after_def split: option.split)
  have "public_rows now uid d' = public_rows now uid (d\<lparr>map_leaderboard := map_leaderboard d'\<rparr>)"
    by (rule public_rows_reads) (simp_all add: run)
  then have "reached now uid (d\<lparr>map_leaderboard := map_leaderboard d'\<rparr>) \<longleftrightarrow>
      uid \<noteq> DD2_MAP_UID \<and> uid \<notin> li_map_uid ` set (listed_maps d) \<and>
      map_threshold uid d \<le> int (length (public_rows now uid d'))"
    by (simp add: reached_def)
  then show ?thesis
    using run(1,2) grown threshold_bounds [of uid d] by (auto simp: new_listing_def)
qed

section \<open>The best report\<close>

record height_report =
  rp_time :: nat
  rp_user :: uuid
  rp_map :: string
  rp_pos :: vec3
  rp_race_time :: int

text \<open>The server on a list of reports: those it accepts, and the state it is left in.\<close>

fun report_heights ::
    "float_env \<Rightarrow> height_report list \<Rightarrow> 'z lb_db_scheme \<Rightarrow> height_report list \<times> 'z lb_db_scheme" where
  "report_heights env [] d = ([], d)"
| "report_heights env (p # ps) d =
     (case report_map_curr_pos env (rp_time p) (rp_user p) (rp_map p) (rp_pos p) (rp_race_time p) d of
        (r, d1) \<Rightarrow>
          (case report_heights env ps d1 of
             (taken, d2) \<Rightarrow> (if accepted (rp_pos p) r then p # taken else taken, d2)))"

definition reports_of :: "string \<Rightarrow> uuid \<Rightarrow> height_report list \<Rightarrow> height_report list" where
  "reports_of uid user taken = filter (\<lambda>p. rp_map p = uid \<and> rp_user p = user) taken"

definition report_height :: "height_report \<Rightarrow> f64" where
  "report_height p = height_at (rp_pos p)"

text \<open>The first of the highest reports.\<close>

definition best_report :: "height_report list \<Rightarrow> height_report option" where
  "best_report ps =
     (if ps = [] then None else List.find (\<lambda>p. report_height p = Max (set (map report_height ps))) ps)"

lemma best_report_Some: "best_report ps = Some b \<Longrightarrow> b \<in> set ps \<and> report_height b = Max (set (map report_height ps))"
  by (auto simp: best_report_def find_Some_iff split: if_splits)

lemma best_report_exists:
  assumes "ps \<noteq> []"
  shows "\<exists>b. best_report ps = Some b"
proof -
  have "Max (set (map report_height ps)) \<in> set (map report_height ps)" by (rule Max_in) (use assms in simp_all)
  then obtain p where "p \<in> set ps" "report_height p = Max (set (map report_height ps))" by auto
  then have "List.find (\<lambda>p. report_height p = Max (set (map report_height ps))) ps \<noteq> None"
    unfolding find_None_iff by blast
  then show ?thesis using assms by (simp add: best_report_def)
qed

lemma best_report_snoc:
  "best_report (ps @ [p]) =
     (case best_report ps of None \<Rightarrow> Some p | Some b \<Rightarrow> if report_height b < report_height p then Some p else Some b)"
proof (cases "ps = []")
  case True
  then show ?thesis by (simp add: best_report_def)
next
  case False
  obtain b where b: "best_report ps = Some b" using best_report_exists [OF False] by blast
  let ?m = "Max (set (map report_height ps))"
  have m: "report_height b = ?m" "List.find (\<lambda>q. report_height q = ?m) ps = Some b"
    using best_report_Some [OF b] b False by (simp_all add: best_report_def)
  have max: "Max (set (map report_height (ps @ [p]))) = max (report_height p) ?m"
    using False by simp
  show ?thesis
  proof (cases "?m < report_height p")
    case True
    have "report_height q \<noteq> report_height p" if "q \<in> set ps" for q
    proof -
      have "report_height q \<le> ?m" using that by (intro Max_ge) simp_all
      then show ?thesis using True by simp
    qed
    then have "List.find (\<lambda>q. report_height q = report_height p) ps = None" by (auto simp: find_None_iff)
    moreover have "max (report_height p) ?m = report_height p" using True by simp
    ultimately show ?thesis
      unfolding best_report_def [of "ps @ [p]"] max using True m(1) b by (simp add: find_append)
  next
    case not_higher: False
    then have "max (report_height p) ?m = ?m" by simp
    then show ?thesis
      unfolding best_report_def [of "ps @ [p]"] max using not_higher m b by (simp add: find_append)
  qed
qed

definition heights_ok :: "height_report list \<Rightarrow> 'z lb_db_scheme \<Rightarrow> bool" where
  "heights_ok taken d \<longleftrightarrow> (\<forall>uid user.
     map_option (\<lambda>m. (ml_height m, ml_pos m, ml_race_time m)) (find_map_lb uid user d) =
     map_option (\<lambda>p. (report_height p, rp_pos p, rp_race_time p)) (best_report (reports_of uid user taken)))"

lemma find_rows_after:
  "find_map_lb u v (d\<lparr>map_leaderboard := rows_after now uid user pos race_time d\<rparr>) =
     (if u = uid \<and> v = user
      then (case find_map_lb uid user d of
              None \<Rightarrow> Some (new_map_lb now uid user pos race_time)
            | Some m \<Rightarrow> Some (if ml_height m < height_at pos then raised_map_lb now pos race_time m else m))
      else find_map_lb u v d)"
proof -
  have same: "is_map_lb_of uid user (raised_map_lb now pos race_time m) = is_map_lb_of uid user m" for m
    by (simp add: is_map_lb_of_def raised_map_lb_def)
  have new: "is_map_lb_of u v (new_map_lb now uid user pos race_time) \<longleftrightarrow> u = uid \<and> v = user" for u v
    by (auto simp: is_map_lb_of_def new_map_lb_def)
  have other: "List.find (is_map_lb_of u v) (upd_where (is_map_lb_of uid user) (raised_map_lb now pos race_time) rows) =
      map_option (\<lambda>m. if is_map_lb_of uid user m then raised_map_lb now pos race_time m else m)
        (List.find (is_map_lb_of u v) rows)" for rows u v
    by (rule find_upd_where) (auto simp: is_map_lb_of_def raised_map_lb_def)
  show ?thesis
  proof (cases "u = uid \<and> v = user")
    case True
    then show ?thesis
      by (auto simp: find_map_lb_def rows_after_def find_append new other split: option.split dest: find_Some_in)
  next
    case False
    then have diff: "m \<in> set rows \<Longrightarrow> is_map_lb_of u v m \<Longrightarrow> \<not> is_map_lb_of uid user m" for m and rows :: "map_lb_row list"
      by (auto simp: is_map_lb_of_def)
    have keep: "map_option (\<lambda>m. if is_map_lb_of uid user m then raised_map_lb now pos race_time m else m)
        (List.find (is_map_lb_of u v) rows) = List.find (is_map_lb_of u v) rows" for rows
      using diff by (cases "List.find (is_map_lb_of u v) rows") (auto dest: find_Some_in)
    show ?thesis
      using False by (auto simp: find_map_lb_def rows_after_def find_append new other keep split: option.split)
  qed
qed

lemma reports_of_snoc:
  "reports_of u v (taken @ [p]) = reports_of u v taken @ (if rp_map p = u \<and> rp_user p = v then [p] else [])"
  by (simp add: reports_of_def)

lemma heights_ok_step:
  assumes ok: "heights_ok taken d"
    and run: "report_map_curr_pos env (rp_time p) (rp_user p) (rp_map p) (rp_pos p) (rp_race_time p) d = (r, d')"
  shows "heights_ok (if accepted (rp_pos p) r then taken @ [p] else taken) d'"
proof -
  let ?d = "d\<lparr>map_leaderboard := map_leaderboard d'\<rparr>"
  have find: "find_map_lb u v d' = find_map_lb u v ?d" for u v by (simp add: find_map_lb_def)
  show ?thesis
  proof (cases "accepted (rp_pos p) r")
    case False
    then show ?thesis using ok report_map_curr_pos_run(1) [OF run] by (simp add: heights_ok_def find_map_lb_def)
  next
    case True
    have rows: "find_map_lb u v d' = (if u = rp_map p \<and> v = rp_user p
      then (case find_map_lb u v d of
              None \<Rightarrow> Some (new_map_lb (rp_time p) u v (rp_pos p) (rp_race_time p))
            | Some m \<Rightarrow> Some (if ml_height m < height_at (rp_pos p) then raised_map_lb (rp_time p) (rp_pos p) (rp_race_time p) m else m))
      else find_map_lb u v d)" for u v
      unfolding find using True report_map_curr_pos_run(1) [OF run]
        find_rows_after [where d = d and now = "rp_time p" and uid = "rp_map p" and user = "rp_user p" and
          pos = "rp_pos p" and race_time = "rp_race_time p" and u = u and v = v] by auto
    have "map_option (\<lambda>m. (ml_height m, ml_pos m, ml_race_time m)) (find_map_lb u v d') =
      map_option (\<lambda>p. (report_height p, rp_pos p, rp_race_time p)) (best_report (reports_of u v (taken @ [p])))" for u v
    proof -
      have "map_option (\<lambda>m. (ml_height m, ml_pos m, ml_race_time m)) (find_map_lb u v d) =
        map_option (\<lambda>p. (report_height p, rp_pos p, rp_race_time p)) (best_report (reports_of u v taken))"
        using ok by (simp add: heights_ok_def)
      then show ?thesis
        unfolding rows reports_of_snoc
        by (cases "find_map_lb u v d"; cases "best_report (reports_of u v taken)")
           (auto simp: best_report_snoc new_map_lb_def raised_map_lb_def report_height_def)
    qed
    then show ?thesis using True by (simp add: heights_ok_def)
  qed
qed

lemma report_heights_ok:
  "report_heights env ps d = (news, d') \<Longrightarrow> heights_ok taken d \<Longrightarrow> heights_ok (taken @ news) d'"
proof (induction ps arbitrary: taken d news)
  case (Cons p ps)
  obtain r d1 where r: "report_map_curr_pos env (rp_time p) (rp_user p) (rp_map p) (rp_pos p) (rp_race_time p) d = (r, d1)"
    by fastforce
  obtain more_taken where rest: "report_heights env ps d1 = (more_taken, d')"
    and news: "news = (if accepted (rp_pos p) r then p # more_taken else more_taken)"
    using Cons.prems(1) r by (auto split: prod.splits)
  have "heights_ok ((if accepted (rp_pos p) r then taken @ [p] else taken) @ more_taken) d'"
    by (rule Cons.IH [OF rest heights_ok_step [OF Cons.prems(2) r]])
  then show ?case unfolding news by (cases "accepted (rp_pos p) r") simp_all
qed simp

text \<open>
  C20. However the players of a map report their heights, the board holds for each player the
  first of their highest accepted reports, with its position and its time, and no row for a player
  without one.
\<close>

theorem map_heights_are_best:
  fixes d d' :: "'z lb_db_scheme"
  assumes "map_leaderboard d = []" and "report_heights env ps d = (taken, d')"
  shows "map_option (\<lambda>m. (ml_height m, ml_pos m, ml_race_time m)) (find_map_lb uid user d') =
    map_option (\<lambda>p. (report_height p, rp_pos p, rp_race_time p)) (best_report (reports_of uid user taken))"
proof -
  have "heights_ok [] d"
    using assms(1) by (simp add: heights_ok_def find_map_lb_def reports_of_def best_report_def)
  then have "heights_ok ([] @ taken) d'" by (rule report_heights_ok [OF assms(2)])
  then show ?thesis by (simp add: heights_ok_def)
qed

section \<open>The Deep Dip board\<close>

lemma rust_lt_less: "x \<noteq> NaN \<Longrightarrow> y \<noteq> NaN \<Longrightarrow> rust_lt x y \<longleftrightarrow> x < y"
  by (simp add: rust_lt_def)

lemma find_lb_raised:
  "raise_lb now user h d = (Inr n, d') \<Longrightarrow>
   find_lb u d' = (if u = user then map_option (\<lambda>x. x\<lparr>ll_height := h, ll_ts := now, ll_update_count := ll_update_count x + 1\<rparr>) (find_lb u d)
     else find_lb u d)"
proof -
  assume run: "raise_lb now user h d = (Inr n, d')"
  let ?f = "\<lambda>x. x\<lparr>ll_height := h, ll_ts := now, ll_update_count := ll_update_count x + 1\<rparr>"
  have d': "leaderboard d' = upd_where (\<lambda>r. ll_user_id r = user) ?f (leaderboard d)"
    using run by (auto simp: raise_lb_def split: option.splits if_splits)
  have "find_lb u d' = map_option (\<lambda>x. if ll_user_id x = user then ?f x else x) (find_lb u d)"
    unfolding find_lb_def d' by (rule find_upd_where) simp
  then show ?thesis by (cases "find_lb u d") (auto simp: find_lb_def dest: find_Some_in)
qed

lemma insert_lb_archive_frame [simp]: "find_lb u (snd (insert_lb_archive now user d)) = find_lb u d"
  by (simp add: insert_lb_archive_def find_lb_def Let_def split: option.split)

text \<open>
  A reported best height is dropped unless the player's context is official.  Otherwise the
  Deep Dip board then has the greater of the old height and the new one, also when the report ends
  in an error because the player has no rank, and no other player's row changes.
\<close>

theorem pb_height_rises:
  fixes d d' :: "'z lb_db_scheme"
  assumes run: "on_report_pb_height now user ctx h d = (r, d')"
    and numbers: "h \<noteq> NaN" "pred_option (\<lambda>x. ll_height x \<noteq> NaN \<and> ll_update_count x \<noteq> i32_max) (find_lb user d)"
    and known: "has_user user d"
  shows "if ctx_official ctx
    then map_option ll_height (find_lb user d') =
        Some (case find_lb user d of None \<Rightarrow> h | Some x \<Rightarrow> max (ll_height x) h) \<and>
      (u \<noteq> user \<longrightarrow> find_lb u d' = find_lb u d)
    else r = Inr None \<and> d' = d"
proof (cases "ctx_official ctx")
  case False
  then show ?thesis using run by (simp add: on_report_pb_height_def)
next
  case official: True
  have d': "d' = snd (update_user_pb_height now user h d)"
    using run official by (auto simp: on_report_pb_height_def and_then_def map_err_def split: prod.splits sum.splits)
  show ?thesis
  proof (cases "find_lb user d")
    case None
    then have "leaderboard d' = leaderboard d @ [\<lparr>ll_user_id = user, ll_height = h, ll_update_count = 0, ll_ts = now\<rparr>]"
      unfolding d' using known by (simp add: update_user_pb_height_def insert_lb_def and_then_def)
    then show ?thesis using None official by (auto simp: find_lb_def find_append split: option.split)
  next
    case (Some x)
    show ?thesis
    proof (cases "ll_height x < h")
      case True
      obtain n d1 where raise: "raise_lb now user h d = (Inr n, d1)"
        using Some numbers(2) by (simp add: raise_lb_def)
      have "d' = snd (insert_lb_archive now user d1)"
        unfolding d' using Some True numbers raise
        by (simp add: update_user_pb_height_def rust_lt_less and_then_def split: prod.split sum.split)
      then show ?thesis
        using official True Some find_lb_raised [OF raise] by (simp add: max_absorb2)
    next
      case False
      then have "d' = d"
        unfolding d' using Some numbers by (simp add: update_user_pb_height_def rust_lt_less)
      then show ?thesis using official Some False by (simp add: max_def)
    qed
  qed
qed

section \<open>Statistics\<close>

text \<open>What a client can send: the types of the message, and numbers that a single can hold.\<close>

definition sendable :: "float_env \<Rightarrow> stats \<Rightarrow> bool" where
  "sendable env s \<longleftrightarrow>
     list_all (\<lambda>n. n < 2 ^ 32)
       [st_nb_jumps s, st_nb_falls s, st_nb_floors_fallen s, st_last_pb_set_ts s, st_pb_floor s, st_nb_resets s,
        st_ggs_triggered s, st_title_gags_triggered s, st_title_gags_special_triggered s, st_bye_byes_triggered s] \<and>
     - (2 ^ 31) \<le> st_seconds_spent_in_map s \<and> st_seconds_spent_in_map s < 2 ^ 31 \<and>
     fe_narrow env (st_total_dist_fallen s) = st_total_dist_fallen s \<and>
     fe_narrow env (st_pb_height s) = st_pb_height s"

lemma u32_back: "n < 2 ^ 32 \<Longrightarrow> nat (as_u32 (as_i32 (int n))) = n"
  by (simp add: as_u32_as_i32 as_u32_id)

lemma stats_columns_user [simp]: "stats_row.su_user_id (stats_columns now user n s) = user"
  by (simp add: stats_columns_def)

lemma find_stats_updated:
  assumes "update_users_stats now user s d = (Inr (), d1)"
  shows "\<exists>n. find_stats user d1 = Some (stats_columns now user n s)"
proof (cases "find_stats user d")
  case None
  then have "update_stats_row (\<lambda>_. True) now user s d = (Inl RowNotFound, d)" by (simp add: update_stats_row_def)
  then have "user_stats d1 = user_stats d @ [stats_columns now user 0 s]"
    using assms by (auto simp: update_users_stats_def and_then_def attempt_def insert_stats_def split: if_splits)
  then show ?thesis using None by (intro exI [of _ 0]) (simp add: find_stats_def find_append)
next
  case (Some old)
  let ?f = "\<lambda>r. stats_columns now user (su_update_count r + 1) s"
  have "su_update_count old \<noteq> i32_max"
    using assms Some by (auto simp: update_users_stats_def and_then_def attempt_def update_stats_row_def)
  then have "user_stats d1 = upd_where (\<lambda>r. su_user_id r = user) ?f (user_stats d)"
    using assms Some
    by (auto simp: update_users_stats_def and_then_def attempt_def update_stats_row_def archive_stats_def split: if_splits)
  then have "find_stats user d1 = map_option (\<lambda>r. if su_user_id r = user then ?f r else r) (find_stats user d)"
    by (simp add: find_stats_def find_upd_where)
  then show ?thesis using Some by (auto simp: find_stats_def dest: find_Some_in)
qed

text \<open>
  After an update of a player's statistics the server answers the request for them with what
  the client sent: every count comes back through the signed column, an absent extra object is an
  empty one, and the height is that of the leaderboard where the player has a rank.
\<close>

theorem stats_read_back:
  assumes run: "update_users_stats now user s d = (Inr (), d1)" and ok: "sendable env s"
  shows "\<exists>rank. get_user_stats env user d1 =
    (Inr (s\<lparr>st_pb_height := (case List.find (\<lambda>e. lbe_wsid e = user) (ranked_lb_view d1) of
              None \<Rightarrow> st_pb_height s | Some e \<Rightarrow> fe_narrow env (lbe_height e)),
            st_extra := Some (case st_extra s of None \<Rightarrow> JObj [] | Some e \<Rightarrow> e)\<rparr>, rank), d1)"
proof -
  obtain n where row: "find_stats user d1 = Some (stats_columns now user n s)"
    using find_stats_updated [OF run] by blast
  have seconds: "to_i32_or_zero (st_seconds_spent_in_map s) = st_seconds_spent_in_map s"
    using ok by (simp add: sendable_def to_i32_or_zero_def)
  have time: "unix_seconds (st_last_pb_set_ts s * 1000000) = st_last_pb_set_ts s"
    using ok by (simp add: sendable_def unix_seconds_def as_u32_id)
  show ?thesis
    using ok row seconds time
    by (auto simp: get_user_stats_def get_user_in_lb_def and_then_def sendable_def stats_columns_def u32_back
        split: option.split)
qed

section \<open>Samples\<close>

lemma sample_tables_empty:
  "users (with_tables sample_db) = [\<lparr>ur_id = 7, ur_display_name = ''ann'', ur_created_ts = 1, ur_last_login_ts = 1\<rparr>]"
  "curr_heights (with_tables sample_db) = []" "map_leaderboard (with_tables sample_db) = []"
  "listed_maps (with_tables sample_db) = []" "listing_binds (with_tables sample_db) = []"
  "shadow_bans (with_tables sample_db) = []" "map_bans (with_tables sample_db) = []"
  "leaderboard (with_tables sample_db) = []" "user_stats (with_tables sample_db) = []"
  by (simp_all add: with_tables_def lb_db.defs mod_db.defs wf_db.defs sample_db_def)

lemma sample_map_fits: "varchar_col 27 sample_map = Inr sample_map"
  by (simp add: varchar_col_def sample_map_def char_count_def is_cont_byte_def)

abbreviation sample_floats :: float_env where
  "sample_floats \<equiv> le_float sample_lb_env"

definition crowded_db :: lb_db where
  "crowded_db = (with_tables sample_db)\<lparr>map_leaderboard := map (\<lambda>i. sample_score (of_nat i) 10) [10..<34]\<rparr>"

lemma crowded_report:
  "fst (report_map_curr_pos sample_floats 9 7 sample_map (Fin 0, Fin 50, Fin 0) 100 crowded_db) = Inr ()"
  by (simp add: crowded_db_def report_map_curr_pos_def map_err_def and_then_def upsert_map_curr_height_def
      sample_map_col sample_map_fits sample_tables_empty has_user_def raise_map_lb_def insert_map_lb_def
      height_at_def rust_lt_def MAX_HEIGHT_def find_map_lb_def is_map_lb_of_def sample_score_def find_None_iff)

theorem maps_listed_at_threshold_witness:
  "listed_maps (snd (report_map_curr_pos sample_floats 9 7 sample_map (Fin 0, Fin 50, Fin 0) 100 crowded_db)) =
     [\<lparr>li_map_uid = sample_map, li_listed = True, li_became_listed = 9\<rparr>]"
proof -
  let ?run = "report_map_curr_pos sample_floats 9 7 sample_map (Fin 0, Fin 50, Fin 0) 100 crowded_db"
  have none: "find_map_lb sample_map 7 crowded_db = None"
    by (simp add: find_map_lb_def crowded_db_def is_map_lb_of_def sample_score_def find_None_iff)
  have rows: "map_leaderboard (snd ?run) = map (\<lambda>i. sample_score (of_nat i) 10) [10..<34] @
      [new_map_lb 9 sample_map 7 (Fin 0, Fin 50, Fin 0) 100]"
    using report_map_curr_pos_run(1) [OF surjective_pairing [of ?run]] crowded_report none
    by (simp add: accepted_def rows_after_def height_at_def rust_lt_def MAX_HEIGHT_def) (simp add: crowded_db_def)
  have "public_rows 9 sample_map (snd ?run) = map_leaderboard (snd ?run)"
    using report_map_curr_pos_run(3,4) [OF surjective_pairing [of ?run]] rows
    by (simp add: public_rows_def hidden_def active_ban_def crowded_db_def sample_tables_empty filter_id_conv
        new_map_lb_def sample_score_def)
  moreover have "map_threshold sample_map crowded_db = 25"
    by (simp add: map_threshold_def find_bind_def crowded_db_def sample_tables_empty)
  moreover have "sample_map \<noteq> DD2_MAP_UID" by (simp add: sample_map_def DD2_MAP_UID_def)
  moreover have "listed_maps crowded_db = []" "length (map_leaderboard crowded_db) = 24"
    by (simp_all add: crowded_db_def sample_tables_empty)
  ultimately show ?thesis
    using maps_listed_at_threshold [OF surjective_pairing [of ?run]] rows by simp
qed

definition sample_height :: "nat \<Rightarrow> rat \<Rightarrow> height_report" where
  "sample_height t h = \<lparr>rp_time = t, rp_user = 7, rp_map = sample_map, rp_pos = (Fin 0, Fin h, Fin 0), rp_race_time = 1000\<rparr>"

text \<open>The second report is higher than any map; the third improves on the first.\<close>

lemma sample_heights_taken:
  "fst (report_heights sample_floats [sample_height 1 100, sample_height 2 6000, sample_height 3 130]
     (with_tables sample_db)) = [sample_height 1 100, sample_height 3 130]"
  by (simp add: sample_height_def report_map_curr_pos_def map_err_def and_then_def upsert_map_curr_height_def
      sample_map_col sample_map_fits sample_tables_empty has_user_def raise_map_lb_def insert_map_lb_def
      height_at_def rust_lt_def MAX_HEIGHT_def find_map_lb_def is_map_lb_of_def accepted_def maybe_list_listed
      is_height_of_def i32_succ_def i32_max_def update_afk_and_velocity_def velocity_between_def pg_sub_def pg_div_def
      pg_add_def pg_square_def pg_checked_def distance_def fl_sub_def sample_lb_env_def Let_def)

theorem map_heights_are_best_witness:
  "map_option (\<lambda>m. (ml_height m, ml_pos m, ml_race_time m)) (find_map_lb sample_map 7
     (snd (report_heights sample_floats [sample_height 1 100, sample_height 2 6000, sample_height 3 130]
       (with_tables sample_db)))) = Some (Fin 130, (Fin 0, Fin 130, Fin 0), 1000)"
proof -
  let ?run = "report_heights sample_floats [sample_height 1 100, sample_height 2 6000, sample_height 3 130]
     (with_tables sample_db)"
  have run: "?run = ([sample_height 1 100, sample_height 3 130], snd ?run)"
    using sample_heights_taken by (metis prod.collapse)
  have "best_report (reports_of sample_map 7 [sample_height 1 100, sample_height 3 130]) = Some (sample_height 3 130)"
    by (simp add: reports_of_def best_report_def sample_height_def report_height_def height_at_def max_def)
  then show ?thesis
    using map_heights_are_best [OF sample_tables_empty(3) run, of sample_map 7]
    by (simp only: option.map) (simp add: sample_height_def report_height_def height_at_def del: report_heights.simps)
qed

definition official_ctx :: player_ctx where
  "official_ctx = \<lparr>pc_sf = 0, pc_mi = 0, pc_map = None, pc_i = False, pc_e = None, pc_official = Some True\<rparr>"

definition climbed_db :: lb_db where
  "climbed_db = (with_tables sample_db)\<lparr>leaderboard := [\<lparr>ll_user_id = 7, ll_height = Fin 300, ll_update_count = 4, ll_ts = 1\<rparr>]\<rparr>"

theorem pb_height_rises_witness:
  "map_option ll_height (find_lb 7 (snd (on_report_pb_height 9 7 (Some official_ctx) (Fin 500) climbed_db))) = Some (Fin 500)"
proof -
  have row: "find_lb 7 climbed_db = Some \<lparr>ll_user_id = 7, ll_height = Fin 300, ll_update_count = 4, ll_ts = 1\<rparr>"
    by (simp add: find_lb_def climbed_db_def)
  have "has_user 7 climbed_db" by (simp add: has_user_def climbed_db_def sample_tables_empty)
  moreover have "ctx_official (Some official_ctx)" by (simp add: ctx_official_def is_official_def official_ctx_def)
  ultimately show ?thesis
    using pb_height_rises [where now = 9 and user = 7 and ctx = "Some official_ctx" and h = "Fin 500" and d = climbed_db
        and u = 7, OF surjective_pairing] row
    by (simp add: i32_max_def)
qed

definition sample_stats :: stats where
  "sample_stats = \<lparr>st_seconds_spent_in_map = 3600, st_nb_jumps = 3000000000, st_nb_falls = 12, st_nb_floors_fallen = 40,
     st_last_pb_set_ts = 1715000000, st_total_dist_fallen = Fin 900, st_pb_height = Fin 300, st_pb_floor = 3,
     st_nb_resets = 1, st_ggs_triggered = 0, st_title_gags_triggered = 0, st_title_gags_special_triggered = 0,
     st_bye_byes_triggered = 0, st_monument_triggers = JArr [], st_reached_floor_count = JArr [],
     st_floor_voice_lines_played = JArr [], st_extra = None\<rparr>"

theorem stats_read_back_witness:
  "\<exists>rank d1. get_user_stats sample_floats 7 d1 = (Inr (sample_stats\<lparr>st_extra := Some (JObj [])\<rparr>, rank), d1) \<and>
     update_users_stats 9 7 sample_stats (with_tables sample_db) = (Inr (), d1)"
proof -
  let ?d1 = "(with_tables sample_db)\<lparr>user_stats := [stats_columns 9 7 0 sample_stats]\<rparr>"
  have run: "update_users_stats 9 7 sample_stats (with_tables sample_db) = (Inr (), ?d1)"
    by (simp add: update_users_stats_def update_stats_row_def insert_stats_def and_then_def attempt_def
        find_stats_def sample_tables_empty has_user_def)
  have "sendable sample_floats sample_stats" by (simp add: sendable_def sample_stats_def sample_lb_env_def)
  moreover have "ranked_lb_view ?d1 = []"
    by (simp add: ranked_lb_view_def ranked_rows_def sample_tables_empty order_desc_def)
  ultimately show ?thesis
    using stats_read_back [OF run, of sample_floats] run by (auto simp: sample_stats_def)
qed

end
