(* ===== verification/Public_Api.thy ===== *)
theory Public_Api
  imports Leaderboards Donations Async_Cache Minigames Collectibles Action_Wp Height_Properties
begin

text \<open>
  The public HTTP interface, \<open>src/http.rs\<close> with the handlers of \<open>src/queries/api.rs\<close>: the routes
  outside \<open>/api/mod\<close> and \<open>/admin\<close>, in the order they are tried, what each reads, and the six caches of
  the slow ones.  The routes of the moderators, which the program tries last, are in \<open>Moderation_Web\<close>,
  those that start and complete a login among them; the serialisation of a body is \<open>serde_json\<close>'s, so a
  body here is the value before it is serialised.
\<close>

section \<open>State\<close>

record ml_ping =
  mp_ip_v4 :: string
  mp_ip_v6 :: string
  mp_user_agent :: string
  mp_is_intro :: bool
  mp_ts :: nat

record api_server = lb_db +
  ml_pings :: "ml_ping list"
  cached_listed_maps :: "(nat, listed_map list) inner_cache"
  cached_listed_maps_len :: "(unit, nat) inner_cache"
  cached_minigame_list :: "(string, minigame_list_game list) inner_cache"
  cached_collectible_list :: "(string, collectible_list_item list) inner_cache"
  cached_donations :: "(unit, rat \<times> rat) inner_cache"
  cached_twitch_list :: "(unit, (string \<times> string option) list) inner_cache"

text \<open>The parameters of the handlers, and how errors are printed for the log.\<close>

record api_env =
  ap_lb :: lb_env
  ap_donation :: donation_env
  ap_show_db :: "db_error \<Rightarrow> string"
  ap_show_api :: "api_error \<Rightarrow> string"
  ap_version :: string

text \<open>A request: its remote address (\<open>V4\<close> or \<open>V6\<close>, printed) and the agent header.\<close>

datatype remote = V4 string | V6 string

record api_request =
  rq_path :: "string list"
  rq_remote :: "remote option"
  rq_user_agent :: "string option"
  rq_now :: nat
  rq_inst :: nat

datatype rejection = NotFound | MissingHeader string | ApiErrRejection string

datatype api_body =
    BodyText string
  | BodyStatus nat
  | BodyEntries "leaderboard_entry list"
  | BodyLen int int
  | BodyJson json
  | BodyServerInfo nat
  | BodyEntry "leaderboard_entry option"
  | BodyHeightLog player_height_log
  | BodyLive "player_at_height list"
  | BodyDonations rat rat
  | BodyTwitch "(string \<times> string option) list"
  | BodyClimbers nat
  | BodyBoard "leaderboard_entry2 list"
  | BodyMinigames string "minigame_list_game list"
  | BodyMinigameLb string string "minigame_lb_entry list"
  | BodyCollectibles string "collectible_list_item list"
  | BodyListed "listed_map list"

type_synonym 's api_action = "('s, rejection, api_body) db_action"

definition SLOW_ROUTE_TTL :: nat where "SLOW_ROUTE_TTL = 60 * 1000000000"

definition or_reject :: "api_env \<Rightarrow> ('d, db_error, 'a) db_action \<Rightarrow> ('d, rejection, 'a) db_action" where
  "or_reject env = map_err (\<lambda>e. ApiErrRejection (ap_show_db env e))"

section \<open>Handlers\<close>

text \<open>The number of pages of a hundred.\<close>

definition pages_of :: "nat \<Rightarrow> int" where
  "pages_of n = \<lceil>(of_nat n :: rat) / 100\<rceil>"

definition handle_get_global_lb :: "api_env \<Rightarrow> nat \<Rightarrow> 'z lb_db_scheme api_action" where
  "handle_get_global_lb env page =
     (let start = as_i32 (as_u32 (int page * 100));
          stop = as_i32 (start + 100)
      in and_then (or_reject env (get_global_lb start stop)) (\<lambda>r.
           Ok (BodyEntries (map (ranked_entry_into (ap_lb env)) r))))"

definition handle_get_global_lb_len :: "api_env \<Rightarrow> 'z lb_db_scheme api_action" where
  "handle_get_global_lb_len env =
     and_then (or_reject env get_global_lb_count) (\<lambda>n. Ok (BodyLen (int n) (pages_of n)))"

definition handle_get_global_overview :: "api_env \<Rightarrow> 'z lb_db_scheme api_action" where
  "handle_get_global_overview env = and_then (or_reject env get_global_overview) (\<lambda>j. Ok (BodyJson j))"

definition handle_get_server_info :: "api_env \<Rightarrow> nat \<Rightarrow> 'z lb_db_scheme api_action" where
  "handle_get_server_info env now = and_then (or_reject env (get_server_info now)) (\<lambda>n. Ok (BodyServerInfo n))"

definition with_user ::
    "api_env \<Rightarrow> string \<Rightarrow> (uuid \<Rightarrow> ('d, rejection, 'a) db_action) \<Rightarrow> ('d, rejection, 'a) db_action" where
  "with_user env s f =
     (case le_parse_uuid (ap_lb env) s of Inl _ \<Rightarrow> Err (ApiErrRejection ''Invalid user id'') | Inr u \<Rightarrow> f u)"

text \<open>An error of the query is answered like a player without a rank.\<close>

definition handle_get_user_lb_pos :: "api_env \<Rightarrow> string \<Rightarrow> 'z lb_db_scheme api_action" where
  "handle_get_user_lb_pos env user =
     with_user env user (\<lambda>user_id.
       and_then (attempt (get_user_in_lb user_id)) (\<lambda>r.
         Ok (BodyEntry (map_option (ranked_entry_into (ap_lb env)) (case r of Inl _ \<Rightarrow> None | Inr e \<Rightarrow> e)))))"

definition handle_get_user_live_heights :: "api_env \<Rightarrow> string \<Rightarrow> 'z lb_db_scheme api_action" where
  "handle_get_user_live_heights env user =
     with_user env user (\<lambda>user_id.
       and_then (or_reject env (get_users_latest_height (le_wf (ap_lb env)) user_id)) (\<lambda>l. Ok (BodyHeightLog l)))"

definition handle_get_map_uid_live_heights :: "api_env \<Rightarrow> nat \<Rightarrow> string \<Rightarrow> 'z lb_db_scheme api_action" where
  "handle_get_map_uid_live_heights env now map_uid =
     and_then (or_reject env (get_map_live_heights (ap_lb env) now map_uid)) (\<lambda>l. Ok (BodyLive l))"

definition get_live_leaderboard :: "api_env \<Rightarrow> nat \<Rightarrow> 'z lb_db_scheme api_action" where
  "get_live_leaderboard env now =
     and_then (or_reject env (get_map_live_heights (ap_lb env) now DD2_MAP_UID)) (\<lambda>l. Ok (BodyLive l))"

definition handle_get_donations :: "api_env \<Rightarrow> nat \<Rightarrow> 'z api_server_scheme api_action" where
  "handle_get_donations env inst s =
     (let totals = and_then (get_prize_pool_total (ap_donation env)) (\<lambda>pp.
            and_then get_gfm_donations_latest (\<lambda>gfm. Ok (gfm, pp)))
      in case get_or_insert_with (=) inst () SLOW_ROUTE_TTL (fst (totals s)) (cached_donations s) of
           (Inl e, c) \<Rightarrow> (Inl (ApiErrRejection (ap_show_db env e)), s\<lparr>cached_donations := c\<rparr>)
         | (Inr (_, gfm, pp), c) \<Rightarrow> (Inr (BodyDonations gfm pp), s\<lparr>cached_donations := c\<rparr>))"

definition get_twitch_profiles_all :: "('z lb_db_scheme, api_error, (string \<times> string option) list) db_action" where
  "get_twitch_profiles_all = fetch (\<lambda>d. Inr (map (\<lambda>(u, name). (name, display_name_of u d)) (twitch_usernames d)))"

definition handle_get_twitch_list :: "api_env \<Rightarrow> nat \<Rightarrow> 'z api_server_scheme api_action" where
  "handle_get_twitch_list env inst s =
     (case get_or_insert_with (=) inst () SLOW_ROUTE_TTL (fst (get_twitch_profiles_all s)) (cached_twitch_list s) of
        (Inl e, c) \<Rightarrow> (Inl (ApiErrRejection (ap_show_api env e)), s\<lparr>cached_twitch_list := c\<rparr>)
      | (Inr (_, r), c) \<Rightarrow> (Inr (BodyTwitch r), s\<lparr>cached_twitch_list := c\<rparr>))"

definition handle_get_custom_map_aux_spec :: "api_env \<Rightarrow> string \<Rightarrow> string \<Rightarrow> 'z wf_db_scheme api_action" where
  "handle_get_custom_map_aux_spec env wsid name_id =
     with_user env wsid (\<lambda>user_id.
       and_then (or_reject env (get_spec user_id name_id)) (\<lambda>r.
         case r of
           Some spec \<Rightarrow> Ok (BodyJson (spec_json_with_id (sx_id spec) (sx_spec spec)))
         | None \<Rightarrow> Err NotFound))"

definition handle_get_map_uid_nb_climbers :: "api_env \<Rightarrow> nat \<Rightarrow> string \<Rightarrow> 'z lb_db_scheme api_action" where
  "handle_get_map_uid_nb_climbers env now map_uid =
     and_then (or_reject env (get_map_nb_playing_live now map_uid)) (\<lambda>n. Ok (BodyClimbers n))"

definition handle_get_map_uid_leaderboard :: "api_env \<Rightarrow> nat \<Rightarrow> string \<Rightarrow> nat \<Rightarrow> 'z lb_db_scheme api_action" where
  "handle_get_map_uid_leaderboard env now map_uid page =
     and_then (or_reject env (get_map_leaderboard_page (le_wf (ap_lb env)) now map_uid page)) (\<lambda>r. Ok (BodyBoard r))"

definition handle_get_map_uid_leaderboard_len :: "api_env \<Rightarrow> nat \<Rightarrow> string \<Rightarrow> 'z lb_db_scheme api_action" where
  "handle_get_map_uid_leaderboard_len env now map_uid =
     and_then (or_reject env (get_map_leaderboard_len now map_uid)) (\<lambda>n. Ok (BodyLen (int n) (pages_of n)))"

definition reject_slug :: "string \<Rightarrow> ('d, rejection, unit) db_action" where
  "reject_slug slug = (if CHR ''/'' \<in> set slug then Err NotFound else Ok ())"

definition handle_get_map_uid_minigames :: "api_env \<Rightarrow> nat \<Rightarrow> string \<Rightarrow> 'z api_server_scheme api_action" where
  "handle_get_map_uid_minigames env inst map_uid s =
     (case get_or_insert_with (=) inst map_uid SLOW_ROUTE_TTL
             (Inr (get_minigame_list (le_wf (ap_lb env)) map_uid s)) (cached_minigame_list s) of
        (Inl e, c) \<Rightarrow> (Inl (ApiErrRejection (ap_show_db env e)), s\<lparr>cached_minigame_list := c\<rparr>)
      | (Inr (_, games), c) \<Rightarrow> (Inr (BodyMinigames map_uid games), s\<lparr>cached_minigame_list := c\<rparr>))"

definition handle_get_map_uid_minigame_leaderboard ::
    "api_env \<Rightarrow> string \<Rightarrow> string \<Rightarrow> nat \<Rightarrow> 'z wf_db_scheme api_action" where
  "handle_get_map_uid_minigame_leaderboard env map_uid slug page =
     and_then (reject_slug slug) (\<lambda>_.
     and_then (or_reject env (fetch (get_minigame_leaderboard_page (le_wf (ap_lb env)) map_uid slug page))) (\<lambda>entries.
       Ok (BodyMinigameLb map_uid slug entries)))"

definition handle_get_map_uid_minigame_leaderboard_len ::
    "api_env \<Rightarrow> string \<Rightarrow> string \<Rightarrow> 'z wf_db_scheme api_action" where
  "handle_get_map_uid_minigame_leaderboard_len env map_uid slug =
     and_then (reject_slug slug) (\<lambda>_.
     and_then (fetch (\<lambda>d. Inr (get_minigame_leaderboard_len map_uid slug d))) (\<lambda>n. Ok (BodyLen (int n) (pages_of n))))"

definition handle_get_map_uid_collectibles :: "api_env \<Rightarrow> nat \<Rightarrow> string \<Rightarrow> 'z api_server_scheme api_action" where
  "handle_get_map_uid_collectibles env inst map_uid s =
     (case get_or_insert_with (=) inst map_uid SLOW_ROUTE_TTL
             (Inr (get_collectible_list (le_wf (ap_lb env)) map_uid s)) (cached_collectible_list s) of
        (Inl e, c) \<Rightarrow> (Inl (ApiErrRejection (ap_show_db env e)), s\<lparr>cached_collectible_list := c\<rparr>)
      | (Inr (_, items), c) \<Rightarrow> (Inr (BodyCollectibles map_uid items), s\<lparr>cached_collectible_list := c\<rparr>))"

definition handle_get_listed_maps :: "api_env \<Rightarrow> nat \<Rightarrow> nat \<Rightarrow> nat \<Rightarrow> 'z api_server_scheme api_action" where
  "handle_get_listed_maps env now inst page s =
     (case get_or_insert_with (=) inst page SLOW_ROUTE_TTL
             (fst (get_listed_maps_page (le_wf (ap_lb env)) now page s)) (cached_listed_maps s) of
        (Inl e, c) \<Rightarrow> (Inl (ApiErrRejection (ap_show_db env e)), s\<lparr>cached_listed_maps := c\<rparr>)
      | (Inr (_, r), c) \<Rightarrow> (Inr (BodyListed r), s\<lparr>cached_listed_maps := c\<rparr>))"

definition handle_get_listed_maps_len :: "api_env \<Rightarrow> nat \<Rightarrow> 'z api_server_scheme api_action" where
  "handle_get_listed_maps_len env inst s =
     (case get_or_insert_with (=) inst () SLOW_ROUTE_TTL (fst (get_listed_maps_len s)) (cached_listed_maps_len s) of
        (Inl e, c) \<Rightarrow> (Inl (ApiErrRejection (ap_show_db env e)), s\<lparr>cached_listed_maps_len := c\<rparr>)
      | (Inr (_, n), c) \<Rightarrow>
          (Inr (BodyLen (int n) (listed_maps_page_count (int n))), s\<lparr>cached_listed_maps_len := c\<rparr>))"

section \<open>The pings of the game's scripts\<close>

definition log_ml_ping ::
    "nat \<Rightarrow> string \<Rightarrow> string \<Rightarrow> bool \<Rightarrow> string \<Rightarrow> ('z api_server_scheme, db_error, unit) db_action" where
  "log_ml_ping now ip_v4 ip_v6 is_intro user_agent s =
     (case (varchar_col 15 ip_v4, varchar_col 39 ip_v6, varchar_col 255 user_agent) of
        (Inr v4, Inr v6, Inr agent) \<Rightarrow>
          (Inr (), s\<lparr>ml_pings := ml_pings s @
             [\<lparr>mp_ip_v4 = v4, mp_ip_v6 = v6, mp_user_agent = agent, mp_is_intro = is_intro, mp_ts = now\<rparr>]\<rparr>)
      | (Inl e, _, _) \<Rightarrow> (Inl e, s)
      | (_, Inl e, _) \<Rightarrow> (Inl e, s)
      | (_, _, Inl e) \<Rightarrow> (Inl e, s))"

definition handle_mlping ::
    "nat \<Rightarrow> remote option \<Rightarrow> bool \<Rightarrow> string \<Rightarrow> 'z api_server_scheme api_action" where
  "handle_mlping now ip is_intro user_agent =
     (case ip of
        None \<Rightarrow> Ok (BodyStatus 200)
      | Some addr \<Rightarrow>
          (let (v4, v6) = (case addr of V4 a \<Rightarrow> (a, []) | V6 a \<Rightarrow> ([], a))
           in and_then (attempt (log_ml_ping now v4 v6 is_intro user_agent)) (\<lambda>r.
                case r of Inr _ \<Rightarrow> Ok (BodyStatus 200) | Inl _ \<Rightarrow> Ok (BodyStatus 500))))"

section \<open>Routes\<close>

text \<open>A route answers the paths it matches, given as their segments.\<close>

type_synonym 's route = "api_request \<Rightarrow> 's api_action option"

definition no_params :: "string list \<Rightarrow> (api_request \<Rightarrow> 's api_action) \<Rightarrow> 's route" where
  "no_params p h rq = (if rq_path rq = p then Some (h rq) else None)"

definition API_ROUTES :: "string list" where
  "API_ROUTES =
     [''/leaderboard/global'', ''/leaderboard/global/len'', ''/leaderboard/global/<page>'', ''/leaderboard/<wsid>'',
      ''/live_heights/global'', ''/live_heights/<wsid> (prefer global)'', ''/overview'', ''/server_info'', ''/donations'',
      ''/twitch/list'', ''/aux_spec/<wsid>/<name_id>.json'', ''/map/<uid>/nb_active_climbers'',
      ''/map/<uid>/leaderboard'', ''/map/<uid>/leaderboard/len'', ''/map/<uid>/leaderboard/<page>'',
      ''/map/<uid>/live_heights'', ''/map/<uid>/minigames'', ''/map/<uid>/minigame/<slug>/leaderboard'',
      ''/map/<uid>/minigame/<slug>/leaderboard/len'', ''/map/<uid>/minigame/<slug>/leaderboard/<page>'',
      ''/map/<uid>/collectibles'', ''/maps/listed'', ''/maps/listed/len'', ''/maps/listed/<page>'', ''/admin'',
      ''/api/mod/oauth/start'', ''/api/mod/oauth/callback'', ''/api/mod/me'', ''/api/mod/map/<uid>'',
      ''/api/mod/map/<uid>/bans'', ''/api/mod/map/<uid>/delegates'']"

fun joined_with :: "string \<Rightarrow> string list \<Rightarrow> string" where
  "joined_with sep [] = []"
| "joined_with sep [s] = s"
| "joined_with sep (s # t # ss) = s @ sep @ joined_with sep (t # ss)"

definition with_agent :: "(string \<Rightarrow> 's api_action) \<Rightarrow> api_request \<Rightarrow> 's api_action" where
  "with_agent h rq = (case rq_user_agent rq of None \<Rightarrow> Err (MissingHeader ''User-Agent'') | Some a \<Rightarrow> h a)"

text \<open>\<open>trim_end_matches(".json")\<close> takes the suffix off as often as it is there.\<close>

function trim_json :: "string \<Rightarrow> string" where
  "trim_json s = (if ends_with s ''.json'' then trim_json (take (length s - 5) s) else s)"
  by auto

lemma ends_with_length: "ends_with s p \<Longrightarrow> length p \<le> length s"
  unfolding ends_with_def starts_with_def by (metis length_rev length_take min.absorb_iff2 min.cobounded1)

termination trim_json
  by (relation "measure length") (auto dest: ends_with_length)

definition aux_spec_route :: "api_env \<Rightarrow> 'z wf_db_scheme route" where
  "aux_spec_route env rq =
     (case rq_path rq of
        [p, wsid, name_id] \<Rightarrow>
          if p = ''aux_spec'' then
            Some (if \<not> ends_with name_id ''.json'' then Err NotFound
                  else handle_get_custom_map_aux_spec env wsid (trim_json name_id))
          else None
      | _ \<Rightarrow> None)"

definition one_text :: "string \<Rightarrow> (string \<Rightarrow> api_request \<Rightarrow> 's api_action) \<Rightarrow> 's route" where
  "one_text stem h rq = (case rq_path rq of [p, x] \<Rightarrow> if p = stem then Some (h x rq) else None | _ \<Rightarrow> None)"

definition one_page :: "string list \<Rightarrow> (nat \<Rightarrow> api_request \<Rightarrow> 's api_action) \<Rightarrow> 's route" where
  "one_page stem h rq =
     (if rq_path rq \<noteq> [] \<and> butlast (rq_path rq) = stem
      then map_option (\<lambda>page. h page rq) (parse_u32 (last (rq_path rq))) else None)"

definition on_map_path :: "string list \<Rightarrow> (string \<Rightarrow> api_request \<Rightarrow> 's api_action) \<Rightarrow> 's route" where
  "on_map_path tail h rq =
     (case rq_path rq of p # uid # rest \<Rightarrow> if p = ''map'' \<and> rest = tail then Some (h uid rq) else None | _ \<Rightarrow> None)"

definition map_page :: "(string \<Rightarrow> nat \<Rightarrow> api_request \<Rightarrow> 's api_action) \<Rightarrow> 's route" where
  "map_page h rq =
     (case rq_path rq of
        [p, uid, q, page] \<Rightarrow>
          if p = ''map'' \<and> q = ''leaderboard'' then map_option (\<lambda>n. h uid n rq) (parse_u32 page) else None
      | _ \<Rightarrow> None)"

definition on_minigame ::
    "(string list \<Rightarrow> nat option) \<Rightarrow> (string \<Rightarrow> string \<Rightarrow> nat \<Rightarrow> api_request \<Rightarrow> 's api_action) \<Rightarrow> 's route" where
  "on_minigame tail h rq =
     (case rq_path rq of
        p # uid # q # slug # r # rest \<Rightarrow>
          if p = ''map'' \<and> q = ''minigame'' \<and> r = ''leaderboard''
          then map_option (\<lambda>n. h uid slug n rq) (tail rest) else None
      | _ \<Rightarrow> None)"

definition core_routes :: "api_env \<Rightarrow> 'z api_server_scheme route list" where
  "core_routes env =
     [no_params [''mlping.Script.txt''] (\<lambda>rq. with_agent (handle_mlping (rq_now rq) (rq_remote rq) False) rq),
      no_params [''mlping_intro.Script.txt''] (\<lambda>rq. with_agent (handle_mlping (rq_now rq) (rq_remote rq) True) rq),
      no_params [''api'', ''routes''] (\<lambda>rq. Ok (BodyText (''Routes: '' @ joined_with '', '' API_ROUTES))),
      no_params [''version''] (\<lambda>rq. Ok (BodyText (ap_version env))),
      no_params [''leaderboard'', ''global''] (\<lambda>rq. handle_get_global_lb env 0),
      no_params [''leaderboard'', ''global'', ''len''] (\<lambda>rq. handle_get_global_lb_len env),
      one_page [''leaderboard'', ''global''] (\<lambda>page rq. handle_get_global_lb env page),
      no_params [''overview''] (\<lambda>rq. handle_get_global_overview env),
      no_params [''server_info''] (\<lambda>rq. handle_get_server_info env (rq_now rq)),
      one_text ''leaderboard'' (\<lambda>s rq. handle_get_user_lb_pos env s),
      no_params [''live_heights'', ''global''] (\<lambda>rq. get_live_leaderboard env (rq_now rq)),
      one_text ''live_heights'' (\<lambda>s rq. handle_get_user_live_heights env s),
      no_params [''donations''] (\<lambda>rq. handle_get_donations env (rq_inst rq)),
      no_params [''twitch'', ''list''] (\<lambda>rq. handle_get_twitch_list env (rq_inst rq))]"

definition map_routes :: "api_env \<Rightarrow> 'z api_server_scheme route list" where
  "map_routes env =
     [aux_spec_route env,
      on_map_path [''nb_active_climbers''] (\<lambda>uid rq. handle_get_map_uid_nb_climbers env (rq_now rq) uid),
      on_map_path [''leaderboard''] (\<lambda>uid rq. handle_get_map_uid_leaderboard env (rq_now rq) uid 0),
      on_map_path [''leaderboard'', ''len''] (\<lambda>uid rq. handle_get_map_uid_leaderboard_len env (rq_now rq) uid),
      map_page (\<lambda>uid page rq. handle_get_map_uid_leaderboard env (rq_now rq) uid page),
      on_map_path [''live_heights''] (\<lambda>uid rq. handle_get_map_uid_live_heights env (rq_now rq) uid),
      on_map_path [''minigames''] (\<lambda>uid rq. handle_get_map_uid_minigames env (rq_inst rq) uid),
      on_minigame (\<lambda>rest. if rest = [] then Some 0 else None)
        (\<lambda>uid slug n rq. handle_get_map_uid_minigame_leaderboard env uid slug 0),
      on_minigame (\<lambda>rest. if rest = [''len''] then Some 0 else None)
        (\<lambda>uid slug n rq. handle_get_map_uid_minigame_leaderboard_len env uid slug),
      on_minigame (\<lambda>rest. case rest of [page] \<Rightarrow> parse_u32 page | _ \<Rightarrow> None)
        (\<lambda>uid slug page rq. handle_get_map_uid_minigame_leaderboard env uid slug page),
      on_map_path [''collectibles''] (\<lambda>uid rq. handle_get_map_uid_collectibles env (rq_inst rq) uid)]"

definition listed_routes :: "api_env \<Rightarrow> 'z api_server_scheme route list" where
  "listed_routes env =
     [no_params [''maps'', ''listed''] (\<lambda>rq. handle_get_listed_maps env (rq_now rq) (rq_inst rq) 0),
      no_params [''maps'', ''listed'', ''len''] (\<lambda>rq. handle_get_listed_maps_len env (rq_inst rq)),
      one_page [''maps'', ''listed''] (\<lambda>page rq. handle_get_listed_maps env (rq_now rq) (rq_inst rq) page)]"

text \<open>
  \<open>or\<close>: a route that does not match, or whose handler rejects, passes the request on.  What warp makes
  of the rejections of all routes is its own.
\<close>

fun first_reply :: "'s route list \<Rightarrow> api_request \<Rightarrow> 's \<Rightarrow> (rejection list + api_body) \<times> 's" where
  "first_reply [] rq s = (Inl [], s)"
| "first_reply (r # routes) rq s =
     (case r rq of
        None \<Rightarrow> first_reply routes rq s
      | Some h \<Rightarrow>
          (case h s of
             (Inr body, s1) \<Rightarrow> (Inr body, s1)
           | (Inl e, s1) \<Rightarrow>
               (case first_reply routes rq s1 of
                  (Inl es, s2) \<Rightarrow> (Inl (e # es), s2)
                | (Inr body, s2) \<Rightarrow> (Inr body, s2))))"

text \<open>The site up to its last alternative, the routes of the moderators.\<close>

definition site :: "api_env \<Rightarrow> api_request \<Rightarrow> 'z api_server_scheme \<Rightarrow> (rejection list + api_body) \<times> 'z api_server_scheme" where
  "site env = first_reply (core_routes env @ map_routes env @ listed_routes env)"

section \<open>What the site changes\<close>

text \<open>The server without the ping log, the caches and the hit counters of the specs.\<close>

definition api_rest :: "'z api_server_scheme \<Rightarrow> 'z api_server_scheme" where
  "api_rest s = s\<lparr>aux_specs := map (\<lambda>x. x\<lparr>sx_hit_counter := 0\<rparr>) (aux_specs s), ml_pings := [],
     cached_listed_maps := default_cache 0, cached_listed_maps_len := default_cache 0,
     cached_minigame_list := default_cache 0, cached_collectible_list := default_cache 0,
     cached_donations := default_cache 0, cached_twitch_list := default_cache 0\<rparr>"

definition public_frame :: "'z api_server_scheme \<Rightarrow> 'z api_server_scheme \<Rightarrow> bool" where
  "public_frame s s' \<longleftrightarrow> api_rest s' = api_rest s"

interpretation public: frame public_frame
  by unfold_locales (simp_all add: public_frame_def)

lemma public_reads:
  "stays public_frame (get_global_lb a b)" "stays public_frame get_global_lb_count" "stays public_frame get_global_overview"
  "stays public_frame (get_server_info t)" "stays public_frame (get_user_in_lb u)"
  "stays public_frame (get_users_latest_height e u)" "stays public_frame (get_map_live_heights le t m)"
  "stays public_frame (get_map_nb_playing_live t m)" "stays public_frame (get_map_leaderboard_page e t m n)"
  "stays public_frame (get_map_leaderboard_len t m)"
  unfolding get_global_lb_def get_global_lb_count_def get_global_overview_def get_server_info_def get_user_in_lb_def
    get_users_latest_height_def get_map_live_heights_def get_map_nb_playing_live_def get_map_leaderboard_page_def
    get_map_leaderboard_def get_map_leaderboard_len_def fetch_by_text_def Let_def
  by (intro public.stays_rules)+

lemma public_get_spec: "stays public_frame (get_spec u n)"
  by (auto simp: stays_def get_spec_def public_frame_def api_rest_def upd_where_def Let_def)

lemma public_user: "(\<And>u. stays public_frame (f u)) \<Longrightarrow> stays public_frame (with_user env s f)"
  unfolding with_user_def by (intro public.stays_rules)

lemma public_handlers:
  "stays public_frame (handle_get_global_lb env page)" "stays public_frame (handle_get_global_lb_len env)"
  "stays public_frame (handle_get_global_overview env)" "stays public_frame (handle_get_server_info env t)"
  "stays public_frame (handle_get_user_lb_pos env user)" "stays public_frame (handle_get_user_live_heights env user)"
  "stays public_frame (handle_get_map_uid_live_heights env t m)" "stays public_frame (get_live_leaderboard env t)"
  "stays public_frame (handle_get_custom_map_aux_spec env w n)" "stays public_frame (handle_get_map_uid_nb_climbers env t m)"
  "stays public_frame (handle_get_map_uid_leaderboard env t m page)"
  "stays public_frame (handle_get_map_uid_leaderboard_len env t m)"
  "stays public_frame (handle_get_map_uid_minigame_leaderboard env m slug page)"
  "stays public_frame (handle_get_map_uid_minigame_leaderboard_len env m slug)"
  unfolding handle_get_global_lb_def handle_get_global_lb_len_def handle_get_global_overview_def handle_get_server_info_def
    handle_get_user_lb_pos_def handle_get_user_live_heights_def handle_get_map_uid_live_heights_def get_live_leaderboard_def
    handle_get_custom_map_aux_spec_def handle_get_map_uid_nb_climbers_def handle_get_map_uid_leaderboard_def
    handle_get_map_uid_leaderboard_len_def handle_get_map_uid_minigame_leaderboard_def
    handle_get_map_uid_minigame_leaderboard_len_def or_reject_def reject_slug_def Let_def
  by (intro public_user public.stays_rules public_reads public_get_spec)+

lemma public_cached:
  "stays public_frame (handle_get_donations env i)" "stays public_frame (handle_get_twitch_list env i)"
  "stays public_frame (handle_get_map_uid_minigames env i m)" "stays public_frame (handle_get_map_uid_collectibles env i m)"
  "stays public_frame (handle_get_listed_maps env t i page)" "stays public_frame (handle_get_listed_maps_len env i)"
  by (auto simp: stays_def public_frame_def api_rest_def handle_get_donations_def handle_get_twitch_list_def
      handle_get_map_uid_minigames_def handle_get_map_uid_collectibles_def handle_get_listed_maps_def
      handle_get_listed_maps_len_def Let_def split: prod.split sum.split)

lemma public_mlping: "stays public_frame (handle_mlping t ip b agent)"
proof -
  have "stays public_frame (log_ml_ping t a b c d)" for a b c d
    by (auto simp: stays_def public_frame_def api_rest_def log_ml_ping_def split: sum.split)
  then show ?thesis
    unfolding handle_mlping_def Let_def by (intro public.stays_rules)
qed

definition public_route :: "'z api_server_scheme route \<Rightarrow> bool" where
  "public_route r \<longleftrightarrow> (\<forall>rq. pred_option (stays public_frame) (r rq))"

lemma public_routes:
  "(\<And>rq. stays public_frame (h rq)) \<Longrightarrow> public_route (no_params p h)"
  "(\<And>x rq. stays public_frame (h1 x rq)) \<Longrightarrow> public_route (one_text stem h1)"
  "(\<And>n rq. stays public_frame (h2 n rq)) \<Longrightarrow> public_route (one_page stems h2)"
  "(\<And>x rq. stays public_frame (h3 x rq)) \<Longrightarrow> public_route (on_map_path tail h3)"
  "(\<And>x n rq. stays public_frame (h4 x n rq)) \<Longrightarrow> public_route (map_page h4)"
  "(\<And>x y n rq. stays public_frame (h5 x y n rq)) \<Longrightarrow> public_route (on_minigame tails h5)"
  by (auto simp: public_route_def no_params_def one_text_def one_page_def on_map_path_def map_page_def on_minigame_def
      option.pred_map option.pred_True comp_def split: list.split)

lemma public_aux_spec_route: "public_route (aux_spec_route env)"
  by (auto simp: public_route_def aux_spec_route_def public_handlers public.stays_err split: list.split)

lemma public_agent: "(\<And>a. stays public_frame (h a)) \<Longrightarrow> stays public_frame (with_agent h rq)"
  unfolding with_agent_def by (intro public.stays_rules)

lemma public_site_routes: "list_all public_route (core_routes env @ map_routes env @ listed_routes env)"
  unfolding core_routes_def map_routes_def listed_routes_def
  by (simp only: append.simps list.pred_inject)
     (intro conjI public_routes public_aux_spec_route public_agent public_mlping public_handlers public_cached
       public.stays_ok TrueI)

lemma first_reply_frame:
  "list_all public_route routes \<Longrightarrow> public_frame s (snd (first_reply routes rq s))"
proof (induction routes rq s rule: first_reply.induct)
  case (2 r routes rq s)
  show ?case
  proof (cases "r rq")
    case None
    then show ?thesis using 2 by simp
  next
    case (Some h)
    obtain x s1 where run: "h s = (x, s1)" by fastforce
    have "stays public_frame h" using 2(3) Some by (auto simp: public_route_def option.pred_set)
    then have "public_frame s s1" using run staysD by (metis snd_conv)
    moreover have "public_frame s1 (snd (first_reply routes rq s1))" if "x = Inl e" for e
      using 2(2) [OF Some run [symmetric]] that 2(3) by simp
    ultimately show ?thesis
      using Some run by (auto split: sum.split prod.split) (metis public.chain snd_conv)+
  qed
qed (simp add: public.same)

text \<open>
  C24. No request to the public site, the moderators' routes apart, changes anything but the log of pings, the caches of answers and
  the hit counters of specs: no board, no spec, no account and no moderation, whatever the path
  and whichever routes reject it.
\<close>

theorem public_site_harmless: "api_rest (snd (site env rq s)) = api_rest s"
  using first_reply_frame [OF public_site_routes, of s env rq] by (simp add: site_def public_frame_def)

section \<open>The pages of the Deep Dip board\<close>

lemma global_page_rows:
  assumes "page < 21474835"
  shows "fst (handle_get_global_lb env page d) = Inr (BodyEntries
    (map (ranked_entry_into (ap_lb env)) (take 100 (drop (100 * page - 1) (ranked_lb_view d)))))"
proof -
  have start: "as_i32 (as_u32 (int page * 100)) = int page * 100"
    using assms by (simp add: as_u32_id as_i32_id)
  have stop: "as_i32 (int page * 100 + 100) = int page * 100 + 100" "as_i32 100 = 100"
    using assms by (simp_all add: as_i32_id)
  have "nat (max (int page * 100 - 1) 0) = 100 * page - 1" by simp
  then show ?thesis
    by (simp add: handle_get_global_lb_def start stop get_global_lb_def and_then_def or_reject_def map_err_def
        limit_offset_def)
qed

lemma pages_of_hundreds: "pages_of (100 * k) = int k"
  by (simp add: pages_of_def)

text \<open>
  C28. The pages of the Deep Dip board start one row early from the second page on: when the board
  has a multiple of a hundred players, two hundred or more (and so few that a row number fits 32
  bits), the pages it says it has are those of the board without its last player, who is on none of
  them.  The one page of a hundred players has them all.
\<close>

theorem global_pages_lose_last:
  assumes "length (ranked_lb_view d) = 100 * k" "2 \<le> k" "k < 21474835" "page < k"
  shows "fst (handle_get_global_lb_len env d) = Inr (BodyLen (100 * int k) (int k)) \<and>
    fst (handle_get_global_lb env page d) = Inr (BodyEntries
      (map (ranked_entry_into (ap_lb env)) (take 100 (drop (100 * page - 1) (butlast (ranked_lb_view d))))))"
proof -
  have "100 * page - 1 + 100 \<le> 100 * k - 1" using assms(2,4) by (cases page) simp_all
  then have "take 100 (drop (100 * page - 1) (butlast (ranked_lb_view d))) =
      take 100 (drop (100 * page - 1) (ranked_lb_view d))"
    using assms(1) by (simp add: butlast_conv_take take_drop)
  moreover have "fst (handle_get_global_lb_len env d) = Inr (BodyLen (100 * int k) (int k))"
    using assms(1) pages_of_hundreds [of k]
    by (simp add: handle_get_global_lb_len_def get_global_lb_count_def and_then_def or_reject_def map_err_def)
  ultimately show ?thesis using global_page_rows [of page env d] assms(3,4) by simp
qed

definition sample_api_env :: api_env where
  "sample_api_env = \<lparr>ap_lb = sample_lb_env, ap_donation = sample_donation_env, ap_show_db = (\<lambda>_. []),
     ap_show_api = (\<lambda>_. []), ap_version = ''0''\<rparr>"

definition board_of :: "nat \<Rightarrow> lb_db" where
  "board_of n = (with_tables sample_db)\<lparr>leaderboard := map (\<lambda>i.
     \<lparr>ll_user_id = of_nat i, ll_height = Fin (of_nat i), ll_update_count = 0, ll_ts = 1\<rparr>) [0..<n]\<rparr>"

lemma board_of_length: "length (ranked_lb_view (board_of n)) = n"
  by (simp add: ranked_lb_view_def ranked_rows_def board_of_def sample_tables_empty)

theorem global_pages_lose_last_witness:
  "fst (handle_get_global_lb sample_api_env 1 (board_of 200)) = Inr (BodyEntries
     (map (ranked_entry_into sample_lb_env) (take 100 (drop 99 (butlast (ranked_lb_view (board_of 200))))))) \<and>
   fst (handle_get_global_lb_len sample_api_env (board_of 200)) = Inr (BodyLen 200 2)"
  using global_pages_lose_last [of "board_of 200" 2 1 sample_api_env] board_of_length [of 200]
  by (simp add: sample_api_env_def)

end
