(* ===== verification/Lifecycle.thy ===== *)
theory Lifecycle
  imports Connection
begin

text \<open>
  How connections come and go, \<open>src/server2.rs\<close>: the manager that accepts them under a limit
  (\<open>PlayerMgr::run\<close> and \<open>accept\<close>), and the tasks of one connection (\<open>XPlayer::run\<close>, \<open>handle\<close>, the read,
  write and manager loops) with the cancellation token its three loops share.  What a request does
  is in \<open>Connection\<close>, whom a message is for in \<open>Presence\<close>.

  An event is one await point passed by one task, so a run is a list of events.  Of
  \<open>tokio_graceful_shutdown\<close> the model uses that a subsystem's token is cancelled when the program
  shuts down, and that cancelling a token made from it cancels nothing else;
  \<open>sn_panic_stops\<close> is whether a subsystem that panics shuts the program down.
\<close>

section \<open>One connection\<close>

text \<open>\<open>ToPlayer\<close> of \<open>src/player.rs\<close>.\<close>

datatype to_player =
    NotifyRecord
  | ToTop3 "leaderboard_entry list"
  | ToShutdown
  | ToSend response

text \<open>\<open>Starting n\<close>: \<open>n\<close> of the tasks of \<open>send_init_stats\<close> still run.\<close>

datatype phase = Authenticating | Starting nat | Reading | Draining | Over

text \<open>
  \<open>ct_serving\<close> says whether the read loop is in a handler rather than at its \<open>select!\<close>.  \<open>ct_write\<close> and
  \<open>ct_mgr\<close> say whether the two loops run, \<open>ct_writing\<close> is the response the write loop is writing,
  \<open>ct_sent\<close> is what the socket took.  The permit is held until the connection is \<open>Over\<close>.
\<close>

record conn_task =
  ct_phase :: phase
  ct_cancelled :: bool
  ct_serving :: bool
  ct_write :: bool
  ct_writing :: "response option"
  ct_mgr :: bool
  ct_inbox :: "to_player list"
  ct_queue :: "response list"
  ct_sent :: "response list"

record server_env =
  sn_fmt_db :: "db_error \<Rightarrow> string"
  sn_fmt :: "api_error \<Rightarrow> string"
  sn_show_uuid :: "uuid \<Rightarrow> string"
  sn_panic_stops :: bool

definition new_task :: conn_task where
  "new_task = \<lparr>ct_phase = Authenticating, ct_cancelled = False, ct_serving = False,
     ct_write = False, ct_writing = None, ct_mgr = False,
     ct_inbox = [], ct_queue = [], ct_sent = []\<rparr>"

fun is_starting :: "phase \<Rightarrow> bool" where
  "is_starting Authenticating = True"
| "is_starting (Starting n) = True"
| "is_starting _ = False"

text \<open>The receivers of the two channels belong to the connection, then to the loops.\<close>

definition queue_open :: "conn_task \<Rightarrow> bool" where
  "queue_open c \<longleftrightarrow> is_starting (ct_phase c) \<or> ct_write c"

definition inbox_open :: "conn_task \<Rightarrow> bool" where
  "inbox_open c \<longleftrightarrow> is_starting (ct_phase c) \<or> ct_mgr c"

definition put_queue :: "response list \<Rightarrow> conn_task \<Rightarrow> conn_task" where
  "put_queue rs c = (if queue_open c then c\<lparr>ct_queue := ct_queue c @ rs\<rparr> else c)"

definition put_inbox :: "to_player \<Rightarrow> conn_task \<Rightarrow> conn_task" where
  "put_inbox m c = (if inbox_open c then c\<lparr>ct_inbox := ct_inbox c @ [m]\<rparr> else c)"

text \<open>The end of \<open>run\<close>, which drops the receivers no loop has taken.\<close>

definition finish_task :: "conn_task \<Rightarrow> conn_task" where
  "finish_task c = c\<lparr>ct_phase := Over, ct_serving := False, ct_inbox := (if ct_mgr c then ct_inbox c else []),
     ct_queue := (if ct_write c then ct_queue c else [])\<rparr>"

text \<open>The start of \<open>handle\<close>: \<open>written\<close> is whether the socket took the answer.\<close>

definition after_auth :: "server_env \<Rightarrow> api_error + login_session \<Rightarrow> bool \<Rightarrow> conn_task \<Rightarrow> conn_task" where
  "after_auth env r written c =
     (let c1 = (if written then c\<lparr>ct_sent := ct_sent c @ [auth_response (sn_fmt_db env) (sn_fmt env) (sn_show_uuid env) r]\<rparr>
                else c)
      in case r of
           Inl _ \<Rightarrow> finish_task c1
         | Inr _ \<Rightarrow> if written then c1\<lparr>ct_phase := Starting 3\<rparr> else finish_task c1)"

definition end_write :: "conn_task \<Rightarrow> conn_task" where
  "end_write c = c\<lparr>ct_write := False, ct_writing := None, ct_queue := []\<rparr>"

definition end_mgr :: "conn_task \<Rightarrow> conn_task" where
  "end_mgr c = c\<lparr>ct_mgr := False, ct_inbox := []\<rparr>"

fun forward :: "to_player \<Rightarrow> conn_task \<Rightarrow> conn_task" where
  "forward ToShutdown c = end_mgr c"
| "forward (ToTop3 top3) c = put_queue [RTop3 top3] c"
| "forward (ToSend r) c = put_queue [r] c"
| "forward NotifyRecord c = c"

text \<open>
  \<open>ReadNext\<close> is a request that arrives, \<open>Served\<close> the end of its handler, \<open>Answers\<close> what a task it left
  behind puts on the queue; \<open>Unwinds\<close> is a panic in the handler (\<open>Connection.read_loop\<close>); \<open>Dropped\<close> the
  shutdown seen by \<open>run\<close>, whose loops go on by themselves.
\<close>

datatype write_event = WriteNext | WriteDone | WriteFails | WriteStops

datatype mgr_event = MgrNext | MgrStops

datatype task_event =
    Login "api_error + login_session" bool
  | InitDone "response option"
  | StartLoops
  | ReadNext
  | Served "response list"
  | Answers "response list"
  | ReadFails
  | ReadStops
  | Unwinds
  | WriteLoop write_event
  | MgrLoop mgr_event
  | Drained
  | Dropped

text \<open>\<open>down\<close>: the program is shutting down, which cancels every token.\<close>

definition is_told :: "bool \<Rightarrow> conn_task \<Rightarrow> bool" where
  "is_told down c \<longleftrightarrow> down \<or> ct_cancelled c"

definition only_if :: "bool \<Rightarrow> 'a \<Rightarrow> 'a option" where
  "only_if b x = (if b then Some x else None)"

lemma only_if_Some [simp]: "only_if b x = Some y \<longleftrightarrow> b \<and> y = x"
  by (auto simp: only_if_def)

text \<open>
  The write loop leaves what is still queued when it ends.  It sees the token only at its \<open>select!\<close>: a
  write that has begun ends when the socket takes the response (\<open>WriteDone\<close>) or fails, whatever the
  token says.  Shutting the write half down at the end does not wait for the client.  The other loop forwards the manager's messages.
\<close>

fun write_turn :: "bool \<Rightarrow> write_event \<Rightarrow> conn_task \<Rightarrow> conn_task option" where
  "write_turn down WriteNext c =
     (case (ct_writing c, ct_queue c) of
        (None, r # rs) \<Rightarrow> Some (c\<lparr>ct_queue := rs, ct_writing := Some r\<rparr>)
      | _ \<Rightarrow> None)"
| "write_turn down WriteDone c =
     (case ct_writing c of
        Some r \<Rightarrow> Some (c\<lparr>ct_writing := None, ct_sent := ct_sent c @ [r]\<rparr>)
      | None \<Rightarrow> None)"
| "write_turn down WriteFails c = only_if (ct_writing c \<noteq> None) (end_write c\<lparr>ct_cancelled := True\<rparr>)"
| "write_turn down WriteStops c = only_if (ct_writing c = None \<and> is_told down c) (end_write c)"

fun mgr_turn :: "bool \<Rightarrow> mgr_event \<Rightarrow> conn_task \<Rightarrow> conn_task option" where
  "mgr_turn down MgrNext c =
     (case ct_inbox c of [] \<Rightarrow> None | m # ms \<Rightarrow> Some (forward m (c\<lparr>ct_inbox := ms\<rparr>)))"
| "mgr_turn down MgrStops c = only_if (is_told down c) (end_mgr c)"

fun task_turn :: "server_env \<Rightarrow> bool \<Rightarrow> task_event \<Rightarrow> conn_task \<Rightarrow> conn_task option" where
  "task_turn env down (Login r written) c =
     only_if (ct_phase c = Authenticating) (after_auth env r written c)"
| "task_turn env down (InitDone out) c =
     (case ct_phase c of
        Starting (Suc n) \<Rightarrow> Some ((case out of None \<Rightarrow> c | Some r \<Rightarrow> put_queue [r] c)\<lparr>ct_phase := Starting n\<rparr>)
      | _ \<Rightarrow> None)"
| "task_turn env down StartLoops c =
     only_if (ct_phase c = Starting 0) (c\<lparr>ct_phase := Reading, ct_write := True, ct_mgr := True\<rparr>)"
| "task_turn env down ReadNext c = only_if (ct_phase c = Reading \<and> \<not> ct_serving c) (c\<lparr>ct_serving := True\<rparr>)"
| "task_turn env down (Served rs) c =
     only_if (ct_phase c = Reading \<and> ct_serving c) (put_queue rs c\<lparr>ct_serving := False\<rparr>)"
| "task_turn env down (Answers rs) c = only_if (\<not> is_starting (ct_phase c)) (put_queue rs c)"
| "task_turn env down ReadFails c =
     only_if (ct_phase c = Reading \<and> \<not> ct_serving c) (c\<lparr>ct_phase := Draining, ct_cancelled := True\<rparr>)"
| "task_turn env down ReadStops c =
     only_if (ct_phase c = Reading \<and> \<not> ct_serving c \<and> is_told down c) (c\<lparr>ct_phase := Draining\<rparr>)"
| "task_turn env down Unwinds c = only_if (ct_phase c = Reading \<and> ct_serving c) (finish_task c)"
| "task_turn env down (WriteLoop w) c = (if ct_write c then write_turn down w c else None)"
| "task_turn env down (MgrLoop m) c = (if ct_mgr c then mgr_turn down m c else None)"
| "task_turn env down Drained c = only_if (ct_phase c = Draining \<and> \<not> ct_write c \<and> \<not> ct_mgr c) (finish_task c)"
| "task_turn env down Dropped c = only_if (ct_phase c \<noteq> Over \<and> down) (finish_task c)"

section \<open>The manager\<close>

definition MAX_CONNECTIONS :: nat where "MAX_CONNECTIONS = 4096"

text \<open>\<open>accept\<close> waits for a permit, then for the listener, with the seconds it would sleep after an error.\<close>

datatype accepting = AwaitPermit | Listening nat | Stopped

record server =
  sr_free :: nat
  sr_accept :: accepting
  sr_down :: bool
  sr_tasks :: "conn_task list"
  sr_players :: "nat list"

definition start_server :: server where
  "start_server = \<lparr>sr_free = MAX_CONNECTIONS, sr_accept = AwaitPermit, sr_down = False, sr_tasks = [], sr_players = []\<rparr>"

datatype event =
    TakePermit
  | Incoming
  | AcceptError
  | AcceptCancelled
  | AskShutdown
  | ManagerStops
  | Tell "nat list" to_player
  | Conn nat task_event

definition tell :: "nat list \<Rightarrow> to_player \<Rightarrow> conn_task list \<Rightarrow> conn_task list" where
  "tell ns m tasks = map (\<lambda>(i, c). if i \<in> set ns then put_inbox m c else c) (enumerate 0 tasks)"

definition open_players :: "server \<Rightarrow> nat list" where
  "open_players s = filter (\<lambda>i. inbox_open (sr_tasks s ! i)) (sr_players s)"

definition conn_turn :: "server_env \<Rightarrow> nat \<Rightarrow> task_event \<Rightarrow> server \<Rightarrow> server option" where
  "conn_turn env i te s =
     (if length (sr_tasks s) \<le> i then None
      else case task_turn env (sr_down s) te (sr_tasks s ! i) of
        None \<Rightarrow> None
      | Some c \<Rightarrow> Some (s\<lparr>sr_tasks := (sr_tasks s)[i := c],
          sr_free := sr_free s + (if ct_phase c = Over \<and> ct_phase (sr_tasks s ! i) \<noteq> Over then 1 else 0),
          sr_down := sr_down s \<or> te = Unwinds \<and> sn_panic_stops env\<rparr>))"

definition accept_failed :: "nat \<Rightarrow> server \<Rightarrow> server" where
  "accept_failed backoff s =
     (if 64 < backoff then s\<lparr>sr_accept := Stopped, sr_free := sr_free s + 1, sr_down := True\<rparr>
      else s\<lparr>sr_accept := Listening (2 * backoff)\<rparr>)"

fun turn :: "server_env \<Rightarrow> event \<Rightarrow> server \<Rightarrow> server option" where
  "turn env TakePermit s =
     only_if (sr_accept s = AwaitPermit \<and> 0 < sr_free s) (s\<lparr>sr_accept := Listening 1, sr_free := sr_free s - 1\<rparr>)"
| "turn env Incoming s =
     (case sr_accept s of
        Listening _ \<Rightarrow> Some (s\<lparr>sr_accept := AwaitPermit, sr_tasks := sr_tasks s @ [new_task],
          sr_players := sr_players s @ [length (sr_tasks s)]\<rparr>)
      | _ \<Rightarrow> None)"
| "turn env AcceptError s =
     (case sr_accept s of
        Listening backoff \<Rightarrow> Some (accept_failed backoff s)
      | _ \<Rightarrow> None)"
| "turn env AcceptCancelled s =
     (case sr_accept s of
        Listening _ \<Rightarrow> only_if (sr_down s) (s\<lparr>sr_accept := Stopped, sr_free := sr_free s + 1\<rparr>)
      | _ \<Rightarrow> None)"
| "turn env AskShutdown s = Some (s\<lparr>sr_down := True\<rparr>)"
| "turn env ManagerStops s =
     only_if (sr_down s \<and> sr_accept s \<noteq> Stopped)
       (s\<lparr>sr_free := (case sr_accept s of Listening _ \<Rightarrow> sr_free s + 1 | _ \<Rightarrow> sr_free s), sr_accept := Stopped,
          sr_tasks := tell (sr_players s) ToShutdown (sr_tasks s), sr_players := []\<rparr>)"
| "turn env (Tell ns m) s =
     only_if (m \<noteq> ToShutdown)
       (s\<lparr>sr_tasks := tell (filter (\<lambda>i. i \<in> set ns) (open_players s)) m (sr_tasks s), sr_players := open_players s\<rparr>)"
| "turn env (Conn i te) s = conn_turn env i te s"

fun runs :: "server_env \<Rightarrow> event list \<Rightarrow> server \<Rightarrow> server option" where
  "runs env [] s = Some s"
| "runs env (e # es) s = Option.bind (turn env e s) (runs env es)"

section \<open>What every task keeps\<close>

text \<open>What the client was sent before anything else, and what the loops know of each other.\<close>

definition greeted :: "conn_task \<Rightarrow> bool" where
  "greeted c \<longleftrightarrow>
     ct_sent c = [] \<and> (ct_phase c = Authenticating \<or> ct_phase c = Over) \<and> \<not> ct_write c \<or>
     (\<exists>e. ct_sent c = [RAuthFail e]) \<and> ct_phase c = Over \<and> \<not> ct_write c \<or>
     (\<exists>t rs. ct_sent c = RAuthSuccess t # rs) \<and> ct_phase c \<noteq> Authenticating"

definition task_ok :: "bool \<Rightarrow> conn_task \<Rightarrow> bool" where
  "task_ok down c \<longleftrightarrow> greeted c \<and>
     (is_starting (ct_phase c) \<longrightarrow> \<not> ct_write c \<and> \<not> ct_mgr c) \<and>
     (ct_phase c = Draining \<or> ct_phase c = Reading \<and> \<not> (ct_write c \<and> ct_mgr c) \<longrightarrow> is_told down c) \<and>
     (ToShutdown \<in> set (ct_inbox c) \<longrightarrow> down)"

named_theorems loop_defs
lemmas [loop_defs] = task_ok_def greeted_def is_told_def put_queue_def put_inbox_def queue_open_def inbox_open_def
  finish_task_def end_write_def end_mgr_def

lemma greeted_sent:
  "greeted c \<Longrightarrow> ct_sent c = [] \<or> (\<exists>e. ct_sent c = [RAuthFail e]) \<or> (\<exists>t rs. ct_sent c = RAuthSuccess t # rs)"
  by (auto simp: greeted_def)

lemma task_ok_other [simp]:
  "task_ok down (c\<lparr>ct_queue := q, ct_writing := w\<rparr>) = task_ok down c" "task_ok down (c\<lparr>ct_serving := b\<rparr>) = task_ok down c"
  by (simp_all add: task_ok_def greeted_def is_told_def)

lemma new_task_ok: "task_ok down new_task"
  by (simp add: new_task_def loop_defs)

lemma task_ok_down: "task_ok down c \<Longrightarrow> down \<longrightarrow> down' \<Longrightarrow> task_ok down' c"
  by (auto simp: task_ok_def is_told_def)

lemma put_queue_ok: "task_ok down c \<Longrightarrow> task_ok down (put_queue rs c)"
  by (auto simp: loop_defs)

lemma put_inbox_ok: "task_ok down c \<Longrightarrow> m = ToShutdown \<longrightarrow> down \<Longrightarrow> task_ok down (put_inbox m c)"
  by (auto simp: loop_defs)

lemma finish_task_ok: "task_ok down c \<Longrightarrow> ct_phase c \<noteq> Authenticating \<Longrightarrow> task_ok down (finish_task c)"
  by (auto simp: loop_defs)

lemma end_ok:
  "task_ok down c \<Longrightarrow> is_told down c \<Longrightarrow> task_ok down (end_write c)"
  "task_ok down c \<Longrightarrow> is_told down c \<Longrightarrow> task_ok down (end_mgr c)"
  by (auto simp: loop_defs)

lemma login_ok: "task_ok down c \<Longrightarrow> ct_phase c = Authenticating \<Longrightarrow> task_ok down (after_auth env r written c)"
  by (auto simp: after_auth_def auth_response_def Let_def loop_defs split: sum.split)

lemma forward_ok: "task_ok down c \<Longrightarrow> m = ToShutdown \<longrightarrow> down \<Longrightarrow> task_ok down (forward m c)"
  by (cases m) (auto simp: put_queue_ok end_ok is_told_def)

lemma task_ok_cancel: "task_ok down c \<Longrightarrow> task_ok down (c\<lparr>ct_cancelled := True\<rparr>)"
  by (auto simp: task_ok_def greeted_def is_told_def)

lemma task_ok_written:
  assumes "task_ok down c" "ct_write c"
  shows "task_ok down (c\<lparr>ct_writing := None, ct_sent := ct_sent c @ [r]\<rparr>)"
proof -
  obtain t ss where "ct_sent c = RAuthSuccess t # ss" "ct_phase c \<noteq> Authenticating"
    using assms by (auto simp: task_ok_def greeted_def)
  then show ?thesis using assms(1) by (simp add: task_ok_def greeted_def is_told_def)
qed

lemma write_turn_ok:
  assumes "task_ok down c" "ct_write c" "write_turn down w c = Some c'"
  shows "task_ok down c'"
proof (cases w)
  case WriteNext
  then show ?thesis using assms by (auto split: list.splits option.splits)
next
  case WriteDone
  then show ?thesis using assms task_ok_written by (auto split: option.splits)
next
  case WriteFails
  then have "c' = end_write (c\<lparr>ct_cancelled := True\<rparr>)" using assms(3) by (simp add: end_write_def)
  then show ?thesis using end_ok(1) [OF task_ok_cancel [OF assms(1)]] by (simp add: is_told_def)
next
  case WriteStops
  then show ?thesis using assms end_ok by auto
qed

lemma task_turn_ok:
  assumes "task_ok down c" "task_turn env down te c = Some c'"
  shows "task_ok down c'"
proof (cases te)
  case (Login r written)
  then show ?thesis using assms by (auto intro: login_ok)
next
  case (InitDone out)
  then obtain n where "ct_phase c = Starting (Suc n)"
    and "c' = (case out of None \<Rightarrow> c | Some r \<Rightarrow> put_queue [r] c)\<lparr>ct_phase := Starting n\<rparr>"
    using assms(2) by (auto split: phase.splits nat.splits)
  then show ?thesis using assms(1)
    by (auto simp: loop_defs split: option.split)
next
  case StartLoops
  then show ?thesis using assms by (auto simp: loop_defs)
next
  case ReadFails
  then show ?thesis using assms by (auto simp: loop_defs)
next
  case ReadStops
  then show ?thesis using assms by (auto simp: loop_defs)
next
  case (WriteLoop w)
  then show ?thesis using assms write_turn_ok by (simp split: if_splits)
next
  case (MgrLoop e)
  show ?thesis
  proof (cases e)
    case MgrNext
    then obtain m ms where m: "ct_inbox c = m # ms" "c' = forward m (c\<lparr>ct_inbox := ms\<rparr>)"
      using assms(2) MgrLoop by (auto split: list.splits if_splits)
    then have "task_ok down (c\<lparr>ct_inbox := ms\<rparr>)" "m = ToShutdown \<longrightarrow> down"
      using assms(1) by (auto simp: loop_defs)
    then show ?thesis using forward_ok m(2) by blast
  next
    case MgrStops
    then show ?thesis using assms MgrLoop by (auto intro: end_ok split: if_splits)
  qed
next
  case ReadNext
  then show ?thesis using assms by auto
next
  case (Served rs)
  then show ?thesis using assms put_queue_ok [of down c rs] by auto
next
  case Dropped
  then show ?thesis using assms by (auto simp: loop_defs)
qed (use assms in \<open>auto intro: put_queue_ok finish_task_ok end_ok\<close>)

section \<open>What the server keeps\<close>

definition holders :: "conn_task list \<Rightarrow> nat" where
  "holders tasks = length (filter (\<lambda>c. ct_phase c \<noteq> Over) tasks)"

definition waiting :: "accepting \<Rightarrow> nat" where
  "waiting a = (case a of Listening _ \<Rightarrow> 1 | _ \<Rightarrow> 0)"

definition server_ok :: "server \<Rightarrow> bool" where
  "server_ok s \<longleftrightarrow> sr_free s + waiting (sr_accept s) + holders (sr_tasks s) = MAX_CONNECTIONS \<and>
     list_all (task_ok (sr_down s)) (sr_tasks s)"

lemma holders_update:
  "i < length cs \<Longrightarrow> holders (cs[i := c]) + (if ct_phase (cs ! i) = Over then 0 else 1) =
     holders cs + (if ct_phase c = Over then 0 else 1)"
proof (induction cs arbitrary: i)
  case (Cons a cs)
  show ?case
  proof (cases i)
    case (Suc k)
    then show ?thesis using Cons.IH [of k] Cons.prems by (simp add: holders_def split: if_splits)
  qed (simp add: holders_def)
qed simp

lemma put_inbox_phase [simp]: "ct_phase (put_inbox m c) = ct_phase c"
  by (simp add: put_inbox_def)

lemma tell_nth: "i < length cs \<Longrightarrow> tell ns m cs ! i = (if i \<in> set ns then put_inbox m (cs ! i) else cs ! i)"
  by (simp add: tell_def nth_enumerate_eq)

lemma length_tell [simp]: "length (tell ns m cs) = length cs"
  by (simp add: tell_def)

lemma holders_tell [simp]: "holders (tell ns m cs) = holders cs"
proof -
  have "map ct_phase (tell ns m cs) = map ct_phase cs"
    by (rule nth_equalityI) (simp_all add: tell_nth)
  then have "length (filter (\<lambda>p. p \<noteq> Over) (map ct_phase (tell ns m cs))) =
      length (filter (\<lambda>p. p \<noteq> Over) (map ct_phase cs))" by simp
  then show ?thesis by (simp add: holders_def filter_map comp_def)
qed

lemma tell_ok:
  "list_all (task_ok down) cs \<Longrightarrow> m = ToShutdown \<longrightarrow> down \<Longrightarrow> list_all (task_ok down) (tell ns m cs)"
  by (simp add: list_all_length tell_nth put_inbox_ok)

text \<open>A connection that is over stays over.\<close>

lemma forward_phase [simp]: "ct_phase (forward m c) = ct_phase c"
  by (cases m) (simp_all add: loop_defs)

lemma loop_turn_phase:
  "write_turn down w c = Some c' \<Longrightarrow> ct_phase c' = ct_phase c"
  "mgr_turn down e c = Some c' \<Longrightarrow> ct_phase c' = ct_phase c"
  by (cases w; auto simp: end_write_def split: list.splits option.splits) (cases e; auto simp: end_mgr_def split: list.splits)

lemma over_stays: "ct_phase c = Over \<Longrightarrow> task_turn env down te c = Some c' \<Longrightarrow> ct_phase c' = Over"
  by (cases te) (auto simp: put_queue_def loop_turn_phase split: if_splits)

lemma conn_turn_ok:
  assumes ok: "server_ok s" and step: "conn_turn env i te s = Some s'"
  shows "server_ok s'"
proof -
  let ?old = "sr_tasks s ! i"
  obtain c where i: "i < length (sr_tasks s)" and c: "task_turn env (sr_down s) te ?old = Some c"
    and s': "s' = s\<lparr>sr_tasks := (sr_tasks s)[i := c],
          sr_free := sr_free s + (if ct_phase c = Over \<and> ct_phase ?old \<noteq> Over then 1 else 0),
          sr_down := sr_down s \<or> te = Unwinds \<and> sn_panic_stops env\<rparr>"
    using step by (auto simp: conn_turn_def split: if_splits option.splits)
  have old: "task_ok (sr_down s) ?old" using ok i by (simp add: server_ok_def list_all_length)
  have "task_ok (sr_down s') ((sr_tasks s)[i := c] ! k)" if "k < length (sr_tasks s)" for k
    using ok that i task_turn_ok [OF old c] task_ok_down [of "sr_down s" _ "sr_down s'"]
    by (cases "k = i") (auto simp: s' server_ok_def list_all_length)
  then have "list_all (task_ok (sr_down s')) (sr_tasks s')" by (simp add: s' list_all_length)
  moreover have "sr_free s' + waiting (sr_accept s') + holders (sr_tasks s') = MAX_CONNECTIONS"
    using ok holders_update [OF i, of c] over_stays [OF _ c] by (auto simp: s' server_ok_def split: if_splits)
  ultimately show ?thesis by (simp add: server_ok_def)
qed

lemma turn_ok:
  assumes ok: "server_ok s" and step: "turn env ev s = Some s'"
  shows "server_ok s'"
proof (cases ev)
  case Incoming
  then show ?thesis using assms
    by (auto simp: server_ok_def waiting_def holders_def new_task_ok new_task_def [THEN arg_cong, of ct_phase]
        split: accepting.splits)
next
  case (Tell ns m)
  then show ?thesis using assms by (auto simp: server_ok_def tell_ok)
next
  case ManagerStops
  then show ?thesis using assms by (auto simp: server_ok_def waiting_def tell_ok split: accepting.splits)
next
  case (Conn i te)
  then show ?thesis using conn_turn_ok [OF ok] step by simp
next
  case AcceptError
  then show ?thesis using assms
    by (auto simp: server_ok_def waiting_def accept_failed_def list_all_length task_ok_down split: accepting.splits if_splits)
next
  case AskShutdown
  then show ?thesis using assms by (auto simp: server_ok_def list_all_length task_ok_down)
qed (use assms in \<open>auto simp: server_ok_def waiting_def split: accepting.splits\<close>)

lemma runs_ok: "server_ok s \<Longrightarrow> runs env es s = Some s' \<Longrightarrow> server_ok s'"
  by (induction env es s rule: runs.induct) (auto simp: bind_eq_Some_conv dest: turn_ok)

lemma start_ok: "server_ok start_server"
  by (simp add: server_ok_def start_server_def waiting_def holders_def)

lemmas reached_ok = runs_ok [OF start_ok]

section \<open>Properties\<close>

text \<open>
  C25. However connections arrive, fail, close and unwind, each permit of the limit is free, kept by
  the accept loop, or held by one connection that is not over: none is lost and none is given back
  twice, and at most 4096 connections are served at a time.
\<close>

theorem connections_within_limit:
  assumes "runs env es start_server = Some s"
  shows "sr_free s + waiting (sr_accept s) + holders (sr_tasks s) = 4096"
  using reached_ok [OF assms] by (simp add: server_ok_def MAX_CONNECTIONS_def)

text \<open>
  C26. The first thing a client is sent is the answer to its login; after a refusal nothing follows,
  whatever other players and the manager send meanwhile, and a connection that waits for the login has
  been sent nothing.
\<close>

theorem login_comes_first:
  assumes "runs env es start_server = Some s" "c \<in> set (sr_tasks s)"
  shows "(ct_sent c = [] \<or> (\<exists>e. ct_sent c = [RAuthFail e]) \<or> (\<exists>t rs. ct_sent c = RAuthSuccess t # rs)) \<and>
    (ct_phase c = Authenticating \<longrightarrow> ct_sent c = [])"
proof -
  have "greeted c" using reached_ok [OF assms(1)] assms(2) by (auto simp: server_ok_def task_ok_def list_all_iff)
  then show ?thesis by (auto simp: greeted_def)
qed

text \<open>What is left to do before a connection and its loops have ended, and the steps that do it.\<close>

definition todo :: "conn_task \<Rightarrow> nat" where
  "todo c = (case ct_phase c of Over \<Rightarrow> 0 | Draining \<Rightarrow> 1 | _ \<Rightarrow> 2) + (if ct_write c then 1 else 0) +
     (if ct_mgr c then 1 else 0)"

definition ending :: "bool \<Rightarrow> conn_task \<Rightarrow> bool" where
  "ending down c \<longleftrightarrow> is_told down c \<and> \<not> is_starting (ct_phase c)"

definition closing_steps :: "task_event list" where
  "closing_steps = [ReadStops, WriteLoop WriteStops, MgrLoop MgrStops, Drained]"

lemma todo_of:
  "ct_phase c' = ct_phase c \<Longrightarrow> ct_write c' \<longrightarrow> ct_write c \<Longrightarrow> ct_mgr c' \<longrightarrow> ct_mgr c \<Longrightarrow> todo c' \<le> todo c"
  "ct_phase c = Reading \<Longrightarrow> todo (c\<lparr>ct_phase := Draining\<rparr>) \<le> todo c"
  "ct_phase c = Reading \<Longrightarrow> todo (c\<lparr>ct_phase := Draining, ct_cancelled := True\<rparr>) \<le> todo c"
  "todo (finish_task c) \<le> todo c"
  by (auto simp: todo_def finish_task_def)

lemma ending_turn:
  assumes "ending down c" "task_turn env down te c = Some c'" "down \<longrightarrow> down'"
  shows "ending down' c' \<and> todo c' \<le> todo c"
proof (cases te)
  case (WriteLoop w)
  then show ?thesis using assms
    by (cases w) (auto simp: ending_def is_told_def end_write_def intro!: todo_of(1) split: list.splits if_splits option.splits)
next
  case (MgrLoop e)
  have fwd: "ct_cancelled (forward m d) = ct_cancelled d" "ct_write (forward m d) = ct_write d"
    "ct_mgr (forward m d) \<longrightarrow> ct_mgr d" for m d
    by (cases m; simp add: put_queue_def end_mgr_def)+
  show ?thesis
  proof (cases e)
    case MgrNext
    then obtain m ms where "c' = forward m (c\<lparr>ct_inbox := ms\<rparr>)"
      using assms(2) MgrLoop by (auto split: list.splits if_splits)
    then show ?thesis using assms(1,3) fwd [of m "c\<lparr>ct_inbox := ms\<rparr>"] by (auto simp: ending_def todo_def is_told_def)
  next
    case MgrStops
    then show ?thesis using assms MgrLoop by (auto simp: ending_def todo_def is_told_def end_mgr_def split: if_splits)
  qed
next
  case (Served rs)
  then show ?thesis using assms by (auto simp: ending_def is_told_def put_queue_def intro!: todo_of(1))
next
  case (Answers rs)
  then show ?thesis using assms by (auto simp: ending_def is_told_def put_queue_def intro!: todo_of(1))
qed (use assms in \<open>auto simp: ending_def is_told_def finish_task_def [THEN arg_cong, of ct_phase]
  finish_task_def [THEN arg_cong, of ct_cancelled] intro: todo_of split: phase.splits nat.splits\<close>)

lemma ending_tell:
  assumes "ending down (cs ! i)" "i < length cs" "down \<longrightarrow> down'"
  shows "ending down' (tell ns m cs ! i) \<and> todo (tell ns m cs ! i) \<le> todo (cs ! i)"
  using assms by (auto simp: tell_nth ending_def is_told_def todo_def put_inbox_def)

lemma ending_keeps:
  assumes "ending (sr_down s) (sr_tasks s ! i)" "i < length (sr_tasks s)" "turn env ev s = Some s'"
  shows "ending (sr_down s') (sr_tasks s' ! i) \<and> todo (sr_tasks s' ! i) \<le> todo (sr_tasks s ! i)"
proof (cases ev)
  case (Conn j te)
  then obtain c where c: "task_turn env (sr_down s) te (sr_tasks s ! j) = Some c"
    and s': "sr_tasks s' = (sr_tasks s)[j := c]" "sr_down s \<longrightarrow> sr_down s'"
    using assms(3) by (auto simp: conn_turn_def split: if_splits option.splits)
  show ?thesis
  proof (cases "j = i")
    case True
    then show ?thesis using ending_turn [OF assms(1) _ s'(2)] c s'(1) assms(2) by simp
  next
    case False
    then show ?thesis using assms(1) s' by (auto simp: ending_def is_told_def)
  qed
next
  case (Tell ns m)
  then show ?thesis using assms ending_tell [OF assms(1,2)] by auto
next
  case ManagerStops
  then show ?thesis using assms ending_tell [OF assms(1,2)] by auto
qed (use assms in \<open>auto simp: nth_append ending_def is_told_def accept_failed_def split: accepting.splits if_splits\<close>)

text \<open>What a connection that ends may wait for: a handler of its read loop, a write to its socket.\<close>

definition is_writing :: "conn_task \<Rightarrow> bool" where
  "is_writing c \<longleftrightarrow> ct_write c \<and> ct_writing c \<noteq> None"

definition in_handler :: "conn_task \<Rightarrow> bool" where
  "in_handler c \<longleftrightarrow> ct_phase c = Reading \<and> ct_serving c"

lemma closing_step_there:
  assumes "ending down c" "todo c \<noteq> 0" "\<not> in_handler c" "\<not> is_writing c"
  shows "\<exists>te\<in>set closing_steps. \<exists>c'. task_turn env down te c = Some c' \<and> todo c' < todo c"
proof -
  consider "ct_phase c = Reading" | "ct_write c" | "ct_mgr c" | "ct_phase c = Draining" "\<not> ct_write c" "\<not> ct_mgr c"
    using assms(1,2) by (cases "ct_phase c") (auto simp: todo_def ending_def split: if_splits)
  then show ?thesis
  proof cases
    case 1
    then have "task_turn env down ReadStops c = Some (c\<lparr>ct_phase := Draining\<rparr>)"
      using assms by (simp add: ending_def in_handler_def)
    then show ?thesis using 1 by (force simp: closing_steps_def todo_def)
  next
    case 2
    then have "task_turn env down (WriteLoop WriteStops) c = Some (end_write c)"
      using assms by (simp add: ending_def is_writing_def)
    then show ?thesis using 2 by (force simp: closing_steps_def todo_def end_write_def)
  next
    case 3
    then have "task_turn env down (MgrLoop MgrStops) c = Some (end_mgr c)" using assms(1) by (simp add: ending_def)
    then show ?thesis using 3 by (force simp: closing_steps_def todo_def end_mgr_def)
  next
    case 4
    then have "task_turn env down Drained c = Some (finish_task c)" by simp
    then show ?thesis using 4 by (force simp: closing_steps_def todo_def finish_task_def)
  qed
qed

text \<open>When the wait is over, the loop sees the token.\<close>

lemma wait_over:
  assumes "ending down c"
  shows "task_turn env down (Served rs) c = Some c' \<Longrightarrow> \<exists>c2. task_turn env down ReadStops c' = Some c2"
    and "task_turn env down (WriteLoop WriteDone) c = Some c' \<Longrightarrow>
      \<exists>c2. task_turn env down (WriteLoop WriteStops) c' = Some c2"
  using assms by (auto simp: ending_def is_told_def put_queue_def split: option.splits if_splits)

text \<open>
  C27. A connection whose read loop has ended, or whose token is cancelled, comes to an end as soon as its
  handler and its socket let it: at most four closing steps are left, nothing that any task does in
  between adds to them, and one of them is possible unless the read loop is in a handler or the write
  loop in the middle of a write.  When the handler returns, the read loop can stop, and when the
  socket takes the response, the write loop can; no loop waits for another.
\<close>

theorem closing_completes:
  assumes run: "runs env es start_server = Some s" and i: "i < length (sr_tasks s)"
    and c: "ct_phase (sr_tasks s ! i) = Draining \<or>
      is_told (sr_down s) (sr_tasks s ! i) \<and> \<not> is_starting (ct_phase (sr_tasks s ! i))"
  shows "todo (sr_tasks s ! i) \<le> 4 \<and>
    (todo (sr_tasks s ! i) = 0 \<or> in_handler (sr_tasks s ! i) \<or> is_writing (sr_tasks s ! i) \<or>
      (\<exists>te\<in>set closing_steps. \<exists>s'. turn env (Conn i te) s = Some s' \<and>
         todo (sr_tasks s' ! i) < todo (sr_tasks s ! i))) \<and>
    (\<forall>ev s'. turn env ev s = Some s' \<longrightarrow>
       is_told (sr_down s') (sr_tasks s' ! i) \<and> \<not> is_starting (ct_phase (sr_tasks s' ! i)) \<and>
       todo (sr_tasks s' ! i) \<le> todo (sr_tasks s ! i)) \<and>
    (\<forall>rs s'. turn env (Conn i (Served rs)) s = Some s' \<longrightarrow> (\<exists>s2. turn env (Conn i ReadStops) s' = Some s2)) \<and>
    (\<forall>s'. turn env (Conn i (WriteLoop WriteDone)) s = Some s' \<longrightarrow>
       (\<exists>s2. turn env (Conn i (WriteLoop WriteStops)) s' = Some s2))"
proof (intro conjI)
  have "task_ok (sr_down s) (sr_tasks s ! i)" using reached_ok [OF run] i by (simp add: server_ok_def list_all_length)
  then have e: "ending (sr_down s) (sr_tasks s ! i)" using c by (auto simp: ending_def task_ok_def)
  show "todo (sr_tasks s ! i) \<le> 4" by (simp add: todo_def split: phase.split)
  show "todo (sr_tasks s ! i) = 0 \<or> in_handler (sr_tasks s ! i) \<or> is_writing (sr_tasks s ! i) \<or>
      (\<exists>te\<in>set closing_steps. \<exists>s'. turn env (Conn i te) s = Some s' \<and>
      todo (sr_tasks s' ! i) < todo (sr_tasks s ! i))"
    using closing_step_there [OF e, of env] i by (fastforce simp: conn_turn_def)
  show "\<forall>ev s'. turn env ev s = Some s' \<longrightarrow> is_told (sr_down s') (sr_tasks s' ! i) \<and>
      \<not> is_starting (ct_phase (sr_tasks s' ! i)) \<and> todo (sr_tasks s' ! i) \<le> todo (sr_tasks s ! i)"
    using ending_keeps [OF e i] by (auto simp: ending_def)
  have after: "\<exists>s2. turn env (Conn i te2) s' = Some s2"
    if "turn env (Conn i te) s = Some s'" "te \<noteq> Unwinds"
      "\<And>c'. task_turn env (sr_down s) te (sr_tasks s ! i) = Some c' \<Longrightarrow> \<exists>c2. task_turn env (sr_down s) te2 c' = Some c2"
    for te te2 s'
    using that i by (auto simp: conn_turn_def split: option.splits)
  show "\<forall>rs s'. turn env (Conn i (Served rs)) s = Some s' \<longrightarrow> (\<exists>s2. turn env (Conn i ReadStops) s' = Some s2)"
    using after wait_over(1) [OF e] by blast
  show "\<forall>s'. turn env (Conn i (WriteLoop WriteDone)) s = Some s' \<longrightarrow>
      (\<exists>s2. turn env (Conn i (WriteLoop WriteStops)) s' = Some s2)"
    using after wait_over(2) [OF e] by blast
qed

text \<open>
  The write has no time limit: as long as the socket neither takes the response nor fails, and the
  program runs, the connection keeps its permit, whether its read loop has ended or not.
\<close>

definition stalled :: "conn_task \<Rightarrow> bool" where
  "stalled c \<longleftrightarrow> is_writing c \<and> (ct_phase c = Reading \<or> ct_phase c = Draining)"

lemma stalled_turn:
  assumes "stalled c" "task_turn env False te c = Some c'" "te \<notin> {WriteLoop WriteDone, WriteLoop WriteFails, Unwinds}"
  shows "stalled c'"
proof (cases te)
  case (WriteLoop w)
  then show ?thesis using assms by (cases w) (auto simp: stalled_def is_writing_def split: option.splits list.splits)
next
  case (MgrLoop e)
  have "ct_write (forward m d) = ct_write d" "ct_writing (forward m d) = ct_writing d" for m d
    by (cases m; simp add: put_queue_def end_mgr_def)+
  then show ?thesis using assms MgrLoop
    by (cases e) (auto simp: stalled_def is_writing_def end_mgr_def split: if_splits list.splits)
qed (use assms in \<open>auto simp: stalled_def is_writing_def put_queue_def\<close>)

lemma put_inbox_stalled: "stalled (put_inbox m c) = stalled c"
  by (simp add: stalled_def is_writing_def put_inbox_def)

lemma turn_down: "turn env ev s = Some s' \<Longrightarrow> sr_down s \<longrightarrow> sr_down s'"
  by (cases ev) (auto simp: conn_turn_def accept_failed_def split: accepting.splits option.splits if_splits)

lemma runs_down: "runs env es s = Some s' \<Longrightarrow> sr_down s \<longrightarrow> sr_down s'"
  by (induction env es s rule: runs.induct) (auto simp: bind_eq_Some_conv dest: turn_down)

lemma stalled_write_keeps_permit:
  assumes "runs env es s = Some s'" "\<not> sr_down s'" "i < length (sr_tasks s)" "stalled (sr_tasks s ! i)"
    "\<forall>te\<in>{WriteLoop WriteDone, WriteLoop WriteFails, Unwinds}. Conn i te \<notin> set es"
  shows "stalled (sr_tasks s' ! i) \<and> ct_phase (sr_tasks s' ! i) \<noteq> Over"
  using assms
proof (induction env es s rule: runs.induct)
  case (1 env s)
  then show ?case by (auto simp: stalled_def)
next
  case (2 env ev es s)
  obtain s1 where s1: "turn env ev s = Some s1" "runs env es s1 = Some s'"
    using "2.prems"(1) by (auto simp: bind_eq_Some_conv)
  have up: "\<not> sr_down s1" "\<not> sr_down s" using runs_down [OF s1(2)] turn_down [OF s1(1)] "2.prems"(2) by auto
  have "i < length (sr_tasks s1) \<and> stalled (sr_tasks s1 ! i)"
  proof (cases ev)
    case (Conn j te)
    then obtain c where c: "task_turn env False te (sr_tasks s ! j) = Some c" "sr_tasks s1 = (sr_tasks s)[j := c]"
      using s1(1) up by (auto simp: conn_turn_def split: if_splits option.splits)
    show ?thesis
    proof (cases "j = i")
      case True
      then have te: "te \<notin> {WriteLoop WriteDone, WriteLoop WriteFails, Unwinds}" using "2.prems"(5) Conn by auto
      show ?thesis using stalled_turn [OF "2.prems"(4) _ te] c True "2.prems"(3) by simp
    next
      case False
      then show ?thesis using c "2.prems"(3,4) by simp
    qed
  next
    case (Tell ns m)
    then show ?thesis using s1(1) "2.prems"(3,4) by (auto simp: tell_nth put_inbox_stalled)
  qed (use s1(1) up "2.prems"(3,4) in \<open>auto simp: nth_append accept_failed_def split: accepting.splits if_splits\<close>)
  then show ?case using "2.IH" [OF s1] "2.prems"(2,5) by auto
qed

text \<open>A panic in the read loop, and eight errors in a row of the listener, shut the program down.\<close>

lemma unwinding_stops_server:
  assumes "sn_panic_stops env" "i < length (sr_tasks s)" "in_handler (sr_tasks s ! i)"
  shows "map_option sr_down (turn env (Conn i Unwinds) s) = Some True"
  using assms by (simp add: conn_turn_def only_if_def in_handler_def)

lemma accept_backoff:
  "k \<le> 7 \<Longrightarrow> sr_accept s = Listening (2 ^ j) \<Longrightarrow> j + k \<le> 7 \<Longrightarrow>
     runs env (replicate k AcceptError) s = Some (s\<lparr>sr_accept := Listening (2 ^ (j + k))\<rparr>)"
proof (induction k arbitrary: s j)
  case (Suc k)
  then have "(2::nat) ^ j \<le> 2 ^ 6" by (intro power_increasing) simp_all
  then show ?case using Suc.prems Suc.IH [of "s\<lparr>sr_accept := Listening (2 ^ Suc j)\<rparr>" "Suc j"] by (simp add: accept_failed_def)
qed simp

lemma accept_gives_up:
  "sr_accept s = Listening 1 \<Longrightarrow>
     runs env (replicate 8 AcceptError) s = Some (s\<lparr>sr_accept := Stopped, sr_free := sr_free s + 1, sr_down := True\<rparr>)"
  by (simp add: accept_failed_def numeral_eq_Suc)

section \<open>A connection from login to the failing socket\<close>

definition sample_server_env :: server_env where
  "sample_server_env = \<lparr>sn_fmt_db = (\<lambda>_. []), sn_fmt = (\<lambda>_. []), sn_show_uuid = (\<lambda>_. ''7''), sn_panic_stops = True\<rparr>"

definition sample_login :: login_session where
  "sample_login = \<lparr>ls_user = \<lparr>u_id = 1, u_display_name = ''Ann''\<rparr>, ls_session = 7, ls_resumed = False, ls_plugin_ver = ''1''\<rparr>"

definition sample_events :: "event list" where
  "sample_events = [TakePermit, Incoming, Tell [0] (ToSend RPing), Conn 0 (Login (Inr sample_login) True),
     Conn 0 (InitDone None), Conn 0 (InitDone None), Conn 0 (InitDone None), Conn 0 StartLoops, Conn 0 (MgrLoop MgrNext),
     Conn 0 (WriteLoop WriteNext), Conn 0 (WriteLoop WriteDone), Conn 0 ReadNext, Conn 0 (Served [RPing]), Conn 0 ReadFails]"

definition sample_task :: conn_task where
  "sample_task = \<lparr>ct_phase = Draining, ct_cancelled = True, ct_serving = False, ct_write = True, ct_writing = None,
     ct_mgr = True, ct_inbox = [], ct_queue = [RPing],
     ct_sent = [RAuthSuccess ''7'', RPing]\<rparr>"

definition sample_conn_server :: server where
  "sample_conn_server = \<lparr>sr_free = 4095, sr_accept = AwaitPermit, sr_down = False, sr_tasks = [sample_task], sr_players = [0]\<rparr>"

lemma sample_events_run: "runs sample_server_env sample_events start_server = Some sample_conn_server"
  by (simp add: sample_events_def start_server_def sample_conn_server_def sample_task_def only_if_def MAX_CONNECTIONS_def
      conn_turn_def new_task_def after_auth_def auth_response_def sample_server_env_def sample_login_def Let_def
      open_players_def tell_def put_inbox_def inbox_open_def put_queue_def queue_open_def numeral_eq_Suc)

theorem connections_within_limit_witness:
  "sr_free sample_conn_server + waiting (sr_accept sample_conn_server) + holders (sr_tasks sample_conn_server) = 4096"
  by (rule connections_within_limit [OF sample_events_run])

theorem login_comes_first_witness:
  "sample_task \<in> set (sr_tasks sample_conn_server) \<and> ct_sent sample_task = [RAuthSuccess ''7'', RPing] \<and>
   (ct_sent sample_task = [] \<or> (\<exists>e. ct_sent sample_task = [RAuthFail e]) \<or>
    (\<exists>t rs. ct_sent sample_task = RAuthSuccess t # rs))"
  using login_comes_first [OF sample_events_run, of sample_task] by (simp add: sample_conn_server_def sample_task_def)

theorem closing_completes_witness:
  "todo sample_task = 3 \<and> (\<exists>te\<in>set closing_steps. \<exists>s'. turn sample_server_env (Conn 0 te) sample_conn_server = Some s' \<and>
     todo (sr_tasks s' ! 0) < 3)"
proof -
  have "todo sample_task = 3" by (simp add: todo_def sample_task_def)
  moreover have "ct_phase (sr_tasks sample_conn_server ! 0) = Draining" "sr_tasks sample_conn_server ! 0 = sample_task"
    by (simp_all add: sample_conn_server_def sample_task_def)
  moreover have "\<not> in_handler sample_task" "\<not> is_writing sample_task"
    by (simp_all add: in_handler_def is_writing_def sample_task_def)
  ultimately show ?thesis
    using closing_completes [OF sample_events_run, of 0] by (simp add: sample_conn_server_def)
qed

end
