(* ===== verification/Overview.thy ===== *)
theory Overview
  imports Public_Api
begin

text \<open>
  The overview of the Deep Dip map: \<open>update_global_overview\<close> of \<open>src/queries/stats.rs\<close>, which the
  program \<open>dd2-server\<close> (\<open>src/server.rs\<close>) runs every seven seconds beside the public site, and which
  the site and the plugin's server read back from \<open>cached_json\<close>.  Its queries are taken in one step.
\<close>

section \<open>Aggregates\<close>

text \<open>\<open>SUM\<close> over no rows is \<open>NULL\<close>; over doubles it adds in the order of the rows, and may overflow.\<close>

definition sql_sum :: "int list \<Rightarrow> int option" where
  "sql_sum ns = (if ns = [] then None else Some (sum_list ns))"

fun sum_from :: "float_env \<Rightarrow> f64 \<Rightarrow> f64 list \<Rightarrow> db_error + f64" where
  "sum_from env acc [] = Inr acc"
| "sum_from env acc (x # xs) = bind_res (pg_add env acc x) (\<lambda>a. sum_from env a xs)"

definition sql_sum_f64 :: "float_env \<Rightarrow> f64 list \<Rightarrow> db_error + f64 option" where
  "sql_sum_f64 env xs =
     (case xs of [] \<Rightarrow> Inr None | x # rest \<Rightarrow> bind_res (sum_from env x rest) (\<lambda>t. Inr (Some t)))"

definition sql_max :: "nat list \<Rightarrow> nat option" where
  "sql_max ns = (if ns = [] then None else Some (Max (set ns)))"

definition json_opt :: "('a \<Rightarrow> json) \<Rightarrow> 'a option \<Rightarrow> json" where
  "json_opt f x = (case x of None \<Rightarrow> JNull | Some a \<Rightarrow> f a)"

fun json_of_f64 :: "f64 \<Rightarrow> json" where
  "json_of_f64 (Fin q) = JFloat q"
| "json_of_f64 (Inf b) = JNull"
| "json_of_f64 NaN = JNull"

section \<open>The overview\<close>

record stats_totals =
  to_resets :: "int option"
  to_jumps :: "int option"
  to_falls :: "int option"
  to_floors_fallen :: "int option"
  to_height_fallen :: "f64 option"

definition counted_stats :: "'z lb_db_scheme \<Rightarrow> stats_row list" where
  "counted_stats d = filter (\<lambda>s. su_user_id s \<notin> set (shadow_bans d)) (user_stats d)"

definition sum_stats :: "float_env \<Rightarrow> stats_row list \<Rightarrow> db_error + stats_totals" where
  "sum_stats env rows =
     bind_res (sql_sum_f64 env (map su_total_dist_fallen rows)) (\<lambda>height. Inr
       \<lparr>to_resets = sql_sum (map su_nb_resets rows), to_jumps = sql_sum (map su_nb_jumps rows),
        to_falls = sql_sum (map su_nb_falls rows), to_floors_fallen = sql_sum (map su_nb_floors_fallen rows),
        to_height_fallen = height\<rparr>)"

definition GENTLE_BREEZE_UID :: string where
  "GENTLE_BREEZE_UID = ''DeepDip2__The_Gentle_Breeze''"

definition ok_or_zero :: "('d, 'e, nat) db_action \<Rightarrow> 'd \<Rightarrow> nat" where
  "ok_or_zero m d = (case fst (m d) of Inl _ \<Rightarrow> 0 | Inr n \<Rightarrow> n)"

definition overview_of :: "nat \<Rightarrow> stats_totals \<Rightarrow> 'z lb_db_scheme \<Rightarrow> json" where
  "overview_of now rjf d = JObj
     [(''players'', JPos (length (users d))),
      (''sessions'', JPos (length (sessions d))),
      (''resets'', json_opt json_of_int (to_resets rjf)),
      (''jumps'', json_opt json_of_int (to_jumps rjf)),
      (''falls'', json_opt json_of_int (to_falls rjf)),
      (''floors_fallen'', json_opt json_of_int (to_floors_fallen rjf)),
      (''height_fallen'', json_opt json_of_f64 (to_height_fallen rjf)),
      (''ts'', JPos (now div 1000000)),
      (''falls_raw'', json_opt JPos (sql_max (map fa_id (falls d)))),
      (''nb_players_live'', JPos (ok_or_zero (get_server_info now) d)),
      (''nb_players_climbing'', JPos (get_nb_playing_live now d)),
      (''nb_climbing_shallow_dip'', JPos (ok_or_zero (get_map_nb_playing_live now GENTLE_BREEZE_UID) d))]"

definition update_global_overview :: "float_env \<Rightarrow> nat \<Rightarrow> ('z lb_db_scheme, db_error, json) db_action" where
  "update_global_overview env now =
     and_then (fetch (\<lambda>d. sum_stats env (counted_stats d))) (\<lambda>rjf.
     and_then (fetch (\<lambda>d. Inr (overview_of now rjf d))) (\<lambda>new_overview.
     and_then (execute (\<lambda>d. d\<lparr>cached_json :=
         upsert_by (\<lambda>r. fst r = ''global_overview'') (''global_overview'', new_overview) (cached_json d)\<rparr>)) (\<lambda>_.
     Ok new_overview)))"

text \<open>One turn of the program's loop: an error is logged, and the loop goes on.\<close>

definition overview_turn :: "float_env \<Rightarrow> nat \<Rightarrow> 'z lb_db_scheme \<Rightarrow> 'z lb_db_scheme" where
  "overview_turn env now d = snd (update_global_overview env now d)"

section \<open>What is published\<close>

lemma update_global_overview_run:
  "update_global_overview env now d =
     (case sum_stats env (counted_stats d) of
        Inl e \<Rightarrow> (Inl e, d)
      | Inr rjf \<Rightarrow> (Inr (overview_of now rjf d), d\<lparr>cached_json := upsert_by (\<lambda>r. fst r = ''global_overview'')
            (''global_overview'', overview_of now rjf d) (cached_json d)\<rparr>))"
  by (simp add: update_global_overview_def and_then_def fetch_def execute_def split: sum.split)

lemma upserted_key: "map_of (upsert_by (\<lambda>r. fst r = k) (k, v) xs) k = Some v"
  by (induction xs) (auto simp: upsert_by_def)

text \<open>What a turn computed is what the site and the server send from then on.\<close>

lemma overview_served:
  assumes "update_global_overview fl now d = (Inr j, d')"
  shows "fst (get_global_overview d') = Inr j"
    and "fst (handle_get_global_overview env d') = Inr (BodyJson j)"
proof -
  show "fst (get_global_overview d') = Inr j"
    using assms by (auto simp: update_global_overview_run get_global_overview_def fetch_def upserted_key
        ok_or_def split: sum.splits)
  then show "fst (handle_get_global_overview env d') = Inr (BodyJson j)"
    by (cases "get_global_overview d'")
      (simp add: handle_get_global_overview_def or_reject_def map_err_def and_then_def)
qed

text \<open>A turn that fails, by an overflow of the heights, leaves the last overview in place.\<close>

lemma overview_failure_keeps:
  "fst (update_global_overview env now d) = Inl e \<Longrightarrow> overview_turn env now d = d"
  by (auto simp: overview_turn_def update_global_overview_run split: sum.splits)

text \<open>A turn touches the other cached documents and tables in no way.\<close>

lemma overview_turn_frame: "(overview_turn env now d)\<lparr>cached_json := cached_json d\<rparr> = d"
  by (auto simp: overview_turn_def update_global_overview_run split: sum.split)

text \<open>The totals do not depend on what shadow-banned players did.\<close>

lemma overview_ignores_banned:
  assumes "user \<in> set (shadow_bans d)"
  shows "sum_stats env (counted_stats (d\<lparr>user_stats := user_stats d @ [s\<lparr>su_user_id := user\<rparr>]\<rparr>)) =
    sum_stats env (counted_stats d)"
  using assms by (simp add: counted_stats_def)

end
