(* ===== verification/Spec2Isabelle.thy ===== *)
theory Spec2Isabelle
  imports Contexts Binding_Properties Minigames Collectibles Hat_Session Map_Locks Spec_Tasks
    Nadeo_Client Moderation_Logins Connection_Properties Verifiers Public_Api Lifecycle Overview
begin

text \<open>
  A model of the Deep Dip 2 server, the Rust program \<open>dd2-server2\<close>: \<open>src/src/server2.rs\<close> and the
  modules it uses.  A Trackmania plugin connects over TCP, logs in, reports where its player is and
  what they do, and asks for leaderboards and lists.  Beside the Deep Dip map itself the server runs
  \<^emph>\<open>Wayfinder\<close> maps: a mapper saves a \<^emph>\<open>spec\<close> (a JSON document with minigames, collectibles and
  hats), a map is \<^emph>\<open>bound\<close> to a spec, and the players of the map report attempts, pickups and
  hats against the tables the binding filled.

  \<^bold>\<open>The theories.\<close>

  \<^item> \<open>Rust_Std\<close>, \<open>Json_Value\<close>, \<open>Collections\<close>, \<open>Sqlx\<close>: what the program uses of its language and
    libraries.  Texts are lists of UTF-8 bytes, integers keep their range (wrap-around and failing
    conversions are written out), \<open>serde_json::Value\<close> is a datatype; a \<open>HashMap\<close> is an association
    list, the \<open>lru\<close> crate's cache a record of operations with the contract \<open>lru_contract\<close>, shown to
    be met by a list implementation.  A query is a function from the database state to a result or
    an error and a new state (\<open>db_action\<close>), and \<open>in_tx\<close> gives the old state back on an error.
  \<^item> \<open>Context_Flags\<close> (\<open>player.rs\<close>), \<open>Wire\<close>, \<open>Framing\<close> (\<open>router.rs\<close>): the flags packed into a
    64-bit number, the messages of the protocol with their numbers and names, the frames.
  \<^item> \<open>Rate_Limits\<close> (\<open>nadeo.rs\<close>, \<open>queries/hats.rs\<close>, \<open>server2.rs\<close>): the limiters of the lookups, of hat
    changes and unlock validations, and the schedule of comment lookups.  The locales
    \<open>fixed_window\<close> and \<open>key_spacing\<close> prove once what each kind of limiter promises.
  \<^item> \<open>Plugin_Auth\<close>, \<open>Contexts\<close> (\<open>op_auth.rs\<close>, \<open>queries/auth.rs\<close>, \<open>queries/context.rs\<close>, \<open>run_auth\<close>
    and \<open>update_context\<close> of \<open>server2.rs\<close>): logging in and resuming, sessions and their chain of
    contexts.  The database record \<open>core_db\<close> has a field per table.
  \<^item> \<open>Catalogs\<close> (\<open>parse_catalog_*\<close> of \<open>queries/minigames.rs\<close>, \<open>collectibles.rs\<close>, \<open>hats.rs\<close> and
    \<open>listing_threshold_from_spec\<close>): reading the three catalogs out of a spec; the locale
    \<open>catalog_parser\<close> is what the rest needs of a parser.
  \<^item> \<open>Wayfinder_Db\<close> (the tables, and \<open>queries/custom_map_aux_specs.rs\<close>), \<open>Binding\<close>
    (\<open>queries/listed_maps.rs\<close> and the binding functions of the three query files), \<open>Materialization\<close>
    and \<open>Binding_Properties\<close>: storing specs, binding a map by its author's report or by the comment
    published with it, and filling the tables of the map.  The record \<open>wf_db\<close> extends \<open>core_db\<close>.
  \<^item> \<open>Minigames\<close>, \<open>Collectibles\<close>, \<open>Hats\<close> (the gameplay halves of those query files and their
    handlers): attempts and leaderboards, unlocks and pickups, unlocking and wearing hats.
  \<^item> \<open>Presence\<close>, \<open>Hat_Session\<close>, \<open>Map_Locks\<close>, \<open>Spec_Tasks\<close> (\<open>server2.rs\<close>): the tracked map of a
    connection and who is told about hats; unlock validations as tasks beside the connection, with
    the answers withheld for them; the lock registry; the editor's requests.  \<open>wf_world\<close> adds the
    queues to the clients and the tracked map to \<open>wf_db\<close>, \<open>hat_session\<close> the pending validations.
  \<^item> \<open>Connection\<close> (\<open>server2.rs\<close>): the read loop of one connection, which hands each request to its
    handler, pings with their caches, what is sent at the start and by the round of \<open>top_3_loop\<close>.
    \<open>conn\<close> extends \<open>hat_session\<close> with the variables of the loop, \<open>conn_env\<close> holds who is logged in.
    \<open>Connection_Frames\<close> has what each request leaves alone, \<open>Connection_Properties\<close> the properties: its
    relation \<open>served\<close>, presence steps that leave the moderation alone, interprets the locale \<open>frame\<close> of
    \<open>Action_Wp\<close>, so a handler is shown to keep to it by composing the parts it is made of.
  \<^item> \<open>Lifecycle\<close> (\<open>server2.rs\<close>): accepting connections under the limit, the tasks of a connection with
    their channels and cancellation token, closing, panics and shutdown, as events of a \<open>server\<close>.
  \<^item> \<open>Nadeo_Client\<close>, \<open>Verifiers\<close> (\<open>nadeo.rs\<close>): retries, tokens, the comment in a map file, the check of
    a record; the two cached verifiers in front of them, as calls that take turns between waits.
  \<^item> \<open>Moderation\<close> (\<open>queries/moderation.rs\<close>), \<open>Moderation_Http\<close>, \<open>Moderation_Web\<close>
    (\<open>moderation_http.rs\<close>, \<open>tm_oauth.rs\<close> and the forced unbinding of \<open>queries/listed_maps.rs\<close>): bans of
    a map, delegates, super-moderators, the audit log, web sessions, and the pages and requests over
    them.  \<open>mod_db\<close> extends \<open>wf_db\<close> with the tables, \<open>mod_server\<close> the database with what the running
    server remembers.  \<open>Action_Wp\<close> holds weakest preconditions and frames of database actions,
    \<open>Moderation_Properties\<close>, \<open>Moderation_Runs\<close>, \<open>Moderation_Safety\<close> what each operation leaves alone,
    \<open>Moderation_Claims\<close> and \<open>Moderation_Logins\<close> the properties.  Requests are served one at a time;
    the lemma \<open>super_mods_race\<close> shows what two interleaved removals do.
  \<^item> \<open>Floats\<close>: the order PostgreSQL gives to floating point numbers, Rust's comparison, arithmetic as
    exact results handed to a rounding function, and \<open>ORDER BY ... DESC\<close> with ranks and pages.
  \<^item> \<open>Leaderboard_Db\<close> (the tables and triggers, \<open>queries/custom_maps.rs\<close>), \<open>Player_Stats\<close>
    (\<open>queries/stats.rs\<close>, \<open>queries/user_settings.rs\<close>), \<open>Leaderboards\<close> (their handlers in \<open>server2.rs\<close>,
    the pages of listed maps): heights, statistics, settings.  \<open>lb_db\<close> extends \<open>mod_db\<close>, and
    \<open>wf_world\<close> extends \<open>lb_db\<close>.  \<open>Board_Properties\<close> and \<open>Height_Properties\<close> are about what the boards show
    and how reports change them.  \<open>Donations\<close> (\<open>donations.rs\<close>) and \<open>Async_Cache\<close> (\<open>cache_util.rs\<close>).
  \<^item> \<open>Public_Api\<close> (\<open>http.rs\<close>, \<open>queries/api.rs\<close>): the routes that need no login, their handlers and
    caches, over \<open>api_server\<close>, which extends \<open>lb_db\<close>.  \<open>Overview\<close> (\<open>queries/stats.rs\<close>, \<open>server.rs\<close>):
    the overview document that is published every seven seconds.
  \<^item> \<open>Sample_World\<close>, \<open>Sample_Tables\<close>: the concrete database the witnesses start from.

  \<^bold>\<open>What is shown.\<close>  The invariant \<open>mat_inv\<close> ties the tables of a map to its binding and is kept by
  every operation on specs and bindings; with it, a report that resolves its binding finds the
  tables as the spec says, only a proof of authorship or an existing verified binding lets a report
  bind, saving a spec suspends its maps and never fails on a uniqueness constraint.  Personal bests
  are the summary of the attempt log, and the two rank queries agree.  Progress on collectibles
  agrees with the pickup log and is never lost.  A hat is granted only on confirmed conditions of the
  hat as it is when the grant commits; worn hats are owned.  Over a whole connection: no hat stays
  behind on a map the player left (\<open>presence_step\<close>), after an unlock is reported, with no
  older list on its way, the list of hats is sent only once nothing is pending for the map and is read
  after that, and where it was withheld it is sent in the end (\<open>session_step\<close>, \<open>task_step\<close>); a list
  already on its way can still overtake an unlock (\<open>hats_mine_race\<close>).  The registry of weak locks refines one mutex per map.  The limiters keep their budgets for any sequence of calls.
  Frames, sessions, served specs and published comments survive their round trips.  In every run of
  moderation requests a change of bans, delegates or moderators has an audit entry of someone who
  was in charge of the map, delegates are never banned where they moderate, and the last
  super-moderator stays; a web session begins with a completed login, ends with the logout, and an
  OAuth state is used once.

  Whatever a player sends, the read loop takes only steps of the presence model, never changes the
  moderation, and unwinds on three kinds of request exactly.  Each permit of the connection limit is
  free or held once, nothing is sent before the login is answered, and a connection that starts to
  close ends as soon as its handler and its write return; a write that stalls keeps the permit
  (\<open>stalled_write_keeps_permit\<close>).  The boards of heights and of live players hide shadow-banned and
  map-banned players, those of minigames the shadow-banned only; one player's rank is the row of
  the board, a board holds the best report of each player, a map is listed when its threshold is
  reached, and as long as no fetch fails the totals of the donors are the sums of their donations.  At most one call per key
  asks Nadeo at a time, and a verifier's answer is as fresh as it promises.  The public site, the
  moderators' routes apart, changes nothing but its own caches, pings and hit counters; its pages of the
  Deep Dip board lose the last player when the board fills two or more of them, and the overview served is the one last published.

  \<^bold>\<open>Conventions.\<close>  UUID parsing and printing, MD5, the hash of a spec, JSON and hexadecimal decoding,
  HTTP and the answers of Nadeo are parameters (\<open>wf_env\<close> and arguments).  Times of the database are in
  microseconds, \<open>Instant\<close>s and durations in nanoseconds.  \<open>ORDER BY\<close> on texts compares a key of
  \<open>wf_env\<close>, the database's collation; ties keep the order of the table.  The sequences that number
  rows are rolled back with a transaction, which PostgreSQL does not do.  A lookup with a text that
  contains NUL finds nothing, where PostgreSQL reports an error.  A uid column holds 27 bytes, which
  the callers check.  Arithmetic is that of a release build.  A key of a minigame keeps its
  direction, which does not depend on its kind.  Concurrency is interleaving of the operations as
  the locks allow it: each transaction is one step.  \<open>Hat_Session\<close>, \<open>Verifiers\<close>, \<open>Map_Locks\<close> and \<open>Lifecycle\<close> take the
  stretches of a task between its waits as steps; elsewhere a request is served at one reading of the
  clocks, and its queries, where they are not one transaction, find the tables as the ones before left
  them.  A query fails for what it is asked, not because the database is out of reach.
  \<open>Presence\<close> takes one connection per user.  The only loops with a bound in their definition are
  the retry loop (three attempts) and the rechecks of a recent record (three attempts), and both bounds
  are the code's own.  In \<open>Lifecycle\<close> an event is one task passing one await point, a write to the
  socket happens or fails as a whole, and \<open>sn_panic_stops\<close> says whether a panic of a subsystem shuts
  the program down, which is the default of the library.

  \<^bold>\<open>Not modelled.\<close>  Sockets, TLS and certificates, the start of the programs with their configuration
  and logging, the clocks of the timers, and how warp prints a rejection; fetching donations from the
  two web sites; the HTML of the moderation pages beyond the data they show; the reports for
  administrators in \<open>queries/stats.rs\<close> and the program \<open>dd2-clean-db\<close>, which writes files for offline
  use and deletes accounts by hand-written lists; the queries for clips and the connection manager
  in \<open>server_conn_mgr.rs\<close>, which nothing uses; the accept loop of \<open>server.rs\<close>, which is commented out:
  plain input and output, or code that does not run.
\<close>

end
